(* ===== verification/Prelude.thy ===== *)
theory Prelude
  imports Main "HOL-Library.Char_ord" "HOL-Library.List_Lexorder"
begin

text \<open>
  Shared vocabulary of the development: the parts of the Go language and standard library
  the swarm sources use everywhere (byte strings and the \<open>strings\<close> package, decimal and
  hexadecimal printing, wall-clock times), and the generic lemmas on lists, association lists
  and number bases that the components share.

  A Go string is a list of bytes, here \<^typ>\<open>string\<close> (a \<^typ>\<open>char\<close> is one byte).
  Case mapping and white space follow the ASCII tables: bytes from 128 on are left alone, which is
  what \<open>strings.ToLower\<close> and \<open>strings.TrimSpace\<close> do on ASCII text; the Unicode case
  tables are not modelled.  A \<open>time.Time\<close> is an \<^typ>\<open>int\<close>, the nanoseconds since the
  Unix epoch, so \<open>UTC()\<close> is the identity.
\<close>

named_theorems go_str \<open>facts on the model of the strings package\<close>
named_theorems go_eval \<open>definitions unfolded to evaluate the model on closed inputs\<close>

type_synonym gotime = int
type_synonym goduration = int

section \<open>Bytes and character classes\<close>

definition code :: "char \<Rightarrow> nat" where
  "code c = of_char c"

definition is_lower :: "char \<Rightarrow> bool" where
  "is_lower c \<longleftrightarrow> 97 \<le> code c \<and> code c \<le> 122"

definition is_upper :: "char \<Rightarrow> bool" where
  "is_upper c \<longleftrightarrow> 65 \<le> code c \<and> code c \<le> 90"

definition is_digit :: "char \<Rightarrow> bool" where
  "is_digit c \<longleftrightarrow> 48 \<le> code c \<and> code c \<le> 57"

definition is_space :: "char \<Rightarrow> bool" where
  "is_space c \<longleftrightarrow> code c = 32 \<or> (9 \<le> code c \<and> code c \<le> 13)"

lemmas char_class_defs [go_eval] = is_lower_def is_upper_def is_digit_def is_space_def

declare code_def [go_eval]

lemma code_less_256 [simp]: "code c < 256"
  by (simp add: code_def)

lemma code_inject [simp]: "code c = code d \<longleftrightarrow> c = d"
  by (simp add: code_def)

lemma code_char_of [simp]: "code (char_of n) = n mod 256"
  by (simp add: code_def)

lemma char_of_code [simp]: "char_of (code c) = c"
  by (simp add: code_def)

lemma less_char_code: "c < d \<longleftrightarrow> code c < code d"
  by (simp add: code_def less_char_def)

section \<open>The strings package\<close>

definition lower_char :: "char \<Rightarrow> char" where
  "lower_char c = (if is_upper c then char_of (code c + 32) else c)"

definition to_lower :: "string \<Rightarrow> string" where
  "to_lower = map lower_char"

definition trim_space :: "string \<Rightarrow> string" where
  "trim_space s = rev (dropWhile is_space (rev (dropWhile is_space s)))"

definition equal_fold :: "string \<Rightarrow> string \<Rightarrow> bool" where
  "equal_fold s t \<longleftrightarrow> to_lower s = to_lower t"

definition has_prefix :: "string \<Rightarrow> string \<Rightarrow> bool" where
  "has_prefix p s \<longleftrightarrow> take (length p) s = p"

definition trim_prefix :: "string \<Rightarrow> string \<Rightarrow> string" where
  "trim_prefix p s = (if has_prefix p s then drop (length p) s else s)"

definition has_suffix :: "string \<Rightarrow> string \<Rightarrow> bool" where
  "has_suffix p s \<longleftrightarrow> has_prefix (rev p) (rev s)"

definition trim_suffix :: "string \<Rightarrow> string \<Rightarrow> string" where
  "trim_suffix p s = (if has_suffix p s then take (length s - length p) s else s)"

definition trim_right :: "char \<Rightarrow> string \<Rightarrow> string" where
  "trim_right c s = rev (dropWhile (\<lambda>d. d = c) (rev s))"

definition trim_both :: "char \<Rightarrow> string \<Rightarrow> string" where
  "trim_both c s = trim_right c (dropWhile (\<lambda>d. d = c) s)"

definition cut_at :: "char \<Rightarrow> string \<Rightarrow> string \<times> string option" where
  \<comment> \<open>the part before the first separator, and what follows it when there is one
      (\<open>strings.SplitN(s, sep, 2)\<close>)\<close>
  "cut_at c s = (takeWhile (\<lambda>d. d \<noteq> c) s,
     (case dropWhile (\<lambda>d. d \<noteq> c) s of [] \<Rightarrow> None | _ # r \<Rightarrow> Some r))"

fun split_on :: "char \<Rightarrow> string \<Rightarrow> string list" where
  \<comment> \<open>\<open>strings.Split\<close> with a one-byte separator: never empty\<close>
  "split_on c [] = [[]]"
| "split_on c (d # s) =
     (if d = c then [] # split_on c s
      else (case split_on c s of [] \<Rightarrow> [[d]] | p # ps \<Rightarrow> (d # p) # ps))"

fun join_with :: "string \<Rightarrow> string list \<Rightarrow> string" where
  "join_with sep [] = []"
| "join_with sep [p] = p"
| "join_with sep (p # q # ps) = p @ sep @ join_with sep (q # ps)"

fun replace_all :: "string \<Rightarrow> string \<Rightarrow> string \<Rightarrow> string" where
  \<comment> \<open>\<open>strings.ReplaceAll(s, old, new)\<close> for a non-empty \<open>old\<close>, left to right\<close>
  "replace_all pat new [] = []"
| "replace_all pat new (c # s) =
     (if pat \<noteq> [] \<and> has_prefix pat (c # s)
      then new @ replace_all pat new (drop (length pat - 1) s)
      else c # replace_all pat new s)"

lemmas string_defs [go_eval] =
  lower_char_def to_lower_def trim_space_def equal_fold_def has_prefix_def trim_prefix_def
  has_suffix_def trim_suffix_def trim_right_def trim_both_def cut_at_def
  append_Cons append_Nil

lemma code_lower_char: "code (lower_char c) = (if is_upper c then code c + 32 else code c)"
  by (simp add: lower_char_def is_upper_def)

lemma lower_char_not_upper: "\<not> is_upper (lower_char c)"
  by (auto simp: is_upper_def code_lower_char split: if_splits)

lemma lower_char_idem [simp, go_str]: "lower_char (lower_char c) = lower_char c"
  using lower_char_not_upper[of c] by (simp add: lower_char_def[of "lower_char c"])

lemma to_lower_idem [simp, go_str]: "to_lower (to_lower s) = to_lower s"
  by (simp add: to_lower_def)

lemma length_to_lower [simp]: "length (to_lower s) = length s"
  by (simp add: to_lower_def)

lemma to_lower_Nil_iff [simp]: "to_lower s = [] \<longleftrightarrow> s = []"
  by (simp add: to_lower_def)

lemma to_lower_Nil [simp]: "to_lower [] = []"
  by (simp add: to_lower_def)

lemma to_lower_append [simp]: "to_lower (s @ t) = to_lower s @ to_lower t"
  by (simp add: to_lower_def)

lemma is_space_lower_char [simp]: "is_space (lower_char c) = is_space c"
  by (auto simp: is_space_def code_lower_char is_upper_def)

lemma dropWhile_space_lower: "dropWhile is_space (to_lower s) = to_lower (dropWhile is_space s)"
  by (induction s) (auto simp: to_lower_def)

lemma trim_space_to_lower [go_str]: "trim_space (to_lower s) = to_lower (trim_space s)"
  by (simp add: trim_space_def dropWhile_space_lower flip: rev_map)
    (simp add: to_lower_def rev_map dropWhile_space_lower[unfolded to_lower_def])

lemma dropWhile_snoc: "\<not> P x \<Longrightarrow> dropWhile P (xs @ [x]) = dropWhile P xs @ [x]"
  by (induction xs) auto

lemma dropWhile_idem: "dropWhile P (dropWhile P xs) = dropWhile P xs"
  by (induction xs) auto

lemma dropWhile_fixed_iff: "dropWhile P xs = xs \<longleftrightarrow> xs = [] \<or> \<not> P (hd xs)"
  by (induction xs) (auto simp: dropWhile_eq_Cons_conv)

lemma trim_space_fixed:
  assumes "s = [] \<or> \<not> is_space (hd s) \<and> \<not> is_space (last s)"
  shows "trim_space s = s"
  using assms by (cases "s = []") (auto simp: trim_space_def dropWhile_fixed_iff[THEN iffD2] hd_rev)

lemma trim_space_ends:
  assumes "trim_space s \<noteq> []"
  shows "\<not> is_space (hd (trim_space s))" and "\<not> is_space (last (trim_space s))"
proof -
  define u where "u = dropWhile is_space s"
  define v where "v = dropWhile is_space (rev u)"
  have t: "trim_space s = rev v" by (simp add: trim_space_def u_def v_def)
  with assms have v: "v \<noteq> []" by simp
  then have "\<not> is_space (hd v)" unfolding v_def by (rule hd_dropWhile)
  with t v show "\<not> is_space (last (trim_space s))" by (simp add: last_rev)
  obtain w where w: "rev u = w @ v" unfolding v_def by (metis takeWhile_dropWhile_id)
  then have u: "u = rev v @ rev w" by (metis rev_append rev_rev_ident)
  with v have "u \<noteq> []" "hd u = hd (rev v)" by auto
  moreover from \<open>u \<noteq> []\<close> have "\<not> is_space (hd u)" unfolding u_def by (rule hd_dropWhile)
  ultimately show "\<not> is_space (hd (trim_space s))" using t by simp
qed

lemma trim_space_idem [simp, go_str]: "trim_space (trim_space s) = trim_space s"
  by (rule trim_space_fixed) (auto dest: trim_space_ends)

lemma equal_fold_refl [simp, go_str]: "equal_fold s s"
  by (simp add: equal_fold_def)

lemma equal_fold_sym: "equal_fold s t \<Longrightarrow> equal_fold t s"
  by (simp add: equal_fold_def)

lemma equal_fold_trans: "equal_fold s t \<Longrightarrow> equal_fold t u \<Longrightarrow> equal_fold s u"
  by (simp add: equal_fold_def)

lemma has_prefix_append [simp, go_str]: "has_prefix p (p @ s)"
  by (simp add: has_prefix_def)

lemma trim_prefix_append [simp, go_str]: "trim_prefix p (p @ s) = s"
  by (simp add: trim_prefix_def)

lemma has_prefixE: "has_prefix p s \<Longrightarrow> \<exists>r. s = p @ r"
  unfolding has_prefix_def by (metis append_take_drop_id)

lemma cut_at_append [simp, go_str]:
  "c \<notin> set s \<Longrightarrow> cut_at c (s @ c # t) = (s, Some t)"
  by (simp add: cut_at_def takeWhile_tail dropWhile_append3 takeWhile_append dropWhile_append)

lemma cut_at_none [simp, go_str]: "c \<notin> set s \<Longrightarrow> cut_at c s = (s, None)"
proof -
  assume "c \<notin> set s"
  then have "\<forall>x \<in> set s. x \<noteq> c" by auto
  then have tw: "takeWhile (\<lambda>d. d \<noteq> c) s = s" and dw: "dropWhile (\<lambda>d. d \<noteq> c) s = []"
    by (simp_all add: takeWhile_eq_all_conv dropWhile_eq_Nil_conv)
  show ?thesis by (simp only: cut_at_def tw dw list.case)
qed

lemma split_on_not_Nil [simp, go_str]: "split_on c s \<noteq> []"
  by (induction c s rule: split_on.induct) (auto split: list.splits)

lemma split_on_no_sep [simp, go_str]: "c \<notin> set s \<Longrightarrow> split_on c s = [s]"
  by (induction c s rule: split_on.induct) auto

lemma split_on_append [go_str]: "c \<notin> set s \<Longrightarrow> split_on c (s @ c # t) = s # split_on c t"
  by (induction s) auto

section \<open>Decimal and hexadecimal numerals\<close>

fun dec_nat :: "nat \<Rightarrow> string" where
  "dec_nat n = (if n < 10 then [char_of (48 + n)] else dec_nat (n div 10) @ [char_of (48 + n mod 10)])"

declare dec_nat.simps [simp del]

definition dec_int :: "int \<Rightarrow> string" where
  "dec_int i = (if i < 0 then CHR ''-'' # dec_nat (nat (- i)) else dec_nat (nat i))"

definition digits_val :: "string \<Rightarrow> nat" where
  "digits_val s = foldl (\<lambda>a c. 10 * a + (code c - 48)) 0 s"

lemma digits_val_snoc: "digits_val (s @ [c]) = 10 * digits_val s + (code c - 48)"
  by (simp add: digits_val_def)

lemma dec_nat_digits: "list_all is_digit (dec_nat n)"
proof (induction n rule: dec_nat.induct)
  case (1 n)
  have d: "is_digit (char_of (48 + m))" if "m < 10" for m :: nat using that by (simp add: is_digit_def)
  from 1 show ?case by (subst dec_nat.simps) (simp add: d del: char_of_eq_iff)
qed

lemma dec_nat_not_Nil [simp]: "dec_nat n \<noteq> []"
  by (subst dec_nat.simps) simp

lemma digits_val_dec_nat [simp]: "digits_val (dec_nat n) = n"
proof (induction n rule: dec_nat.induct)
  case (1 n)
  show ?case
  proof (cases "n < 10")
    case True
    then show ?thesis by (subst dec_nat.simps) (simp add: digits_val_def)
  next
    case False
    with 1 show ?thesis by (subst dec_nat.simps) (simp add: digits_val_snoc)
  qed
qed

lemma dec_nat_inject [simp]: "dec_nat m = dec_nat n \<longleftrightarrow> m = n"
  by (metis digits_val_dec_nat)

definition int64_max :: int where "int64_max = 9223372036854775807"

fun skip_space_line :: "string \<Rightarrow> string option" where
  \<comment> \<open>\<open>SkipSpace\<close> of \<open>Sscanf\<close>: a newline in the input is an error\<close>
  "skip_space_line [] = Some []"
| "skip_space_line (c # s) =
     (if code c = 10 then None else if is_space c then skip_space_line s else Some (c # s))"

definition scan_int :: "string \<Rightarrow> int option" where
  \<comment> \<open>\<open>fmt.Sscanf(s, "%d", &v)\<close> into an int64: leading blanks, a sign, the longest run of digits;
      whatever follows the digits is ignored\<close>
  "scan_int s = (case skip_space_line s of None \<Rightarrow> None
     | Some u \<Rightarrow>
        (let (neg, v) = (case u of [] \<Rightarrow> (False, [])
               | c # r \<Rightarrow> if c = CHR ''-'' then (True, r) else if c = CHR ''+'' then (False, r)
                          else (False, c # r));
             ds = takeWhile is_digit v;
             n = int (digits_val ds)
         in if ds = [] then None
            else if neg then (if n \<le> int64_max + 1 then Some (- n) else None)
            else (if n \<le> int64_max then Some n else None)))"

lemma takeWhile_digits_dec [simp]:
  "takeWhile is_digit (dec_nat n) = dec_nat n"
  using dec_nat_digits[of n] by (simp add: takeWhile_eq_all_conv list_all_iff)

lemma digit_not_sign: "is_digit c \<Longrightarrow> c \<noteq> CHR ''-'' \<and> c \<noteq> CHR ''+'' \<and> \<not> is_space c \<and> code c \<noteq> 10"
  by (auto simp: is_digit_def is_space_def code_def)

lemma dec_nat_Cons: obtains c r where "dec_nat n = c # r" "is_digit c"
  using dec_nat_digits[of n] by (cases "dec_nat n") auto

lemma dec_int_inject [simp]: "dec_int i = dec_int k \<longleftrightarrow> i = k"
proof
  assume a: "dec_int i = dec_int k"
  obtain c r where c: "dec_nat (nat i) = c # r" "is_digit c" by (rule dec_nat_Cons)
  obtain d s where d: "dec_nat (nat k) = d # s" "is_digit d" by (rule dec_nat_Cons)
  have s: "c \<noteq> CHR ''-''" "d \<noteq> CHR ''-''" using digit_not_sign c(2) d(2) by blast+
  show "i = k"
  proof (cases "i < 0 \<longleftrightarrow> k < 0")
    case True
    with a have "nat (- i) = nat (- k) \<and> i < 0 \<and> k < 0 \<or> nat i = nat k \<and> \<not> i < 0 \<and> \<not> k < 0"
      by (auto simp: dec_int_def split: if_splits)
    then show ?thesis by linarith
  next
    case False
    with a c d s show ?thesis by (auto simp: dec_int_def split: if_splits)
  qed
qed simp

lemma scan_int_dec_int:
  assumes "0 \<le> i" "i \<le> int64_max"
  shows "scan_int (dec_int i) = Some i"
proof -
  obtain c r where cr: "dec_nat (nat i) = c # r" "is_digit c" by (rule dec_nat_Cons)
  have "takeWhile is_digit (c # r) = c # r" "digits_val (c # r) = nat i"
    using cr by (metis takeWhile_digits_dec, metis digits_val_dec_nat)
  moreover from cr(1) assms have "dec_int i = c # r" by (simp add: dec_int_def)
  moreover have "int (nat i) \<le> int64_max" "int (nat i) = i" using assms by simp_all
  ultimately show ?thesis using digit_not_sign[OF cr(2)]
    by (simp add: scan_int_def Let_def del: takeWhile.simps takeWhile_eq_all_conv)
qed

definition hex_digit :: "nat \<Rightarrow> char" where
  "hex_digit n = (if n < 10 then char_of (48 + n) else char_of (87 + n))"

definition hex_encode :: "string \<Rightarrow> string" where
  "hex_encode s = concat (map (\<lambda>c. [hex_digit (code c div 16), hex_digit (code c mod 16)]) s)"

lemma length_hex_encode [simp]: "length (hex_encode s) = 2 * length s"
  by (simp add: hex_encode_def length_concat comp_def sum_list_triv)

lemma hex_digit_inj: "m < 16 \<Longrightarrow> n < 16 \<Longrightarrow> hex_digit m = hex_digit n \<Longrightarrow> m = n"
  by (drule arg_cong[where f = code]) (auto simp: hex_digit_def split: if_splits)

lemma hex_encode_inject [simp]: "hex_encode s = hex_encode t \<longleftrightarrow> s = t"
proof (induction s arbitrary: t)
  case Nil
  then show ?case by (cases t) (auto simp: hex_encode_def)
next
  case (Cons c s)
  have "c = d" if "hex_digit (code c div 16) = hex_digit (code d div 16)"
    "hex_digit (code c mod 16) = hex_digit (code d mod 16)" for d
  proof -
    have "code c div 16 = code d div 16" using that(1) code_less_256[of c] code_less_256[of d]
      by (intro hex_digit_inj) linarith+
    moreover have "code c mod 16 = code d mod 16" using that(2) by (intro hex_digit_inj) auto
    ultimately show ?thesis by (metis code_inject div_mod_decomp)
  qed
  with Cons show ?case by (cases t) (auto simp: hex_encode_def)
qed

section \<open>Clocks\<close>

definition unix_sec :: "gotime \<Rightarrow> int" where
  "unix_sec t = t div 1000000000"

definition unix_milli :: "gotime \<Rightarrow> int" where
  "unix_milli t = t div 1000000"

definition seconds :: "int \<Rightarrow> goduration" where
  "seconds n = n * 1000000000"

definition hours :: "int \<Rightarrow> goduration" where
  "hours n = seconds (n * 3600)"

lemmas clock_defs [go_eval] = unix_sec_def unix_milli_def seconds_def hours_def

lemma unix_sec_mono: "s \<le> t \<Longrightarrow> unix_sec s \<le> unix_sec t"
  by (simp add: unix_sec_def zdiv_mono1)

lemma unix_sec_add_seconds [simp]: "unix_sec (t + seconds n) = unix_sec t + n"
  by (simp add: unix_sec_def seconds_def)

section \<open>Numbers in a base and lexicographic order\<close>

definition base_val :: "nat \<Rightarrow> nat list \<Rightarrow> nat" where
  "base_val b ds = foldl (\<lambda>a d. b * a + d) 0 ds"

lemma base_val_Cons: "base_val b (d # ds) = d * b ^ length ds + base_val b ds"
proof (induction ds rule: rev_induct)
  case Nil
  then show ?case by (simp add: base_val_def)
next
  case (snoc e ds)
  then have "base_val b ((d # ds) @ [e]) = b * (d * b ^ length ds + base_val b ds) + e"
    by (simp add: base_val_def)
  then show ?case by (simp add: base_val_def algebra_simps)
qed

lemma base_val_Nil [simp]: "base_val b [] = 0"
  by (simp add: base_val_def)

lemma base_val_bound: "\<forall>d \<in> set ds. d < b \<Longrightarrow> base_val b ds < b ^ length ds"
proof (induction ds)
  case (Cons d ds)
  then have "d + 1 \<le> b" "base_val b ds + 1 \<le> b ^ length ds" by auto
  then have "(d + 1) * b ^ length ds \<le> b * b ^ length ds" by (intro mult_le_mono1)
  with Cons show ?case by (simp add: base_val_Cons)
qed simp

lemma base_val_less_iff:
  assumes "length xs = length ys" "\<forall>d \<in> set xs. d < b" "\<forall>d \<in> set ys. d < b"
  shows "base_val b xs < base_val b ys \<longleftrightarrow> xs < ys"
  using assms
proof (induction xs ys rule: list_induct2)
  case (Cons x xs y ys)
  have bx: "base_val b xs < b ^ length ys" and by': "base_val b ys < b ^ length ys"
    using base_val_bound[of xs b] base_val_bound[of ys b] Cons by auto
  consider "x < y" | "x = y" | "y < x" by linarith
  then show ?case
  proof cases
    case 1
    then have "(x + 1) * b ^ length ys \<le> y * b ^ length ys" by (intro mult_le_mono1) simp
    with bx 1 Cons show ?thesis by (simp add: base_val_Cons)
  next
    case 2
    with Cons show ?thesis by (simp add: base_val_Cons)
  next
    case 3
    then have "(y + 1) * b ^ length ys \<le> x * b ^ length ys" by (intro mult_le_mono1) simp
    with by' 3 Cons show ?thesis by (simp add: base_val_Cons)
  qed
qed simp

lemma map_strict_mono_less_iff:
  fixes f :: "'a :: linorder \<Rightarrow> 'b :: linorder"
  assumes "length xs = length ys"
    and "\<And>x y. x \<in> set xs \<union> set ys \<Longrightarrow> y \<in> set xs \<union> set ys \<Longrightarrow> f x < f y \<longleftrightarrow> x < y"
  shows "map f xs < map f ys \<longleftrightarrow> xs < ys"
  using assms
proof (induction xs ys rule: list_induct2)
  case (Cons x xs y ys)
  have "f x < f y \<longleftrightarrow> x < y" "f y < f x \<longleftrightarrow> y < x" using Cons.prems by auto
  then have "f x = f y \<longleftrightarrow> x = y" by (metis less_irrefl linorder_less_linear)
  with Cons \<open>f x < f y \<longleftrightarrow> x < y\<close> show ?case by simp
qed simp

section \<open>Association lists\<close>

declare map_of_eq_Some_iff [simp del] Some_eq_map_of_iff [simp del]

fun al_put :: "'k \<Rightarrow> 'v \<Rightarrow> ('k \<times> 'v) list \<Rightarrow> ('k \<times> 'v) list" where
  \<comment> \<open>\<open>m[k] = v\<close> on a Go map kept as an association list\<close>
  "al_put k v [] = [(k, v)]"
| "al_put k v ((k', v') # m) = (if k = k' then (k, v) # m else (k', v') # al_put k v m)"

definition al_del :: "'k \<Rightarrow> ('k \<times> 'v) list \<Rightarrow> ('k \<times> 'v) list" where
  \<comment> \<open>\<open>delete(m, k)\<close>\<close>
  "al_del k m = filter (\<lambda>(k', _). k' \<noteq> k) m"

lemma map_of_al_put [simp]: "map_of (al_put k v m) = (map_of m)(k \<mapsto> v)"
  by (induction k v m rule: al_put.induct) auto

lemma keys_al_put [simp]: "fst ` set (al_put k v m) = insert k (fst ` set m)"
  by (induction k v m rule: al_put.induct) auto

lemma distinct_al_put: "distinct (map fst m) \<Longrightarrow> distinct (map fst (al_put k v m))"
proof (induction k v m rule: al_put.induct)
  case (2 k v k' v' m)
  have "k' \<notin> fst ` set (al_put k v m)" if "k \<noteq> k'" using that 2(2) by auto
  with 2 show ?case by auto
qed simp

lemma map_of_al_del [simp]: "map_of (al_del k m) = (map_of m)(k := None)"
  by (induction m) (auto simp: al_del_def)

lemma distinct_al_filter: "distinct (map fst m) \<Longrightarrow> distinct (map fst (filter P m))"
  by (induction m) auto

lemma al_put_present: "map_of m k \<noteq> None \<Longrightarrow> map fst (al_put k v m) = map fst m"
  by (induction k v m rule: al_put.induct) auto

lemma map_of_filter_distinct:
  "distinct (map fst m) \<Longrightarrow>
   map_of (filter P m) k = (case map_of m k of None \<Rightarrow> None | Some v \<Rightarrow> if P (k, v) then Some v else None)"
proof (induction m)
  case (Cons kv m)
  have "map_of m (fst kv) = None" using Cons.prems by (simp add: map_of_eq_None_iff)
  with Cons show ?case by (cases kv) (auto split: option.splits)
qed simp

end
