(* ===== verification/Slugs.thy ===== *)
theory Slugs
  imports Prelude
begin

text \<open>
  DNS-safe identifiers.  Three validators and two producers of slugs live in different Go
  modules: the regular expression \<open>slugRegex\<close> of the web servers
  (\<open>web/*/server/main.go\<close>) with its length guard, \<open>users.ValidApp\<close> of
  \<open>pkg/users\<close>, \<open>slugify\<close> of the operator, which derives a slug from a display name, and
  \<open>slugFromUserID\<close> of the onboarding server, which derives one from a user ID.  The lemmas show
  that the validators accept the same language and that what the producers return is accepted.
\<close>

section \<open>Regular expressions\<close>

datatype re = REps | RNone | RClass "char \<Rightarrow> bool" | RSeq re re | RAlt re re | RStar re

fun re_eps :: "re \<Rightarrow> bool" where
  "re_eps REps = True"
| "re_eps RNone = False"
| "re_eps (RClass p) = False"
| "re_eps (RSeq r q) = (re_eps r \<and> re_eps q)"
| "re_eps (RAlt r q) = (re_eps r \<or> re_eps q)"
| "re_eps (RStar r) = True"

fun re_step :: "char \<Rightarrow> re \<Rightarrow> re" where
  "re_step c REps = RNone"
| "re_step c RNone = RNone"
| "re_step c (RClass p) = (if p c then REps else RNone)"
| "re_step c (RSeq r q) =
     (let d = RSeq (re_step c r) q in if re_eps r then RAlt d (re_step c q) else d)"
| "re_step c (RAlt r q) = RAlt (re_step c r) (re_step c q)"
| "re_step c (RStar r) = RSeq (re_step c r) (RStar r)"

definition match_string :: "re \<Rightarrow> string \<Rightarrow> bool" where
  \<comment> \<open>\<open>MatchString\<close> of an expression anchored at both ends\<close>
  "match_string r s = re_eps (fold re_step s r)"

inductive in_re :: "re \<Rightarrow> string \<Rightarrow> bool" where
  in_eps: "in_re REps []"
| in_class: "p c \<Longrightarrow> in_re (RClass p) [c]"
| in_seq: "in_re r s \<Longrightarrow> in_re q t \<Longrightarrow> in_re (RSeq r q) (s @ t)"
| in_left: "in_re r s \<Longrightarrow> in_re (RAlt r q) s"
| in_right: "in_re q s \<Longrightarrow> in_re (RAlt r q) s"
| in_stop: "in_re (RStar r) []"
| in_more: "in_re r s \<Longrightarrow> in_re (RStar r) t \<Longrightarrow> in_re (RStar r) (s @ t)"

inductive_cases in_noneE: "in_re RNone s"
inductive_simps in_re_simps: "in_re REps s" "in_re RNone s" "in_re (RClass p) s"
  "in_re (RSeq r q) s" "in_re (RAlt r q) s"

lemma in_star_Cons:
  "in_re (RStar r) (c # s) \<longleftrightarrow> (\<exists>u v. s = u @ v \<and> in_re r (c # u) \<and> in_re (RStar r) v)"
proof
  assume "in_re (RStar r) (c # s)"
  then show "\<exists>u v. s = u @ v \<and> in_re r (c # u) \<and> in_re (RStar r) v"
    by (induction "RStar r" "c # s" arbitrary: rule: in_re.induct) (auto simp: append_eq_Cons_conv)
next
  assume "\<exists>u v. s = u @ v \<and> in_re r (c # u) \<and> in_re (RStar r) v"
  then show "in_re (RStar r) (c # s)" using in_more[of r "c # _"] by fastforce
qed

lemma re_eps_iff: "re_eps r \<longleftrightarrow> in_re r []"
  by (induction r) (auto simp: in_re_simps intro: in_stop)

lemma re_step_iff: "in_re (re_step c r) s \<longleftrightarrow> in_re r (c # s)"
proof (induction r arbitrary: s)
  case (RSeq r q)
  then show ?case
    by (auto simp: in_re_simps Let_def re_eps_iff Cons_eq_append_conv)
next
  case (RStar r)
  then show ?case by (auto simp: in_re_simps in_star_Cons)
qed (auto simp: in_re_simps)

lemma match_string_iff: "match_string r s \<longleftrightarrow> in_re r s"
  by (induction s arbitrary: r) (simp_all add: match_string_def re_eps_iff re_step_iff)

lemma in_star_class: "in_re (RStar (RClass p)) s \<longleftrightarrow> list_all p s"
  by (induction s) (auto simp: in_star_Cons in_re_simps intro: in_stop)

section \<open>The slug expression of the web servers\<close>

definition alnum :: "char \<Rightarrow> bool" where
  "alnum c \<longleftrightarrow> is_lower c \<or> is_digit c"

definition slug_char :: "char \<Rightarrow> bool" where
  "slug_char c \<longleftrightarrow> alnum c \<or> c = CHR ''-''"

definition slugRegex :: re where
  "slugRegex = RSeq (RClass alnum) (RAlt (RSeq (RStar (RClass slug_char)) (RClass alnum)) REps)"

definition slug_rejected :: "string \<Rightarrow> bool" where
  "slug_rejected slug \<longleftrightarrow> \<not> match_string slugRegex slug \<or> 63 < length slug"

definition slug_shape :: "string \<Rightarrow> bool" where
  "slug_shape s \<longleftrightarrow> s \<noteq> [] \<and> alnum (hd s) \<and> alnum (last s) \<and> list_all slug_char s"

lemma alnum_slug_char [simp]: "alnum c \<Longrightarrow> slug_char c"
  by (simp add: slug_char_def)

lemma slugRegex_iff: "match_string slugRegex s \<longleftrightarrow> slug_shape s"
proof -
  have "in_re (RSeq (RStar (RClass slug_char)) (RClass alnum)) t
      \<longleftrightarrow> t \<noteq> [] \<and> alnum (last t) \<and> list_all slug_char t" for t
    by (cases t rule: rev_cases) (auto simp: in_re_simps in_star_class)
  then have "in_re slugRegex s \<longleftrightarrow>
      (\<exists>c t. s = c # t \<and> alnum c \<and> (t = [] \<or> t \<noteq> [] \<and> alnum (last t) \<and> list_all slug_char t))"
    by (auto simp: slugRegex_def in_re_simps(4)[of "RClass alnum"] in_re_simps(3,5) in_re_simps(1))
      (metis append_Cons append_Nil)
  then show ?thesis
    by (cases s) (auto simp: match_string_iff slug_shape_def)
qed

section \<open>users.ValidApp\<close>

fun valid_app_loop :: "nat \<Rightarrow> nat \<Rightarrow> string \<Rightarrow> bool" where
  \<comment> \<open>the \<open>for i, r := range s\<close> loop: \<open>n\<close> is \<open>len(s)\<close>, a byte from 128 on is a rune no case accepts\<close>
  "valid_app_loop n i [] = True"
| "valid_app_loop n i (r # s) =
     (if is_lower r then valid_app_loop n (i + 1) s
      else if is_digit r then valid_app_loop n (i + 1) s
      else if r = CHR ''-'' \<and> i \<noteq> 0 \<and> i + 1 \<noteq> n then valid_app_loop n (i + 1) s
      else False)"

definition ValidApp :: "string \<Rightarrow> bool" where
  "ValidApp s = (if s = [] \<or> 63 < length s then False else valid_app_loop (length s) 0 s)"

lemma alnum_not_hyphen: "\<not> alnum (CHR ''-'')"
  by (simp add: alnum_def char_class_defs code_def)

lemma valid_app_loop_tail:
  "0 < i \<Longrightarrow> n = i + length s \<Longrightarrow>
   valid_app_loop n i s \<longleftrightarrow> list_all slug_char s \<and> (s \<noteq> [] \<longrightarrow> alnum (last s))"
proof (induction n i s rule: valid_app_loop.induct)
  case (2 n i r s)
  then show ?case
    by (cases "s = []") (auto simp: slug_char_def alnum_def)
qed simp

lemma ValidApp_iff: "ValidApp s \<longleftrightarrow> slug_shape s \<and> length s \<le> 63"
proof (cases s)
  case (Cons c t)
  then show ?thesis
    using valid_app_loop_tail[of 1 "length s" t]
    by (auto simp: ValidApp_def slug_shape_def slug_char_def alnum_def)
qed (simp add: ValidApp_def slug_shape_def)

text \<open>C6: the validator of \<open>pkg/users\<close> and the regular expression with the length guard that every
  web server applies to the slug of a URL accept exactly the same strings, so an app slug accepted at
  signup is never refused by a later handler, and conversely.\<close>

theorem ValidApp_agrees_with_slugRegex: "ValidApp s \<longleftrightarrow> \<not> slug_rejected s"
  by (auto simp: ValidApp_iff slug_rejected_def slugRegex_iff)

section \<open>slugify\<close>

function hyphenate :: "string \<Rightarrow> string" where
  \<comment> \<open>\<open>regexp.MustCompile(`[^a-z0-9]+`).ReplaceAllString(s, "-")\<close>\<close>
  "hyphenate [] = []"
| "hyphenate (c # s) =
     (if alnum c then c # hyphenate s
      else CHR ''-'' # hyphenate (dropWhile (\<lambda>d. \<not> alnum d) s))"
  by pat_completeness auto
termination
  by (relation "measure length") (auto simp: le_imp_less_Suc length_dropWhile_le)

function collapse :: "string \<Rightarrow> string" where
  \<comment> \<open>\<open>regexp.MustCompile(`-{2,}`).ReplaceAllString(s, "-")\<close>; a single hyphen stands for itself\<close>
  "collapse [] = []"
| "collapse (c # s) =
     (if c = CHR ''-'' then c # collapse (dropWhile (\<lambda>d. d = CHR ''-'') s) else c # collapse s)"
  by pat_completeness auto
termination
  by (relation "measure length") (auto simp: le_imp_less_Suc length_dropWhile_le)

definition slugify :: "string \<Rightarrow> string" where
  "slugify name =
     (let s = to_lower name;
          s = hyphenate s;
          s = trim_both (CHR ''-'') s;
          s = collapse s
      in s)"

fun no_double :: "string \<Rightarrow> bool" where
  "no_double (a # b # s) = (\<not> (a = CHR ''-'' \<and> b = CHR ''-'') \<and> no_double (b # s))"
| "no_double _ = True"

lemma hyphenate_chars: "list_all slug_char (hyphenate s)"
  by (induction s rule: hyphenate.induct) (auto simp: slug_char_def)

lemma hyphenate_hd: "s = [] \<or> alnum (hd s) \<Longrightarrow> hyphenate s = [] \<or> alnum (hd (hyphenate s))"
  by (cases s) auto

lemma no_double_Cons: "no_double (c # s) \<longleftrightarrow> no_double s \<and> \<not> (c = CHR ''-'' \<and> s \<noteq> [] \<and> hd s = CHR ''-'')"
  by (cases s) auto

lemma hyphenate_no_double: "no_double (hyphenate s)"
proof (induction s rule: hyphenate.induct)
  case (2 c s)
  have "dropWhile (\<lambda>d. \<not> alnum d) s = [] \<or> alnum (hd (dropWhile (\<lambda>d. \<not> alnum d) s))"
    using hd_dropWhile by blast
  then have "hyphenate (dropWhile (\<lambda>d. \<not> alnum d) s) = [] \<or>
      alnum (hd (hyphenate (dropWhile (\<lambda>d. \<not> alnum d) s)))"
    by (rule hyphenate_hd)
  with 2 show ?case using alnum_not_hyphen by (auto simp: no_double_Cons)
qed simp

lemma no_double_append1: "no_double (s @ t) \<Longrightarrow> no_double s"
  by (induction s rule: no_double.induct) auto

lemma no_double_append2: "no_double (s @ t) \<Longrightarrow> no_double t"
  by (induction s) (auto simp: no_double_Cons)

lemma collapse_fixed: "no_double s \<Longrightarrow> collapse s = s"
proof (induction s rule: collapse.induct)
  case (2 c s)
  show ?case
  proof (cases "c = CHR ''-''")
    case True
    with 2 have "dropWhile (\<lambda>d. d = CHR ''-'') s = s"
      by (auto simp: no_double_Cons dropWhile_fixed_iff)
    with 2 True show ?thesis by (simp add: no_double_Cons)
  qed (use 2 in \<open>auto simp: no_double_Cons\<close>)
qed simp

lemma trim_both_split:
  "\<exists>u v. s = u @ trim_both c s @ v \<and> set u \<subseteq> {c} \<and> set v \<subseteq> {c}"
proof -
  let ?t = "dropWhile (\<lambda>d. d = c) s"
  have "s = takeWhile (\<lambda>d. d = c) s @ ?t" by simp
  moreover have "?t = trim_right c ?t @ rev (takeWhile (\<lambda>d. d = c) (rev ?t))"
    unfolding trim_right_def by (metis rev_append rev_rev_ident takeWhile_dropWhile_id)
  ultimately show ?thesis unfolding trim_both_def
    by (intro exI[of _ "takeWhile (\<lambda>d. d = c) s"] exI[of _ "rev (takeWhile (\<lambda>d. d = c) (rev ?t))"])
      (auto dest: set_takeWhileD)
qed

lemma trim_both_ends:
  assumes "trim_both c s \<noteq> []"
  shows "hd (trim_both c s) \<noteq> c" and "last (trim_both c s) \<noteq> c"
proof -
  define t where "t = dropWhile (\<lambda>d. d = c) s"
  define v where "v = dropWhile (\<lambda>d. d = c) (rev t)"
  have e: "trim_both c s = rev v" by (simp add: trim_both_def trim_right_def t_def v_def)
  with assms have "v \<noteq> []" by simp
  then have "hd v \<noteq> c" unfolding v_def using hd_dropWhile[of "\<lambda>d. d = c"] by blast
  with e \<open>v \<noteq> []\<close> show "last (trim_both c s) \<noteq> c" by (simp add: last_rev)
  obtain w where "rev t = w @ v" unfolding v_def by (metis takeWhile_dropWhile_id)
  then have t: "t = rev v @ rev w" by (metis rev_append rev_rev_ident)
  with \<open>v \<noteq> []\<close> have "t \<noteq> []" "hd t = hd (rev v)" by auto
  moreover from \<open>t \<noteq> []\<close> have "hd t \<noteq> c"
    unfolding t_def using hd_dropWhile[of "\<lambda>d. d = c"] by blast
  ultimately show "hd (trim_both c s) \<noteq> c" using e by simp
qed

lemma slugify_no_collapse: "slugify name = trim_both (CHR ''-'') (hyphenate (to_lower name))"
proof -
  let ?h = "hyphenate (to_lower name)"
  obtain u v where "?h = u @ trim_both (CHR ''-'') ?h @ v" using trim_both_split by blast
  then have "no_double (trim_both (CHR ''-'') ?h)"
    by (metis hyphenate_no_double no_double_append1 no_double_append2)
  then show ?thesis by (simp add: slugify_def Let_def collapse_fixed)
qed

lemma slugify_chars: "list_all slug_char (slugify name)" "no_double (slugify name)"
proof -
  let ?h = "hyphenate (to_lower name)"
  obtain u v where h: "?h = u @ trim_both (CHR ''-'') ?h @ v" using trim_both_split by blast
  show "no_double (slugify name)" unfolding slugify_no_collapse
    by (metis h hyphenate_no_double no_double_append1 no_double_append2)
  have "list_all slug_char (u @ trim_both (CHR ''-'') ?h @ v)" using h hyphenate_chars by metis
  then show "list_all slug_char (slugify name)" unfolding slugify_no_collapse by simp
qed

lemma slugify_shape: "slugify name \<noteq> [] \<Longrightarrow> slug_shape (slugify name)"
proof -
  assume ne: "slugify name \<noteq> []"
  have all: "\<forall>c \<in> set (slugify name). slug_char c"
    using slugify_chars(1) by (simp add: list_all_iff)
  have "hd (slugify name) \<noteq> CHR ''-''" "last (slugify name) \<noteq> CHR ''-''"
    using ne trim_both_ends unfolding slugify_no_collapse by auto
  with ne all have "alnum (hd (slugify name))" "alnum (last (slugify name))"
    by (metis slug_char_def hd_in_set, metis slug_char_def last_in_set)
  with ne all show ?thesis by (simp add: slug_shape_def list_all_iff)
qed

lemma slug_char_not_upper: "slug_char c \<Longrightarrow> lower_char c = c"
  by (auto simp: lower_char_def slug_char_def alnum_def char_class_defs code_def)

lemma hyphenate_fixed: "list_all slug_char s \<Longrightarrow> no_double s \<Longrightarrow> hyphenate s = s"
proof (induction s rule: hyphenate.induct)
  case (2 c s)
  show ?case
  proof (cases "alnum c")
    case False
    with 2 have c: "c = CHR ''-''" by (simp add: slug_char_def)
    with 2 have "s = [] \<or> alnum (hd s)"
      by (cases s) (auto simp: no_double_Cons slug_char_def)
    then have "dropWhile (\<lambda>d. \<not> alnum d) s = s" by (auto simp: dropWhile_fixed_iff)
    with 2 False c show ?thesis by (simp add: no_double_Cons)
  qed (use 2 in \<open>simp add: no_double_Cons\<close>)
qed simp

lemma trim_both_fixed:
  "s = [] \<or> hd s \<noteq> c \<and> last s \<noteq> c \<Longrightarrow> trim_both c s = s"
  by (cases "s = []")
    (auto simp: trim_both_def trim_right_def dropWhile_fixed_iff[THEN iffD2] hd_rev)

lemma slugify_fixed:
  assumes "slug_shape s" "no_double s"
  shows "slugify s = s"
proof -
  have all: "\<forall>c \<in> set s. slug_char c" using assms by (simp add: slug_shape_def list_all_iff)
  then have "to_lower s = s" by (simp add: to_lower_def map_idI slug_char_not_upper)
  moreover have "hyphenate s = s" using assms by (simp add: hyphenate_fixed slug_shape_def)
  moreover have "trim_both (CHR ''-'') s = s"
    using assms alnum_not_hyphen by (intro trim_both_fixed) (auto simp: slug_shape_def)
  ultimately show ?thesis by (simp add: slugify_no_collapse)
qed

lemma hyphenate_alnum: "filter alnum (hyphenate s) = filter alnum s"
proof (induction s rule: hyphenate.induct)
  case (2 c s)
  have "filter alnum (takeWhile (\<lambda>d. \<not> alnum d) s) = []"
    by (auto simp: filter_empty_conv dest: set_takeWhileD)
  then have "filter alnum (dropWhile (\<lambda>d. \<not> alnum d) s) = filter alnum s"
    by (metis append_Nil filter_append takeWhile_dropWhile_id)
  with 2 show ?case using alnum_not_hyphen by auto
qed simp

lemma filter_alnum_trim: "filter alnum (trim_both (CHR ''-'') s) = filter alnum s"
proof -
  obtain u v where s: "s = u @ trim_both (CHR ''-'') s @ v"
    and "set u \<subseteq> {CHR ''-''}" "set v \<subseteq> {CHR ''-''}"
    using trim_both_split by blast
  then have "filter alnum u = []" "filter alnum v = []"
    using alnum_not_hyphen by (auto simp: filter_empty_conv)
  with arg_cong[OF s, of "filter alnum"] show ?thesis by simp
qed

lemma slugify_alnum: "filter alnum (slugify name) = filter alnum (to_lower name)"
  by (simp add: slugify_no_collapse filter_alnum_trim hyphenate_alnum)

lemma slugify_empty_iff: "slugify name = [] \<longleftrightarrow> (\<forall>c \<in> set (to_lower name). \<not> alnum c)"
proof
  assume "slugify name = []"
  then show "\<forall>c \<in> set (to_lower name). \<not> alnum c"
    using slugify_alnum[of name] by (auto simp: filter_empty_conv[symmetric] dest: sym)
next
  assume "\<forall>c \<in> set (to_lower name). \<not> alnum c"
  then have "filter alnum (slugify name) = []"
    by (simp only: slugify_alnum filter_empty_conv)
  moreover have "hd (slugify name) \<in> set (slugify name)" "alnum (hd (slugify name))"
    if "slugify name \<noteq> []" using that slugify_shape[OF that] by (auto simp: slug_shape_def)
  ultimately show "slugify name = []" by (auto simp: filter_empty_conv)
qed

text \<open>The slug the operator derives from a display name is either empty, exactly when the
  lower-cased name has no ASCII letter or digit, or a string the slug expression of the web servers
  accepts; it keeps the letters and digits of the name in order; and deriving it again changes
  nothing, so the slug is stable across reconciles.\<close>

theorem slugify_correct:
  "(slugify name = [] \<longleftrightarrow> filter alnum (to_lower name) = [])
   \<and> (slugify name = [] \<or> match_string slugRegex (slugify name))
   \<and> filter alnum (slugify name) = filter alnum (to_lower name)
   \<and> slugify (slugify name) = slugify name"
proof -
  have "slugify (slugify name) = slugify name"
    by (cases "slugify name = []")
      (simp_all add: slugify_empty_iff[of "[]"] to_lower_def slugify_fixed slugify_shape slugify_chars)
  then show ?thesis
    by (metis slugRegex_iff slugify_alnum slugify_empty_iff slugify_shape filter_empty_conv)
qed

section \<open>slugFromUserID\<close>

definition IDPrefix :: string where
  "IDPrefix = ''u_''"

definition slugFromUserID :: "string \<Rightarrow> string" where
  "slugFromUserID userID =
     (let body = trim_prefix IDPrefix userID;
          body = (if 12 < length body then take 12 body else body)
      in ''u'' @ to_lower body)"

end
