(* ===== verification/UserID.thy ===== *)
theory UserID
  imports Slugs "HOL-Library.Word"
begin

unbundle bit_operations_syntax

text \<open>
  User identifiers (\<open>pkg/users/id.go\<close>): \<open>u_\<close> followed by a 26-character ULID.  The sixteen
  bytes are 8-bit words and every 5-bit group is the source's mask-and-shift expression.
  The system clock and \<open>crypto/rand\<close> are inputs: \<open>newIDAt\<close> takes the time and the outcome
  of \<open>rand.Read\<close>, ten bytes or a failure.  The lemmas read the encoding as the base-32 numeral of
  the 128-bit big-endian value, from which injectivity and the ordering by creation time follow.
\<close>

type_synonym byte = "8 word"

definition crockford :: string where
  "crockford = ''0123456789ABCDEFGHJKMNPQRSTVWXYZ''"

definition encodeULID_groups :: "byte list \<Rightarrow> byte list" where
  "encodeULID_groups b =
    [drop_bit 5 (b ! 0 AND 224),
     b ! 0 AND 31,
     drop_bit 3 (b ! 1 AND 248),
     push_bit 2 (b ! 1 AND 7) OR drop_bit 6 (b ! 2 AND 192),
     drop_bit 1 (b ! 2 AND 62),
     push_bit 4 (b ! 2 AND 1) OR drop_bit 4 (b ! 3 AND 240),
     push_bit 1 (b ! 3 AND 15) OR drop_bit 7 (b ! 4 AND 128),
     drop_bit 2 (b ! 4 AND 124),
     push_bit 3 (b ! 4 AND 3) OR drop_bit 5 (b ! 5 AND 224),
     b ! 5 AND 31,
     drop_bit 3 (b ! 6 AND 248),
     push_bit 2 (b ! 6 AND 7) OR drop_bit 6 (b ! 7 AND 192),
     drop_bit 1 (b ! 7 AND 62),
     push_bit 4 (b ! 7 AND 1) OR drop_bit 4 (b ! 8 AND 240),
     push_bit 1 (b ! 8 AND 15) OR drop_bit 7 (b ! 9 AND 128),
     drop_bit 2 (b ! 9 AND 124),
     push_bit 3 (b ! 9 AND 3) OR drop_bit 5 (b ! 10 AND 224),
     b ! 10 AND 31,
     drop_bit 3 (b ! 11 AND 248),
     push_bit 2 (b ! 11 AND 7) OR drop_bit 6 (b ! 12 AND 192),
     drop_bit 1 (b ! 12 AND 62),
     push_bit 4 (b ! 12 AND 1) OR drop_bit 4 (b ! 13 AND 240),
     push_bit 1 (b ! 13 AND 15) OR drop_bit 7 (b ! 14 AND 128),
     drop_bit 2 (b ! 14 AND 124),
     push_bit 3 (b ! 14 AND 3) OR drop_bit 5 (b ! 15 AND 224),
     b ! 15 AND 31]"

definition encodeULID :: "byte list \<Rightarrow> string" where
  "encodeULID b = map (\<lambda>g. crockford ! unat g) (encodeULID_groups b)"

definition id_bytes :: "gotime \<Rightarrow> byte list \<Rightarrow> byte list" where
  "id_bytes t rnd =
     (let ms = (word_of_int (unix_milli t) :: 64 word) AND mask 48
      in [ucast (drop_bit 40 ms), ucast (drop_bit 32 ms), ucast (drop_bit 24 ms),
          ucast (drop_bit 16 ms), ucast (drop_bit 8 ms), ucast ms] @ rnd)"

definition newIDAt :: "gotime \<Rightarrow> byte list option \<Rightarrow> string option" where
  \<comment> \<open>\<open>None\<close>: \<open>rand.Read\<close> failed\<close>
  "newIDAt t rnd = (case rnd of None \<Rightarrow> None
     | Some bs \<Rightarrow> Some (IDPrefix @ encodeULID (id_bytes t bs)))"

section \<open>The groups as base-32 digits\<close>

lemma unat_and_mask: "unat (x AND mask n) = unat x mod 2 ^ n" for x :: "'a :: len word"
  unfolding take_bit_eq_mask[symmetric] unsigned_take_bit_eq by (rule take_bit_eq_mod)

lemma unat_group:
  fixes x m :: "'a :: len word"
  assumes "drop_bit k m = mask j"
  shows "unat (drop_bit k (x AND m)) = unat x div 2 ^ k mod 2 ^ j"
  unfolding drop_bit_and assms unat_and_mask unat_drop_bit_eq by (simp only: drop_bit_eq_div)

lemma bit_bound:
  fixes q :: byte
  assumes "unat q < 2 ^ k" "k \<le> n"
  shows "\<not> bit q n"
proof -
  have "unat q < 2 ^ n" using assms by (meson less_le_trans one_le_numeral power_increasing)
  then have "\<not> bit (unat q) n" by (simp add: bit_iff_odd)
  then show ?thesis by (simp add: bit_unsigned_iff)
qed

lemma unat_join:
  fixes p q :: byte
  assumes "unat q < 2 ^ k" "unat p < 2 ^ j" "k + j \<le> 8"
  shows "unat (push_bit k p OR q) = 2 ^ k * unat p + unat q"
proof -
  have lt: "2 ^ k * unat p + unat q < 2 ^ 8"
  proof -
    have "2 ^ k * unat p + unat q < 2 ^ k * (unat p + 1)" using assms(1) by simp
    also have "\<dots> \<le> 2 ^ k * 2 ^ j" using assms(2) by (intro mult_le_mono2) simp
    also have "\<dots> = (2::nat) ^ (k + j)" by (simp add: power_add)
    also have "\<dots> \<le> (2::nat) ^ 8" using assms(3) by (rule power_increasing) simp
    finally show ?thesis .
  qed
  have "push_bit k p AND q = 0"
  proof (rule bit_word_eqI)
    fix n
    show "bit (push_bit k p AND q) n = bit 0 n"
      using bit_bound[OF assms(1), of n] by (auto simp: bit_and_iff bit_push_bit_iff)
  qed
  then have "push_bit k p OR q = push_bit k p + q" by (simp add: disjunctive_add_eq_or)
  moreover have "unat (push_bit k p) = 2 ^ k * unat p" using lt
    unfolding unsigned_push_bit_eq by (simp add: push_bit_eq_mult take_bit_eq_mod mult.commute)
  ultimately show ?thesis using lt by (simp add: unat_word_ariths)
qed
lemma group_masks:
  "drop_bit 3 (248 :: byte) = mask 5" "drop_bit 5 (224 :: byte) = mask 3"
  "drop_bit 1 (62 :: byte) = mask 5" "drop_bit 6 (192 :: byte) = mask 2"
  "drop_bit 4 (240 :: byte) = mask 4" "drop_bit 7 (128 :: byte) = mask 1"
  "drop_bit 2 (124 :: byte) = mask 5"
  by code_simp+

lemma low_masks:
  "(31 :: byte) = mask 5" "(7 :: byte) = mask 3" "(15 :: byte) = mask 4" "(3 :: byte) = mask 2"
  "(1 :: byte) = mask 1"
  by code_simp+

lemma unat_groups:
  "unat (drop_bit 3 (x AND 248)) = unat x div 8 mod 32"
  "unat (drop_bit 5 (x AND 224)) = unat x div 32 mod 8"
  "unat (drop_bit 1 (x AND 62)) = unat x div 2 mod 32"
  "unat (drop_bit 6 (x AND 192)) = unat x div 64 mod 4"
  "unat (drop_bit 4 (x AND 240)) = unat x div 16 mod 16"
  "unat (drop_bit 7 (x AND 128)) = unat x div 128 mod 2"
  "unat (drop_bit 2 (x AND 124)) = unat x div 4 mod 32"
  for x :: byte
  unfolding group_masks[THEN unat_group] by simp_all

lemma unat_lows: "unat (x AND 31) = unat x mod 32" "unat (x AND 7) = unat x mod 8"
  "unat (x AND 15) = unat x mod 16" "unat (x AND 3) = unat x mod 4" "unat (x AND 1) = unat x mod 2"
  for x :: byte
  unfolding low_masks unat_and_mask by simp_all

lemma unat_joins:
  "unat (push_bit 2 (x AND 7) OR drop_bit 6 (y AND 192)) = 4 * (unat x mod 8) + unat y div 64 mod 4"
  "unat (push_bit 4 (x AND 1) OR drop_bit 4 (y AND 240)) = 16 * (unat x mod 2) + unat y div 16 mod 16"
  "unat (push_bit 1 (x AND 15) OR drop_bit 7 (y AND 128)) = 2 * (unat x mod 16) + unat y div 128 mod 2"
  "unat (push_bit 3 (x AND 3) OR drop_bit 5 (y AND 224)) = 8 * (unat x mod 4) + unat y div 32 mod 8"
  for x y :: byte
proof -
  have "unat (drop_bit 6 (y AND 192)) < 2 ^ 2" "unat (x AND 7) < 2 ^ 3"
    "unat (drop_bit 4 (y AND 240)) < 2 ^ 4" "unat (x AND 1) < 2 ^ 1"
    "unat (drop_bit 7 (y AND 128)) < 2 ^ 1" "unat (x AND 15) < 2 ^ 4"
    "unat (drop_bit 5 (y AND 224)) < 2 ^ 3" "unat (x AND 3) < 2 ^ 2"
    unfolding unat_groups unat_lows by simp_all
  note j = unat_join[OF this(1,2)] unat_join[OF this(3,4)] unat_join[OF this(5,6)]
    unat_join[OF this(7,8)]
  show "unat (push_bit 2 (x AND 7) OR drop_bit 6 (y AND 192)) = 4 * (unat x mod 8) + unat y div 64 mod 4"
    by (subst j(1)) (simp_all only: unat_groups unat_lows, simp_all)
  show "unat (push_bit 4 (x AND 1) OR drop_bit 4 (y AND 240)) = 16 * (unat x mod 2) + unat y div 16 mod 16"
    by (subst j(2)) (simp_all only: unat_groups unat_lows, simp_all)
  show "unat (push_bit 1 (x AND 15) OR drop_bit 7 (y AND 128)) = 2 * (unat x mod 16) + unat y div 128 mod 2"
    by (subst j(3)) (simp_all only: unat_groups unat_lows, simp_all)
  show "unat (push_bit 3 (x AND 3) OR drop_bit 5 (y AND 224)) = 8 * (unat x mod 4) + unat y div 32 mod 8"
    by (subst j(4)) (simp_all only: unat_groups unat_lows, simp_all)
qed

definition quintet :: "nat \<Rightarrow> nat \<Rightarrow> nat \<Rightarrow> nat \<Rightarrow> nat \<Rightarrow> nat list" where
  "quintet u v w x y =
    [u div 8 mod 32, 4 * (u mod 8) + v div 64 mod 4, v div 2 mod 32, 16 * (v mod 2) + w div 16 mod 16,
     2 * (w mod 16) + x div 128 mod 2, x div 4 mod 32, 8 * (x mod 4) + y div 32 mod 8, y mod 32]"

lemma quintet_digits: "\<forall>d \<in> set (quintet u v w x y). d < 32"
proof -
  have d: "c * (a mod m) + z mod n < 32" if "c * m = 32" "n \<le> c" "0 < n" for a c m n z :: nat
  proof -
    have "0 < m" using that(1) by (cases m) simp_all
    then have "a mod m + 1 \<le> m" by (simp add: Suc_le_eq)
    have "z mod n < c" using that(2,3) less_le_trans[of "z mod n" n c] by simp
    from \<open>a mod m + 1 \<le> m\<close> have "c * (a mod m + 1) \<le> c * m" by (intro mult_le_mono2)
    with \<open>z mod n < c\<close> that(1) show ?thesis by simp
  qed
  show ?thesis unfolding quintet_def
    using d[of 4 8 4] d[of 16 2 16] d[of 2 16 2] d[of 8 4 8] by simp
qed

lemma quintet_algebra:
  assumes "u = 8 * a1 + a2" "v = 64 * b1 + 2 * b2 + b3" "w = 16 * c1 + c2"
    "x = 128 * d1 + 4 * d2 + d3" "y = 32 * e1 + e2"
  shows "base_val 32 [a1, 4 * a2 + b1, b2, 16 * b3 + c1, 2 * c2 + d1, d2, 8 * d3 + e1, e2]
    = base_val 256 [u, v, w, x, y]"
  unfolding assms base_val_def by simp

lemma split_two: "v < n * m \<Longrightarrow> v = m * (v div m mod n) + v mod m" for v :: nat
  by (simp add: less_mult_imp_div_less)

lemma split_three:
  "v < k * (m * n) \<Longrightarrow> v = (m * n) * (v div (m * n) mod k) + m * (v div m mod n) + v mod m" for v :: nat
proof -
  assume "v < k * (m * n)"
  then have "v = (m * n) * (v div (m * n) mod k) + v mod (m * n)" by (rule split_two)
  also have "v mod (m * n) = m * (v div m mod n) + v mod m" by (rule mod_mult2_eq)
  finally show ?thesis by simp
qed

lemma quintet_val:
  assumes "u < 256" "v < 256" "w < 256" "x < 256" "y < 256"
  shows "base_val 32 (quintet u v w x y) = base_val 256 [u, v, w, x, y]"
  unfolding quintet_def
proof (rule quintet_algebra)
  show "u = 8 * (u div 8 mod 32) + u mod 8" using assms(1) by (intro split_two) simp
  show "v = 64 * (v div 64 mod 4) + 2 * (v div 2 mod 32) + v mod 2"
    using assms(2) split_three[of v 4 2 32] by simp
  show "w = 16 * (w div 16 mod 16) + w mod 16" using assms(3) by (intro split_two) simp
  show "x = 128 * (x div 128 mod 2) + 4 * (x div 4 mod 32) + x mod 4"
    using assms(4) split_three[of x 2 4 32] by simp
  show "y = 32 * (y div 32 mod 8) + y mod 32" using assms(5) by (intro split_two) simp
qed

lemma base_val_append: "base_val b (xs @ ys) = base_val b xs * b ^ length ys + base_val b ys"
  by (induction xs) (simp_all add: base_val_Cons power_add algebra_simps)

lemma base_val_blocks:
  assumes "base_val 32 xs = base_val 256 ys" "base_val 32 xs' = base_val 256 ys'"
    "length xs' = 8 * k" "length ys' = 5 * k"
  shows "base_val 32 (xs @ xs') = base_val 256 (ys @ ys')"
proof -
  have "(32::nat) ^ (8 * k) = 256 ^ (5 * k)"
    using power_mult[of "32::nat" 8 k] power_mult[of "256::nat" 5 k] by simp
  with assms show ?thesis by (simp add: base_val_append)
qed

definition group_vals :: "byte list \<Rightarrow> nat list" where
  "group_vals b = map unat (encodeULID_groups b)"

lemma upt_16: "[0..<16] = [0, 1, 2, 3, 4, 5, 6, 7, 8, 9, 10, 11, 12, 13, 14, 15]"
  by code_simp

lemma sixteen: "length b = 16 \<Longrightarrow>
   map f b = map (\<lambda>i. f (b ! i)) [0, 1, 2, 3, 4, 5, 6, 7, 8, 9, 10, 11, 12, 13, 14, 15]"
proof -
  assume "length b = 16"
  then have "map f b = map (\<lambda>i. f (b ! i)) [0..<16]" by (intro nth_equalityI) simp_all
  then show ?thesis unfolding upt_16 .
qed

lemma group_vals_eq:
  fixes b :: "byte list"
  defines "n \<equiv> \<lambda>i. unat (b ! i)"
  shows "group_vals b = [n 0 div 32 mod 8, n 0 mod 32]
    @ quintet (n 1) (n 2) (n 3) (n 4) (n 5) @ quintet (n 6) (n 7) (n 8) (n 9) (n 10)
    @ quintet (n 11) (n 12) (n 13) (n 14) (n 15)"
  unfolding group_vals_def encodeULID_groups_def quintet_def n_def list.map unat_joins unat_lows
    unat_groups by (simp only: append_Cons append_Nil)

lemma group_vals_less: "\<forall>d \<in> set (group_vals b). d < 32"
proof -
  have "unat (b ! 0) div 32 mod 8 < 32" "unat (b ! 0) mod 32 < 32"
    using less_trans[of "unat (b ! 0) div 32 mod 8" 8 32] by simp_all
  then show ?thesis using quintet_digits unfolding group_vals_eq set_append by fastforce
qed

lemma unat_byte [simp]: "unat (x :: byte) < 256"
  using unsigned_less[of x] by simp

lemma group_vals_value:
  assumes "length b = 16"
  shows "base_val 32 (group_vals b) = base_val 256 (map unat b)"
proof -
  have b: "map unat b = [unat (b!0)] @ [unat (b!1), unat (b!2), unat (b!3), unat (b!4), unat (b!5)]
    @ [unat (b!6), unat (b!7), unat (b!8), unat (b!9), unat (b!10)]
    @ [unat (b!11), unat (b!12), unat (b!13), unat (b!14), unat (b!15)]"
    by (subst sixteen[OF assms]) (simp only: list.map append_Cons append_Nil)
  have z: "base_val 32 [unat (b!0) div 32 mod 8, unat (b!0) mod 32] = base_val 256 [unat (b!0)]"
  proof -
    have "unat (b!0) = 32 * (unat (b!0) div 32 mod 8) + unat (b!0) mod 32"
      using unat_byte[of "b!0"] by (intro split_two) simp
    then show ?thesis unfolding base_val_def by simp
  qed
  have l: "length (quintet u v w x y) = 8" for u v w x y by (simp add: quintet_def)
  note q = quintet_val[OF unat_byte unat_byte unat_byte unat_byte unat_byte]
  show ?thesis unfolding b group_vals_eq
    by (rule base_val_blocks[OF z base_val_blocks[OF q base_val_blocks[OF q q, where k = 1],
            where k = 2], where k = 3])
      (simp_all add: l)
qed

section \<open>Injectivity and order of the encoding\<close>

lemma crockford_sorted: "sorted_wrt (<) crockford"
  unfolding crockford_def by code_simp

lemma length_crockford [simp]: "length crockford = 32"
  by (simp add: crockford_def)

lemma crockford_less_iff:
  assumes "i < 32" "j < 32"
  shows "crockford ! i < crockford ! j \<longleftrightarrow> i < j"
proof -
  have mono: "crockford ! i < crockford ! j" if "i < j" "j < 32" for i j
    using sorted_wrt_nth_less[OF crockford_sorted that(1)] that(2) by simp
  show ?thesis using mono[of i j] mono[of j i] assms by (cases i j rule: linorder_cases) auto
qed

lemma encodeULID_alt: "encodeULID b = map ((!) crockford) (group_vals b)"
  by (simp add: encodeULID_def group_vals_def)

lemma length_group_vals [simp]: "length (group_vals b) = 26"
  by (simp add: group_vals_def encodeULID_groups_def)

lemma encodeULID_less_groups: "encodeULID a < encodeULID b \<longleftrightarrow> group_vals a < group_vals b"
  unfolding encodeULID_alt
  by (rule map_strict_mono_less_iff) (use group_vals_less crockford_less_iff in auto)

lemma encodeULID_less:
  assumes "length a = 16" "length b = 16"
  shows "encodeULID a < encodeULID b \<longleftrightarrow> base_val 256 (map unat a) < base_val 256 (map unat b)"
proof -
  have "group_vals a < group_vals b \<longleftrightarrow> base_val 32 (group_vals a) < base_val 32 (group_vals b)"
    by (rule base_val_less_iff[symmetric]) (simp_all add: group_vals_less)
  then show ?thesis by (simp add: encodeULID_less_groups group_vals_value assms)
qed

lemma encodeULID_chars:
  "length b = 16 \<Longrightarrow> set (encodeULID b) \<subseteq> set crockford"
  using group_vals_less[of b] by (auto simp: encodeULID_alt)

text \<open>Encoding two sixteen-byte identifiers keeps their order: the 26-character strings
  compare, byte by byte, as the identifiers themselves do, and so different identifiers have
  different encodings. Every character comes from the Crockford alphabet.\<close>

theorem encodeULID_order_embedding:
  assumes "length a = 16" "length b = 16"
  shows "(encodeULID a < encodeULID b \<longleftrightarrow> map unat a < map unat b)
    \<and> (encodeULID a = encodeULID b \<longleftrightarrow> a = b)
    \<and> length (encodeULID a) = 26 \<and> set (encodeULID a) \<subseteq> set crockford"
proof -
  have less: "encodeULID x < encodeULID y \<longleftrightarrow> map unat x < map unat y"
    if "length x = 16" "length y = 16" for x y
    using that base_val_less_iff[of "map unat x" "map unat y" 256] by (simp add: encodeULID_less)
  have "a = b" if "encodeULID a = encodeULID b"
  proof -
    have "map unat a = map unat b"
      using less[of a b] less[of b a] assms that by (metis less_irrefl linorder_less_linear)
    moreover have "inj (unat :: byte \<Rightarrow> nat)" by (rule injI) (simp add: word_unat_eq_iff)
    ultimately show ?thesis using map_injective by blast
  qed
  moreover have "length (encodeULID a) = 26" by (simp add: encodeULID_alt)
  moreover have "set (encodeULID a) \<subseteq> set crockford"
    using assms(1) by (rule encodeULID_chars)
  ultimately show ?thesis using less[OF assms] by auto
qed

theorem encodeULID_order_embedding_witness:
  "encodeULID (replicate 16 0) < encodeULID (replicate 15 0 @ [1])
    \<and> encodeULID (replicate 16 0) = ''00000000000000000000000000''"
proof
  show "encodeULID (replicate 16 0) < encodeULID (replicate 15 0 @ [1])"
    using encodeULID_order_embedding[of "replicate 16 0" "replicate 15 0 @ [1]"]
    by (simp add: numeral_eq_Suc)
  show "encodeULID (replicate 16 0) = ''00000000000000000000000000''" by code_simp
qed

section \<open>Identifiers at a time\<close>

lemma unat_ms: "unat ((word_of_int k :: 64 word) AND mask 48) = nat (k mod 2 ^ 48)"
proof -
  have "int (unat ((word_of_int k :: 64 word) AND mask 48)) = k mod 2 ^ 64 mod 2 ^ 48"
    unfolding unat_and_mask of_nat_mod by (simp add: unsigned_of_int take_bit_eq_mod)
  also have "\<dots> = k mod 2 ^ 48" by (simp add: mod_mod_cancel)
  finally show ?thesis by (metis nat_int)
qed

lemma unat_ucast_byte: "unat (ucast (x :: 64 word) :: byte) = unat x mod 256"
  by (simp add: unsigned_ucast_eq take_bit_eq_mod)

lemma base_val_6:
  assumes "m < 2 ^ 48"
  shows "base_val 256 [m div 2 ^ 40 mod 256, m div 2 ^ 32 mod 256, m div 2 ^ 24 mod 256,
    m div 2 ^ 16 mod 256, m div 2 ^ 8 mod 256, m mod 256] = m"
proof -
  define f g where "f k = m div 256 ^ k" and "g k = f k mod 256" for k
  have step: "f k = 256 * f l + g k" if "l = Suc k" for k l
  proof -
    have "f l = f k div 256" by (simp add: f_def that div_mult2_eq[symmetric] mult.commute)
    then show ?thesis by (simp add: g_def)
  qed
  have "f 0 = 256 * f 1 + g 0" "f 1 = 256 * f 2 + g 1" "f 2 = 256 * f 3 + g 2"
    "f 3 = 256 * f 4 + g 3" "f 4 = 256 * f 5 + g 4" "f 5 = 256 * f 6 + g 5"
    by (rule step, simp)+
  moreover have "f 6 = 0" "f 0 = m" using assms by (simp_all add: f_def)
  ultimately have "base_val 256 [g 5, g 4, g 3, g 2, g 1, g 0] = m"
    by (simp add: base_val_def)
  then show ?thesis by (simp add: g_def f_def)
qed

lemma base_val_id_bytes:
  "base_val 256 (map unat (id_bytes t r)) =
   nat (unix_milli t mod 2 ^ 48) * 256 ^ length r + base_val 256 (map unat r)"
proof -
  define m where "m = nat (unix_milli t mod 2 ^ 48)"
  have "m < 2 ^ 48" by (simp add: m_def nat_less_iff)
  from base_val_6[OF this] show ?thesis
    unfolding id_bytes_def Let_def map_append base_val_append list.map unat_ucast_byte
      unat_drop_bit_eq unat_ms m_def[symmetric] unfolding drop_bit_eq_div by simp
qed

text \<open>C6: user IDs are time-ordered: of two IDs minted at different milliseconds of the 48-bit
  range, the earlier one is the smaller string, whatever the random bytes are.  Both carry the
  \<open>u_\<close> prefix and have 28 characters.\<close>

theorem newIDAt_time_ordered:
  assumes "newIDAt s (Some p) = Some a" "newIDAt t (Some q) = Some b"
    and "length p = 10" "length q = 10"
    and "0 \<le> unix_milli s" "unix_milli s < unix_milli t" "unix_milli t < 2 ^ 48"
  shows "a < b \<and> has_prefix IDPrefix a \<and> length a = 28"
proof -
  have "length (id_bytes s p) = 16" "length (id_bytes t q) = 16"
    using assms(3,4) by (simp_all add: id_bytes_def Let_def)
  moreover have "base_val 256 (map unat (id_bytes s p)) < base_val 256 (map unat (id_bytes t q))"
  proof -
    have "base_val 256 (map unat p) < 256 ^ 10"
      using base_val_bound[of "map unat p" 256] assms(3) by simp
    moreover have "nat (unix_milli s) + 1 \<le> nat (unix_milli t)" using assms(5,6) by simp
    then have "(nat (unix_milli s) + 1) * 256 ^ 10 \<le> nat (unix_milli t) * 256 ^ 10"
      by (rule mult_le_mono1)
    ultimately show ?thesis using assms(3-7) by (simp add: base_val_id_bytes)
  qed
  ultimately have "encodeULID (id_bytes s p) < encodeULID (id_bytes t q)"
    by (simp add: encodeULID_less)
  with assms(1,2) show ?thesis by (auto simp: newIDAt_def IDPrefix_def has_prefix_def encodeULID_alt)
qed

theorem newIDAt_time_ordered_witness:
  "the (newIDAt 0 (Some (replicate 10 255))) < the (newIDAt 1000000 (Some (replicate 10 0)))"
proof -
  have "\<exists>a b. newIDAt 0 (Some (replicate 10 255)) = Some a \<and> newIDAt 1000000 (Some (replicate 10 0)) = Some b"
    by (simp add: newIDAt_def)
  then obtain a b where ab: "newIDAt 0 (Some (replicate 10 255)) = Some a"
    "newIDAt 1000000 (Some (replicate 10 0)) = Some b" by blast
  with newIDAt_time_ordered[OF ab] show ?thesis by (simp add: unix_milli_def)
qed

section \<open>Slugs of generated identifiers\<close>

lemma crockford_lower_alnum: "\<forall>c \<in> set crockford. alnum (lower_char c)"
  unfolding crockford_def alnum_def lower_char_def char_class_defs code_def by simp

lemma slugFromUserID_encode:
  "slugFromUserID (IDPrefix @ encodeULID b) = ''u'' @ to_lower (take 12 (encodeULID b))"
  by (simp add: slugFromUserID_def Let_def encodeULID_alt)

lemma group_vals_take_12:
  assumes "take 7 a = take 7 b" "a ! 7 AND 192 = b ! 7 AND 192" "length a = 16" "length b = 16"
  shows "take 12 (encodeULID_groups a) = take 12 (encodeULID_groups b)"
proof -
  have "a ! k = b ! k" if "k < 7" for k using assms(1) that by (metis nth_take)
  with assms(2) show ?thesis unfolding encodeULID_groups_def by simp
qed

text \<open>The slug of a freshly minted user ID is accepted by every web server, and it is
  determined by the first 58 bits of the identifier alone: two IDs of the same millisecond whose
  first ten random bits agree have the same slug, however different they are.\<close>

theorem slugFromUserID_of_minted:
  assumes "length a = 16" "length b = 16"
  shows "\<not> slug_rejected (slugFromUserID (IDPrefix @ encodeULID a))
    \<and> (take 7 a = take 7 b \<and> a ! 7 AND 192 = b ! 7 AND 192 \<longrightarrow>
         slugFromUserID (IDPrefix @ encodeULID a) = slugFromUserID (IDPrefix @ encodeULID b))"
proof
  let ?s = "slugFromUserID (IDPrefix @ encodeULID a)"
  let ?t = "to_lower (take 12 (encodeULID a))"
  have sub: "set (take 12 (encodeULID a)) \<subseteq> set crockford"
    using encodeULID_chars[OF assms(1)] set_take_subset by fastforce
  then have al: "\<forall>c \<in> set ?t. alnum c" using crockford_lower_alnum by (auto simp: to_lower_def)
  have u: "alnum (CHR ''u'')" by (simp add: alnum_def is_lower_def code_def)
  have "slug_shape ?s" unfolding slugFromUserID_encode
    using al u by (cases "?t = []") (auto simp: slug_shape_def list_all_iff)
  moreover have "length ?s \<le> 63" by (simp add: slugFromUserID_encode)
  ultimately show "\<not> slug_rejected ?s" by (simp add: slug_rejected_def slugRegex_iff)
  show "take 7 a = take 7 b \<and> a ! 7 AND 192 = b ! 7 AND 192 \<longrightarrow>
      ?s = slugFromUserID (IDPrefix @ encodeULID b)"
    using group_vals_take_12[of a b] assms
    unfolding slugFromUserID_encode unfolding encodeULID_def take_map by simp
qed

theorem slugFromUserID_of_minted_witness:
  "slugFromUserID (IDPrefix @ encodeULID (replicate 16 1))
     = slugFromUserID (IDPrefix @ encodeULID (replicate 8 1 @ replicate 8 255))
   \<and> encodeULID (replicate 16 1) \<noteq> encodeULID (replicate 8 1 @ replicate 8 255)"
proof
  show "slugFromUserID (IDPrefix @ encodeULID (replicate 16 1))
     = slugFromUserID (IDPrefix @ encodeULID (replicate 8 1 @ replicate 8 255))"
    using slugFromUserID_of_minted[of "replicate 16 1" "replicate 8 1 @ replicate 8 255"]
    by (simp add: nth_append min_def)
  show "encodeULID (replicate 16 1) \<noteq> encodeULID (replicate 8 1 @ replicate 8 255)"
    by code_simp
qed

end
