(* ===== verification/Users.thy ===== *)
theory Users
  imports UserID
begin

text \<open>
  The user-account layer \<open>pkg/users\<close>: the \<open>User\<close> row, the validators, and \<open>MemoryStore\<close>, the
  in-memory implementation of the \<open>Store\<close> interface.  The map \<open>byID\<close> is an association list with
  distinct keys; the mutex makes every method one atomic step of the store.  \<open>mail.ParseAddress\<close>
  (the RFC 5322 parser) is the parameter \<open>parse\<close> of the operations that call it, the clock and
  \<open>crypto/rand\<close> are inputs.  The interface is the locale \<open>user_store\<close>, interpreted on
  \<open>MemoryStore\<close>; the invariant is that active rows have pairwise different, normalised emails.
\<close>

section \<open>Rows, parameters, errors\<close>

record user =
  u_ID :: string
  u_Email :: string
  u_PasswordHash :: string
  u_Tier :: string
  u_StripeCustomerID :: string
  u_Language :: string
  u_App :: string
  u_CreatedAt :: gotime
  u_EmailVerifiedAt :: "gotime option"
  u_DeletedAt :: "gotime option"
  u_LastLoginAt :: "gotime option"

record create_params =
  p_Email :: string
  p_PasswordHash :: string
  p_Tier :: string
  p_Language :: string
  p_App :: string

datatype users_error =
  ErrNotFound | ErrEmailTaken | ErrInvalidEmail | ErrInvalidTier | ErrInvalidLang
| ErrInvalidApp | ErrEmptyHash | ErrAlreadyDeleted
| ErrRandomness  \<comment> \<open>\<open>crypto/rand\<close> failed inside \<open>NewID\<close>\<close>
| ErrDriver  \<comment> \<open>any other error a database-backed store returns\<close>

definition TierFree :: string where "TierFree = ''free''"
definition TierStarter :: string where "TierStarter = ''starter''"
definition TierGrowth :: string where "TierGrowth = ''growth''"
definition TierEnterprise :: string where "TierEnterprise = ''enterprise''"
definition LangDE :: string where "LangDE = ''de''"
definition LangEN :: string where "LangEN = ''en''"
definition DefaultApp :: string where "DefaultApp = ''personal-assistant''"

definition GracePeriod :: goduration where
  "GracePeriod = 30 * hours 24"

definition NormalizeEmail :: "string \<Rightarrow> string" where
  "NormalizeEmail s = to_lower (trim_space s)"

definition ValidTier :: "string \<Rightarrow> bool" where
  "ValidTier t \<longleftrightarrow> t = TierFree \<or> t = TierStarter \<or> t = TierGrowth \<or> t = TierEnterprise"

definition ValidLang :: "string \<Rightarrow> bool" where
  "ValidLang l \<longleftrightarrow> l = LangDE \<or> l = LangEN"

definition validEmail :: "(string \<Rightarrow> bool) \<Rightarrow> string \<Rightarrow> bool" where
  "validEmail parse s = (if s = [] \<or> 254 < length s then False else parse s)"

lemmas users_consts [go_eval] = TierFree_def TierStarter_def TierGrowth_def TierEnterprise_def
  LangDE_def LangEN_def DefaultApp_def

lemma NormalizeEmail_idem [simp, go_str]: "NormalizeEmail (NormalizeEmail s) = NormalizeEmail s"
  by (simp add: NormalizeEmail_def trim_space_to_lower)

section \<open>The in-memory store\<close>

type_synonym mem_store = "(string \<times> user) list"

definition NewMemoryStore :: mem_store where
  "NewMemoryStore = []"

definition active :: "user \<Rightarrow> bool" where
  "active u \<longleftrightarrow> u_DeletedAt u = None"

definition mem_Create ::
  "(string \<Rightarrow> bool) \<Rightarrow> create_params \<Rightarrow> string option \<Rightarrow> gotime \<Rightarrow> mem_store
   \<Rightarrow> (users_error + user) \<times> mem_store" where
  \<comment> \<open>the arguments after the parameters are the outcome of \<open>NewID()\<close> (\<open>None\<close>: randomness failed)
      and the store's clock\<close>
  "mem_Create parse p newid now s =
     (let email = NormalizeEmail (p_Email p);
          app = (if p_App p = [] then DefaultApp else p_App p)
      in if \<not> validEmail parse email then (Inl ErrInvalidEmail, s)
         else if p_PasswordHash p = [] then (Inl ErrEmptyHash, s)
         else if \<not> ValidTier (p_Tier p) then (Inl ErrInvalidTier, s)
         else if \<not> ValidLang (p_Language p) then (Inl ErrInvalidLang, s)
         else if \<not> ValidApp app then (Inl ErrInvalidApp, s)
         else (case newid of None \<Rightarrow> (Inl ErrRandomness, s)
           | Some i \<Rightarrow>
               if \<exists>(_, u) \<in> set s. u_Email u = email \<and> active u then (Inl ErrEmailTaken, s)
               else (let u = \<lparr>u_ID = i, u_Email = email, u_PasswordHash = p_PasswordHash p,
                        u_Tier = p_Tier p, u_StripeCustomerID = [], u_Language = p_Language p,
                        u_App = app, u_CreatedAt = now, u_EmailVerifiedAt = None,
                        u_DeletedAt = None, u_LastLoginAt = None\<rparr>
                     in (Inr u, al_put i u s))))"

definition mem_GetByID :: "string \<Rightarrow> mem_store \<Rightarrow> users_error + user" where
  "mem_GetByID i s = (case map_of s i of
      None \<Rightarrow> Inl ErrNotFound
    | Some u \<Rightarrow> if u_DeletedAt u \<noteq> None then Inl ErrNotFound else Inr u)"

fun scan_ids :: "string \<Rightarrow> mem_store \<Rightarrow> string list \<Rightarrow> users_error + user" where
  "scan_ids email s [] = Inl ErrNotFound"
| "scan_ids email s (i # is) =
     (case map_of s i of
        Some u \<Rightarrow> if u_Email u = email \<and> u_DeletedAt u = None then Inr u else scan_ids email s is
      | None \<Rightarrow> scan_ids email s is)"

definition mem_GetByEmail :: "string \<Rightarrow> mem_store \<Rightarrow> users_error + user" where
  "mem_GetByEmail addr s =
     (let email = NormalizeEmail addr; ids = sort (map fst s) in scan_ids email s ids)"

definition update_active ::
  "string \<Rightarrow> (user \<Rightarrow> user) \<Rightarrow> mem_store \<Rightarrow> users_error option \<times> mem_store" where
  \<comment> \<open>the shared shape of the four field updates: look up, refuse a missing or deleted row, write\<close>
  "update_active i f s = (case map_of s i of
      None \<Rightarrow> (Some ErrNotFound, s)
    | Some u \<Rightarrow> if u_DeletedAt u \<noteq> None then (Some ErrNotFound, s) else (None, al_put i (f u) s))"

definition mem_UpdateTier :: "string \<Rightarrow> string \<Rightarrow> mem_store \<Rightarrow> users_error option \<times> mem_store" where
  "mem_UpdateTier i tier s =
     (if \<not> ValidTier tier then (Some ErrInvalidTier, s)
      else update_active i (\<lambda>u. u\<lparr>u_Tier := tier\<rparr>) s)"

definition mem_UpdateStripeCustomerID ::
  "string \<Rightarrow> string \<Rightarrow> mem_store \<Rightarrow> users_error option \<times> mem_store" where
  "mem_UpdateStripeCustomerID i stripeID s = update_active i (\<lambda>u. u\<lparr>u_StripeCustomerID := stripeID\<rparr>) s"

definition mem_MarkEmailVerified ::
  "string \<Rightarrow> gotime \<Rightarrow> mem_store \<Rightarrow> users_error option \<times> mem_store" where
  "mem_MarkEmailVerified i t s = update_active i (\<lambda>u. u\<lparr>u_EmailVerifiedAt := Some t\<rparr>) s"

definition mem_RecordLogin ::
  "string \<Rightarrow> gotime \<Rightarrow> mem_store \<Rightarrow> users_error option \<times> mem_store" where
  "mem_RecordLogin i t s = update_active i (\<lambda>u. u\<lparr>u_LastLoginAt := Some t\<rparr>) s"

definition mem_SoftDelete ::
  "string \<Rightarrow> gotime \<Rightarrow> mem_store \<Rightarrow> users_error option \<times> mem_store" where
  "mem_SoftDelete i t s = (case map_of s i of
      None \<Rightarrow> (Some ErrNotFound, s)
    | Some u \<Rightarrow> if u_DeletedAt u \<noteq> None then (Some ErrAlreadyDeleted, s)
                 else (None, al_put i (u\<lparr>u_DeletedAt := Some t\<rparr>) s))"

definition purgeable :: "gotime \<Rightarrow> user \<Rightarrow> bool" where
  "purgeable cutoff u \<longleftrightarrow> (case u_DeletedAt u of None \<Rightarrow> False | Some d \<Rightarrow> d < cutoff)"

definition mem_PurgeDeletedBefore :: "gotime \<Rightarrow> mem_store \<Rightarrow> nat \<times> mem_store" where
  "mem_PurgeDeletedBefore before s =
     (length (filter (\<lambda>(_, u). purgeable before u) s), filter (\<lambda>(_, u). \<not> purgeable before u) s)"

section \<open>The store invariant\<close>

definition row_ok :: "string \<Rightarrow> user \<Rightarrow> bool" where
  "row_ok i u \<longleftrightarrow> u_ID u = i \<and> NormalizeEmail (u_Email u) = u_Email u \<and> u_PasswordHash u \<noteq> []
     \<and> ValidTier (u_Tier u) \<and> ValidLang (u_Language u) \<and> ValidApp (u_App u)"

definition unique_active :: "(string \<rightharpoonup> user) \<Rightarrow> bool" where
  "unique_active m \<longleftrightarrow> (\<forall>i j u v. m i = Some u \<longrightarrow> m j = Some v \<longrightarrow> active u \<longrightarrow> active v \<longrightarrow>
     u_Email u = u_Email v \<longrightarrow> i = j)"

definition store_inv :: "mem_store \<Rightarrow> bool" where
  "store_inv s \<longleftrightarrow> distinct (map fst s) \<and> (\<forall>i u. map_of s i = Some u \<longrightarrow> row_ok i u)
     \<and> unique_active (map_of s)"

lemma store_inv_new [simp]: "store_inv NewMemoryStore"
  by (simp add: store_inv_def NewMemoryStore_def unique_active_def)

lemma unique_activeD:
  "store_inv s \<Longrightarrow> map_of s i = Some u \<Longrightarrow> map_of s j = Some v \<Longrightarrow> active u \<Longrightarrow> active v
   \<Longrightarrow> u_Email u = u_Email v \<Longrightarrow> i = j"
  unfolding store_inv_def unique_active_def by blast

lemma row_okD: "store_inv s \<Longrightarrow> map_of s i = Some u \<Longrightarrow> row_ok i u"
  unfolding store_inv_def by blast

lemma store_inv_distinct: "store_inv s \<Longrightarrow> distinct (map fst s)"
  unfolding store_inv_def by blast

lemma mem_rows: "distinct (map fst s) \<Longrightarrow> (i, u) \<in> set s \<longleftrightarrow> map_of s i = Some u"
  by (simp add: map_of_eq_Some_iff)

lemma store_inv_put:
  assumes "store_inv s" "row_ok i u"
    and "\<And>j v. map_of s j = Some v \<Longrightarrow> active u \<Longrightarrow> active v \<Longrightarrow> u_Email v = u_Email u \<Longrightarrow> j = i"
  shows "store_inv (al_put i u s)"
  using assms unfolding store_inv_def unique_active_def
  by (auto simp: distinct_al_put split: if_splits)

lemma update_active_cases:
  obtains (missing) "map_of s i = None" "update_active i f s = (Some ErrNotFound, s)"
  | (gone) u where "map_of s i = Some u" "\<not> active u" "update_active i f s = (Some ErrNotFound, s)"
  | (hit) u where "map_of s i = Some u" "active u" "update_active i f s = (None, al_put i (f u) s)"
  by (cases "map_of s i") (auto simp: update_active_def active_def)

lemma store_inv_update_active:
  assumes "store_inv s"
    and "\<And>u. row_ok i u \<Longrightarrow> row_ok i (f u) \<and> u_Email (f u) = u_Email u \<and> active (f u) = active u"
  shows "store_inv (snd (update_active i f s))"
proof (cases rule: update_active_cases[of s i f])
  case (hit u)
  from row_okD[OF assms(1) hit(1)] have "row_ok i u" .
  from assms(2)[OF this] have f: "row_ok i (f u)" "u_Email (f u) = u_Email u"
    "active (f u) = active u" by auto
  have same: "j = i" if "map_of s j = Some v" "active v" "u_Email v = u_Email u" for j v
    by (rule unique_activeD[OF assms(1) that(1) hit(1) that(2) hit(2) that(3)])
  have "store_inv (al_put i (f u) s)"
    by (rule store_inv_put[OF assms(1) f(1)], rule same, assumption, assumption, simp add: f)
  with hit show ?thesis by simp
qed (use assms in auto)

lemma mem_Create_cases:
  assumes "mem_Create parse p newid now s = (r, s')"
  obtains (fails) e where "r = Inl e" "s' = s"
  | (made) i u where "newid = Some i" "r = Inr u" "s' = al_put i u s" "row_ok i u" "active u"
      "u_Email u = NormalizeEmail (p_Email p)" "u_PasswordHash u = p_PasswordHash p"
      "u_Tier u = p_Tier p" "u_Language u = p_Language p" "u_EmailVerifiedAt u = None"
      "u_App u = (if p_App p = [] then DefaultApp else p_App p)"
      "\<forall>(j, v) \<in> set s. u_Email v = NormalizeEmail (p_Email p) \<longrightarrow> \<not> active v"
proof (cases r)
  case (Inl e)
  with assms have "s' = s" by (auto simp: mem_Create_def Let_def split: if_splits option.splits)
  with Inl show ?thesis by (rule fails)
next
  case (Inr u)
  then obtain i where "newid = Some i"
    using assms by (auto simp: mem_Create_def Let_def split: if_splits option.splits)
  with Inr show ?thesis using assms
    by (intro made[of i u])
      (auto simp: mem_Create_def Let_def row_ok_def active_def split: if_splits)
qed

lemma store_inv_Create:
  assumes "store_inv s" "mem_Create parse p newid now s = (r, s')"
  shows "store_inv s'"
  using assms(2)
proof (cases rule: mem_Create_cases)
  case (made i u)
  with assms(1) show ?thesis by (auto intro!: store_inv_put dest!: map_of_SomeD)
qed (use assms in simp)

lemma store_inv_SoftDelete: "store_inv s \<Longrightarrow> store_inv (snd (mem_SoftDelete i t s))"
proof (cases "map_of s i")
  case (Some u)
  moreover assume inv: "store_inv s"
  ultimately have "row_ok i (u\<lparr>u_DeletedAt := Some t\<rparr>)" by (simp add: store_inv_def row_ok_def)
  with inv have "store_inv (al_put i (u\<lparr>u_DeletedAt := Some t\<rparr>) s)"
    by (rule store_inv_put) (simp add: active_def)
  with Some inv show ?thesis by (simp add: mem_SoftDelete_def)
qed (simp add: mem_SoftDelete_def)

lemma store_inv_filter: "store_inv s \<Longrightarrow> store_inv (filter P s)"
  unfolding store_inv_def unique_active_def
  by (auto simp: distinct_al_filter map_of_filter_distinct split: option.splits if_splits)

datatype store_op =
  OpCreate create_params "string option" gotime
| OpUpdateTier string string
| OpUpdateStripe string string
| OpMarkVerified string gotime
| OpRecordLogin string gotime
| OpSoftDelete string gotime
| OpPurge gotime

fun store_step :: "(string \<Rightarrow> bool) \<Rightarrow> mem_store \<Rightarrow> store_op \<Rightarrow> mem_store" where
  "store_step parse s (OpCreate p newid now) = snd (mem_Create parse p newid now s)"
| "store_step parse s (OpUpdateTier i t) = snd (mem_UpdateTier i t s)"
| "store_step parse s (OpUpdateStripe i c) = snd (mem_UpdateStripeCustomerID i c s)"
| "store_step parse s (OpMarkVerified i t) = snd (mem_MarkEmailVerified i t s)"
| "store_step parse s (OpRecordLogin i t) = snd (mem_RecordLogin i t s)"
| "store_step parse s (OpSoftDelete i t) = snd (mem_SoftDelete i t s)"
| "store_step parse s (OpPurge t) = snd (mem_PurgeDeletedBefore t s)"

definition store_run :: "(string \<Rightarrow> bool) \<Rightarrow> store_op list \<Rightarrow> mem_store" where
  "store_run parse ops = foldl (store_step parse) NewMemoryStore ops"

lemma store_inv_step: "store_inv s \<Longrightarrow> store_inv (store_step parse s op)"
proof (cases op)
  case (OpCreate p newid now)
  moreover assume "store_inv s"
  ultimately show ?thesis
    using store_inv_Create by (cases "mem_Create parse p newid now s") auto
qed (auto intro!: store_inv_update_active store_inv_SoftDelete store_inv_filter
    simp: mem_UpdateTier_def mem_UpdateStripeCustomerID_def mem_MarkEmailVerified_def
      mem_RecordLogin_def mem_PurgeDeletedBefore_def row_ok_def active_def)

lemma store_inv_run: "store_inv (store_run parse ops)"
  unfolding store_run_def
  by (induction ops rule: rev_induct) (auto intro: store_inv_step)

definition twin_signups :: "store_op list" where
  \<comment> \<open>two signups with the same address in different case\<close>
  "twin_signups = [OpCreate \<lparr>p_Email = '' A@b.de '', p_PasswordHash = ''h'', p_Tier = ''free'',
     p_Language = ''de'', p_App = []\<rparr> (Some ''u_1'') 5, OpCreate \<lparr>p_Email = ''a@B.de'',
     p_PasswordHash = ''h'', p_Tier = ''free'', p_Language = ''de'', p_App = []\<rparr> (Some ''u_2'') 6]"

definition first_twin :: user where
  "first_twin = \<lparr>u_ID = ''u_1'', u_Email = ''a@b.de'', u_PasswordHash = ''h'', u_Tier = ''free'',
     u_StripeCustomerID = [], u_Language = ''de'', u_App = DefaultApp, u_CreatedAt = 5,
     u_EmailVerifiedAt = None, u_DeletedAt = None, u_LastLoginAt = None\<rparr>"

lemma store_run_twins: "store_run (\<lambda>_. True) twin_signups = [(''u_1'', first_twin)]"
  unfolding twin_signups_def first_twin_def by code_simp

text \<open>C18: whatever sequence of store methods is called, no two active accounts ever share an
  email address, in any letter case: stored addresses are normalised, and two active rows whose
  addresses are equal up to case are the same row.\<close>

theorem active_emails_unique:
  assumes "map_of (store_run parse ops) i = Some u" "map_of (store_run parse ops) j = Some v"
    and "u_DeletedAt u = None" "u_DeletedAt v = None" "equal_fold (u_Email u) (u_Email v)"
  shows "i = j \<and> u = v \<and> NormalizeEmail (u_Email u) = u_Email u"
proof -
  have inv: "store_inv (store_run parse ops)" by (rule store_inv_run)
  have n: "NormalizeEmail (u_Email u) = u_Email u" "NormalizeEmail (u_Email v) = u_Email v"
    using inv assms(1,2) by (auto simp: store_inv_def row_ok_def)
  then have "to_lower (u_Email u) = u_Email u" "to_lower (u_Email v) = u_Email v"
    by (metis NormalizeEmail_def to_lower_idem)+
  with assms(5) have "u_Email u = u_Email v" by (simp add: equal_fold_def)
  with inv assms(1-4) have "i = j" by (auto simp: store_inv_def unique_active_def active_def)
  with assms(1,2) n show ?thesis by simp
qed

corollary active_emails_unique_witness:
  "map_of (store_run (\<lambda>_. True) twin_signups) ''u_1'' = Some first_twin
   \<and> NormalizeEmail (u_Email first_twin) = u_Email first_twin"
proof -
  have m: "map_of (store_run (\<lambda>_. True) twin_signups) ''u_1'' = Some first_twin"
    unfolding store_run_twins by simp
  have "u_DeletedAt first_twin = None" by (simp add: first_twin_def)
  from active_emails_unique[OF m m this this equal_fold_refl] m show ?thesis by simp
qed

section \<open>Lookups under the invariant\<close>

lemma scan_ids_Inr:
  "scan_ids email s js = Inr u \<Longrightarrow> \<exists>i \<in> set js. map_of s i = Some u \<and> u_Email u = email \<and> active u"
  by (induction email s js rule: scan_ids.induct)
    (auto simp: active_def split: option.splits if_splits)

lemma scan_ids_Inl:
  "scan_ids email s js = Inl e \<Longrightarrow> e = ErrNotFound
     \<and> (\<forall>i \<in> set js. \<forall>u. map_of s i = Some u \<longrightarrow> u_Email u = email \<longrightarrow> \<not> active u)"
  by (induction email s js rule: scan_ids.induct)
    (auto simp: active_def split: option.splits if_splits)

lemma mem_GetByEmail_iff:
  assumes "store_inv s"
  shows "mem_GetByEmail a s = Inr u \<longleftrightarrow>
    map_of s (u_ID u) = Some u \<and> active u \<and> u_Email u = NormalizeEmail a"
proof
  assume "mem_GetByEmail a s = Inr u"
  then obtain i where i: "map_of s i = Some u" "u_Email u = NormalizeEmail a" "active u"
    unfolding mem_GetByEmail_def Let_def by (blast dest: scan_ids_Inr)
  with row_okD[OF assms i(1)] show "map_of s (u_ID u) = Some u \<and> active u \<and> u_Email u = NormalizeEmail a"
    by (simp add: row_ok_def)
next
  assume u: "map_of s (u_ID u) = Some u \<and> active u \<and> u_Email u = NormalizeEmail a"
  show "mem_GetByEmail a s = Inr u"
  proof (cases "mem_GetByEmail a s")
    case (Inl e)
    then have "\<forall>i \<in> set (map fst s). \<forall>u. map_of s i = Some u \<longrightarrow> u_Email u = NormalizeEmail a \<longrightarrow> \<not> active u"
      unfolding mem_GetByEmail_def Let_def using scan_ids_Inl by fastforce
    moreover have "u_ID u \<in> set (map fst s)" using u map_of_eq_None_iff[of s "u_ID u"] by auto
    ultimately show ?thesis using u by blast
  next
    case (Inr v)
    then obtain i where i: "map_of s i = Some v" "u_Email v = NormalizeEmail a" "active v"
      unfolding mem_GetByEmail_def Let_def by (blast dest: scan_ids_Inr)
    have "i = u_ID u" using u i by (intro unique_activeD[OF assms i(1), of "u_ID u" u]) auto
    with i u Inr show ?thesis by simp
  qed
qed

lemma mem_GetByEmail_err: "mem_GetByEmail a s = Inl e \<Longrightarrow> e = ErrNotFound"
  unfolding mem_GetByEmail_def Let_def using scan_ids_Inl by blast

lemma mem_GetByID_iff:
  "store_inv s \<Longrightarrow> mem_GetByID i s = Inr u \<longleftrightarrow> map_of s i = Some u \<and> active u"
  by (auto simp: mem_GetByID_def active_def split: option.splits)

section \<open>The Store interface\<close>

text \<open>The Go interface \<open>users.Store\<close> is a record of operations over a store state; the locale states
  what every caller relies on, over the view \<open>rows\<close> (which rows exist, deleted ones included) and
  the provider's invariant \<open>inv\<close>.\<close>

record 's users_store =
  st_Create :: "create_params \<Rightarrow> string option \<Rightarrow> gotime \<Rightarrow> 's \<Rightarrow> (users_error + user) \<times> 's"
  st_GetByID :: "string \<Rightarrow> 's \<Rightarrow> users_error + user"
  st_GetByEmail :: "string \<Rightarrow> 's \<Rightarrow> users_error + user"
  st_UpdateTier :: "string \<Rightarrow> string \<Rightarrow> 's \<Rightarrow> users_error option \<times> 's"
  st_UpdateStripeCustomerID :: "string \<Rightarrow> string \<Rightarrow> 's \<Rightarrow> users_error option \<times> 's"
  st_MarkEmailVerified :: "string \<Rightarrow> gotime \<Rightarrow> 's \<Rightarrow> users_error option \<times> 's"
  st_RecordLogin :: "string \<Rightarrow> gotime \<Rightarrow> 's \<Rightarrow> users_error option \<times> 's"
  st_SoftDelete :: "string \<Rightarrow> gotime \<Rightarrow> 's \<Rightarrow> users_error option \<times> 's"
  st_PurgeDeletedBefore :: "gotime \<Rightarrow> 's \<Rightarrow> (users_error + nat) \<times> 's"

definition MemoryStore :: "(string \<Rightarrow> bool) \<Rightarrow> mem_store users_store" where
  "MemoryStore parse = \<lparr>st_Create = mem_Create parse, st_GetByID = mem_GetByID,
     st_GetByEmail = mem_GetByEmail, st_UpdateTier = mem_UpdateTier,
     st_UpdateStripeCustomerID = mem_UpdateStripeCustomerID,
     st_MarkEmailVerified = mem_MarkEmailVerified, st_RecordLogin = mem_RecordLogin,
     st_SoftDelete = mem_SoftDelete,
     st_PurgeDeletedBefore = (\<lambda>t s. case mem_PurgeDeletedBefore t s of (n, s') \<Rightarrow> (Inr n, s'))\<rparr>"

datatype store_out =
  OUser "users_error + user" | OErr "users_error option" | OCount "users_error + nat"

fun op_on :: "'s users_store \<Rightarrow> store_op \<Rightarrow> 's \<Rightarrow> store_out \<times> 's" where
  \<comment> \<open>one call on a store through its interface, with what the caller sees\<close>
  "op_on st (OpCreate p n t) s = apfst OUser (st_Create st p n t s)"
| "op_on st (OpUpdateTier i t) s = apfst OErr (st_UpdateTier st i t s)"
| "op_on st (OpUpdateStripe i c) s = apfst OErr (st_UpdateStripeCustomerID st i c s)"
| "op_on st (OpMarkVerified i t) s = apfst OErr (st_MarkEmailVerified st i t s)"
| "op_on st (OpRecordLogin i t) s = apfst OErr (st_RecordLogin st i t s)"
| "op_on st (OpSoftDelete i t) s = apfst OErr (st_SoftDelete st i t s)"
| "op_on st (OpPurge t) s = apfst OCount (st_PurgeDeletedBefore st t s)"

lemma snd_apfst [simp]: "snd (apfst f x) = snd x"
  by (cases x) simp

lemma op_on_memory: "snd (op_on (MemoryStore parse) op s) = store_step parse s op"
  by (cases op) (auto simp: MemoryStore_def mem_PurgeDeletedBefore_def)

locale user_store =
  fixes st :: "'s users_store"
    and inv :: "'s \<Rightarrow> bool"
    and rows :: "'s \<Rightarrow> string \<rightharpoonup> user"
  assumes create_err: "st_Create st p n t s = (Inl e, s') \<Longrightarrow> rows s' = rows s"
    and create_ok: "inv s \<Longrightarrow> st_Create st p n t s = (Inr u, s') \<Longrightarrow>
      n = Some (u_ID u) \<and> rows s' = (rows s)(u_ID u \<mapsto> u) \<and> active u
      \<and> u_Email u = NormalizeEmail (p_Email p) \<and> u_PasswordHash u = p_PasswordHash p
      \<and> u_Tier u = p_Tier p \<and> u_EmailVerifiedAt u = None
      \<and> (\<forall>j v. rows s j = Some v \<longrightarrow> u_Email v = NormalizeEmail (p_Email p) \<longrightarrow> \<not> active v)"
    and create_inv: "inv s \<Longrightarrow> st_Create st p n t s = (r, s') \<Longrightarrow> inv s'"
    and get_id: "inv s \<Longrightarrow> st_GetByID st i s = Inr u \<Longrightarrow> rows s i = Some u \<and> active u"
    and get_id_none: "inv s \<Longrightarrow> st_GetByID st i s = Inl ErrNotFound \<Longrightarrow> rows s i = Some u \<Longrightarrow> \<not> active u"
    and get_email: "inv s \<Longrightarrow> st_GetByEmail st a s = Inr u \<Longrightarrow>
      rows s (u_ID u) = Some u \<and> active u \<and> u_Email u = NormalizeEmail a"
    and get_email_none: "inv s \<Longrightarrow> st_GetByEmail st a s = Inl ErrNotFound \<Longrightarrow> rows s i = Some u \<Longrightarrow>
      u_Email u = NormalizeEmail a \<Longrightarrow> \<not> active u"
    and mark_ok: "inv s \<Longrightarrow> st_MarkEmailVerified st i t s = (None, s') \<Longrightarrow>
      \<exists>u. rows s i = Some u \<and> active u \<and> rows s' = (rows s)(i \<mapsto> u\<lparr>u_EmailVerifiedAt := Some t\<rparr>)"
    and mark_err: "inv s \<Longrightarrow> st_MarkEmailVerified st i t s = (Some e, s') \<Longrightarrow> rows s' = rows s"
    and mark_inv: "inv s \<Longrightarrow> st_MarkEmailVerified st i t s = (o1, s') \<Longrightarrow> inv s'"
    and delete_ok: "inv s \<Longrightarrow> st_SoftDelete st i t s = (None, s') \<Longrightarrow>
      \<exists>u. rows s i = Some u \<and> active u \<and> rows s' = (rows s)(i \<mapsto> u\<lparr>u_DeletedAt := Some t\<rparr>)"
    and delete_err: "inv s \<Longrightarrow> st_SoftDelete st i t s = (Some e, s') \<Longrightarrow> rows s' = rows s"
    and delete_inv: "inv s \<Longrightarrow> st_SoftDelete st i t s = (o1, s') \<Longrightarrow> inv s'"
    and rows_id: "inv s \<Longrightarrow> rows s i = Some u \<Longrightarrow> u_ID u = i"
    and rows_unique: "inv s \<Longrightarrow> rows s i = Some u \<Longrightarrow> rows s j = Some v \<Longrightarrow> active u \<Longrightarrow> active v
      \<Longrightarrow> u_Email u = u_Email v \<Longrightarrow> i = j"
    and purge_ok: "inv s \<Longrightarrow> st_PurgeDeletedBefore st t s = (Inr k, s') \<Longrightarrow>
      (\<forall>i. rows s' i = (case rows s i of None \<Rightarrow> None
         | Some u \<Rightarrow> if purgeable t u then None else Some u))
      \<and> k = card {i. \<exists>u. rows s i = Some u \<and> purgeable t u}"
    and purge_err: "st_PurgeDeletedBefore st t s = (Inl e, s') \<Longrightarrow> rows s' = rows s"
    and purge_inv: "inv s \<Longrightarrow> st_PurgeDeletedBefore st t s = (pr, s') \<Longrightarrow> inv s'"
begin

lemma created_is_found:
  assumes "inv s" "st_Create st p n t s = (Inr u, s')"
  shows "st_GetByID st (u_ID u) s' \<noteq> Inl ErrNotFound"
    and "st_GetByID st (u_ID u) s' = Inr v \<Longrightarrow> v = u"
    and "NormalizeEmail a = NormalizeEmail (p_Email p) \<Longrightarrow> st_GetByEmail st a s' \<noteq> Inl ErrNotFound"
    and "NormalizeEmail a = NormalizeEmail (p_Email p) \<Longrightarrow> st_GetByEmail st a s' = Inr v \<Longrightarrow> v = u"
proof -
  note c = create_ok[OF assms] and i = create_inv[OF assms]
  have r: "rows s' (u_ID u) = Some u" "active u" "u_Email u = NormalizeEmail (p_Email p)"
    using c by simp_all
  show "st_GetByID st (u_ID u) s' \<noteq> Inl ErrNotFound" using get_id_none[OF i] r by blast
  show "st_GetByID st (u_ID u) s' = Inr v \<Longrightarrow> v = u" using get_id[OF i, of "u_ID u" v] r by simp
  assume a: "NormalizeEmail a = NormalizeEmail (p_Email p)"
  show "st_GetByEmail st a s' \<noteq> Inl ErrNotFound" using get_email_none[OF i _ r(1), of a] r a by auto
  assume "st_GetByEmail st a s' = Inr v"
  from get_email[OF i this] have v: "rows s' (u_ID v) = Some v" "active v" "u_Email v = u_Email u"
    using r a by simp_all
  have "u_ID v = u_ID u" by (rule rows_unique[OF i v(1) r(1) v(2) r(2) v(3)])
  with v(1) r(1) show "v = u" by (metis option.inject)
qed

lemma taken_email_refused:
  assumes "inv s" "st_GetByEmail st a s = Inr u" "NormalizeEmail (p_Email p) = NormalizeEmail a"
  shows "\<exists>e s'. st_Create st p n t s = (Inl e, s') \<and> rows s' = rows s"
proof (cases "st_Create st p n t s")
  case (Pair r s')
  show ?thesis
  proof (cases r)
    case (Inr v)
    from create_ok[OF assms(1) Pair[unfolded Inr]] assms(2,3) get_email[OF assms(1), of a u]
    show ?thesis by auto
  qed (use Pair create_err in auto)
qed

lemma deleted_is_hidden:
  assumes "inv s" "st_SoftDelete st i t s = (None, s')"
  shows "st_GetByID st i s' \<noteq> Inr v"
    and "\<exists>u. rows s i = Some u \<and> active u \<and> (NormalizeEmail a = u_Email u \<longrightarrow> st_GetByEmail st a s' \<noteq> Inr v)"
proof -
  from delete_ok[OF assms] obtain u where u: "rows s i = Some u" "active u"
    "rows s' = (rows s)(i \<mapsto> u\<lparr>u_DeletedAt := Some t\<rparr>)" by blast
  have inv': "inv s'" by (rule delete_inv[OF assms])
  show "st_GetByID st i s' \<noteq> Inr v" using u get_id[OF inv', of i v] by (auto simp: active_def)
  have "st_GetByEmail st a s' \<noteq> Inr v" if "NormalizeEmail a = u_Email u"
  proof
    assume "st_GetByEmail st a s' = Inr v"
    then have v: "rows s' (u_ID v) = Some v" "active v" "u_Email v = u_Email u"
      using that by (auto dest: get_email[OF inv'])
    then have "u_ID v \<noteq> i" using u by (auto simp: active_def)
    with u v have "rows s (u_ID v) = Some v" by simp
    from rows_unique[OF assms(1) this u(1)] u v \<open>u_ID v \<noteq> i\<close> show False by simp
  qed
  with u show "\<exists>u. rows s i = Some u \<and> active u \<and> (NormalizeEmail a = u_Email u \<longrightarrow> st_GetByEmail st a s' \<noteq> Inr v)"
    by blast
qed

lemma purge_spares:
  assumes "inv s" "st_PurgeDeletedBefore st t s = (Inr k, s')" "st_GetByID st i s = Inr u"
  shows "st_GetByID st i s' \<noteq> Inl ErrNotFound" and "st_GetByID st i s' = Inr v \<Longrightarrow> v = u"
proof -
  have i: "inv s'" by (rule purge_inv[OF assms(1,2)])
  have "rows s i = Some u" "active u" using get_id[OF assms(1,3)] by auto
  with purge_ok[OF assms(1,2)] have r: "rows s' i = Some u" by (simp add: purgeable_def active_def)
  with \<open>active u\<close> show "st_GetByID st i s' \<noteq> Inl ErrNotFound" using get_id_none[OF i] by blast
  show "st_GetByID st i s' = Inr v \<Longrightarrow> v = u" using get_id[OF i, of i v] r by simp
qed

end

lemma mem_purge_card:
  assumes "distinct (map fst s)"
  shows "length (filter (\<lambda>(_, u). P u) s) = card {i. \<exists>u. map_of s i = Some u \<and> P u}"
proof -
  let ?f = "filter (\<lambda>(_, u). P u) s"
  have "distinct (map fst ?f)" using assms by (rule distinct_al_filter)
  then have "length ?f = card (set (map fst ?f))" by (metis distinct_card length_map)
  also have "set (map fst ?f) = {i. \<exists>u. map_of s i = Some u \<and> P u}"
    using mem_rows[OF assms] by force
  finally show ?thesis .
qed

interpretation mem: user_store "MemoryStore parse" store_inv map_of
proof (unfold_locales, goal_cases)
  case (1 p n t s e s')
  then show ?case by (auto simp: MemoryStore_def elim: mem_Create_cases)
next
  case (2 s p n t u s')
  then have "mem_Create parse p n t s = (Inr u, s')" by (simp add: MemoryStore_def)
  then show ?case
  proof (cases rule: mem_Create_cases)
    case (made i v)
    moreover have "u_ID v = i" using made by (simp add: row_ok_def)
    ultimately show ?thesis using mem_rows[OF store_inv_distinct[OF 2(1)]] by auto
  qed simp
next
  case (3 s p n t r s')
  then show ?case by (auto simp: MemoryStore_def intro: store_inv_Create)
next
  case (5 s i u)
  then show ?case by (auto simp: MemoryStore_def mem_GetByID_def active_def split: if_splits)
next
  case (7 s a i u)
  then have "u_ID u = i" using row_okD[of s i u] by (simp add: row_ok_def)
  with 7 mem_GetByEmail_iff[of s a u] show ?case by (auto simp: MemoryStore_def)
next
  case (9 s i t e s')
  then show ?case by (auto simp: MemoryStore_def mem_MarkEmailVerified_def update_active_def
        split: option.splits if_splits)
next
  case (10 s i t r s')
  then show ?case
    using store_inv_step[of s parse "OpMarkVerified i t"] by (simp add: MemoryStore_def)
next
  case (13 s i t r s')
  then show ?case
    using store_inv_step[of s parse "OpSoftDelete i t"] by (simp add: MemoryStore_def)
next
  case (14 s i u)
  then show ?case by (auto dest: row_okD simp: row_ok_def)
next
  case (15 s i u j v)
  then show ?case by (rule unique_activeD)
next
  case (16 s t k s')
  then have d: "distinct (map fst s)" and k: "k = length (filter (\<lambda>(_, u). purgeable t u) s)"
    and s': "s' = filter (\<lambda>(_, u). \<not> purgeable t u) s"
    by (auto simp: MemoryStore_def mem_PurgeDeletedBefore_def store_inv_distinct)
  then show ?case by (auto simp: mem_purge_card map_of_filter_distinct split: option.splits)
next
  case (18 s t r s')
  then show ?case
    using store_inv_step[of s parse "OpPurge t"]
    by (auto simp: MemoryStore_def split: prod.splits)
qed (auto simp: MemoryStore_def mem_GetByID_def mem_GetByEmail_iff mem_MarkEmailVerified_def
    update_active_def mem_SoftDelete_def mem_PurgeDeletedBefore_def active_def
    split: option.splits if_splits)

section \<open>Deletion, reuse and purge\<close>

lemma mem_Create_taken:
  assumes "fst (mem_Create parse p n now s) = Inl ErrEmailTaken"
  shows "\<exists>(_, v) \<in> set s. u_Email v = NormalizeEmail (p_Email p) \<and> active v"
  using assms by (auto simp: mem_Create_def Let_def split: if_splits option.splits)

text \<open>C4: soft-deleting the account an address belongs to hides it from both lookups at once and
  frees the address: no later \<open>Create\<close> for it, in any letter case, is refused as taken.\<close>

theorem soft_delete_frees_email:
  assumes "s = store_run parse ops" "mem_GetByEmail a s = Inr u"
    and "NormalizeEmail (p_Email p) = NormalizeEmail a"
  shows "\<exists>s'. mem_SoftDelete (u_ID u) t s = (None, s') \<and> mem_GetByID (u_ID u) s' = Inl ErrNotFound
     \<and> mem_GetByEmail a s' = Inl ErrNotFound
     \<and> mem_SoftDelete (u_ID u) t s' = (Some ErrAlreadyDeleted, s')
     \<and> fst (mem_Create parse p n now s') \<noteq> Inl ErrEmailTaken"
proof -
  have inv: "store_inv s" unfolding assms(1) by (rule store_inv_run)
  from assms(2) have u: "map_of s (u_ID u) = Some u" "active u" "u_Email u = NormalizeEmail a"
    by (auto simp: mem_GetByEmail_iff[OF inv])
  define s' where "s' = al_put (u_ID u) (u\<lparr>u_DeletedAt := Some t\<rparr>) s"
  have d: "mem_SoftDelete (u_ID u) t s = (None, s')"
    using u by (simp add: mem_SoftDelete_def active_def s'_def)
  then have d': "st_SoftDelete (MemoryStore parse) (u_ID u) t s = (None, s')"
    by (simp add: MemoryStore_def)
  have inv': "store_inv s'" by (rule mem.delete_inv[OF inv d'])
  have id: "mem_GetByID (u_ID u) s' = Inl ErrNotFound" by (simp add: mem_GetByID_def s'_def)
  have no: "mem_GetByEmail a s' \<noteq> Inr v" for v
    using mem.deleted_is_hidden(2)[OF inv d', of a v] u by (auto simp: MemoryStore_def)
  then have em: "mem_GetByEmail a s' = Inl ErrNotFound"
    using mem_GetByEmail_err by (cases "mem_GetByEmail a s'") auto
  have "fst (mem_Create parse p n now s') \<noteq> Inl ErrEmailTaken"
  proof
    assume "fst (mem_Create parse p n now s') = Inl ErrEmailTaken"
    from mem_Create_taken[OF this] obtain i v where "(i, v) \<in> set s'" "active v"
      "u_Email v = NormalizeEmail a" using assms(3) by auto
    then have "map_of s' i = Some v" using mem_rows[OF store_inv_distinct[OF inv']] by simp
    moreover from row_okD[OF inv' this] have "u_ID v = i" by (simp add: row_ok_def)
    ultimately have "mem_GetByEmail a s' = Inr v"
      using \<open>active v\<close> \<open>u_Email v = _\<close> by (simp add: mem_GetByEmail_iff[OF inv'])
    with no show False by blast
  qed
  with d id em show ?thesis by (auto simp: mem_SoftDelete_def s'_def)
qed

corollary soft_delete_frees_email_witness:
  "\<exists>s'. mem_SoftDelete ''u_1'' 9 [(''u_1'', first_twin)] = (None, s')
     \<and> mem_GetByEmail ''A@B.de'' s' = Inl ErrNotFound"
proof -
  have g: "mem_GetByEmail ''A@B.de'' [(''u_1'', first_twin)] = Inr first_twin"
    unfolding first_twin_def by code_simp
  from soft_delete_frees_email[OF store_run_twins[symmetric] g, of
      "\<lparr>p_Email = ''A@B.de'', p_PasswordHash = ''h'', p_Tier = [], p_Language = [], p_App = []\<rparr>" 9]
  show ?thesis by (auto simp: first_twin_def)
qed

text \<open>The daily purge with cutoff now minus the grace period removes exactly the rows soft-deleted
  more than 30 days ago, reports how many they were, keeps every other row as it is (active rows
  always), and running it again with the same cutoff removes nothing.\<close>

theorem purge_exact:
  assumes "s = store_run parse ops" "mem_PurgeDeletedBefore (now - GracePeriod) s = (k, s')"
  shows "map_of s' i = (case map_of s i of None \<Rightarrow> None | Some u \<Rightarrow>
       (case u_DeletedAt u of None \<Rightarrow> Some u
        | Some d \<Rightarrow> if now - d > 30 * 24 * 3600 * 1000000000 then None else Some u))
     \<and> length s = k + length s' \<and> mem_PurgeDeletedBefore (now - GracePeriod) s' = (0, s')"
proof -
  have inv: "store_inv s" unfolding assms(1) by (rule store_inv_run)
  have p: "st_PurgeDeletedBefore (MemoryStore parse) (now - GracePeriod) s = (Inr k, s')"
    using assms(2) by (simp add: MemoryStore_def)
  have g: "purgeable (now - GracePeriod) u \<longleftrightarrow> (case u_DeletedAt u of None \<Rightarrow> False
      | Some d \<Rightarrow> now - d > 30 * 24 * 3600 * 1000000000)" for u
    by (auto simp: purgeable_def GracePeriod_def hours_def seconds_def split: option.splits)
  have m: "map_of s' i = (case map_of s i of None \<Rightarrow> None | Some u \<Rightarrow>
       (case u_DeletedAt u of None \<Rightarrow> Some u
        | Some d \<Rightarrow> if now - d > 30 * 24 * 3600 * 1000000000 then None else Some u))"
    using mem.purge_ok[OF inv p] by (simp add: g split: option.splits)
  have s': "s' = filter (\<lambda>(_, u). \<not> purgeable (now - GracePeriod) u) s"
    and k: "k = length (filter (\<lambda>(_, u). purgeable (now - GracePeriod) u) s)"
    using assms(2) by (auto simp: mem_PurgeDeletedBefore_def)
  have "length s = k + length s'"
    unfolding s' k using sum_length_filter_compl[of "\<lambda>(_, u). purgeable (now - GracePeriod) u" s]
    by (simp add: case_prod_unfold)
  moreover have "mem_PurgeDeletedBefore (now - GracePeriod) s' = (0, s')"
    unfolding s' mem_PurgeDeletedBefore_def by (auto simp: filter_empty_conv filter_id_conv)
  ultimately show ?thesis using m by blast
qed

corollary purge_exact_witness:
  "\<exists>k s'. mem_PurgeDeletedBefore (9 - GracePeriod) [(''u_1'', first_twin)] = (k, s')
     \<and> map_of s' ''u_1'' = Some first_twin \<and> 1 = k + length s'"
proof -
  obtain k s' where p: "mem_PurgeDeletedBefore (9 - GracePeriod) [(''u_1'', first_twin)] = (k, s')"
    by fastforce
  from purge_exact[OF store_run_twins[symmetric] p, of "''u_1''"] p
  show ?thesis by (simp add: first_twin_def)
qed

end
