(* ===== verification/UsersPg.thy ===== *)
theory UsersPg
  imports Users
begin

text \<open>
  \<open>pkg/userspg\<close>: \<open>PoolStore\<close>, the Postgres implementation of \<open>users.Store\<close>, with the tables, the
  partial unique index and the primary keys of \<open>schema.sql\<close>.  A table is the association list of
  its rows under the primary key.  Every call takes \<open>flt\<close>: \<open>flt k\<close> says that the call's k-th round
  trip to the database fails, in which case the Go code returns the driver's error; an open
  transaction is then rolled back (the deferred \<open>tx.Rollback\<close>), so nothing of it is seen.
  SHA-256 is the parameter \<open>sha256\<close>.
\<close>

record audit =
  a_DeletedAt :: gotime
  a_PurgedAt :: "gotime option"

record pg =
  pg_users :: "(string \<times> user) list"
  pg_audit :: "(string \<times> audit) list"

type_synonym faults = "nat \<Rightarrow> bool"

definition hashUserID :: "(string \<Rightarrow> string) \<Rightarrow> string \<Rightarrow> string" where
  "hashUserID sha256 i = hex_encode (sha256 i)"

section \<open>The statements\<close>

definition sql_insert_user :: "user \<Rightarrow> pg \<Rightarrow> pg option" where
  \<comment> \<open>\<open>INSERT INTO users\<close>: \<open>None\<close> is a unique violation (SQLSTATE 23505), of the primary key or of
      \<open>users_email_active_idx\<close>\<close>
  "sql_insert_user u s =
     (if u_ID u \<in> fst ` set (pg_users s)
         \<or> (\<exists>(_, v) \<in> set (pg_users s). active v \<and> to_lower (u_Email v) = to_lower (u_Email u))
      then None else Some (s\<lparr>pg_users := pg_users s @ [(u_ID u, u)]\<rparr>))"

definition sql_update_active :: "string \<Rightarrow> (user \<Rightarrow> user) \<Rightarrow> pg \<Rightarrow> nat \<times> pg" where
  \<comment> \<open>\<open>UPDATE users SET ... WHERE id = $n AND deleted_at IS NULL\<close> with the rows affected\<close>
  "sql_update_active i f s =
     (length (filter (\<lambda>(k, u). k = i \<and> active u) (pg_users s)),
      s\<lparr>pg_users := map (\<lambda>(k, u). if k = i \<and> active u then (k, f u) else (k, u)) (pg_users s)\<rparr>)"

definition sql_first :: "(user \<Rightarrow> bool) \<Rightarrow> pg \<Rightarrow> user option" where
  \<comment> \<open>\<open>QueryRow\<close>: the first row of the result set\<close>
  "sql_first P s = map_option snd (find (\<lambda>(_, u). P u) (pg_users s))"

section \<open>The Store methods\<close>

definition pg_Create ::
  "faults \<Rightarrow> create_params \<Rightarrow> string option \<Rightarrow> gotime \<Rightarrow> pg \<Rightarrow> (users_error + user) \<times> pg" where
  "pg_Create flt p newid now s =
     (let email = NormalizeEmail (p_Email p);
          app = (if p_App p = [] then DefaultApp else p_App p)
      in if email = [] then (Inl ErrInvalidEmail, s)
         else if p_PasswordHash p = [] then (Inl ErrEmptyHash, s)
         else if \<not> ValidTier (p_Tier p) then (Inl ErrInvalidTier, s)
         else if \<not> ValidLang (p_Language p) then (Inl ErrInvalidLang, s)
         else if \<not> ValidApp app then (Inl ErrInvalidApp, s)
         else (case newid of None \<Rightarrow> (Inl ErrRandomness, s)
           | Some i \<Rightarrow>
               (let u = \<lparr>u_ID = i, u_Email = email, u_PasswordHash = p_PasswordHash p,
                        u_Tier = p_Tier p, u_StripeCustomerID = [], u_Language = p_Language p,
                        u_App = app, u_CreatedAt = now, u_EmailVerifiedAt = None,
                        u_DeletedAt = None, u_LastLoginAt = None\<rparr>
                in if flt 0 then (Inl ErrDriver, s)
                   else (case sql_insert_user u s of
                           None \<Rightarrow> (Inl ErrEmailTaken, s)
                         | Some s' \<Rightarrow> (Inr u, s')))))"

definition pg_GetByID :: "faults \<Rightarrow> string \<Rightarrow> pg \<Rightarrow> users_error + user" where
  "pg_GetByID flt i s =
     (if flt 0 then Inl ErrDriver
      else (case find (\<lambda>(k, u). k = i \<and> active u) (pg_users s) of
              None \<Rightarrow> Inl ErrNotFound | Some (_, u) \<Rightarrow> Inr u))"

definition pg_GetByEmail :: "faults \<Rightarrow> string \<Rightarrow> pg \<Rightarrow> users_error + user" where
  "pg_GetByEmail flt addr s =
     (let email = NormalizeEmail addr
      in if flt 0 then Inl ErrDriver
         else (case sql_first (\<lambda>u. to_lower (u_Email u) = email \<and> active u) s of
                 None \<Rightarrow> Inl ErrNotFound | Some u \<Rightarrow> Inr u))"

definition pg_update :: "faults \<Rightarrow> string \<Rightarrow> (user \<Rightarrow> user) \<Rightarrow> pg \<Rightarrow> users_error option \<times> pg" where
  \<comment> \<open>the shared shape of the four single-statement updates\<close>
  "pg_update flt i f s =
     (if flt 0 then (Some ErrDriver, s)
      else (case sql_update_active i f s of
              (n, s') \<Rightarrow> if n = 0 then (Some ErrNotFound, s') else (None, s')))"

definition pg_UpdateTier :: "faults \<Rightarrow> string \<Rightarrow> string \<Rightarrow> pg \<Rightarrow> users_error option \<times> pg" where
  "pg_UpdateTier flt i tier s =
     (if \<not> ValidTier tier then (Some ErrInvalidTier, s) else pg_update flt i (\<lambda>u. u\<lparr>u_Tier := tier\<rparr>) s)"

definition pg_UpdateStripeCustomerID ::
  "faults \<Rightarrow> string \<Rightarrow> string \<Rightarrow> pg \<Rightarrow> users_error option \<times> pg" where
  "pg_UpdateStripeCustomerID flt i stripeID s = pg_update flt i (\<lambda>u. u\<lparr>u_StripeCustomerID := stripeID\<rparr>) s"

definition pg_MarkEmailVerified :: "faults \<Rightarrow> string \<Rightarrow> gotime \<Rightarrow> pg \<Rightarrow> users_error option \<times> pg" where
  "pg_MarkEmailVerified flt i t s = pg_update flt i (\<lambda>u. u\<lparr>u_EmailVerifiedAt := Some t\<rparr>) s"

definition pg_RecordLogin :: "faults \<Rightarrow> string \<Rightarrow> gotime \<Rightarrow> pg \<Rightarrow> users_error option \<times> pg" where
  "pg_RecordLogin flt i t s = pg_update flt i (\<lambda>u. u\<lparr>u_LastLoginAt := Some t\<rparr>) s"

definition sql_upsert_audit :: "string \<Rightarrow> gotime \<Rightarrow> pg \<Rightarrow> pg" where
  \<comment> \<open>\<open>INSERT ... ON CONFLICT (id_hash) DO UPDATE SET deleted_at\<close>: \<open>purged_at\<close> is kept\<close>
  "sql_upsert_audit h t s = s\<lparr>pg_audit := al_put h
     (case map_of (pg_audit s) h of
        None \<Rightarrow> \<lparr>a_DeletedAt = t, a_PurgedAt = None\<rparr> | Some a \<Rightarrow> a\<lparr>a_DeletedAt := t\<rparr>) (pg_audit s)\<rparr>"

definition pg_SoftDelete_tx ::
  "(string \<Rightarrow> string) \<Rightarrow> faults \<Rightarrow> string \<Rightarrow> gotime \<Rightarrow> pg \<Rightarrow> users_error option \<times> pg" where
  \<comment> \<open>the transaction: Begin, UPDATE, INSERT audit, Commit; the rows affected are not looked at\<close>
  "pg_SoftDelete_tx sha256 flt i t s =
     (if flt 1 then (Some ErrDriver, s)
      else (let s1 = snd (sql_update_active i (\<lambda>u. u\<lparr>u_DeletedAt := Some t\<rparr>) s)
            in if flt 2 then (Some ErrDriver, s)
               else (let s2 = sql_upsert_audit (hashUserID sha256 i) t s1
                     in if flt 3 then (Some ErrDriver, s)
                        else if flt 4 then (Some ErrDriver, s) else (None, s2))))"

definition pg_SoftDelete ::
  "(string \<Rightarrow> string) \<Rightarrow> faults \<Rightarrow> string \<Rightarrow> gotime \<Rightarrow> pg \<Rightarrow> users_error option \<times> pg" where
  "pg_SoftDelete sha256 flt i t s =
     (if flt 0 then (Some ErrDriver, s)
      else (case map_of (pg_users s) i of
              None \<Rightarrow> (Some ErrNotFound, s)
            | Some u \<Rightarrow> if u_DeletedAt u \<noteq> None then (Some ErrAlreadyDeleted, s)
                         else pg_SoftDelete_tx sha256 flt i t s))"

definition sql_mark_purged :: "string \<Rightarrow> gotime \<Rightarrow> pg \<Rightarrow> pg" where
  "sql_mark_purged h now s = s\<lparr>pg_audit :=
     map (\<lambda>(k, a). if k = h then (k, a\<lparr>a_PurgedAt := Some now\<rparr>) else (k, a)) (pg_audit s)\<rparr>"

fun mark_purged_loop ::
  "(string \<Rightarrow> string) \<Rightarrow> faults \<Rightarrow> nat \<Rightarrow> gotime \<Rightarrow> string list \<Rightarrow> pg \<Rightarrow> pg option" where
  \<comment> \<open>the audit updates of a purge, one round trip per id; \<open>None\<close> when one of them fails\<close>
  "mark_purged_loop sha256 flt k now [] s = Some s"
| "mark_purged_loop sha256 flt k now (i # is) s =
     (if flt k then None
      else mark_purged_loop sha256 flt (Suc k) now is (sql_mark_purged (hashUserID sha256 i) now s))"

definition pg_PurgeDeletedBefore ::
  "(string \<Rightarrow> string) \<Rightarrow> faults \<Rightarrow> gotime \<Rightarrow> gotime \<Rightarrow> pg \<Rightarrow> (users_error + nat) \<times> pg" where
  \<comment> \<open>\<open>wall\<close> is \<open>time.Now()\<close>, which the method reads directly instead of the store's clock\<close>
  "pg_PurgeDeletedBefore sha256 flt wall before s =
     (if flt 0 \<or> flt 1 \<or> flt 2 then (Inl ErrDriver, s)
      else (let ids = map fst (filter (\<lambda>(_, u). purgeable before u) (pg_users s))
            in if ids = [] then (if flt 3 then (Inl ErrDriver, s) else (Inr 0, s))
               else (case mark_purged_loop sha256 flt 3 wall ids s of
                       None \<Rightarrow> (Inl ErrDriver, s)
                     | Some s1 \<Rightarrow>
                         if flt (3 + length ids) \<or> flt (4 + length ids) then (Inl ErrDriver, s)
                         else (Inr (length (filter (\<lambda>(_, u). purgeable before u) (pg_users s1))),
                               s1\<lparr>pg_users := filter (\<lambda>(_, u). \<not> purgeable before u) (pg_users s1)\<rparr>))))"

definition LookupDeletion ::
  "(string \<Rightarrow> string) \<Rightarrow> faults \<Rightarrow> string \<Rightarrow> pg \<Rightarrow> users_error + (string \<times> audit) option" where
  "LookupDeletion sha256 flt i s =
     (if flt 0 then Inl ErrDriver
      else (case map_of (pg_audit s) (hashUserID sha256 i) of
              None \<Rightarrow> Inr None | Some a \<Rightarrow> Inr (Some (hashUserID sha256 i, a))))"

definition PoolStore :: "(string \<Rightarrow> string) \<Rightarrow> faults \<Rightarrow> gotime \<Rightarrow> pg users_store" where
  "PoolStore sha256 flt wall = \<lparr>st_Create = pg_Create flt, st_GetByID = pg_GetByID flt,
     st_GetByEmail = pg_GetByEmail flt, st_UpdateTier = pg_UpdateTier flt,
     st_UpdateStripeCustomerID = pg_UpdateStripeCustomerID flt,
     st_MarkEmailVerified = pg_MarkEmailVerified flt, st_RecordLogin = pg_RecordLogin flt,
     st_SoftDelete = pg_SoftDelete sha256 flt,
     st_PurgeDeletedBefore = pg_PurgeDeletedBefore sha256 flt wall\<rparr>"

section \<open>The statements against the in-memory operations\<close>

lemma map_rows_al_put:
  "distinct (map fst m) \<Longrightarrow> map_of m i = Some u \<Longrightarrow> P u \<Longrightarrow>
   map (\<lambda>(k, v). if k = i \<and> P v then (k, f v) else (k, v)) m = al_put i (f u) m"
proof (induction m)
  case (Cons kv m)
  obtain k v where kv: "kv = (k, v)" by (cases kv)
  show ?case
  proof (cases "k = i")
    case True
    with Cons kv have "v = u" "i \<notin> fst ` set m" by auto
    then have "map (\<lambda>(k, v). if k = i \<and> P v then (k, f v) else (k, v)) m = m"
      by (intro map_idI) force
    with True kv \<open>v = u\<close> Cons show ?thesis by simp
  next
    case False
    with Cons kv show ?thesis by simp
  qed
qed simp

lemma map_rows_id:
  "(\<And>u. map_of m i = Some u \<Longrightarrow> \<not> P u) \<Longrightarrow> distinct (map fst m) \<Longrightarrow>
   map (\<lambda>(k, v). if k = i \<and> P v then (k, f v) else (k, v)) m = m"
  by (intro map_idI) (auto simp: map_of_eq_Some_iff)

lemma count_active_rows:
  "distinct (map fst m) \<Longrightarrow> length (filter (\<lambda>(k, u). k = i \<and> P u) m) =
    (case map_of m i of None \<Rightarrow> 0 | Some u \<Rightarrow> if P u then 1 else 0)"
proof (induction m)
  case (Cons kv m)
  have "map_of m (fst kv) = None" using Cons.prems by (simp add: map_of_eq_None_iff)
  with Cons show ?case by (cases kv) (auto split: option.splits)
qed simp

lemma sql_update_active_eq:
  assumes "distinct (map fst (pg_users s))"
  shows "sql_update_active i f s = (case update_active i f (pg_users s) of
     (None, us) \<Rightarrow> (1, s\<lparr>pg_users := us\<rparr>) | (Some _, us) \<Rightarrow> (0, s))"
proof (cases rule: update_active_cases[of "pg_users s" i f])
  case (hit u)
  with assms show ?thesis
    by (simp add: sql_update_active_def count_active_rows map_rows_al_put[where P = active])
next
  case missing
  then have "map (\<lambda>(k, v). if k = i \<and> active v then (k, f v) else (k, v)) (pg_users s) = pg_users s"
    using assms by (intro map_rows_id) simp_all
  with missing assms show ?thesis by (simp add: sql_update_active_def count_active_rows)
next
  case (gone u)
  then have "map (\<lambda>(k, v). if k = i \<and> active v then (k, f v) else (k, v)) (pg_users s) = pg_users s"
    using assms by (intro map_rows_id) simp_all
  with gone assms show ?thesis by (simp add: sql_update_active_def count_active_rows)
qed

definition pg_inv :: "pg \<Rightarrow> bool" where
  "pg_inv s \<longleftrightarrow> store_inv (pg_users s)"

lemma pg_inv_distinct: "pg_inv s \<Longrightarrow> distinct (map fst (pg_users s))"
  by (simp add: pg_inv_def store_inv_distinct)

lemma pg_update_eq:
  assumes "pg_inv s"
  shows "pg_update flt i f s = (if flt 0 then (Some ErrDriver, s)
     else (case update_active i f (pg_users s) of (r, us) \<Rightarrow> (r, s\<lparr>pg_users := us\<rparr>)))"
  using sql_update_active_eq[OF pg_inv_distinct[OF assms], of i f]
  by (cases rule: update_active_cases[of "pg_users s" i f]) (auto simp: pg_update_def)

lemma pg_insert_eq:
  assumes "pg_inv s" "NormalizeEmail (u_Email u) = u_Email u"
  shows "sql_insert_user u s =
    (if map_of (pg_users s) (u_ID u) \<noteq> None \<or> (\<exists>(_, v) \<in> set (pg_users s). u_Email v = u_Email u \<and> active v)
     then None else Some (s\<lparr>pg_users := al_put (u_ID u) u (pg_users s)\<rparr>))"
proof -
  have low: "to_lower (u_Email v) = u_Email v" if "NormalizeEmail (u_Email v) = u_Email v" for v
    using that by (metis NormalizeEmail_def to_lower_idem)
  have "to_lower (u_Email v) = u_Email v" if "(k, v) \<in> set (pg_users s)" for k v
    using that mem_rows[OF pg_inv_distinct[OF assms(1)]] row_okD[of "pg_users s" k v] assms(1)
    by (intro low) (auto simp: pg_inv_def row_ok_def)
  then have e: "(\<exists>(_, v) \<in> set (pg_users s). active v \<and> to_lower (u_Email v) = to_lower (u_Email u))
      \<longleftrightarrow> (\<exists>(_, v) \<in> set (pg_users s). u_Email v = u_Email u \<and> active v)"
    using low[OF assms(2)] by fastforce
  have a: "al_put (u_ID u) u m = m @ [(u_ID u, u)]" if "u_ID u \<notin> fst ` set m" for m :: "(string \<times> user) list"
    using that by (induction "u_ID u" u m rule: al_put.induct) auto
  show ?thesis unfolding sql_insert_user_def e
    using a[of "pg_users s"] map_of_eq_None_iff[of "pg_users s" "u_ID u"] by auto
qed

lemma pg_first_eq:
  assumes "pg_inv s"
  shows "(find (\<lambda>(k, u). k = i \<and> active u) (pg_users s)) =
    (case map_of (pg_users s) i of None \<Rightarrow> None | Some u \<Rightarrow> if active u then Some (i, u) else None)"
  using pg_inv_distinct[OF assms]
proof (induction "pg_users s" arbitrary: s)
  case (Cons kv m)
  have "map_of m (fst kv) = None" using Cons.prems Cons.hyps(2)[symmetric] by (simp add: map_of_eq_None_iff)
  moreover have "pg_users (s\<lparr>pg_users := m\<rparr>) = m" by simp
  ultimately show ?case using Cons.hyps(1)[of "s\<lparr>pg_users := m\<rparr>"] Cons.prems
      Cons.hyps(2)[symmetric] by (cases kv) (auto split: option.splits)
qed simp

lemma pg_GetByID_eq:
  "pg_inv s \<Longrightarrow> pg_GetByID flt i s = (if flt 0 then Inl ErrDriver else mem_GetByID i (pg_users s))"
  by (simp only: pg_GetByID_def pg_first_eq)
    (auto simp: mem_GetByID_def active_def split: option.splits)

lemma pg_GetByEmail_eq:
  assumes "pg_inv s"
  shows "pg_GetByEmail flt a s = (if flt 0 then Inl ErrDriver else mem_GetByEmail a (pg_users s))"
proof (cases "sql_first (\<lambda>u. to_lower (u_Email u) = NormalizeEmail a \<and> active u) s")
  have inv: "store_inv (pg_users s)" using assms by (simp add: pg_inv_def)
  have row: "map_of (pg_users s) k = Some v \<and> u_ID v = k \<and> to_lower (u_Email v) = u_Email v"
    if "(k, v) \<in> set (pg_users s)" for k v
  proof -
    have m: "map_of (pg_users s) k = Some v" using that mem_rows[OF store_inv_distinct[OF inv]] by simp
    then have "row_ok k v" by (rule row_okD[OF inv])
    with m show ?thesis unfolding row_ok_def by (metis NormalizeEmail_def to_lower_idem)
  qed
  {
    case None
    then have n: "\<forall>(k, v) \<in> set (pg_users s). u_Email v = NormalizeEmail a \<longrightarrow> \<not> active v"
      using row by (fastforce simp: sql_first_def find_None_iff)
    have "mem_GetByEmail a (pg_users s) \<noteq> Inr u" for u
      using n mem_rows[OF store_inv_distinct[OF inv], of "u_ID u" u]
      by (auto simp: mem_GetByEmail_iff[OF inv])
    then have "mem_GetByEmail a (pg_users s) = Inl ErrNotFound"
      using mem_GetByEmail_err by (cases "mem_GetByEmail a (pg_users s)") auto
    with None show ?thesis by (simp add: pg_GetByEmail_def)
  next
    case (Some u)
    then obtain k where k: "(k, u) \<in> set (pg_users s)"
      and u: "to_lower (u_Email u) = NormalizeEmail a" "active u"
      by (auto simp: sql_first_def find_Some_iff dest!: nth_mem)
    with row[OF k] have "mem_GetByEmail a (pg_users s) = Inr u"
      by (simp add: mem_GetByEmail_iff[OF inv])
    with Some show ?thesis by (simp add: pg_GetByEmail_def)
  }
qed

lemma pg_Create_eq:
  assumes "pg_inv s" "validEmail parse (NormalizeEmail (p_Email p))" "\<not> flt 0"
    and "\<And>i. n = Some i \<Longrightarrow> map_of (pg_users s) i = None"
  shows "pg_Create flt p n t s = (case mem_Create parse p n t (pg_users s) of
    (r, us) \<Rightarrow> (r, s\<lparr>pg_users := us\<rparr>))"
proof -
  have "NormalizeEmail (p_Email p) \<noteq> []" using assms(2) by (auto simp: validEmail_def)
  then show ?thesis using assms
    by (auto simp: pg_Create_def mem_Create_def Let_def pg_insert_eq split: option.splits)
qed

lemma pg_Create_cases:
  assumes "pg_inv s" "pg_Create flt p n t s = (r, s')"
  obtains (fails) e where "r = Inl e" "s' = s"
  | (made) u where "n = Some (u_ID u)" "r = Inr u" "s' = s\<lparr>pg_users := al_put (u_ID u) u (pg_users s)\<rparr>"
      "row_ok (u_ID u) u" "active u" "map_of (pg_users s) (u_ID u) = None"
      "u_Email u = NormalizeEmail (p_Email p)" "u_PasswordHash u = p_PasswordHash p"
      "u_Tier u = p_Tier p" "u_EmailVerifiedAt u = None"
      "\<forall>(j, v) \<in> set (pg_users s). u_Email v = u_Email u \<longrightarrow> \<not> active v"
proof (cases r)
  case (Inl e)
  with assms(2) have "s' = s" by (auto simp: pg_Create_def Let_def split: if_splits option.splits)
  with Inl show ?thesis by (rule fails)
next
  case (Inr u)
  have n: "n = Some (u_ID u)" and u: "row_ok (u_ID u) u" "active u"
      "u_Email u = NormalizeEmail (p_Email p)" "u_PasswordHash u = p_PasswordHash p"
      "u_Tier u = p_Tier p" "u_EmailVerifiedAt u = None"
    and i: "sql_insert_user u s = Some s'"
    using assms(2) Inr
    by (auto simp: pg_Create_def Let_def row_ok_def active_def split: if_splits option.splits)
  have "map_of (pg_users s) (u_ID u) = None
      \<and> \<not> (\<exists>(_, v) \<in> set (pg_users s). u_Email v = u_Email u \<and> active v)
      \<and> s' = s\<lparr>pg_users := al_put (u_ID u) u (pg_users s)\<rparr>"
    using i u unfolding pg_insert_eq[OF assms(1), of u, unfolded u(3) NormalizeEmail_idem, OF refl]
    by (auto split: if_splits)
  with n u Inr show ?thesis by (intro made[of u]) auto
qed

lemma pg_inv_Create:
  assumes "pg_inv s" "pg_Create flt p n t s = (r, s')"
  shows "pg_inv s'"
  using assms
proof (cases rule: pg_Create_cases)
  case (made u)
  then have "store_inv (al_put (u_ID u) u (pg_users s))"
    using assms(1) by (intro store_inv_put) (auto simp: pg_inv_def dest!: map_of_SomeD)
  with made show ?thesis by (simp add: pg_inv_def)
qed (use assms in simp)

lemma pg_inv_update:
  assumes "pg_inv s"
    and "\<And>u. row_ok i u \<Longrightarrow> row_ok i (f u) \<and> u_Email (f u) = u_Email u \<and> active (f u) = active u"
  shows "pg_inv (snd (pg_update flt i f s))"
proof -
  have "store_inv (snd (update_active i f (pg_users s)))"
    using assms by (intro store_inv_update_active) (simp_all add: pg_inv_def)
  with assms(1) show ?thesis
    unfolding pg_update_eq[OF assms(1)] by (cases "update_active i f (pg_users s)") (simp add: pg_inv_def)
qed

lemma pg_SoftDelete_eq:
  assumes "pg_inv s"
  shows "pg_SoftDelete sha flt i t s =
    (if flt 0 then (Some ErrDriver, s)
     else (case mem_SoftDelete i t (pg_users s) of
       (Some e, _) \<Rightarrow> (Some e, s)
     | (None, us) \<Rightarrow> if flt 1 \<or> flt 2 \<or> flt 3 \<or> flt 4 then (Some ErrDriver, s)
                      else (None, sql_upsert_audit (hashUserID sha i) t (s\<lparr>pg_users := us\<rparr>))))"
proof (cases "map_of (pg_users s) i")
  case (Some u)
  then show ?thesis using sql_update_active_eq[OF pg_inv_distinct[OF assms], of i "\<lambda>u. u\<lparr>u_DeletedAt := Some t\<rparr>"]
    by (auto simp: pg_SoftDelete_def pg_SoftDelete_tx_def mem_SoftDelete_def update_active_def Let_def)
qed (simp add: pg_SoftDelete_def mem_SoftDelete_def)

lemma pg_users_upsert [simp]: "pg_users (sql_upsert_audit h t s) = pg_users s"
  by (simp add: sql_upsert_audit_def)

lemma mark_purged_loop_users:
  "mark_purged_loop sha flt k now is s = Some s' \<Longrightarrow> pg_users s' = pg_users s"
  by (induction sha flt k now "is" s rule: mark_purged_loop.induct)
    (auto simp: sql_mark_purged_def split: if_splits)

lemma mark_purged_loop_nofault:
  "(\<And>j. \<not> flt j) \<Longrightarrow> mark_purged_loop sha flt k now is s \<noteq> None"
  by (induction sha flt k now "is" s rule: mark_purged_loop.induct) auto

lemma pg_Purge_cases:
  assumes "pg_PurgeDeletedBefore sha flt wall before s = (r, s')"
  obtains (fails) "r = Inl ErrDriver" "s' = s" "\<exists>j. flt j"
  | (none) "r = Inr 0" "s' = s" "filter (\<lambda>(_, u). purgeable before u) (pg_users s) = []"
  | (purged) s1 where
      "mark_purged_loop sha flt 3 wall (map fst (filter (\<lambda>(_, u). purgeable before u) (pg_users s))) s = Some s1"
      "r = Inr (fst (mem_PurgeDeletedBefore before (pg_users s)))"
      "s' = s1\<lparr>pg_users := snd (mem_PurgeDeletedBefore before (pg_users s))\<rparr>"
proof -
  let ?ids = "map fst (filter (\<lambda>(_, u). purgeable before u) (pg_users s))"
  show ?thesis
  proof (cases "flt 0 \<or> flt 1 \<or> flt 2 \<or> ?ids = []")
    case True
    then show ?thesis using assms fails none
      by (cases "flt 0 \<or> flt 1 \<or> flt 2") (auto simp: pg_PurgeDeletedBefore_def Let_def split: if_splits)
  next
    case False
    show ?thesis
    proof (cases "mark_purged_loop sha flt 3 wall ?ids s")
      case None
      with assms False mark_purged_loop_nofault[of flt sha 3 wall ?ids s] show ?thesis
        by (intro fails) (auto simp: pg_PurgeDeletedBefore_def Let_def)
    next
      case (Some s1)
      note u = mark_purged_loop_users[OF Some]
      show ?thesis
      proof (cases "flt (3 + length ?ids) \<or> flt (4 + length ?ids)")
        case True
        with assms False Some have "r = Inl ErrDriver" "s' = s"
          by (auto simp: pg_PurgeDeletedBefore_def Let_def)
        with True show ?thesis by (intro fails) blast+
      next
        case nf: False
        have "r = Inr (fst (mem_PurgeDeletedBefore before (pg_users s)))"
          "s' = s1\<lparr>pg_users := snd (mem_PurgeDeletedBefore before (pg_users s))\<rparr>"
          using assms False Some nf u
          by (auto simp: pg_PurgeDeletedBefore_def mem_PurgeDeletedBefore_def Let_def)
        with Some show ?thesis by (rule purged)
      qed
    qed
  qed
qed

lemma purge_nothing:
  "filter (\<lambda>(_, u). P u) s = [] \<Longrightarrow> filter (\<lambda>(_, u). \<not> P u) s = s"
  by (auto simp: filter_empty_conv filter_id_conv)

lemma pg_Purge_users:
  assumes "pg_PurgeDeletedBefore sha flt wall before s = (Inr k, s')"
  shows "mem_PurgeDeletedBefore before (pg_users s) = (k, pg_users s')"
  using assms
proof (cases rule: pg_Purge_cases)
  case none
  then show ?thesis by (simp add: mem_PurgeDeletedBefore_def purge_nothing)
qed auto

lemma pg_inv_Purge:
  assumes "pg_inv s" "pg_PurgeDeletedBefore sha flt wall before s = (r, s')"
  shows "pg_inv s'"
proof (cases r)
  case (Inl e)
  from assms(2)[unfolded this] have "s' = s" by (cases rule: pg_Purge_cases) auto
  with assms show ?thesis by simp
next
  case (Inr k)
  from pg_Purge_users[OF assms(2)[unfolded this]]
  have "pg_users s' = filter (\<lambda>(_, u). \<not> purgeable before u) (pg_users s)"
    by (simp add: mem_PurgeDeletedBefore_def)
  with assms(1) show ?thesis by (simp add: pg_inv_def store_inv_filter)
qed

lemma pg_inv_step:
  assumes "pg_inv s"
  shows "pg_inv (snd (op_on (PoolStore sha flt wall) op s))"
proof (cases op)
  case (OpCreate p n t)
  then show ?thesis using pg_inv_Create[OF assms]
    by (cases "pg_Create flt p n t s") (simp add: PoolStore_def)
next
  case (OpSoftDelete i t)
  then show ?thesis using assms store_inv_SoftDelete[of "pg_users s" i t]
    by (auto simp: PoolStore_def pg_SoftDelete_eq pg_inv_def split: prod.splits option.splits)
next
  case (OpPurge t)
  then show ?thesis using pg_inv_Purge[OF assms]
    by (cases "pg_PurgeDeletedBefore sha flt wall t s") (simp add: PoolStore_def)
qed (use assms in \<open>auto intro!: pg_inv_update simp: PoolStore_def pg_UpdateTier_def
    pg_UpdateStripeCustomerID_def pg_MarkEmailVerified_def pg_RecordLogin_def row_ok_def active_def\<close>)

interpretation pg: user_store "PoolStore sha256 flt wall" pg_inv "\<lambda>s. map_of (pg_users s)"
proof (unfold_locales, goal_cases)
  case (1 p n t s e s')
  then show ?case
    by (auto simp: PoolStore_def pg_Create_def Let_def split: if_splits option.splits)
next
  case (2 s p n t u s')
  then have "pg_Create flt p n t s = (Inr u, s')" by (simp add: PoolStore_def)
  with 2(1) show ?case
  proof (cases rule: pg_Create_cases)
    case (made v)
    then show ?thesis using mem_rows[OF pg_inv_distinct[OF 2(1)]] by auto
  qed simp
next
  case (3 s p n t r s')
  then show ?case by (auto simp: PoolStore_def intro: pg_inv_Create)
next
  case (4 s i u)
  then show ?case
    by (auto simp: PoolStore_def pg_GetByID_eq mem_GetByID_def active_def split: if_splits option.splits)
next
  case (5 s i u)
  then show ?case
    by (auto simp: PoolStore_def pg_GetByID_eq mem_GetByID_def active_def split: if_splits option.splits)
next
  case (6 s a u)
  then have "store_inv (pg_users s)" by (simp add: pg_inv_def)
  with 6 mem_GetByEmail_iff show ?case
    by (auto simp: PoolStore_def pg_GetByEmail_eq split: if_splits)
next
  case (7 s a i u)
  then have "store_inv (pg_users s)" by (simp add: pg_inv_def)
  with 7 mem.get_email_none[where s = "pg_users s" and a = a and i = i and u = u] show ?case
    by (auto simp: PoolStore_def MemoryStore_def pg_GetByEmail_eq split: if_splits)
next
  case (8 s i t s')
  then show ?case
    by (cases "map_of (pg_users s) i")
      (auto simp: PoolStore_def pg_MarkEmailVerified_def pg_update_eq update_active_def active_def
        split: if_splits)
next
  case (9 s i t e s')
  then show ?case
    by (cases "map_of (pg_users s) i")
      (auto simp: PoolStore_def pg_MarkEmailVerified_def pg_update_eq update_active_def active_def
        split: if_splits)
next
  case (10 s i t r s')
  then show ?case using pg_inv_step[of s sha256 flt wall "OpMarkVerified i t"] by simp
next
  case (11 s i t s')
  then show ?case
    by (auto simp: PoolStore_def pg_SoftDelete_eq mem_SoftDelete_def active_def
        split: if_splits option.splits prod.splits)
next
  case (12 s i t e s')
  then show ?case
    by (auto simp: PoolStore_def pg_SoftDelete_eq mem_SoftDelete_def
        split: if_splits option.splits prod.splits)
next
  case (13 s i t r s')
  then show ?case using pg_inv_step[of s sha256 flt wall "OpSoftDelete i t"] by simp
next
  case (14 s i u)
  then show ?case by (auto simp: pg_inv_def row_ok_def dest: row_okD)
next
  case (15 s i u j v)
  then show ?case unfolding pg_inv_def by (rule unique_activeD)
next
  case (16 s t k s')
  then have "st_PurgeDeletedBefore (MemoryStore (\<lambda>_. True)) t (pg_users s) = (Inr k, pg_users s')"
    by (simp add: PoolStore_def MemoryStore_def pg_Purge_users)
  with 16(1) show ?case unfolding pg_inv_def by (intro mem.purge_ok)
next
  case (17 t s e s')
  then have "pg_PurgeDeletedBefore sha256 flt wall t s = (Inl e, s')" by (simp add: PoolStore_def)
  then show ?case by (cases rule: pg_Purge_cases) auto
next
  case (18 s t r s')
  then show ?case using pg_inv_step[of s sha256 flt wall "OpPurge t"] by simp
qed

section \<open>PoolStore refines MemoryStore\<close>

definition no_faults :: faults where
  "no_faults = (\<lambda>_. False)"

definition op_admissible :: "(string \<Rightarrow> bool) \<Rightarrow> mem_store \<Rightarrow> store_op \<Rightarrow> bool" where
  \<comment> \<open>a \<open>Create\<close> carries a valid address and \<open>NewID\<close> does not repeat an id in use\<close>
  "op_admissible parse s op = (case op of
     OpCreate p n t \<Rightarrow> validEmail parse (NormalizeEmail (p_Email p))
       \<and> (case n of None \<Rightarrow> True | Some i \<Rightarrow> map_of s i = None)
   | _ \<Rightarrow> True)"

fun admissible :: "(string \<Rightarrow> bool) \<Rightarrow> mem_store \<Rightarrow> store_op list \<Rightarrow> bool" where
  "admissible parse s [] = True"
| "admissible parse s (op # ops) =
     (op_admissible parse s op \<and> admissible parse (store_step parse s op) ops)"

fun outs_on :: "'s users_store \<Rightarrow> store_op list \<Rightarrow> 's \<Rightarrow> store_out list" where
  "outs_on st [] s = []"
| "outs_on st (op # ops) s = (case op_on st op s of (r, s') \<Rightarrow> r # outs_on st ops s')"

fun end_on :: "'s users_store \<Rightarrow> store_op list \<Rightarrow> 's \<Rightarrow> 's" where
  "end_on st [] s = s"
| "end_on st (op # ops) s = end_on st ops (snd (op_on st op s))"

definition pg_empty :: pg where
  "pg_empty = \<lparr>pg_users = [], pg_audit = []\<rparr>"

lemma pg_inv_empty [simp]: "pg_inv pg_empty"
  by (simp add: pg_inv_def pg_empty_def flip: NewMemoryStore_def)

lemma pg_Purge_nofault:
  assumes "pg_PurgeDeletedBefore sha no_faults wall t s = (r, s')"
  shows "r = Inr (fst (mem_PurgeDeletedBefore t (pg_users s)))
    \<and> pg_users s' = snd (mem_PurgeDeletedBefore t (pg_users s))"
  using assms
proof (cases rule: pg_Purge_cases)
  case none
  then show ?thesis by (simp add: mem_PurgeDeletedBefore_def purge_nothing)
qed (auto simp: no_faults_def)

lemma pg_step_refines:
  assumes "pg_inv s" "op_admissible parse (pg_users s) op"
    and "op_on (PoolStore sha no_faults wall) op s = (r, s')"
  shows "op_on (MemoryStore parse) op (pg_users s) = (r, pg_users s')"
proof (cases op)
  case (OpCreate p n t)
  then have "pg_Create no_faults p n t s = (case mem_Create parse p n t (pg_users s) of
    (r, us) \<Rightarrow> (r, s\<lparr>pg_users := us\<rparr>))"
    using assms(2) by (intro pg_Create_eq[OF assms(1)])
      (auto simp: op_admissible_def no_faults_def split: option.splits)
  with assms(3) OpCreate show ?thesis
    by (auto simp: PoolStore_def MemoryStore_def split: prod.splits)
next
  case (OpSoftDelete i t)
  with assms(1,3) show ?thesis
    by (auto simp: PoolStore_def MemoryStore_def pg_SoftDelete_eq no_faults_def mem_SoftDelete_def
        split: option.splits if_splits)
next
  case (OpPurge t)
  obtain r0 s0 where p: "pg_PurgeDeletedBefore sha no_faults wall t s = (r0, s0)" by fastforce
  with assms(3) OpPurge have "r = OCount r0" "s' = s0" by (simp_all add: PoolStore_def)
  with pg_Purge_nofault[OF p] OpPurge show ?thesis
    by (simp add: MemoryStore_def split_beta)
qed (use assms(1,3) in \<open>auto simp: PoolStore_def MemoryStore_def pg_UpdateTier_def mem_UpdateTier_def
    pg_UpdateStripeCustomerID_def mem_UpdateStripeCustomerID_def pg_MarkEmailVerified_def
    mem_MarkEmailVerified_def pg_RecordLogin_def mem_RecordLogin_def pg_update_eq no_faults_def
    split: prod.splits if_splits\<close>)

lemma pg_run_refines:
  assumes "pg_inv s" "admissible parse (pg_users s) ops"
  shows "outs_on (PoolStore sha no_faults wall) ops s = outs_on (MemoryStore parse) ops (pg_users s)
    \<and> pg_users (end_on (PoolStore sha no_faults wall) ops s) = end_on (MemoryStore parse) ops (pg_users s)
    \<and> pg_inv (end_on (PoolStore sha no_faults wall) ops s)"
  using assms
proof (induction ops arbitrary: s)
  case (Cons op ops)
  obtain r s' where o: "op_on (PoolStore sha no_faults wall) op s = (r, s')" by fastforce
  have m: "op_on (MemoryStore parse) op (pg_users s) = (r, pg_users s')"
    using Cons.prems by (intro pg_step_refines[OF Cons.prems(1) _ o]) simp
  have "pg_inv s'" using pg_inv_step[OF Cons.prems(1), of sha no_faults wall op] o by simp
  moreover have "admissible parse (pg_users s') ops"
    using Cons.prems(2) op_on_memory[of parse op "pg_users s"] m by simp
  ultimately show ?case using Cons.IH[of s'] o m by simp
qed simp



section \<open>The deletion audit\<close>

definition pg_step ::
  "(string \<Rightarrow> string) \<Rightarrow> faults \<times> gotime \<times> store_op \<Rightarrow> pg \<times> string list \<Rightarrow> pg \<times> string list" where
  \<comment> \<open>one call with its own faults and wall clock; the second component is the history of ids whose
      \<open>SoftDelete\<close> returned \<open>nil\<close>\<close>
  "pg_step sha256 c sd = (case (c, sd) of ((flt, wall, op), (s, ds)) \<Rightarrow>
     (case op_on (PoolStore sha256 flt wall) op s of
        (r, s') \<Rightarrow> (s', case op of OpSoftDelete i t \<Rightarrow> if r = OErr None then i # ds else ds | _ \<Rightarrow> ds)))"

definition pg_run :: "(string \<Rightarrow> string) \<Rightarrow> (faults \<times> gotime \<times> store_op) list \<Rightarrow> pg \<times> string list" where
  "pg_run sha256 cs = fold (pg_step sha256) cs (pg_empty, [])"

definition stamped :: "pg \<Rightarrow> string \<Rightarrow> bool" where
  "stamped s h \<longleftrightarrow> (\<exists>a. map_of (pg_audit s) h = Some a \<and> a_PurgedAt a \<noteq> None)"

definition audit_inv :: "(string \<Rightarrow> string) \<Rightarrow> pg \<Rightarrow> string list \<Rightarrow> bool" where
  "audit_inv sha256 s ds \<longleftrightarrow> pg_inv s
     \<and> dom (map_of (pg_audit s)) = hashUserID sha256 ` set ds
     \<and> (\<forall>i u. map_of (pg_users s) i = Some u \<longrightarrow> \<not> active u \<longrightarrow> i \<in> set ds)
     \<and> (\<forall>i \<in> set ds. map_of (pg_users s) i = None \<longrightarrow>
          stamped s (hashUserID sha256 i))"

lemma map_of_mark_purged:
  "map_of (pg_audit (sql_mark_purged h now s)) k =
    (case map_of (pg_audit s) k of None \<Rightarrow> None
     | Some a \<Rightarrow> Some (if k = h then a\<lparr>a_PurgedAt := Some now\<rparr> else a))"
proof -
  have "map_of (map (\<lambda>(k, a). if k = h then (k, a\<lparr>a_PurgedAt := Some now\<rparr>) else (k, a)) m) k =
    (case map_of m k of None \<Rightarrow> None | Some a \<Rightarrow> Some (if k = h then a\<lparr>a_PurgedAt := Some now\<rparr> else a))"
    for m :: "(string \<times> audit) list"
    by (induction m) (auto split: option.splits)
  then show ?thesis by (simp add: sql_mark_purged_def)
qed

lemma dom_mark_purged: "dom (map_of (pg_audit (sql_mark_purged h now s))) = dom (map_of (pg_audit s))"
  by (auto simp: dom_def map_of_mark_purged split: option.splits)

lemma mark_purged_loop_dom:
  "mark_purged_loop sha256 flt k now is s = Some s' \<Longrightarrow>
   dom (map_of (pg_audit s')) = dom (map_of (pg_audit s))"
  by (induction sha256 flt k now "is" s rule: mark_purged_loop.induct)
    (auto simp: dom_mark_purged split: if_splits)

lemma stamped_mark_purged:
  "stamped (sql_mark_purged h now s) k \<longleftrightarrow> stamped s k \<or> k = h \<and> h \<in> dom (map_of (pg_audit s))"
  by (cases "map_of (pg_audit s) k") (auto simp: stamped_def map_of_mark_purged)

lemma mark_purged_loop_stamped:
  "mark_purged_loop sha256 flt k now is s = Some s' \<Longrightarrow>
   stamped s' h \<longleftrightarrow> stamped s h \<or> h \<in> hashUserID sha256 ` set is \<and> h \<in> dom (map_of (pg_audit s))"
proof (induction sha256 flt k now "is" s rule: mark_purged_loop.induct)
  case (2 sha256 flt k now j js s)
  then have "stamped s' h \<longleftrightarrow> stamped (sql_mark_purged (hashUserID sha256 j) now s) h
      \<or> h \<in> hashUserID sha256 ` set js \<and> h \<in> dom (map_of (pg_audit s))"
    by (simp add: dom_mark_purged split: if_splits)
  then show ?case by (auto simp: stamped_mark_purged)
qed simp

lemma audit_inv_Purge:
  assumes inv: "audit_inv sha256 s ds"
    and p: "pg_PurgeDeletedBefore sha256 flt wall before s = (r, s')"
  shows "audit_inv sha256 s' ds"
  using p
proof (cases rule: pg_Purge_cases)
  case (purged s1)
  let ?ids = "map fst (filter (\<lambda>(_, u). purgeable before u) (pg_users s))"
  have d: "distinct (map fst (pg_users s))" using inv by (simp add: audit_inv_def pg_inv_distinct)
  have a: "pg_audit s' = pg_audit s1" using purged by simp
  have u: "map_of (pg_users s') i = (case map_of (pg_users s) i of None \<Rightarrow> None
      | Some u \<Rightarrow> if purgeable before u then None else Some u)" for i
    using d purged(3) by (simp add: mem_PurgeDeletedBefore_def map_of_filter_distinct split: option.splits)
  have st: "stamped s' h \<longleftrightarrow> stamped s h \<or> h \<in> hashUserID sha256 ` set ?ids \<and> h \<in> dom (map_of (pg_audit s))"
    for h using mark_purged_loop_stamped[OF purged(1)] a by (simp add: stamped_def)
  have dom: "dom (map_of (pg_audit s')) = dom (map_of (pg_audit s))"
    using mark_purged_loop_dom[OF purged(1)] a by simp
  have "stamped s' (hashUserID sha256 i)" if "i \<in> set ds" "map_of (pg_users s') i = None" for i
  proof (cases "map_of (pg_users s) i")
    case None
    with that inv show ?thesis by (auto simp: audit_inv_def st)
  next
    case (Some v)
    with that u have "purgeable before v" by (auto split: if_splits)
    with Some have "i \<in> set ?ids" using mem_rows[OF d] by force
    moreover have "hashUserID sha256 i \<in> dom (map_of (pg_audit s))"
      using that inv by (auto simp: audit_inv_def)
    ultimately show ?thesis unfolding st by blast
  qed
  moreover have "pg_inv s'" using inv p by (auto simp: audit_inv_def intro: pg_inv_Purge)
  ultimately show ?thesis using inv dom u
    by (auto simp: audit_inv_def split: option.splits if_splits)
qed (use inv in auto)

lemma stamped_upsert: "stamped s h \<Longrightarrow> stamped (sql_upsert_audit k t s) h"
  by (auto simp: stamped_def sql_upsert_audit_def split: option.splits)

lemma dom_upsert: "dom (map_of (pg_audit (sql_upsert_audit k t s))) = insert k (dom (map_of (pg_audit s)))"
  by (auto simp: sql_upsert_audit_def)

lemma audit_inv_SoftDelete:
  assumes inv: "audit_inv sha256 s ds" and d: "pg_SoftDelete sha256 flt i t s = (r, s')"
  shows "audit_inv sha256 s' (if r = None then i # ds else ds)"
proof (cases r)
  case (Some e)
  have "s' = s" using d Some inv
    by (auto simp: audit_inv_def pg_SoftDelete_eq mem_SoftDelete_def split: if_splits option.splits prod.splits)
  with inv Some show ?thesis by simp
next
  case None
  then obtain us where us: "mem_SoftDelete i t (pg_users s) = (None, us)"
    and s': "s' = sql_upsert_audit (hashUserID sha256 i) t (s\<lparr>pg_users := us\<rparr>)"
    using d inv by (auto simp: audit_inv_def pg_SoftDelete_eq split: if_splits option.splits prod.splits)
  from us obtain u where u: "map_of (pg_users s) i = Some u" "us = al_put i (u\<lparr>u_DeletedAt := Some t\<rparr>) (pg_users s)"
    by (auto simp: mem_SoftDelete_def split: if_splits option.splits)
  have "pg_inv s'" using pg_inv_step[of s sha256 flt t "OpSoftDelete i t"] inv d
    by (simp add: audit_inv_def PoolStore_def)
  moreover have "stamped s h \<Longrightarrow> stamped s' h" for h
    unfolding s' by (rule stamped_upsert) (simp add: stamped_def)
  moreover have "dom (map_of (pg_audit s')) = hashUserID sha256 ` set (i # ds)"
    using inv by (simp add: s' dom_upsert audit_inv_def)
  moreover have "map_of (pg_users s') = (map_of (pg_users s))(i \<mapsto> u\<lparr>u_DeletedAt := Some t\<rparr>)"
    by (simp add: s' u)
  ultimately show ?thesis using inv None by (auto simp: audit_inv_def)
qed

lemma audit_inv_update:
  assumes inv: "audit_inv sha256 s ds" and "pg_inv (snd (pg_update flt i f s))"
    and f: "\<And>u. active (f u) = active u"
  shows "audit_inv sha256 (snd (pg_update flt i f s)) ds"
proof -
  have p: "pg_inv s" using inv by (simp add: audit_inv_def)
  show ?thesis
  proof (cases "flt 0")
    case False
    then have a: "pg_audit (snd (pg_update flt i f s)) = pg_audit s"
      and u: "pg_users (snd (pg_update flt i f s)) = snd (update_active i f (pg_users s))"
      by (simp_all add: pg_update_eq[OF p] split_beta)
    show ?thesis using assms(1,2) unfolding audit_inv_def stamped_def a u
      by (cases rule: update_active_cases[of "pg_users s" i f]) (auto simp: f split: if_splits)
  qed (use inv in \<open>simp add: pg_update_eq[OF p]\<close>)
qed

lemma audit_inv_Create:
  assumes inv: "audit_inv sha256 s ds" and c: "pg_Create flt p n t s = (r, s')"
  shows "audit_inv sha256 s' ds"
proof -
  have p: "pg_inv s" using inv by (simp add: audit_inv_def)
  from p c show ?thesis
  proof (cases rule: pg_Create_cases)
    case (made u)
    with inv pg_inv_Create[OF p c] show ?thesis
      by (auto simp: audit_inv_def stamped_def split: if_splits)
  qed (use inv in simp)
qed

lemma audit_inv_step:
  assumes "audit_inv sha256 s ds"
  shows "case pg_step sha256 c (s, ds) of (s', ds') \<Rightarrow> audit_inv sha256 s' ds'"
proof -
  obtain flt wall op where c: "c = (flt, wall, op)" by (metis prod_cases3)
  have p: "pg_inv s" using assms by (simp add: audit_inv_def)
  note inv' = pg_inv_step[OF p, of sha256 flt wall op]
  show ?thesis
  proof (cases op)
    case (OpCreate q n t)
    then show ?thesis using audit_inv_Create[OF assms, of flt q n t]
      by (cases "pg_Create flt q n t s") (simp add: c pg_step_def PoolStore_def)
  next
    case (OpSoftDelete i t)
    then show ?thesis using audit_inv_SoftDelete[OF assms, of flt i t]
      by (cases "pg_SoftDelete sha256 flt i t s") (simp add: c pg_step_def PoolStore_def)
  next
    case (OpPurge t)
    then show ?thesis using audit_inv_Purge[OF assms, of flt wall t]
      by (cases "pg_PurgeDeletedBefore sha256 flt wall t s") (simp add: c pg_step_def PoolStore_def)
  next
    case (OpUpdateTier i tier)
    then show ?thesis using assms inv' audit_inv_update[OF assms]
      by (cases "ValidTier tier") (simp_all add: c pg_step_def PoolStore_def split_beta
        pg_UpdateTier_def active_def)
  qed (use assms inv' audit_inv_update[OF assms] in \<open>simp_all add: c pg_step_def PoolStore_def split_beta
      pg_UpdateTier_def pg_UpdateStripeCustomerID_def pg_MarkEmailVerified_def pg_RecordLogin_def active_def\<close>)
qed

lemma audit_inv_run: "pg_run sha256 cs = (s, ds) \<Longrightarrow> audit_inv sha256 s ds"
proof -
  have "audit_inv sha256 s ds \<Longrightarrow> fold (pg_step sha256) cs (s, ds) = (s', ds') \<Longrightarrow> audit_inv sha256 s' ds'"
    for s ds s' ds'
  proof (induction cs arbitrary: s ds)
    case (Cons c cs)
    obtain s1 ds1 where "pg_step sha256 c (s, ds) = (s1, ds1)" by fastforce
    with Cons audit_inv_step[OF Cons.prems(1), of c] show ?case by simp
  qed simp
  moreover have "audit_inv sha256 pg_empty []"
    by (simp add: audit_inv_def) (simp add: pg_empty_def)
  ultimately show "pg_run sha256 cs = (s, ds) \<Longrightarrow> audit_inv sha256 s ds"
    unfolding pg_run_def by blast
qed


definition delete_and_purge :: "(faults \<times> gotime \<times> store_op) list" where
  "delete_and_purge = [(no_faults, 0, hd twin_signups), (no_faults, 0, OpSoftDelete ''u_1'' 9),
     (no_faults, 50, OpPurge 20)]"


lemma soft_delete_race:
  \<comment> \<open>two concurrent \<open>SoftDelete\<close> calls for one row, the second past its check when the first commits:
      both report success, and the audit row then shows another time than the users row\<close>
  assumes "pg_inv s" "map_of (pg_users s) i = Some u" "active u" "t1 \<noteq> t2"
    and "pg_SoftDelete sha256 no_faults i t1 s = (r1, s1)"
    and "pg_SoftDelete_tx sha256 no_faults i t2 s1 = (r2, s2)"
  shows "r1 = None \<and> r2 = None
    \<and> (\<exists>v a. map_of (pg_users s2) i = Some v \<and> u_DeletedAt v = Some t1
        \<and> map_of (pg_audit s2) (hashUserID sha256 i) = Some a \<and> a_DeletedAt a = t2 \<and> t1 \<noteq> t2)"
proof -
  have s1: "r1 = None" "s1 = sql_upsert_audit (hashUserID sha256 i) t1
      (s\<lparr>pg_users := al_put i (u\<lparr>u_DeletedAt := Some t1\<rparr>) (pg_users s)\<rparr>)"
    using assms(2,3,5) by (auto simp: pg_SoftDelete_eq[OF assms(1)] mem_SoftDelete_def active_def no_faults_def)
  then have m1: "map_of (pg_users s1) i = Some (u\<lparr>u_DeletedAt := Some t1\<rparr>)" by simp
  have "pg_inv s1" using pg_inv_step[OF assms(1), of sha256 no_faults 0 "OpSoftDelete i t1"] assms(5)
    by (simp add: PoolStore_def)
  then have "snd (sql_update_active i (\<lambda>u. u\<lparr>u_DeletedAt := Some t2\<rparr>) s1) = s1"
    using sql_update_active_eq[OF pg_inv_distinct] m1 by (simp add: update_active_def)
  with assms(6) have "r2 = None" "s2 = sql_upsert_audit (hashUserID sha256 i) t2 s1"
    by (auto simp: pg_SoftDelete_tx_def no_faults_def Let_def)
  with m1 s1(1) assms(4) show ?thesis by (auto simp: sql_upsert_audit_def split: option.splits)
qed

end
