(* ===== verification/Base64.thy ===== *)
theory Base64
  imports Prelude
begin

text \<open>
  The two unpadded encodings of Go's \<open>encoding/base64\<close> the sources use: \<open>RawURLEncoding\<close> (session
  tokens, verification links) and \<open>RawStdEncoding\<close> (password hashes).  The decoder is Go's: it skips
  carriage returns and newlines, refuses any byte outside the alphabet and a dangling single
  character, and ignores the unused low bits of the last character.
\<close>

section \<open>Alphabets\<close>

definition b64_char :: "bool \<Rightarrow> nat \<Rightarrow> char" where
  \<comment> \<open>the first argument selects the URL alphabet\<close>
  "b64_char url n =
     (if n < 26 then char_of (65 + n)
      else if n < 52 then char_of (71 + n)
      else if n < 62 then char_of (n - 4)
      else if n = 62 then (if url then CHR ''-'' else CHR ''+'')
      else (if url then CHR ''_'' else CHR ''/''))"

definition b64_val :: "bool \<Rightarrow> char \<Rightarrow> nat option" where
  "b64_val url c =
     (if is_upper c then Some (code c - 65)
      else if is_lower c then Some (code c - 71)
      else if is_digit c then Some (code c + 4)
      else if c = (if url then CHR ''-'' else CHR ''+'') then Some 62
      else if c = (if url then CHR ''_'' else CHR ''/'') then Some 63
      else None)"

lemmas b64_alphabet_defs [go_eval] = b64_char_def b64_val_def

lemma b64_val_char [simp]: "n < 64 \<Longrightarrow> b64_val url (b64_char url n) = Some n"
  by (simp add: b64_char_def b64_val_def char_class_defs code_def) auto

lemma b64_char_neq:
  assumes "n < 64" and "code d < 43 \<or> code d = 46 \<or> code d = 124"
  shows "b64_char url n \<noteq> d"
proof
  assume "b64_char url n = d"
  then have "b64_val url d = Some n" using assms(1) b64_val_char by blast
  then show False using assms(2) by (auto simp: b64_val_def char_class_defs code_def split: if_splits)
qed

section \<open>Sextets\<close>

fun b64_sextets :: "nat list \<Rightarrow> nat list" where
  "b64_sextets [] = []"
| "b64_sextets [a] = [a div 4, (a mod 4) * 16]"
| "b64_sextets [a, b] = [a div 4, (a mod 4) * 16 + b div 16, (b mod 16) * 4]"
| "b64_sextets (a # b # c # r) =
     a div 4 # ((a mod 4) * 16 + b div 16) # ((b mod 16) * 4 + c div 64) # c mod 64 # b64_sextets r"

fun b64_bytes :: "nat list \<Rightarrow> nat list option" where
  "b64_bytes [] = Some []"
| "b64_bytes [x] = None"
| "b64_bytes [x, y] = Some [x * 4 + y div 16]"
| "b64_bytes [x, y, z] = Some [x * 4 + y div 16, (y mod 16) * 16 + z div 4]"
| "b64_bytes (x # y # z # w # r) =
     map_option (\<lambda>bs. (x * 4 + y div 16) # ((y mod 16) * 16 + z div 4) # ((z mod 4) * 64 + w) # bs)
       (b64_bytes r)"

lemma b64_sextets_less: "\<forall>b \<in> set bs. b < 256 \<Longrightarrow> \<forall>x \<in> set (b64_sextets bs). x < 64"
proof (induction bs rule: b64_sextets.induct)
  case (4 a b c r)
  have "a mod 4 < 4" "b div 16 < 16" "b mod 16 < 16" "c div 64 < 4" "a div 4 < 64" "c mod 64 < 64"
    using "4.prems" by auto
  then have "a mod 4 * 16 + b div 16 < 64" "b mod 16 * 4 + c div 64 < 64" by linarith+
  with 4 \<open>a div 4 < 64\<close> \<open>c mod 64 < 64\<close> show ?case by simp
next
  case (3 a b)
  have "a mod 4 < 4" "b div 16 < 16" "b mod 16 < 16" "a div 4 < 64" using "3.prems" by auto
  then have "a mod 4 * 16 + b div 16 < 64" "b mod 16 * 4 < 64" by linarith+
  with \<open>a div 4 < 64\<close> show ?case by simp
next
  case (2 a)
  have "a mod 4 < 4" "a div 4 < 64" using "2.prems" by auto
  then show ?case by simp
qed simp

lemma join_first: "a div 4 * 4 + (a mod 4 * 16 + y) div 16 = a" if "y < 16" for a y :: nat
proof -
  have "(a mod 4 * 16 + y) div 16 = a mod 4" using that by simp
  then show ?thesis by simp
qed

lemma join_second: "(x * 16 + b div 16) mod 16 * 16 + (b mod 16 * 4 + z) div 4 = b"
  if "b < 256" "z < 4" for b x z :: nat
proof -
  have "(b mod 16 * 4 + z) div 4 = b mod 16" using that by simp
  moreover have "b div 16 < 16" using that by (simp add: less_mult_imp_div_less)
  ultimately show ?thesis by simp
qed

lemma join_third: "(x * 4 + c div 64) mod 4 * 64 + c mod 64 = c" if "c < 256" for c x :: nat
proof -
  have "c div 64 < 4" using that by (simp add: less_mult_imp_div_less)
  then show ?thesis by simp
qed

lemma b64_bytes_sextets: "\<forall>b \<in> set bs. b < 256 \<Longrightarrow> b64_bytes (b64_sextets bs) = Some bs"
proof (induction bs rule: b64_sextets.induct)
  case (4 a b c r)
  then have "b div 16 < 16" "c div 64 < 4" by (simp_all add: less_mult_imp_div_less)
  with 4 show ?case
    using join_first[of "b div 16" a] join_second[of b "c div 64" "a mod 4"] join_third[of c "b mod 16"]
    by simp
next
  case (3 a b)
  then have "b div 16 < 16" by (simp add: less_mult_imp_div_less)
  with 3 show ?case
    using join_first[of "b div 16" a] join_second[of b 0 "a mod 4"] by simp
next
  case (2 a)
  then show ?case using join_first[of 0 a] by simp
qed simp

section \<open>Encode and decode\<close>

definition b64_encode :: "bool \<Rightarrow> string \<Rightarrow> string" where
  "b64_encode url s = map (b64_char url) (b64_sextets (map code s))"

definition b64_decode :: "bool \<Rightarrow> string \<Rightarrow> string option" where
  "b64_decode url s =
     (let cs = filter (\<lambda>c. code c \<noteq> 10 \<and> code c \<noteq> 13) s; vs = map (b64_val url) cs
      in if None \<in> set vs then None
         else map_option (map char_of) (b64_bytes (map the vs)))"

abbreviation url_encode :: "string \<Rightarrow> string" where "url_encode \<equiv> b64_encode True"
abbreviation url_decode :: "string \<Rightarrow> string option" where "url_decode \<equiv> b64_decode True"
abbreviation std_encode :: "string \<Rightarrow> string" where "std_encode \<equiv> b64_encode False"
abbreviation std_decode :: "string \<Rightarrow> string option" where "std_decode \<equiv> b64_decode False"

lemma b64_encode_chars: "c \<in> set (b64_encode url s) \<Longrightarrow> \<exists>n < 64. c = b64_char url n"
  using b64_sextets_less[of "map code s"] by (auto simp: b64_encode_def)

lemma b64_encode_avoids:
  "code d < 43 \<or> code d = 46 \<or> code d = 124 \<Longrightarrow> d \<notin> set (b64_encode url s)"
  using b64_encode_chars b64_char_neq by metis

lemma b64_encode_no_dot [simp]: "CHR ''.'' \<notin> set (b64_encode url s)"
  by (rule b64_encode_avoids) (simp add: code_def)

lemma b64_encode_no_dollar [simp]: "CHR ''$'' \<notin> set (b64_encode url s)"
  by (rule b64_encode_avoids) (simp add: code_def)

lemma b64_decode_encode [simp, go_str]: "b64_decode url (b64_encode url s) = Some s"
proof -
  have f: "filter (\<lambda>c. code c \<noteq> 10 \<and> code c \<noteq> 13) (b64_encode url s) = b64_encode url s"
    using b64_encode_avoids[of _ url s] by (intro filter_True) fastforce
  have l: "\<forall>x \<in> set (b64_sextets (map code s)). x < 64"
    by (rule b64_sextets_less) simp
  then have m: "map (b64_val url) (b64_encode url s) = map Some (b64_sextets (map code s))"
    by (simp add: b64_encode_def)
  have n: "None \<notin> set (map Some xs)" and t: "map the (map Some xs) = xs" for xs :: "nat list"
    by (auto simp: comp_def)
  have b: "b64_bytes (b64_sextets (map code s)) = Some (map code s)"
    by (rule b64_bytes_sextets) simp
  show ?thesis unfolding b64_decode_def Let_def f m t b using n by (simp add: comp_def)
qed

lemma b64_encode_inject [simp]: "b64_encode url s = b64_encode url t \<longleftrightarrow> s = t"
  by (metis b64_decode_encode option.inject)

end
