(* ===== verification/Json.thy ===== *)
theory Json
  imports Prelude
begin

text \<open>
  Go's \<open>encoding/json\<close> as the sources use it: \<open>Marshal\<close> of structs, maps and slices (compact,
  with HTML escaping), \<open>Unmarshal\<close> (one value and nothing after it) and \<open>Decoder.Decode\<close> (the
  first value of a stream), and the assignment of object members to struct fields.  Strings are
  bytes: bytes from 128 on are copied in both directions, which is what the package does on valid
  UTF-8 (its repair of invalid UTF-8 and its escaping of U+2028 and U+2029 are not modelled, nor is
  its nesting limit of 10000).  A number is kept as its literal.  The parser recurses on fuel;
  \<open>json_fuel\<close> is enough for every input (\<open>pv_fuel\<close>).
\<close>

datatype json =
  JNull | JBool bool | JNum string | JStr string | JArr "json list" | JObj "(string \<times> json) list"

section \<open>Printing\<close>

abbreviation "QT \<equiv> CHR 0x22"
abbreviation "BS \<equiv> CHR 0x5C"

definition esc_char :: "char \<Rightarrow> string" where
  "esc_char c =
     (if c = QT then [BS, QT] else if c = BS then [BS, BS]
      else if code c = 8 then [BS, CHR ''b''] else if code c = 12 then [BS, CHR ''f'']
      else if code c = 10 then [BS, CHR ''n''] else if code c = 13 then [BS, CHR ''r'']
      else if code c = 9 then [BS, CHR ''t'']
      else if code c < 32 \<or> c = CHR ''<'' \<or> c = CHR ''>'' \<or> c = CHR ''&''
        then [BS, CHR ''u'', CHR ''0'', CHR ''0'', hex_digit (code c div 16), hex_digit (code c mod 16)]
      else [c])"

definition print_str :: "string \<Rightarrow> string" where
  "print_str s = QT # concat (map esc_char s) @ [QT]"

fun print_json :: "json \<Rightarrow> string" and print_elems :: "json list \<Rightarrow> string"
  and print_members :: "(string \<times> json) list \<Rightarrow> string" where
  "print_json JNull = ''null''"
| "print_json (JBool b) = (if b then ''true'' else ''false'')"
| "print_json (JNum l) = l"
| "print_json (JStr s) = print_str s"
| "print_json (JArr js) = CHR ''['' # print_elems js @ [CHR '']'']"
| "print_json (JObj ms) = CHR ''{'' # print_members ms @ [CHR ''}'']"
| "print_elems [] = []"
| "print_elems (j # js) = print_json j @ (if js = [] then [] else CHR '','' # print_elems js)"
| "print_members [] = []"
| "print_members ((k, j) # ms) =
     print_str k @ CHR '':'' # print_json j @ (if ms = [] then [] else CHR '','' # print_members ms)"

section \<open>Strings\<close>

definition hex_val :: "char \<Rightarrow> nat option" where
  "hex_val c =
     (if is_digit c then Some (code c - 48)
      else if 97 \<le> code c \<and> code c \<le> 102 then Some (code c - 87)
      else if 65 \<le> code c \<and> code c \<le> 70 then Some (code c - 55) else None)"

definition hex4 :: "char \<Rightarrow> char \<Rightarrow> char \<Rightarrow> char \<Rightarrow> nat option" where
  "hex4 a b c d = (case (hex_val a, hex_val b, hex_val c, hex_val d) of
     (Some w, Some x, Some y, Some z) \<Rightarrow> Some (((w * 16 + x) * 16 + y) * 16 + z) | _ \<Rightarrow> None)"

definition utf8 :: "nat \<Rightarrow> string" where
  "utf8 n =
     (if n < 128 then [char_of n]
      else if n < 2048 then [char_of (192 + n div 64), char_of (128 + n mod 64)]
      else if n < 65536 then
        [char_of (224 + n div 4096), char_of (128 + n div 64 mod 64), char_of (128 + n mod 64)]
      else [char_of (240 + n div 262144), char_of (128 + n div 4096 mod 64),
            char_of (128 + n div 64 mod 64), char_of (128 + n mod 64)])"

definition simple_escape :: "char \<Rightarrow> char option" where
  "simple_escape e =
     (if e = QT \<or> e = BS \<or> e = CHR ''/'' then Some e
      else if e = CHR ''b'' then Some (char_of (8::nat)) else if e = CHR ''f'' then Some (char_of (12::nat))
      else if e = CHR ''n'' then Some (char_of (10::nat)) else if e = CHR ''r'' then Some (char_of (13::nat))
      else if e = CHR ''t'' then Some (char_of (9::nat)) else None)"

definition low_surrogate :: "string \<Rightarrow> nat option" where
  \<comment> \<open>the second half of a surrogate pair, when the input goes on with one\<close>
  "low_surrogate s = (case s of
     p # q # a # b # c # d # _ \<Rightarrow>
       if p = BS \<and> q = CHR ''u'' then (case hex4 a b c d of
           Some m \<Rightarrow> if 56320 \<le> m \<and> m < 57344 then Some m else None | None \<Rightarrow> None)
       else None
   | _ \<Rightarrow> None)"

definition unescape_u :: "string \<Rightarrow> (string \<times> string) option" where
  \<comment> \<open>what follows a backslash and a \<open>u\<close>: the bytes it stands for and the rest; a lone surrogate is
      the replacement character\<close>
  "unescape_u s = (case s of
     a # b # x # d # r \<Rightarrow> (case hex4 a b x d of None \<Rightarrow> None
       | Some n \<Rightarrow>
           if 55296 \<le> n \<and> n < 56320 then
             (case low_surrogate r of
                Some m \<Rightarrow> Some (utf8 (65536 + (n - 55296) * 1024 + (m - 56320)), drop 6 r)
              | None \<Rightarrow> Some (utf8 65533, r))
           else if 56320 \<le> n \<and> n < 57344 then Some (utf8 65533, r)
           else Some (utf8 n, r))
   | _ \<Rightarrow> None)"

definition unescape :: "string \<Rightarrow> (string \<times> string) option" where
  "unescape s = (case s of [] \<Rightarrow> None
     | e # r \<Rightarrow> if e = CHR ''u'' then unescape_u r
                else map_option (\<lambda>c. ([c], r)) (simple_escape e))"

lemma unescape_shorter: "unescape s = Some (u, r) \<Longrightarrow> length r < length s"
  by (auto simp: unescape_def unescape_u_def split: list.splits if_splits option.splits)

function unquote :: "string \<Rightarrow> (string \<times> string) option" where
  \<comment> \<open>the rest of a string literal after its opening quote, and what follows it\<close>
  "unquote [] = None"
| "unquote (c # s) =
     (if c = QT then Some ([], s)
      else if c = BS then (case unescape s of None \<Rightarrow> None
        | Some (u, r) \<Rightarrow> map_option (apfst (\<lambda>t. u @ t)) (unquote r))
      else if code c < 32 then None
      else map_option (apfst (\<lambda>t. c # t)) (unquote s))"
  by pat_completeness auto

termination by (relation "measure length") (auto dest: unescape_shorter)

lemma hex_val_digit [simp]: "n < 16 \<Longrightarrow> hex_val (hex_digit n) = Some n"
  by (auto simp: hex_val_def hex_digit_def is_digit_def)

lemma hex4_byte: "n < 256 \<Longrightarrow> hex4 (CHR ''0'') (CHR ''0'') (hex_digit (n div 16)) (hex_digit (n mod 16)) = Some n"
proof -
  assume "n < 256"
  then have "n div 16 < 16" by (simp add: less_mult_imp_div_less)
  then show ?thesis by (simp add: hex4_def) (simp add: hex_val_def is_digit_def code_def)
qed

lemma unquote_esc_char: "unquote (esc_char c @ t) = map_option (apfst (\<lambda>u. c # u)) (unquote t)"
proof -
  have small: "code c < 128" if "code c < 32 \<or> c = CHR ''<'' \<or> c = CHR ''>'' \<or> c = CHR ''&''"
    using that by (auto simp: code_def)
  consider (esc) "c = QT \<or> c = BS \<or> c = char_of (8::nat) \<or> c = char_of (12::nat) \<or> c = char_of (10::nat)
      \<or> c = char_of (13::nat) \<or> c = char_of (9::nat)"
    | (uni) "c \<noteq> QT" "c \<noteq> BS" "code c \<noteq> 8" "code c \<noteq> 12" "code c \<noteq> 10" "code c \<noteq> 13" "code c \<noteq> 9"
        "code c < 32 \<or> c = CHR ''<'' \<or> c = CHR ''>'' \<or> c = CHR ''&''"
    | (plain) "c \<noteq> QT" "c \<noteq> BS" "\<not> (code c < 32 \<or> c = CHR ''<'' \<or> c = CHR ''>'' \<or> c = CHR ''&'')"
    by (metis char_of_code)
  then show ?thesis
  proof cases
    case esc
    then show ?thesis
      by (elim disjE) (simp_all add: esc_char_def unescape_def simple_escape_def code_def fun_eq_iff apfst_def map_prod_def)
  next
    case uni
    then have "esc_char c = [BS, CHR ''u'', CHR ''0'', CHR ''0'', hex_digit (code c div 16), hex_digit (code c mod 16)]"
      unfolding esc_char_def by (simp only: if_False if_True)
    moreover have "hex4 (CHR ''0'') (CHR ''0'') (hex_digit (code c div 16)) (hex_digit (code c mod 16)) = Some (code c)"
      by (rule hex4_byte) simp
    moreover have "utf8 (code c) = [c]" using small[OF uni(8)] by (simp add: utf8_def)
    moreover have "\<not> 55296 \<le> code c" "\<not> 56320 \<le> code c" using small[OF uni(8)] by simp_all
    moreover have "(@) [c] = (#) c" by (simp add: fun_eq_iff)
    ultimately show ?thesis by (simp add: unescape_def unescape_u_def)
  next
    case plain
    then have "esc_char c = [c]"
      by (auto simp: esc_char_def)
    with plain show ?thesis by simp
  qed
qed

lemma unquote_esc: "unquote (concat (map esc_char s) @ QT # r) = Some (s, r)"
  by (induction s) (simp_all add: unquote_esc_char del: unquote.simps(2), simp)

section \<open>Numbers\<close>

definition scan_digits :: "string \<Rightarrow> (string \<times> string) option" where
  "scan_digits s = (if takeWhile is_digit s = [] then None
     else Some (takeWhile is_digit s, dropWhile is_digit s))"

definition scan_intpart :: "string \<Rightarrow> (string \<times> string) option" where
  "scan_intpart s = (case s of [] \<Rightarrow> None
     | c # r \<Rightarrow> if c = CHR ''0'' then Some ([c], r) else scan_digits s)"

definition scan_frac :: "string \<Rightarrow> (string \<times> string) option" where
  "scan_frac s = (case s of
     c # r \<Rightarrow> if c = CHR ''.'' then map_option (apfst (\<lambda>d. c # d)) (scan_digits r) else Some ([], s)
   | [] \<Rightarrow> Some ([], []))"

definition scan_exp :: "string \<Rightarrow> (string \<times> string) option" where
  "scan_exp s = (case s of
     c # r \<Rightarrow> if c = CHR ''e'' \<or> c = CHR ''E'' then
         (case r of
            d # r' \<Rightarrow> if d = CHR ''+'' \<or> d = CHR ''-'' then map_option (apfst (\<lambda>x. c # d # x)) (scan_digits r')
                       else map_option (apfst (\<lambda>x. c # x)) (scan_digits r)
          | [] \<Rightarrow> None)
       else Some ([], s)
   | [] \<Rightarrow> Some ([], []))"

definition scan_number :: "string \<Rightarrow> (string \<times> string) option" where
  "scan_number s =
     (let (sg, s0) = (case s of c # r \<Rightarrow> if c = CHR ''-'' then ([c], r) else ([], s) | [] \<Rightarrow> ([], []))
      in (case scan_intpart s0 of None \<Rightarrow> None
          | Some (ip, s1) \<Rightarrow> (case scan_frac s1 of None \<Rightarrow> None
          | Some (fr, s2) \<Rightarrow> (case scan_exp s2 of None \<Rightarrow> None
          | Some (ex, s3) \<Rightarrow> Some (sg @ ip @ fr @ ex, s3)))))"

section \<open>Values\<close>

definition json_ws :: "char \<Rightarrow> bool" where
  "json_ws c \<longleftrightarrow> code c = 32 \<or> code c = 9 \<or> code c = 10 \<or> code c = 13"

definition skip_ws :: "string \<Rightarrow> string" where
  "skip_ws = dropWhile json_ws"

definition literal :: "string \<Rightarrow> json \<Rightarrow> string \<Rightarrow> (json \<times> string) option" where
  "literal w j s = (if has_prefix w s then Some (j, drop (length w) s) else None)"

fun pv :: "nat \<Rightarrow> string \<Rightarrow> (json \<times> string) option"
  and pel :: "nat \<Rightarrow> string \<Rightarrow> (json list \<times> string) option"
  and pmem :: "nat \<Rightarrow> string \<Rightarrow> ((string \<times> json) list \<times> string) option" where
  "pv 0 s = None"
| "pv (Suc n) s = (case skip_ws s of [] \<Rightarrow> None
     | c # r \<Rightarrow>
        if c = QT then map_option (apfst JStr) (unquote r)
        else if c = CHR ''['' then
          (if skip_ws r \<noteq> [] \<and> hd (skip_ws r) = CHR '']'' then Some (JArr [], tl (skip_ws r))
           else map_option (apfst JArr) (pel n r))
        else if c = CHR ''{'' then
          (if skip_ws r \<noteq> [] \<and> hd (skip_ws r) = CHR ''}'' then Some (JObj [], tl (skip_ws r))
           else map_option (apfst JObj) (pmem n r))
        else if c = CHR ''n'' then literal ''null'' JNull (c # r)
        else if c = CHR ''t'' then literal ''true'' (JBool True) (c # r)
        else if c = CHR ''f'' then literal ''false'' (JBool False) (c # r)
        else map_option (apfst JNum) (scan_number (c # r)))"
| "pel 0 s = None"
| "pel (Suc n) s = (case pv n s of None \<Rightarrow> None
     | Some (j, r) \<Rightarrow> (case skip_ws r of [] \<Rightarrow> None
        | c # r' \<Rightarrow> if c = CHR '']'' then Some ([j], r')
            else if c = CHR '','' then map_option (apfst (\<lambda>js. j # js)) (pel n r')
            else None))"
| "pmem 0 s = None"
| "pmem (Suc n) s = (case skip_ws s of [] \<Rightarrow> None
     | q # s1 \<Rightarrow> if q \<noteq> QT then None else (case unquote s1 of None \<Rightarrow> None
        | Some (k, s2) \<Rightarrow> (case skip_ws s2 of [] \<Rightarrow> None
           | d # s3 \<Rightarrow> if d \<noteq> CHR '':'' then None else (case pv n s3 of None \<Rightarrow> None
              | Some (j, r) \<Rightarrow> (case skip_ws r of [] \<Rightarrow> None
                 | c # r' \<Rightarrow> if c = CHR ''}'' then Some ([(k, j)], r')
                     else if c = CHR '','' then map_option (apfst (\<lambda>ms. (k, j) # ms)) (pmem n r')
                     else None)))))"

definition json_fuel :: "string \<Rightarrow> nat" where
  "json_fuel s = 2 * length s + 1"

definition json_decode :: "string \<Rightarrow> json option" where
  \<comment> \<open>\<open>json.NewDecoder(r).Decode\<close>: what follows the first value is left unread\<close>
  "json_decode s = map_option fst (pv (json_fuel s) s)"

definition json_unmarshal :: "string \<Rightarrow> json option" where
  "json_unmarshal s = (case pv (json_fuel s) s of None \<Rightarrow> None
     | Some (j, r) \<Rightarrow> if skip_ws r = [] then Some j else None)"

subsection \<open>The fuel is enough\<close>

lemma skip_ws_le: "length (skip_ws s) \<le> length s"
  by (simp add: skip_ws_def length_dropWhile_le)

lemma skip_ws_Cons_le: "skip_ws s = c # r \<Longrightarrow> length r < length s"
  using skip_ws_le[of s] by simp

lemma unquote_shorter: "unquote s = Some (t, r) \<Longrightarrow> length r < length s"
proof (induction s arbitrary: t r rule: unquote.induct)
  case (2 c s)
  show ?case
  proof (cases "c = BS")
    case True
    with "2.prems" obtain u r' t' where u: "unescape s = Some (u, r')" "unquote r' = Some (t', r)"
      by (auto split: option.splits)
    with True "2.IH"(1)[OF _ True u(1) refl u(2)] unescape_shorter[OF u(1)] show ?thesis by simp
  next
    case False
    with "2.prems" "2.IH"(2)[OF _ False] show ?thesis by (auto split: if_splits)
  qed
qed simp

lemma scan_digits_shorter: "scan_digits s = Some (d, r) \<Longrightarrow> length r < length s"
  by (cases s) (auto simp: scan_digits_def length_dropWhile_le less_Suc_eq_le split: if_splits)

lemma scan_frac_le: "scan_frac s = Some (d, r) \<Longrightarrow> length r \<le> length s"
  by (auto simp: scan_frac_def split: list.splits if_splits dest: scan_digits_shorter)

lemma scan_exp_le: "scan_exp s = Some (d, r) \<Longrightarrow> length r \<le> length s"
  by (auto simp: scan_exp_def split: list.splits if_splits dest: scan_digits_shorter)

lemma scan_intpart_shorter: "scan_intpart s = Some (d, r) \<Longrightarrow> length r < length s"
  by (auto simp: scan_intpart_def split: list.splits if_splits dest: scan_digits_shorter)

lemma scan_number_shorter: "scan_number s = Some (l, r) \<Longrightarrow> length r < length s"
proof -
  assume a: "scan_number s = Some (l, r)"
  define s0 where "s0 = (case s of c # r \<Rightarrow> if c = CHR ''-'' then r else s | [] \<Rightarrow> [])"
  have "length s0 \<le> length s" by (auto simp: s0_def split: list.splits)
  moreover from a obtain ip fr ex s1 s2 where "scan_intpart s0 = Some (ip, s1)"
    "scan_frac s1 = Some (fr, s2)" "scan_exp s2 = Some (ex, r)"
    by (auto simp: scan_number_def s0_def split: list.splits if_splits option.splits prod.splits)
  ultimately show ?thesis
    using scan_intpart_shorter scan_frac_le scan_exp_le by fastforce
qed

lemma literal_shorter: "w \<noteq> [] \<Longrightarrow> literal w j s = Some (x, r) \<Longrightarrow> length r < length s"
  by (cases s) (auto simp: literal_def has_prefix_def split: if_splits)

lemma tl_skip_ws_shorter: "skip_ws r \<noteq> [] \<Longrightarrow> length (tl (skip_ws r)) < length r"
  by (metis diff_less length_greater_0_conv length_tl less_le_trans skip_ws_le zero_less_one)

lemma parse_shorter:
  "(\<forall>s j r. pv n s = Some (j, r) \<longrightarrow> length r < length s)
   \<and> (\<forall>s js r. pel n s = Some (js, r) \<longrightarrow> length r < length s)
   \<and> (\<forall>s ms r. pmem n s = Some (ms, r) \<longrightarrow> length r < length s)"
proof (induction n)
  case (Suc n)
  have "length r < length s" if p: "pv (Suc n) s = Some (j, r)" for s j r
  proof -
    from p obtain c u where u: "skip_ws s = c # u" by (auto split: list.splits)
    have "length r < length (c # u)"
      using p u Suc.IH scan_number_shorter[of "c # u"] unquote_shorter[of u] tl_skip_ws_shorter[of u]
        literal_shorter[of "''null''" JNull "c # u"] literal_shorter[of "''true''" "JBool True" "c # u"]
        literal_shorter[of "''false''" "JBool False" "c # u"]
      by (auto split: if_splits) fastforce+
    with u skip_ws_le[of s] show ?thesis by simp
  qed
  moreover have "length r < length s" if p: "pel (Suc n) s = Some (js, r)" for s js r
  proof -
    from p obtain j u c v where "pv n s = Some (j, u)" "skip_ws u = c # v" "length r \<le> length v"
      using Suc.IH by (auto split: option.splits list.splits if_splits) fastforce
    with Suc.IH skip_ws_Cons_le[of u c v] show ?thesis by fastforce
  qed
  moreover have "length r < length s" if p: "pmem (Suc n) s = Some (ms, r)" for s ms r
  proof -
    from p obtain q s1 k s2 d s3 j u c v where "skip_ws s = q # s1" "unquote s1 = Some (k, s2)"
      "skip_ws s2 = d # s3" "pv n s3 = Some (j, u)" "skip_ws u = c # v" "length r \<le> length v"
      using Suc.IH by (auto split: option.splits list.splits if_splits) fastforce
    with Suc.IH skip_ws_Cons_le unquote_shorter show ?thesis by (meson less_trans le_less_trans)
  qed
  ultimately show ?case by blast
qed simp

lemma pv_shorter: "pv n s = Some (j, r) \<Longrightarrow> length r < length s"
  using parse_shorter by blast

lemma parse_fuel_step:
  "(\<forall>s. 2 * length s < n \<longrightarrow> pv n s = pv (Suc n) s)
   \<and> (\<forall>s. 2 * length s + 1 < n \<longrightarrow> pel n s = pel (Suc n) s)
   \<and> (\<forall>s. 2 * length s + 1 < n \<longrightarrow> pmem n s = pmem (Suc n) s)"
proof (induction n)
  case (Suc n)
  have "pv (Suc n) s = pv (Suc (Suc n)) s" if "2 * length s < Suc n" for s
  proof (cases "skip_ws s")
    case (Cons c r)
    then have "2 * length r + 1 < n" using that skip_ws_Cons_le[OF Cons] by simp
    then have "pel n r = pel (Suc n) r" "pmem n r = pmem (Suc n) r" using Suc.IH by blast+
    with Cons show ?thesis by (simp del: pel.simps pmem.simps)
  qed simp
  moreover have "pel (Suc n) s = pel (Suc (Suc n)) s" if l: "2 * length s + 1 < Suc n" for s
  proof -
    have e: "pv n s = pv (Suc n) s" using l Suc.IH by auto
    show ?thesis
    proof (cases "pv n s")
      case (Some jr)
      obtain j u where ju: "jr = (j, u)" by (cases jr)
      show ?thesis
      proof (cases "skip_ws u")
        case (Cons c v)
        then have "2 * length v + 1 < n"
          using l pv_shorter[OF Some[unfolded ju]] skip_ws_Cons_le[OF Cons] by simp
        then have "pel n v = pel (Suc n) v" using Suc.IH by blast
        with Some e ju Cons show ?thesis by (simp del: pv.simps)
      qed (use Some e ju in \<open>simp del: pv.simps\<close>)
    qed (use e in \<open>simp del: pv.simps\<close>)
  qed
  moreover have "pmem (Suc n) s = pmem (Suc (Suc n)) s" if l: "2 * length s + 1 < Suc n" for s
  proof -
    have e: "pv n s3 = pv (Suc n) s3"
      if "skip_ws s = q # s1" "unquote s1 = Some (k, s2)" "skip_ws s2 = d # s3" for q s1 k s2 d s3
    proof -
      have "length s3 < length s"
        using skip_ws_Cons_le[OF that(1)] unquote_shorter[OF that(2)] skip_ws_Cons_le[OF that(3)] by simp
      with l Suc.IH show ?thesis by auto
    qed
    have f: "pmem n v = pmem (Suc n) v"
      if "skip_ws s = q # s1" "unquote s1 = Some (k, s2)" "skip_ws s2 = d # s3"
        "pv n s3 = Some (j, u)" "skip_ws u = c # v" for q s1 k s2 d s3 j u c v
    proof -
      have "length v < length s"
        using skip_ws_Cons_le[OF that(1)] unquote_shorter[OF that(2)] skip_ws_Cons_le[OF that(3)]
          pv_shorter[OF that(4)] skip_ws_Cons_le[OF that(5)] by simp
      with l Suc.IH show ?thesis by auto
    qed
    note [simp del] = pv.simps pmem.simps
    note unf = pmem.simps(2)[of "Suc n" s] pmem.simps(2)[of n s]
    show ?thesis
    proof (cases "\<exists>s1 k s2 s3. skip_ws s = QT # s1 \<and> unquote s1 = Some (k, s2) \<and> skip_ws s2 = CHR '':'' # s3")
      case False
      then show ?thesis unfolding unf by (auto split: list.split option.split)
    next
      case True
      then obtain s1 k s2 s3 where h: "skip_ws s = QT # s1" "unquote s1 = Some (k, s2)"
        "skip_ws s2 = CHR '':'' # s3" by blast
      show ?thesis
      proof (cases "\<exists>j u v. pv n s3 = Some (j, u) \<and> skip_ws u = CHR '','' # v")
        case False
        then show ?thesis using h e[OF h] unfolding unf by (auto split: list.split option.split)
      next
        case True
        then obtain j u v where "pv n s3 = Some (j, u)" "skip_ws u = CHR '','' # v" by blast
        with f[OF h this] h e[OF h, symmetric] show ?thesis unfolding unf by simp
      qed
    qed
  qed
  ultimately show ?case by blast
qed simp

lemma pv_fuel: "2 * length s < n \<Longrightarrow> pv n s = pv (json_fuel s) s"
proof (induction n)
  case (Suc n)
  show ?case
  proof (cases "2 * length s < n")
    case True
    with Suc parse_fuel_step[of n] show ?thesis by auto
  next
    case False
    with Suc.prems have "n = 2 * length s" by simp
    then show ?thesis by (simp add: json_fuel_def)
  qed
qed simp

subsection \<open>Printing and parsing\<close>

lemma dec_nat_zero_lead: "dec_nat n = CHR ''0'' # r \<Longrightarrow> n = 0 \<and> r = []"
proof (induction n arbitrary: r rule: dec_nat.induct)
  case (1 n)
  show ?case
  proof (cases "n < 10")
    case True
    with 1(2) have "char_of (48 + n) = CHR ''0''" "r = []" by (simp_all add: dec_nat.simps[of n])
    then have "code (char_of (48 + n)) = code (CHR ''0'')" by simp
    with True \<open>r = []\<close> show ?thesis by (simp add: code_def)
  next
    case False
    obtain r' where "dec_nat (n div 10) = CHR ''0'' # r'"
      using 1(2) False by (cases "dec_nat (n div 10)") (auto simp: dec_nat.simps[of n])
    from 1(1)[OF False this] have "n div 10 = 0" by simp
    with False show ?thesis by linarith
  qed
qed

definition num_end :: "string \<Rightarrow> bool" where
  \<comment> \<open>what may follow a number without becoming part of it\<close>
  "num_end r \<longleftrightarrow> (case r of [] \<Rightarrow> True
     | c # _ \<Rightarrow> \<not> is_digit c \<and> c \<noteq> CHR ''.'' \<and> c \<noteq> CHR ''e'' \<and> c \<noteq> CHR ''E'')"

lemma takeWhile_dec_nat:
  "num_end r \<Longrightarrow> takeWhile is_digit (dec_nat n @ r) = dec_nat n"
  "num_end r \<Longrightarrow> dropWhile is_digit (dec_nat n @ r) = r"
  using dec_nat_digits[of n]
  by (cases r; simp add: num_end_def takeWhile_append dropWhile_append list_all_iff)+

lemma scan_intpart_dec: "num_end r \<Longrightarrow> scan_intpart (dec_nat n @ r) = Some (dec_nat n, r)"
proof -
  assume r: "num_end r"
  obtain c u where c: "dec_nat n = c # u" by (rule dec_nat_Cons)
  show ?thesis
  proof (cases "c = CHR ''0''")
    case True
    with dec_nat_zero_lead[of n u] c show ?thesis by (simp add: scan_intpart_def)
  next
    case False
    have d: "scan_digits (dec_nat n @ r) = Some (dec_nat n, r)"
      using r by (simp add: scan_digits_def takeWhile_dec_nat)
    with False c show ?thesis by (simp add: scan_intpart_def)
  qed
qed

lemma scan_number_dec: "num_end r \<Longrightarrow> scan_number (dec_int i @ r) = Some (dec_int i, r)"
proof -
  assume r: "num_end r"
  then have fe: "scan_frac r = Some ([], r)" "scan_exp r = Some ([], r)"
    by (auto simp: num_end_def scan_frac_def scan_exp_def split: list.splits)
  show ?thesis
  proof (cases "i < 0")
    case True
    with r fe show ?thesis by (simp add: scan_number_def dec_int_def scan_intpart_dec)
  next
    case False
    obtain c u where c: "dec_nat (nat i) = c # u" "is_digit c" by (rule dec_nat_Cons)
    with digit_not_sign have "c \<noteq> CHR ''-''" by blast
    with False r fe c scan_intpart_dec[OF r, of "nat i"] show ?thesis
      by (simp add: scan_number_def dec_int_def)
  qed
qed

lemma scan_digits_append: "scan_digits s = Some (d, t) \<Longrightarrow> num_end r \<Longrightarrow> scan_digits (s @ r) = Some (d, t @ r)"
proof -
  assume "scan_digits s = Some (d, t)" "num_end r"
  moreover from this(2) have "takeWhile is_digit r = []" "dropWhile is_digit r = r" by (cases r; simp add: num_end_def)+
  moreover have tw: "takeWhile is_digit s = s" if "\<forall>x \<in> set s. is_digit x"
    using that by (simp add: takeWhile_eq_all_conv)
  ultimately show ?thesis
    by (cases "\<forall>x \<in> set s. is_digit x") (auto simp: scan_digits_def takeWhile_append dropWhile_append tw split: if_splits)
qed

lemma scan_intpart_append: "scan_intpart s = Some (d, t) \<Longrightarrow> num_end r \<Longrightarrow> scan_intpart (s @ r) = Some (d, t @ r)"
  using scan_digits_append[of s d t r] by (auto simp: scan_intpart_def split: list.splits if_splits)

lemma scan_frac_append: "scan_frac s = Some (d, t) \<Longrightarrow> num_end r \<Longrightarrow> scan_frac (s @ r) = Some (d, t @ r)"
  by (cases s) (auto simp: scan_frac_def scan_digits_append num_end_def split: list.splits if_splits)

lemma scan_exp_append: "scan_exp s = Some (d, t) \<Longrightarrow> num_end r \<Longrightarrow> scan_exp (s @ r) = Some (d, t @ r)"
proof -
  assume a: "scan_exp s = Some (d, t)" and r: "num_end r"
  have "scan_digits (x # u) = Some (ds, t) \<Longrightarrow> scan_digits (x # u @ r) = Some (ds, t @ r)" for x u ds
    using scan_digits_append[OF _ r, of "x # u"] by simp
  with a r show ?thesis by (cases s) (auto simp: scan_exp_def scan_digits_append num_end_def split: list.splits if_splits)
qed

definition number_lit :: "string \<Rightarrow> bool" where
  \<comment> \<open>the literal of a JSON number\<close>
  "number_lit l \<longleftrightarrow> scan_number l = Some (l, [])"

lemma scan_number_lit:
  assumes "number_lit l" "num_end r"
  shows "scan_number (l @ r) = Some (l, r)"
proof -
  obtain sg s0 where s: "(case l of c # r \<Rightarrow> if c = CHR ''-'' then ([c], r) else ([], l) | [] \<Rightarrow> ([], [])) = (sg, s0)" by fastforce
  obtain ip s1 fr s2 ex where p: "scan_intpart s0 = Some (ip, s1)" "scan_frac s1 = Some (fr, s2)" "scan_exp s2 = Some (ex, [])" "sg @ ip @ fr @ ex = l"
    using assms(1) by (auto simp: number_lit_def scan_number_def s split: option.splits)
  have "l \<noteq> []" using p(1) s by (auto simp: scan_intpart_def)
  then have "(case l @ r of c # u \<Rightarrow> if c = CHR ''-'' then ([c], u) else ([], l @ r) | [] \<Rightarrow> ([], [])) = (sg, s0 @ r)"
    using s by (cases l) (auto split: if_splits)
  then show ?thesis
    using p scan_intpart_append[OF p(1) assms(2)] scan_frac_append[OF p(2) assms(2)] scan_exp_append[OF p(3) assms(2)]
    by (simp add: scan_number_def)
qed

lemma number_lit_dec [simp, go_str]: "number_lit (dec_int i)"
  using scan_number_dec[of "[]" i] by (simp add: number_lit_def num_end_def)

lemma number_lit_lead:
  assumes "number_lit l"
  obtains c u where "l = c # u" "c = CHR ''-'' \<or> is_digit c"
proof (cases l)
  case Nil
  then show ?thesis using assms by (simp add: number_lit_def scan_number_def scan_intpart_def)
next
  case (Cons c u)
  then have "c = CHR ''-'' \<or> is_digit c"
    using assms by (auto simp: number_lit_def scan_number_def scan_intpart_def scan_digits_def is_digit_def code_def split: if_splits option.splits)
  with Cons show ?thesis by (rule that)
qed

fun wf_json :: "json \<Rightarrow> bool" where
  \<comment> \<open>every number is the literal of one\<close>
  "wf_json (JNum l) = number_lit l"
| "wf_json (JArr js) = list_all wf_json js"
| "wf_json (JObj ms) = list_all (\<lambda>(k, j). wf_json j) ms"
| "wf_json _ = True"

lemma print_json_lead:
  "wf_json j \<Longrightarrow> \<exists>c u. print_json j = c # u \<and> \<not> json_ws c \<and> c \<noteq> CHR '']'' \<and> c \<noteq> CHR ''}''"
proof (cases j)
  case (JNum l)
  moreover assume "wf_json j"
  ultimately obtain c u where "l = c # u" "c = CHR ''-'' \<or> is_digit c" using number_lit_lead by auto
  moreover from this(2) have "\<not> json_ws c \<and> c \<noteq> CHR '']'' \<and> c \<noteq> CHR ''}''"
    by (auto simp: is_digit_def json_ws_def code_def)
  ultimately show ?thesis using JNum by simp
qed (auto simp: print_str_def json_ws_def code_def split: if_splits)

lemma skip_ws_fixed: "\<not> json_ws c \<Longrightarrow> skip_ws (c # s) = c # s"
  by (simp add: skip_ws_def)

lemma json_punct [simp]:
  "\<not> json_ws (CHR '']'')" "\<not> json_ws (CHR ''}'')" "\<not> json_ws (CHR '','')" "\<not> json_ws (CHR '':'')"
  "\<not> json_ws QT" "\<not> json_ws (CHR ''['')" "\<not> json_ws (CHR ''{'')"
  by (simp_all add: json_ws_def code_def)

lemma num_end_punct [simp]: "num_end (CHR '','' # r)" "num_end (CHR '']'' # r)" "num_end (CHR ''}'' # r)" "num_end []"
  by (simp_all add: num_end_def is_digit_def code_def)

lemma pv_num:
  assumes "number_lit l" "num_end r"
  shows "pv (Suc n) (l @ r) = Some (JNum l, r)"
proof -
  obtain c u where c: "l = c # u" "c = CHR ''-'' \<or> is_digit c" using assms(1) by (rule number_lit_lead)
  from c(2) have "\<not> json_ws c" "c \<noteq> QT" "c \<noteq> CHR ''[''" "c \<noteq> CHR ''{''" "c \<noteq> CHR ''n''"
    "c \<noteq> CHR ''t''" "c \<noteq> CHR ''f''"
    by (auto simp: json_ws_def is_digit_def code_def)
  with c(1) scan_number_lit[OF assms] show ?thesis by (simp add: skip_ws_fixed)
qed

fun pretty :: "(nat \<Rightarrow> string) \<Rightarrow> string \<Rightarrow> nat \<Rightarrow> json \<Rightarrow> string"
  and pretty_elems :: "(nat \<Rightarrow> string) \<Rightarrow> string \<Rightarrow> nat \<Rightarrow> json list \<Rightarrow> string"
  and pretty_members :: "(nat \<Rightarrow> string) \<Rightarrow> string \<Rightarrow> nat \<Rightarrow> (string \<times> json) list \<Rightarrow> string" where
  \<comment> \<open>printing with white space: \<open>nl d\<close> starts a line at depth \<open>d\<close>, \<open>col\<close> follows a colon\<close>
  "pretty nl col d JNull = ''null''"
| "pretty nl col d (JBool b) = (if b then ''true'' else ''false'')"
| "pretty nl col d (JNum l) = l"
| "pretty nl col d (JStr s) = print_str s"
| "pretty nl col d (JArr js) = (if js = [] then ''[]'' else ''['' @ nl (Suc d) @ pretty_elems nl col (Suc d) js @ nl d @ '']'')"
| "pretty nl col d (JObj ms) = (if ms = [] then ''{}'' else ''{'' @ nl (Suc d) @ pretty_members nl col (Suc d) ms @ nl d @ ''}'')"
| "pretty_elems nl col d [] = []"
| "pretty_elems nl col d (j # js) = pretty nl col d j @ (if js = [] then [] else '','' @ nl d @ pretty_elems nl col d js)"
| "pretty_members nl col d [] = []"
| "pretty_members nl col d ((k, j) # ms) = print_str k @ '':'' @ col @ pretty nl col d j @ (if ms = [] then [] else '','' @ nl d @ pretty_members nl col d ms)"

definition print_indent :: "json \<Rightarrow> string" where
  \<comment> \<open>\<open>json.MarshalIndent(v, "", "  ")\<close>\<close>
  "print_indent = pretty (\<lambda>d. CHR 0x0A # replicate (2 * d) (CHR '' '')) '' '' 0"

lemma pretty_compact:
  "pretty (\<lambda>_. []) [] d j = print_json j" "pretty_elems (\<lambda>_. []) [] d js = print_elems js"
  "pretty_members (\<lambda>_. []) [] d ms = print_members ms"
  by (induction j and js and ms arbitrary: d and d and d rule: print_json_print_elems_print_members.induct) auto

lemma skip_ws_append: "list_all json_ws w \<Longrightarrow> skip_ws (w @ s) = skip_ws s"
  by (simp add: skip_ws_def dropWhile_append list_all_iff)

lemma pv_skip: "list_all json_ws w \<Longrightarrow> pv n (w @ s) = pv n s"
  by (cases n) (simp_all add: skip_ws_append)

lemma pmem_skip: "list_all json_ws w \<Longrightarrow> pmem n (w @ s) = pmem n s"
  by (cases n) (simp_all add: skip_ws_append del: pv.simps)

lemma pel_skip: "list_all json_ws w \<Longrightarrow> pel n (w @ s) = pel n s"
  by (cases n) (simp_all add: pv_skip del: pv.simps)

lemma num_end_ws: "list_all json_ws w \<Longrightarrow> num_end s \<Longrightarrow> num_end (w @ s)"
  by (cases w) (auto simp: num_end_def json_ws_def is_digit_def code_def)

lemma pretty_lead:
  "wf_json j \<Longrightarrow> \<exists>c u. pretty nl col d j = c # u \<and> \<not> json_ws c \<and> c \<noteq> CHR '']'' \<and> c \<noteq> CHR ''}''"
  using print_json_lead[of j] by (cases j) (auto simp: print_str_def json_ws_def code_def split: if_splits)

lemma parse_pretty:
  assumes ws: "\<And>d. list_all json_ws (nl d)" "list_all json_ws col"
  shows "wf_json j \<Longrightarrow> 2 * length (pretty nl col d j) < n \<Longrightarrow> num_end r \<Longrightarrow> pv n (pretty nl col d j @ r) = Some (j, r)"
  "list_all wf_json js \<Longrightarrow> js \<noteq> [] \<Longrightarrow> 2 * length (pretty_elems nl col d js) + 1 < n \<Longrightarrow> list_all json_ws w
     \<Longrightarrow> pel n (pretty_elems nl col d js @ w @ CHR '']'' # r) = Some (js, r)"
  "list_all (\<lambda>(k, j). wf_json j) ms \<Longrightarrow> ms \<noteq> [] \<Longrightarrow> 2 * length (pretty_members nl col d ms) + 1 < n \<Longrightarrow> list_all json_ws w
     \<Longrightarrow> pmem n (pretty_members nl col d ms @ w @ CHR ''}'' # r) = Some (ms, r)"
proof (induction j and js and ms arbitrary: n r d and n r d w and n r d w
    rule: print_json_print_elems_print_members.induct)
  case (3 l n r)
  then obtain m where "n = Suc m" by (cases n) auto
  with 3 show ?case by (simp add: pv_num del: pv.simps)
next
  case (4 s n r)
  then show ?case by (cases n) (auto simp: print_str_def skip_ws_fixed unquote_esc)
next
  case (5 js n r d)
  then obtain m where m: "n = Suc m" by (cases n) auto
  show ?case
  proof (cases "js = []")
    case True
    with m show ?thesis by (simp add: skip_ws_fixed)
  next
    case False
    then obtain j js' where js: "js = j # js'" by (cases js) auto
    with 5 pretty_lead[of j nl col "Suc d"] obtain c u where c: "pretty nl col (Suc d) j = c # u" "\<not> json_ws c" "c \<noteq> CHR '']''" by auto
    with js have "skip_ws (nl (Suc d) @ pretty_elems nl col (Suc d) js @ nl d @ CHR '']'' # r) = pretty_elems nl col (Suc d) js @ nl d @ CHR '']'' # r"
      "hd (pretty_elems nl col (Suc d) js @ nl d @ CHR '']'' # r) \<noteq> CHR '']''"
      by (simp_all add: skip_ws_append ws skip_ws_fixed)
    with 5 m False ws show ?thesis by (simp add: skip_ws_fixed pel_skip)
  qed
next
  case (6 ms n r d)
  then obtain m where m: "n = Suc m" by (cases n) auto
  show ?case
  proof (cases "ms = []")
    case True
    with m show ?thesis by (simp add: skip_ws_fixed)
  next
    case False
    then obtain k j ms' where ms: "ms = (k, j) # ms'" by (cases ms) auto
    then have "skip_ws (nl (Suc d) @ pretty_members nl col (Suc d) ms @ nl d @ CHR ''}'' # r) = pretty_members nl col (Suc d) ms @ nl d @ CHR ''}'' # r"
      "hd (pretty_members nl col (Suc d) ms @ nl d @ CHR ''}'' # r) \<noteq> CHR ''}''"
      by (simp_all add: skip_ws_append ws skip_ws_fixed print_str_def)
    with 6 m False ws show ?thesis by (simp add: skip_ws_fixed pmem_skip)
  qed
next
  case (8 j js n r d w)
  then obtain m where m: "n = Suc m" by (cases n) auto
  show ?case
  proof (cases "js = []")
    case True
    with 8 m show ?thesis by (simp add: skip_ws_append skip_ws_fixed num_end_ws del: pv.simps)
  next
    case False
    with 8 m ws show ?thesis by (simp add: skip_ws_fixed pel_skip del: pv.simps)
  qed
next
  case (10 k j ms n r d w)
  then obtain m where m: "n = Suc m" by (cases n) auto
  show ?case
  proof (cases "ms = []")
    case True
    with 10 m ws show ?thesis
      by (simp add: skip_ws_fixed print_str_def unquote_esc pv_skip skip_ws_append num_end_ws del: pv.simps)
  next
    case False
    with 10 m ws show ?thesis
      by (simp add: skip_ws_fixed print_str_def unquote_esc pv_skip pmem_skip del: pv.simps)
  qed
next
  case (1 n r)
  then show ?case by (cases n) (simp_all add: skip_ws_fixed json_ws_def code_def literal_def has_prefix_def)
next
  case (2 b n r)
  then show ?case
    by (cases n) (auto simp: skip_ws_fixed json_ws_def code_def literal_def has_prefix_def split: if_splits)
qed simp_all

lemmas parse_print = parse_pretty[where nl = "\<lambda>_. []" and col = "[]", unfolded pretty_compact, simplified]

lemma json_unmarshal_indent [simp, go_str]: "wf_json j \<Longrightarrow> json_unmarshal (print_indent j) = Some j"
  using parse_pretty(1)[of "\<lambda>d. CHR 0x0A # replicate (2 * d) (CHR '' '')" "'' ''" j 0 "json_fuel (print_indent j)" "[]"]
  by (simp add: json_unmarshal_def json_fuel_def skip_ws_def print_indent_def json_ws_def code_def list_all_iff)

lemma json_unmarshal_print [simp, go_str]: "wf_json j \<Longrightarrow> json_unmarshal (print_json j) = Some j"
  using parse_print(1)[of j "json_fuel (print_json j)" "[]"]
  by (simp add: json_unmarshal_def json_fuel_def skip_ws_def)

lemma json_decode_print [simp, go_str]: "wf_json j \<Longrightarrow> json_decode (print_json j) = Some j"
  using parse_print(1)[of j "json_fuel (print_json j)" "[]"]
  by (simp add: json_decode_def json_fuel_def skip_ws_def)

section \<open>Struct fields\<close>

definition members_for :: "string \<Rightarrow> (string \<times> json) list \<Rightarrow> json list" where
  \<comment> \<open>the members assigned to the field \<open>name\<close>, in order: keys match up to ASCII case\<close>
  "members_for name ms = map snd (filter (\<lambda>(k, _). equal_fold k name) ms)"

fun set_string :: "json list \<Rightarrow> string \<Rightarrow> string option" where
  "set_string [] cur = Some cur"
| "set_string (JNull # js) cur = set_string js cur"
| "set_string (JStr s # js) cur = set_string js s"
| "set_string (_ # js) cur = None"

definition int64_of :: "string \<Rightarrow> int option" where
  \<comment> \<open>\<open>strconv.ParseInt(lit, 10, 64)\<close> on a JSON number literal\<close>
  "int64_of l =
     (case l of [] \<Rightarrow> None
      | c # r \<Rightarrow>
         (let (neg, ds) = (if c = CHR ''-'' then (True, r) else (False, l)); n = int (digits_val ds)
          in if ds = [] \<or> \<not> list_all is_digit ds then None
             else if neg then (if n \<le> int64_max + 1 then Some (- n) else None)
             else (if n \<le> int64_max then Some n else None)))"

fun set_int64 :: "json list \<Rightarrow> int \<Rightarrow> int option" where
  "set_int64 [] cur = Some cur"
| "set_int64 (JNull # js) cur = set_int64 js cur"
| "set_int64 (JNum l # js) cur = (case int64_of l of None \<Rightarrow> None | Some i \<Rightarrow> set_int64 js i)"
| "set_int64 (_ # js) cur = None"

definition in_int64 :: "int \<Rightarrow> bool" where
  "in_int64 i \<longleftrightarrow> - int64_max - 1 \<le> i \<and> i \<le> int64_max"

lemma int64_of_dec_int [simp, go_str]: "in_int64 i \<Longrightarrow> int64_of (dec_int i) = Some i"
proof (cases "i < 0")
  case True
  assume "in_int64 i"
  with True show ?thesis
    by (simp add: int64_of_def dec_int_def dec_nat_digits in_int64_def)
next
  case False
  assume i: "in_int64 i"
  obtain c u where c: "dec_nat (nat i) = c # u" "is_digit c" by (rule dec_nat_Cons)
  have "list_all is_digit (c # u)" "digits_val (c # u) = nat i"
    using dec_nat_digits[of "nat i"] digits_val_dec_nat[of "nat i"] c by simp_all
  moreover have "c \<noteq> CHR ''-''" using c(2) digit_not_sign by blast
  ultimately show ?thesis using False i c(1) by (simp add: int64_of_def dec_int_def in_int64_def)
qed

end
