(* ===== verification/Auth.thy ===== *)
theory Auth
  imports Base64 Json
begin

text \<open>
  \<open>pkg/auth/auth.go\<close>: session tokens (a JSON Web Token with HS256 in a cookie) and argon2id
  password hashes.  HMAC-SHA256 is the parameter \<open>hmac\<close> (key, message), argon2id the parameter
  \<open>argon2\<close> (password, salt, time, memory, threads, key length) with its version number \<open>aver\<close>,
  \<open>crypto/rand\<close> an input (\<open>None\<close>: it failed).  The comparison in constant time is equality.
\<close>

type_synonym hmac_fun = "string \<Rightarrow> string \<Rightarrow> string"
type_synonym argon2_fun = "string \<Rightarrow> string \<Rightarrow> nat \<Rightarrow> nat \<Rightarrow> nat \<Rightarrow> nat \<Rightarrow> string"

section \<open>Claims\<close>

record claims =
  c_Sub :: string
  c_Slug :: string
  c_Exp :: int
  c_Iat :: int
  c_Jti :: string
  c_Uid :: string

definition SessionTTL :: goduration where
  "SessionTTL = hours 24"

definition SessionCookieName :: string where
  "SessionCookieName = ''kai-session''"

definition marshal_claims :: "claims \<Rightarrow> string" where
  "marshal_claims c = print_json (JObj (
     [(''sub'', JStr (c_Sub c)), (''slug'', JStr (c_Slug c)), (''exp'', JNum (dec_int (c_Exp c))),
      (''iat'', JNum (dec_int (c_Iat c)))]
     @ (if c_Jti c = [] then [] else [(''jti'', JStr (c_Jti c))])
     @ (if c_Uid c = [] then [] else [(''uid'', JStr (c_Uid c))])))"

definition unmarshal_claims :: "string \<Rightarrow> claims option" where
  "unmarshal_claims s = (case json_unmarshal s of
     Some (JObj ms) \<Rightarrow>
       (case (set_string (members_for ''sub'' ms) [], set_string (members_for ''slug'' ms) [],
              set_int64 (members_for ''exp'' ms) 0, set_int64 (members_for ''iat'' ms) 0,
              set_string (members_for ''jti'' ms) [], set_string (members_for ''uid'' ms) []) of
          (Some su, Some sl, Some ex, Some ia, Some jt, Some ui) \<Rightarrow>
            Some \<lparr>c_Sub = su, c_Slug = sl, c_Exp = ex, c_Iat = ia, c_Jti = jt, c_Uid = ui\<rparr>
        | _ \<Rightarrow> None)
   | Some JNull \<Rightarrow> Some \<lparr>c_Sub = [], c_Slug = [], c_Exp = 0, c_Iat = 0, c_Jti = [], c_Uid = []\<rparr>
   | _ \<Rightarrow> None)"

lemma fold_keys [simp]:
  "equal_fold ''sub'' ''slug'' = False" "equal_fold ''sub'' ''exp'' = False" "equal_fold ''sub'' ''iat'' = False"
  "equal_fold ''sub'' ''jti'' = False" "equal_fold ''sub'' ''uid'' = False"
  "equal_fold ''slug'' ''sub'' = False" "equal_fold ''slug'' ''exp'' = False" "equal_fold ''slug'' ''iat'' = False"
  "equal_fold ''slug'' ''jti'' = False" "equal_fold ''slug'' ''uid'' = False"
  "equal_fold ''exp'' ''sub'' = False" "equal_fold ''exp'' ''slug'' = False" "equal_fold ''exp'' ''iat'' = False"
  "equal_fold ''exp'' ''jti'' = False" "equal_fold ''exp'' ''uid'' = False"
  "equal_fold ''iat'' ''sub'' = False" "equal_fold ''iat'' ''slug'' = False" "equal_fold ''iat'' ''exp'' = False"
  "equal_fold ''iat'' ''jti'' = False" "equal_fold ''iat'' ''uid'' = False"
  "equal_fold ''jti'' ''sub'' = False" "equal_fold ''jti'' ''slug'' = False" "equal_fold ''jti'' ''exp'' = False"
  "equal_fold ''jti'' ''iat'' = False" "equal_fold ''jti'' ''uid'' = False"
  "equal_fold ''uid'' ''sub'' = False" "equal_fold ''uid'' ''slug'' = False" "equal_fold ''uid'' ''exp'' = False"
  "equal_fold ''uid'' ''iat'' = False" "equal_fold ''uid'' ''jti'' = False"
  by (simp_all add: equal_fold_def to_lower_def lower_char_def is_upper_def code_def)

lemma unmarshal_marshal_claims:
  assumes "in_int64 (c_Exp c)" "in_int64 (c_Iat c)"
  shows "unmarshal_claims (marshal_claims c) = Some c"
  using assms by (auto simp: unmarshal_claims_def marshal_claims_def members_for_def simp del: print_json.simps)

section \<open>Tokens\<close>

datatype jwt_error = BadJWT | BadSignature | BadEncoding | BadPayload

definition jwt_header :: string where
  "jwt_header = ''{'' @ [QT] @ ''alg'' @ [QT] @ '':'' @ [QT] @ ''HS256'' @ [QT] @ '','' @ [QT] @ ''typ'' @ [QT]
     @ '':'' @ [QT] @ ''JWT'' @ [QT] @ ''}''"

definition SignJWT :: "hmac_fun \<Rightarrow> claims \<Rightarrow> string \<Rightarrow> string" where
  "SignJWT hmac c secret =
     (let h = url_encode jwt_header; p = url_encode (marshal_claims c); signing = h @ ''.'' @ p
      in signing @ ''.'' @ url_encode (hmac secret signing))"

definition ParseJWT :: "hmac_fun \<Rightarrow> string \<Rightarrow> string \<Rightarrow> jwt_error + claims" where
  "ParseJWT hmac token secret = (case split_on (CHR ''.'') token of
     [h, p, sg] \<Rightarrow>
       (let expected = url_encode (hmac secret (h @ ''.'' @ p))
        in if expected \<noteq> sg then Inl BadSignature
           else (case url_decode p of None \<Rightarrow> Inl BadEncoding
             | Some payload \<Rightarrow> (case unmarshal_claims payload of None \<Rightarrow> Inl BadPayload | Some c \<Rightarrow> Inr c)))
   | _ \<Rightarrow> Inl BadJWT)"

definition newJTI :: "string option \<Rightarrow> string option" where
  \<comment> \<open>the argument is what \<open>rand.Read\<close> put into the 8 bytes\<close>
  "newJTI b = map_option hex_encode b"

record cookie =
  ck_Name :: string
  ck_Value :: string
  ck_Path :: string
  ck_MaxAge :: int
  ck_HttpOnly :: bool
  ck_Secure :: bool
  ck_SameSite :: string

definition IssueSessionWithUID ::
  "hmac_fun \<Rightarrow> string \<Rightarrow> string \<Rightarrow> string \<Rightarrow> string \<Rightarrow> gotime \<Rightarrow> string option \<Rightarrow> cookie option" where
  "IssueSessionWithUID hmac slug email uid secret now b = (case newJTI b of None \<Rightarrow> None
     | Some jti \<Rightarrow>
         (let c = \<lparr>c_Sub = email, c_Slug = slug, c_Exp = unix_sec (now + SessionTTL), c_Iat = unix_sec now,
                   c_Jti = jti, c_Uid = uid\<rparr>
          in Some \<lparr>ck_Name = SessionCookieName, ck_Value = SignJWT hmac c secret, ck_Path = ''/'',
                ck_MaxAge = SessionTTL div seconds 1, ck_HttpOnly = True, ck_Secure = True,
                ck_SameSite = ''Lax''\<rparr>))"

definition IssueSession ::
  "hmac_fun \<Rightarrow> string \<Rightarrow> string \<Rightarrow> string \<Rightarrow> gotime \<Rightarrow> string option \<Rightarrow> cookie option" where
  "IssueSession hmac slug email secret now b = IssueSessionWithUID hmac slug email [] secret now b"

definition MakeClearCookie :: cookie where
  "MakeClearCookie = \<lparr>ck_Name = SessionCookieName, ck_Value = [], ck_Path = ''/'', ck_MaxAge = - 1,
     ck_HttpOnly = True, ck_Secure = True, ck_SameSite = ''Lax''\<rparr>"

definition Authenticate :: "hmac_fun \<Rightarrow> string \<Rightarrow> string \<Rightarrow> string \<Rightarrow> gotime \<Rightarrow> claims option" where
  "Authenticate hmac token slug secret now =
     (if token = [] \<or> secret = [] then None
      else (case ParseJWT hmac token secret of Inl _ \<Rightarrow> None
        | Inr c \<Rightarrow> if c_Slug c \<noteq> slug then None
                   else if unix_sec now \<ge> c_Exp c then None else Some c))"

lemma split_on_three:
  assumes "CHR ''.'' \<notin> set h" "CHR ''.'' \<notin> set p" "CHR ''.'' \<notin> set sg"
  shows "split_on (CHR ''.'') (h @ ''.'' @ p @ ''.'' @ sg) = [h, p, sg]"
  using assms split_on_append[of "CHR ''.''" h "p @ ''.'' @ sg"] split_on_append[of "CHR ''.''" p sg]
  by simp

lemma join_split_on: "join_with [c] (split_on c s) = s"
proof (induction c s rule: split_on.induct)
  case (2 c d s)
  then show ?case
    by (cases "split_on c s" rule: remdups_adj.cases) (auto split: if_splits)
qed simp

lemma split_on_pieces: "p \<in> set (split_on c s) \<Longrightarrow> c \<notin> set p"
  by (induction c s arbitrary: p rule: split_on.induct) (auto split: if_splits list.splits)

lemma split_on_three_inv:
  assumes "split_on (CHR ''.'') t = [h, p, sg]"
  shows "t = h @ ''.'' @ p @ ''.'' @ sg"
  using join_split_on[of "CHR ''.''" t] assms by simp

lemma SignJWT_form:
  "SignJWT hmac c secret = url_encode jwt_header @ ''.'' @ url_encode (marshal_claims c) @ ''.''
     @ url_encode (hmac secret (url_encode jwt_header @ ''.'' @ url_encode (marshal_claims c)))"
  by (simp add: SignJWT_def Let_def)

lemma ParseJWT_SignJWT:
  assumes "in_int64 (c_Exp c)" "in_int64 (c_Iat c)"
  shows "ParseJWT hmac (SignJWT hmac c secret) secret = Inr c"
  unfolding ParseJWT_def SignJWT_form split_on_three[OF b64_encode_no_dot b64_encode_no_dot b64_encode_no_dot]
  by (simp add: unmarshal_marshal_claims[OF assms])

lemma ParseJWT_signed_claims:
  \<comment> \<open>under any key a signed token has no claims but those signed\<close>
  assumes "ParseJWT hmac (SignJWT hmac c secret) secret' = Inr c'" "in_int64 (c_Exp c)" "in_int64 (c_Iat c)"
  shows "c' = c"
  using assms(1) unfolding ParseJWT_def SignJWT_form split_on_three[OF b64_encode_no_dot b64_encode_no_dot b64_encode_no_dot]
  by (simp add: Let_def unmarshal_marshal_claims[OF assms(2,3)] split: if_splits)

lemma ParseJWT_InrE:
  assumes "ParseJWT hmac t secret = Inr c"
  obtains h p payload where "t = h @ ''.'' @ p @ ''.'' @ url_encode (hmac secret (h @ ''.'' @ p))"
    "CHR ''.'' \<notin> set h" "CHR ''.'' \<notin> set p" "url_decode p = Some payload" "unmarshal_claims payload = Some c"
proof -
  obtain h p sg where s: "split_on (CHR ''.'') t = [h, p, sg]"
    using assms by (auto simp: ParseJWT_def split: list.splits)
  with assms obtain payload where "sg = url_encode (hmac secret (h @ ''.'' @ p))"
    "url_decode p = Some payload" "unmarshal_claims payload = Some c"
    by (auto simp: ParseJWT_def Let_def split: if_splits option.splits)
  moreover have "CHR ''.'' \<notin> set h" "CHR ''.'' \<notin> set p"
    by (rule split_on_pieces[of _ _ t], simp add: s)+
  ultimately show ?thesis using that split_on_three_inv[OF s] by blast
qed

section \<open>Sessions\<close>

lemma issued_session:
  assumes "IssueSessionWithUID hmac slug email uid secret now (Some b) = Some ck" "secret \<noteq> []"
    and "in_int64 (unix_sec now)" "in_int64 (unix_sec now + 86400)"
  shows "Authenticate hmac (ck_Value ck) slug' secret t =
    (if slug' = slug \<and> unix_sec t < unix_sec now + 86400
     then Some \<lparr>c_Sub = email, c_Slug = slug, c_Exp = unix_sec now + 86400, c_Iat = unix_sec now,
            c_Jti = hex_encode b, c_Uid = uid\<rparr>
     else None)"
proof -
  let ?c = "\<lparr>c_Sub = email, c_Slug = slug, c_Exp = unix_sec now + 86400, c_Iat = unix_sec now,
     c_Jti = hex_encode b, c_Uid = uid\<rparr>"
  have "unix_sec (now + SessionTTL) = unix_sec now + 86400"
    by (simp add: SessionTTL_def hours_def)
  then have v: "ck_Value ck = SignJWT hmac ?c secret"
    using assms(1) by (auto simp: IssueSessionWithUID_def newJTI_def)
  have p: "ParseJWT hmac (SignJWT hmac ?c secret) secret = Inr ?c"
    using assms(3,4) by (intro ParseJWT_SignJWT) simp_all
  have "SignJWT hmac ?c secret \<noteq> []" by (simp add: SignJWT_form)
  then show ?thesis unfolding v Authenticate_def p using assms(2) by auto
qed



text \<open>C30: nothing is accepted that the key did not sign: a token \<open>Authenticate\<close> accepts is
  header, payload and signature joined by dots, its signature is the MAC of exactly what precedes it
  (no other signature of the same header and payload is accepted, whatever algorithm the header
  names), its payload decodes to the claims returned, and these name the slug asked for and a
  later expiry; so no token is good for two slugs.\<close>

theorem accepted_only_if_signed:
  assumes "Authenticate hmac token slug secret now = Some c"
  shows "secret \<noteq> [] \<and> c_Slug c = slug \<and> unix_sec now < c_Exp c
    \<and> (\<exists>h p payload. token = h @ ''.'' @ p @ ''.'' @ url_encode (hmac secret (h @ ''.'' @ p))
        \<and> url_decode p = Some payload \<and> unmarshal_claims payload = Some c
        \<and> (Authenticate hmac (h @ ''.'' @ p @ ''.'' @ sg) slug' secret now \<noteq> None \<longrightarrow>
             sg = url_encode (hmac secret (h @ ''.'' @ p)) \<and> slug' = slug))"
proof -
  from assms have s: "secret \<noteq> []" "c_Slug c = slug" "unix_sec now < c_Exp c"
    and p: "ParseJWT hmac token secret = Inr c"
    by (auto simp: Authenticate_def split: if_splits sum.splits)
  from p obtain h pl payload where t: "token = h @ ''.'' @ pl @ ''.'' @ url_encode (hmac secret (h @ ''.'' @ pl))"
    and d: "CHR ''.'' \<notin> set h" "CHR ''.'' \<notin> set pl" "url_decode pl = Some payload" "unmarshal_claims payload = Some c"
    by (rule ParseJWT_InrE)
  have "sg = url_encode (hmac secret (h @ ''.'' @ pl)) \<and> slug' = slug"
    if "Authenticate hmac (h @ ''.'' @ pl @ ''.'' @ sg) slug' secret now \<noteq> None"
  proof -
    from that obtain c' where c': "c_Slug c' = slug'"
      "ParseJWT hmac (h @ ''.'' @ pl @ ''.'' @ sg) secret = Inr c'"
      by (auto simp: Authenticate_def split: if_splits sum.splits)
    have "CHR ''.'' \<notin> set sg"
    proof
      assume "CHR ''.'' \<in> set sg"
      then obtain u v where uv: "sg = u @ CHR ''.'' # v" "CHR ''.'' \<notin> set u"
        by (metis split_list_first)
      then have "split_on (CHR ''.'') (h @ ''.'' @ pl @ ''.'' @ sg) = h # pl # u # split_on (CHR ''.'') v"
        using d(1,2) by (simp add: split_on_append)
      with c'(2) show False by (simp add: ParseJWT_def split: list.splits)
    qed
    with c'(2) d split_on_three[of h pl sg] have "sg = url_encode (hmac secret (h @ ''.'' @ pl))" "c' = c"
      by (auto simp: ParseJWT_def Let_def split: if_splits)
    with c' s show ?thesis by simp
  qed
  with s t d show ?thesis by blast
qed

corollary accepted_only_if_signed_witness:
  "\<exists>tok c. Authenticate (\<lambda>k m. k @ m) tok ''acme'' ''key'' 0 = Some c \<and> c_Slug c = ''acme'' \<and> 0 < c_Exp c"
proof -
  define c where "c = \<lparr>c_Sub = ''a'', c_Slug = ''acme'', c_Exp = 9, c_Iat = 0, c_Jti = [], c_Uid = []\<rparr>"
  have "ParseJWT (\<lambda>k m. k @ m) (SignJWT (\<lambda>k m. k @ m) c ''key'') ''key'' = Inr c"
    by (rule ParseJWT_SignJWT) (simp_all add: c_def in_int64_def int64_max_def)
  moreover have "SignJWT (\<lambda>k m. k @ m) c ''key'' \<noteq> []" by (simp add: SignJWT_form)
  ultimately have a: "Authenticate (\<lambda>k m. k @ m) (SignJWT (\<lambda>k m. k @ m) c ''key'') ''acme'' ''key'' 0 = Some c"
    by (simp add: Authenticate_def c_def unix_sec_def)
  from accepted_only_if_signed[OF this] a show ?thesis by (auto simp: unix_sec_def)
qed

section \<open>Passwords\<close>

definition argonMemory :: nat where "argonMemory = 64 * 1024"
definition argonTime :: nat where "argonTime = 3"
definition argonThreads :: nat where "argonThreads = 4"
definition argonKeyLen :: nat where "argonKeyLen = 32"

definition HashPassword :: "argon2_fun \<Rightarrow> nat \<Rightarrow> string \<Rightarrow> string option \<Rightarrow> string option" where
  \<comment> \<open>the last argument is the random salt\<close>
  "HashPassword argon2 aver password salt = map_option (\<lambda>sl.
     ''$argon2id$v='' @ dec_nat aver @ ''$m='' @ dec_nat argonMemory @ '',t='' @ dec_nat argonTime
     @ '',p='' @ dec_nat argonThreads @ ''$'' @ std_encode sl @ ''$''
     @ std_encode (argon2 password sl argonTime argonMemory argonThreads argonKeyLen)) salt"

definition scan_uint :: "nat \<Rightarrow> string \<Rightarrow> (nat \<times> string) option" where
  \<comment> \<open>one \<open>%d\<close> of \<open>Sscanf\<close> into an unsigned integer of the given width\<close>
  "scan_uint w s = (case skip_space_line s of None \<Rightarrow> None
     | Some u \<Rightarrow>
        (let ds = takeWhile is_digit u; n = digits_val ds
         in if ds = [] \<or> n \<ge> 2 ^ w then None else Some (n, dropWhile is_digit u)))"

definition scan_lit :: "string \<Rightarrow> string \<Rightarrow> string option" where
  "scan_lit w s = (if has_prefix w s then Some (drop (length w) s) else None)"

definition scan_argon_params :: "string \<Rightarrow> (nat \<times> nat \<times> nat) option" where
  \<comment> \<open>\<open>Sscanf(s, "m=%d,t=%d,p=%d", &memory, &time, &threads)\<close>\<close>
  "scan_argon_params s =
     (case scan_lit ''m='' s of None \<Rightarrow> None | Some s1 \<Rightarrow>
     (case scan_uint 32 s1 of None \<Rightarrow> None | Some (m, s2) \<Rightarrow>
     (case scan_lit '',t='' s2 of None \<Rightarrow> None | Some s3 \<Rightarrow>
     (case scan_uint 32 s3 of None \<Rightarrow> None | Some (t, s4) \<Rightarrow>
     (case scan_lit '',p='' s4 of None \<Rightarrow> None | Some s5 \<Rightarrow>
     (case scan_uint 8 s5 of None \<Rightarrow> None | Some (p, _) \<Rightarrow> Some (m, t, p)))))))"

definition VerifyArgon2id :: "argon2_fun \<Rightarrow> nat \<Rightarrow> string \<Rightarrow> string \<Rightarrow> bool" where
  "VerifyArgon2id argon2 aver password encoded = (case split_on (CHR ''$'') encoded of
     [_, alg, ver, ps, sl, hs] \<Rightarrow>
       if alg \<noteq> ''argon2id'' then False
       else (case scan_lit ''v='' ver of None \<Rightarrow> False
         | Some v \<Rightarrow> if scan_int v \<noteq> Some (int aver) then False
         else (case scan_argon_params ps of None \<Rightarrow> False
           | Some (m, t, p) \<Rightarrow>
              (case std_decode sl of None \<Rightarrow> False
               | Some salt \<Rightarrow> (case std_decode hs of None \<Rightarrow> False
                  | Some want \<Rightarrow> argon2 password salt t m p (length want mod 2 ^ 32) = want))))
   | _ \<Rightarrow> False)"

lemma skip_space_dec: "skip_space_line (dec_nat n @ r) = Some (dec_nat n @ r)"
proof -
  obtain c u where "dec_nat n = c # u" "is_digit c" by (rule dec_nat_Cons)
  with digit_not_sign[of c] show ?thesis by simp
qed

lemma scan_uint_dec: "n < 2 ^ w \<Longrightarrow> num_end r \<Longrightarrow> scan_uint w (dec_nat n @ r) = Some (n, r)"
  by (simp add: scan_uint_def skip_space_dec takeWhile_dec_nat)

lemma scan_lit_append: "scan_lit w (w @ r) = Some r"
  by (simp add: scan_lit_def)

lemma scan_argon_params_print:
  "scan_argon_params (''m='' @ dec_nat argonMemory @ '',t='' @ dec_nat argonTime @ '',p='' @ dec_nat argonThreads)
   = Some (argonMemory, argonTime, argonThreads)"
proof -
  have m: "scan_uint 32 (dec_nat argonMemory @ '',t='' @ r) = Some (argonMemory, '',t='' @ r)" for r
    by (rule scan_uint_dec) (simp_all add: argonMemory_def)
  have t: "scan_uint 32 (dec_nat argonTime @ '',p='' @ r) = Some (argonTime, '',p='' @ r)" for r
    by (rule scan_uint_dec) (simp_all add: argonTime_def)
  have p: "scan_uint 8 (dec_nat argonThreads) = Some (argonThreads, [])"
    using scan_uint_dec[of argonThreads 8 "[]"] by (simp add: argonThreads_def)
  show ?thesis unfolding scan_argon_params_def
    by (simp only: scan_lit_append m t p option.case prod.case)
qed

lemma scan_int_dec_nat: "int n \<le> int64_max \<Longrightarrow> scan_int (dec_nat n) = Some (int n)"
  using scan_int_dec_int[of "int n"] by (simp add: dec_int_def)

lemma no_dollar_dec: "CHR ''$'' \<notin> set (dec_nat n)"
  using dec_nat_digits[of n] by (auto simp: list_all_iff is_digit_def code_def)

lemma HashPassword_parts:
  assumes "HashPassword argon2 aver pw (Some sl) = Some h"
  shows "split_on (CHR ''$'') h = [[], ''argon2id'', ''v='' @ dec_nat aver,
     ''m='' @ dec_nat argonMemory @ '',t='' @ dec_nat argonTime @ '',p='' @ dec_nat argonThreads,
     std_encode sl, std_encode (argon2 pw sl argonTime argonMemory argonThreads argonKeyLen)]"
proof -
  let ?d = "CHR ''$''" and ?v = "''v='' @ dec_nat aver"
  let ?m = "''m='' @ dec_nat argonMemory @ '',t='' @ dec_nat argonTime @ '',p='' @ dec_nat argonThreads"
  let ?s = "std_encode sl" and ?k = "std_encode (argon2 pw sl argonTime argonMemory argonThreads argonKeyLen)"
  have h: "h = [] @ ?d # ''argon2id'' @ ?d # ?v @ ?d # ?m @ ?d # ?s @ ?d # ?k"
    using assms by (simp add: HashPassword_def)
  have n: "?d \<notin> set []" "?d \<notin> set ''argon2id''" "?d \<notin> set ?v" "?d \<notin> set ?m" "?d \<notin> set ?s" "?d \<notin> set ?k"
    by (simp_all add: no_dollar_dec)
  show ?thesis unfolding h
    by (simp only: split_on_append[OF n(1)] split_on_append[OF n(2)] split_on_append[OF n(3)]
        split_on_append[OF n(4)] split_on_append[OF n(5)] split_on_no_sep[OF n(6)])
qed

lemma verify_hashed:
  assumes "HashPassword argon2 aver pw (Some sl) = Some h" "int aver \<le> int64_max"
    and keylen: "\<And>p s t m th k. length (argon2 p s t m th k) = k"
  shows "(VerifyArgon2id argon2 aver pw' h \<longleftrightarrow>
      argon2 pw' sl argonTime argonMemory argonThreads argonKeyLen
      = argon2 pw sl argonTime argonMemory argonThreads argonKeyLen)
    \<and> VerifyArgon2id argon2 aver pw h"
proof -
  have k: "length (argon2 pw sl argonTime argonMemory argonThreads argonKeyLen) mod 2 ^ 32 = argonKeyLen"
    unfolding keylen by (simp add: argonKeyLen_def)
  have "VerifyArgon2id argon2 aver p h \<longleftrightarrow>
      argon2 p sl argonTime argonMemory argonThreads argonKeyLen
      = argon2 pw sl argonTime argonMemory argonThreads argonKeyLen" for p
    unfolding VerifyArgon2id_def HashPassword_parts[OF assms(1)]
    by (simp only: list.case scan_lit_append option.case prod.case scan_int_dec_nat[OF assms(2)]
        scan_argon_params_print b64_decode_encode k) simp
  then show ?thesis by simp
qed

text \<open>A stored password hash verifies exactly the passwords with the same argon2id digest under
  the stored salt and parameters; in particular the password that was hashed always verifies.\<close>

theorem password_roundtrip:
  assumes "HashPassword argon2 aver pw (Some sl) = Some h" "int aver \<le> int64_max"
    and keylen: "\<And>p s t m th k. length (argon2 p s t m th k) = k"
  shows "(VerifyArgon2id argon2 aver pw' h \<longleftrightarrow>
      argon2 pw' sl argonTime argonMemory argonThreads argonKeyLen
      = argon2 pw sl argonTime argonMemory argonThreads argonKeyLen)
    \<and> VerifyArgon2id argon2 aver pw h"
  by (rule verify_hashed[OF assms])

corollary password_roundtrip_witness:
  "\<exists>h. HashPassword (\<lambda>p s t m th k. take k (p @ replicate k (CHR ''x''))) 19 ''hunter22'' (Some ''saltsaltsaltsalt'') = Some h
     \<and> VerifyArgon2id (\<lambda>p s t m th k. take k (p @ replicate k (CHR ''x''))) 19 ''hunter22'' h
     \<and> \<not> VerifyArgon2id (\<lambda>p s t m th k. take k (p @ replicate k (CHR ''x''))) 19 ''Hunter22'' h"
proof -
  let ?a = "\<lambda>p s t m th k. take k (p @ replicate k (CHR ''x''))"
  obtain h where h: "HashPassword ?a 19 ''hunter22'' (Some ''saltsaltsaltsalt'') = Some h"
    by (simp add: HashPassword_def)
  have l: "length (?a p s t m th k) = k" for p :: string and s :: string and t m th :: nat and k
    by simp
  from password_roundtrip[OF h _ l] h show ?thesis
    by (simp add: int64_max_def argonKeyLen_def)
qed

end
