(* ===== verification/Kube.thy ===== *)
theory Kube
  imports Prelude
begin

text \<open>
  What the sources share of the Kubernetes API: the error classes they tell apart
  (\<open>apierrors.IsNotFound\<close>, \<open>IsAlreadyExists\<close>, \<open>IsConflict\<close>, anything else with its HTTP status) and
  the names of the objects that belong to a workspace slug.
\<close>

datatype kerr = KNotFound | KAlreadyExists | KConflict | KOther int

definition instance_name :: "string \<Rightarrow> string" where
  "instance_name slug = ''kai-'' @ slug"

definition bridge_name :: "string \<Rightarrow> string" where
  "bridge_name slug = ''kai-'' @ slug @ ''-chat-bridge''"

definition users_name :: "string \<Rightarrow> string" where
  "users_name slug = ''kai-'' @ slug @ ''-users''"

lemma instance_name_inject [simp]: "instance_name s = instance_name t \<longleftrightarrow> s = t"
  by (simp add: instance_name_def)

lemma bridge_name_inject [simp]: "bridge_name s = bridge_name t \<longleftrightarrow> s = t"
  by (simp add: bridge_name_def)

lemma users_name_inject [simp]: "users_name s = users_name t \<longleftrightarrow> s = t"
  by (simp add: users_name_def)

end
