(* ===== verification/Revocation.thy ===== *)
theory Revocation
  imports Auth Kube "HOL-Library.Multiset"
begin

text \<open>
  Server-side logout: \<open>MemoryRevoker\<close> (\<open>pkg/auth/revocation.go\<close>) and \<open>SecretRevoker\<close>
  (\<open>pkg/authk8s/k8srevoker.go\<close>), which keeps its list as JSON in the tenant's chat-bridge Secret.
  The interface \<open>Revoker\<close> is the locale \<open>revoker\<close>.  The Secret is one versioned object: an
  \<open>Update\<close> is refused with a conflict when the object changed since the \<open>Get\<close>; what other replicas
  do between the two is an input of each attempt.  \<open>sort.Slice\<close> is the parameter \<open>srt\<close>, of which
  only that it sorts is used (it is not stable).
\<close>

section \<open>MemoryRevoker\<close>

type_synonym mem_revoker = "(string \<times> (string \<times> int) list) list"

definition mr_Revoke :: "string \<Rightarrow> string \<Rightarrow> gotime \<Rightarrow> mem_revoker \<Rightarrow> mem_revoker" where
  "mr_Revoke slug jti exp m =
     (if jti = [] then m
      else (let bucket = (case map_of m slug of None \<Rightarrow> [] | Some b \<Rightarrow> b)
            in al_put slug (al_put jti (unix_sec exp) bucket) m))"

definition mr_IsRevoked :: "gotime \<Rightarrow> string \<Rightarrow> string \<Rightarrow> mem_revoker \<Rightarrow> bool \<times> mem_revoker" where
  "mr_IsRevoked now slug jti m =
     (if jti = [] then (False, m)
      else (case map_of m slug of None \<Rightarrow> (False, m)
        | Some bucket \<Rightarrow>
            (let nowSec = unix_sec now
             in (case map_of bucket jti of
                   Some e \<Rightarrow> if e \<le> nowSec then (False, al_put slug (al_del jti bucket) m)
                     else (True, al_put slug (filter (\<lambda>(_, e). \<not> e \<le> nowSec) bucket) m)
                 | None \<Rightarrow> (False, al_put slug (filter (\<lambda>(_, e). \<not> e \<le> nowSec) bucket) m)))))"

definition mr_inv :: "mem_revoker \<Rightarrow> bool" where
  "mr_inv m \<longleftrightarrow> (\<forall>slug b. map_of m slug = Some b \<longrightarrow> distinct (map fst b))"

lemma mr_inv_Revoke: "mr_inv m \<Longrightarrow> mr_inv (mr_Revoke slug jti exp m)"
  by (auto simp: mr_inv_def mr_Revoke_def Let_def distinct_al_put split: option.splits)

lemma mr_inv_IsRevoked: "mr_inv m \<Longrightarrow> mr_inv (snd (mr_IsRevoked now slug jti m))"
  by (auto simp: mr_inv_def mr_IsRevoked_def Let_def al_del_def distinct_al_filter split: option.splits if_splits)

lemma mr_IsRevoked_iff:
  "fst (mr_IsRevoked now slug jti m) \<longleftrightarrow>
   jti \<noteq> [] \<and> (\<exists>b e. map_of m slug = Some b \<and> map_of b jti = Some e \<and> unix_sec now < e)"
  by (auto simp: mr_IsRevoked_def Let_def split: option.splits)

lemma mr_IsRevoked_state:
  assumes "mr_inv m"
  shows "snd (mr_IsRevoked now slug jti m) = m \<or> (\<exists>b b'. map_of m slug = Some b
    \<and> snd (mr_IsRevoked now slug jti m) = al_put slug b' m
    \<and> (\<forall>k e. unix_sec now < e \<longrightarrow> (map_of b' k = Some e \<longleftrightarrow> map_of b k = Some e)))"
proof (cases "jti = [] \<or> map_of m slug = None")
  case True
  then show ?thesis by (auto simp: mr_IsRevoked_def)
next
  case False
  then obtain b where b: "map_of m slug = Some b" by auto
  then have "distinct (map fst b)" using assms by (simp add: mr_inv_def)
  then have f: "map_of (filter (\<lambda>(_, e). \<not> e \<le> unix_sec now) b) k = Some e \<longleftrightarrow>
      map_of b k = Some e \<and> unix_sec now < e" for k e
    by (cases "map_of b k") (simp_all add: map_of_filter_distinct, auto)
  show ?thesis
  proof (cases "\<exists>e. map_of b jti = Some e \<and> e \<le> unix_sec now")
    case True
    then have "snd (mr_IsRevoked now slug jti m) = al_put slug (al_del jti b) m"
      using False b by (auto simp: mr_IsRevoked_def Let_def)
    moreover have "unix_sec now < e \<Longrightarrow> map_of (al_del jti b) k = Some e \<longleftrightarrow> map_of b k = Some e" for k e
      using True by auto
    ultimately show ?thesis using b by blast
  next
    case no: False
    then have "snd (mr_IsRevoked now slug jti m) = al_put slug (filter (\<lambda>(_, e). \<not> e \<le> unix_sec now) b) m"
      using False b by (auto simp: mr_IsRevoked_def Let_def split: option.splits)
    with b f show ?thesis by blast
  qed
qed

lemma mr_IsRevoked_pure:
  \<comment> \<open>the pruning a read does never changes a later answer\<close>
  assumes "mr_inv m" "now \<le> t"
  shows "fst (mr_IsRevoked t slug' jti' (snd (mr_IsRevoked now slug jti m))) = fst (mr_IsRevoked t slug' jti' m)"
proof -
  have le: "unix_sec now < e" if "unix_sec t < e" for e
    using that unix_sec_mono[OF assms(2)] by simp
  from mr_IsRevoked_state[OF assms(1), of now slug jti] show ?thesis
  proof
    assume "\<exists>b b'. map_of m slug = Some b \<and> snd (mr_IsRevoked now slug jti m) = al_put slug b' m
      \<and> (\<forall>k e. unix_sec now < e \<longrightarrow> (map_of b' k = Some e \<longleftrightarrow> map_of b k = Some e))"
    then obtain b b' where b: "map_of m slug = Some b" and s: "snd (mr_IsRevoked now slug jti m) = al_put slug b' m"
      and e: "\<And>k e. unix_sec now < e \<Longrightarrow> map_of b' k = Some e \<longleftrightarrow> map_of b k = Some e" by blast
    show ?thesis unfolding mr_IsRevoked_iff s using b e le by (cases "slug' = slug") auto
  qed simp
qed

section \<open>The list in the Secret\<close>

record entry =
  e_Jti :: string
  e_Exp :: int

definition MaxEntriesPerSlug :: nat where
  "MaxEntriesPerSlug = 1000"

definition SecretKey :: string where
  "SecretKey = ''revoked-jtis''"

definition pruneExpired :: "int \<Rightarrow> entry list \<Rightarrow> entry list" where
  "pruneExpired nowSec l = filter (\<lambda>e. e_Exp e > nowSec) l"

fun set_first :: "string \<Rightarrow> int \<Rightarrow> entry list \<Rightarrow> entry list option" where
  \<comment> \<open>the loop replacing the expiry of the first entry with this jti; \<open>None\<close>: there is none\<close>
  "set_first jti x [] = None"
| "set_first jti x (e # es) =
     (if e_Jti e = jti then Some (e\<lparr>e_Exp := x\<rparr> # es) else map_option (\<lambda>r. e # r) (set_first jti x es))"

definition revoke_fn ::
  "(entry list \<Rightarrow> entry list) \<Rightarrow> gotime \<Rightarrow> string \<Rightarrow> gotime \<Rightarrow> entry list \<Rightarrow> entry list" where
  \<comment> \<open>the closure \<open>Revoke\<close> hands to \<open>update\<close>\<close>
  "revoke_fn srt now jti exp l =
     (let nowSec = unix_sec now; expSec = unix_sec exp
      in if expSec \<le> nowSec then l
         else (let l1 = pruneExpired nowSec l
               in (case set_first jti expSec l1 of Some l2 \<Rightarrow> l2
                   | None \<Rightarrow>
                       (let l2 = l1 @ [\<lparr>e_Jti = jti, e_Exp = expSec\<rparr>]
                        in if length l2 > MaxEntriesPerSlug
                           then drop (length l2 - MaxEntriesPerSlug) (srt l2) else l2))))"

definition sorts :: "(entry list \<Rightarrow> entry list) \<Rightarrow> bool" where
  "sorts srt \<longleftrightarrow> (\<forall>l. mset (srt l) = mset l \<and> sorted (map e_Exp (srt l)))"

definition listed :: "entry list \<Rightarrow> string \<Rightarrow> gotime \<Rightarrow> bool" where
  \<comment> \<open>the loop of \<open>IsRevoked\<close>\<close>
  "listed l jti now \<longleftrightarrow> list_ex (\<lambda>e. e_Jti e = jti \<and> e_Exp e > unix_sec now) l"

lemma set_first_None: "set_first jti x l = None \<longleftrightarrow> jti \<notin> e_Jti ` set l"
  by (induction jti x l rule: set_first.induct) auto

lemma set_first_hit: "set_first jti x l = Some l' \<Longrightarrow> unix_sec t < x \<Longrightarrow> listed l' jti t"
  by (induction jti x l arbitrary: l' rule: set_first.induct) (auto simp: listed_def split: if_splits)

lemma set_first_other: "set_first jti x l = Some l' \<Longrightarrow> k \<noteq> jti \<Longrightarrow> listed l' k t = listed l k t"
  by (induction jti x l arbitrary: l' rule: set_first.induct) (auto simp: listed_def split: if_splits)

lemma set_first_length: "set_first jti x l = Some l' \<Longrightarrow> length l' = length l"
  by (induction jti x l arbitrary: l' rule: set_first.induct) (auto split: if_splits)

lemma listed_prune: "now \<le> t \<Longrightarrow> listed (pruneExpired (unix_sec now) l) k t = listed l k t"
  using unix_sec_mono[of now t] by (auto simp: listed_def pruneExpired_def list_ex_iff)

definition has_room :: "string \<Rightarrow> gotime \<Rightarrow> entry list \<Rightarrow> bool" where
  "has_room jti now l \<longleftrightarrow> length (pruneExpired (unix_sec now) l) < MaxEntriesPerSlug
     \<or> jti \<in> e_Jti ` set (pruneExpired (unix_sec now) l)"

lemma revoke_fn_hit:
  assumes "has_room jti now l" "now \<le> t" "unix_sec t < unix_sec exp"
  shows "listed (revoke_fn srt now jti exp l) jti t"
proof -
  have "unix_sec now < unix_sec exp" using unix_sec_mono[OF assms(2)] assms(3) by simp
  then show ?thesis using assms(1,3)
    by (auto simp: revoke_fn_def Let_def has_room_def set_first_None set_first_hit
        split: option.splits) (auto simp: listed_def dest: set_first_None[THEN iffD2])
qed

lemma revoke_fn_other:
  assumes "has_room jti now l" "now \<le> t" "k \<noteq> jti"
  shows "listed (revoke_fn srt now jti exp l) k t = listed l k t"
proof -
  have a: "listed (l1 @ [\<lparr>e_Jti = jti, e_Exp = x\<rparr>]) k t = listed l1 k t" for l1 x
    using assms(3) by (simp add: listed_def)
  show ?thesis
  proof (cases "set_first jti (unix_sec exp) (pruneExpired (unix_sec now) l)")
    case None
    then have "\<not> MaxEntriesPerSlug < Suc (length (pruneExpired (unix_sec now) l))"
      using assms(1) by (simp add: has_room_def set_first_None)
    with None show ?thesis
      by (simp add: revoke_fn_def Let_def a listed_prune[OF assms(2)])
  next
    case (Some l2)
    then show ?thesis
      using set_first_other[OF Some assms(3)] by (simp add: revoke_fn_def Let_def listed_prune[OF assms(2)])
  qed
qed

lemma set_first_range:
  "set_first jti x l = Some l' \<Longrightarrow> e \<in> set l' \<Longrightarrow> e \<in> set l \<or> e_Exp e = x"
  by (induction jti x l arbitrary: l' rule: set_first.induct) (auto split: if_splits)

lemma revoke_fn_range:
  assumes "\<forall>e \<in> set l. P (e_Exp e)" "P (unix_sec exp)" "\<And>l. set (srt l) = set l"
  shows "\<forall>e \<in> set (revoke_fn srt now jti exp l). P (e_Exp e)"
proof -
  have p: "\<forall>e \<in> set (pruneExpired (unix_sec now) l). P (e_Exp e)"
    using assms(1) by (simp add: pruneExpired_def)
  show ?thesis
  proof (cases "set_first jti (unix_sec exp) (pruneExpired (unix_sec now) l)")
    case None
    then show ?thesis using assms p
      by (auto simp: revoke_fn_def Let_def dest!: in_set_dropD)
  next
    case (Some l2)
    have "P (e_Exp e)" if "e \<in> set l2" for e
      using set_first_range[OF Some that] p assms(2) by auto
    with Some show ?thesis using assms by (simp add: revoke_fn_def Let_def)
  qed
qed

section \<open>The Revoker interface\<close>

locale revoker =
  fixes revoke :: "string \<Rightarrow> string \<Rightarrow> gotime \<Rightarrow> gotime \<Rightarrow> 's \<Rightarrow> 's"
    and revoked :: "string \<Rightarrow> string \<Rightarrow> gotime \<Rightarrow> 's \<Rightarrow> bool"
    and room :: "string \<Rightarrow> string \<Rightarrow> gotime \<Rightarrow> 's \<Rightarrow> bool"
  assumes hit: "jti \<noteq> [] \<Longrightarrow> room slug jti now s \<Longrightarrow> now \<le> t \<Longrightarrow> unix_sec t < unix_sec exp \<Longrightarrow>
      revoked slug jti t (revoke slug jti exp now s)"
    and frame: "(slug', jti') \<noteq> (slug, jti) \<Longrightarrow> room slug jti now s \<Longrightarrow> now \<le> t \<Longrightarrow>
      revoked slug' jti' t (revoke slug jti exp now s) = revoked slug' jti' t s"
    and never_empty: "\<not> revoked slug [] t s"
begin

fun later :: "(string \<times> string \<times> gotime \<times> gotime) list \<Rightarrow> 's \<Rightarrow> 's" where
  "later [] s = s"
| "later ((slug, jti, exp, now) # rs) s = later rs (revoke slug jti exp now s)"

fun all_room :: "(string \<times> string \<times> gotime \<times> gotime) list \<Rightarrow> 's \<Rightarrow> bool" where
  "all_room [] s = True"
| "all_room ((slug, jti, exp, now) # rs) s =
     (room slug jti now s \<and> all_room rs (revoke slug jti exp now s))"

lemma stays_revoked:
  assumes "revoked slug jti t s" "all_room rs s"
    and "\<forall>(slug', jti', exp', now') \<in> set rs. now' \<le> t \<and> (slug', jti') \<noteq> (slug, jti)"
  shows "revoked slug jti t (later rs s)"
  using assms
proof (induction rs arbitrary: s)
  case (Cons r rs)
  obtain slug' jti' exp' now' where r: "r = (slug', jti', exp', now')" by (metis prod_cases4)
  have "revoked slug jti t (revoke slug' jti' exp' now' s)"
    using Cons.prems frame[of slug jti slug' jti' now' s t exp'] r by auto
  then show ?case using Cons.IH Cons.prems r by simp
qed simp

lemma logout_then_others:
  assumes "jti \<noteq> []" "room slug jti now s" "now \<le> t" "unix_sec t < unix_sec exp"
    and "all_room rs (revoke slug jti exp now s)"
    and "\<forall>(slug', jti', exp', now') \<in> set rs. now' \<le> t \<and> (slug', jti') \<noteq> (slug, jti)"
  shows "revoked slug jti t (later rs (revoke slug jti exp now s))"
  by (rule stays_revoked[OF hit[OF assms(1-4)] assms(5,6)])

end

definition mr_revoke :: "string \<Rightarrow> string \<Rightarrow> gotime \<Rightarrow> gotime \<Rightarrow> mem_revoker \<Rightarrow> mem_revoker" where
  "mr_revoke slug jti exp now m = mr_Revoke slug jti exp m"

definition mr_revoked :: "string \<Rightarrow> string \<Rightarrow> gotime \<Rightarrow> mem_revoker \<Rightarrow> bool" where
  "mr_revoked slug jti t m = fst (mr_IsRevoked t slug jti m)"

interpretation mr: revoker mr_revoke mr_revoked "\<lambda>_ _ _ _. True"
  by unfold_locales
    (auto simp: mr_revoke_def mr_revoked_def mr_IsRevoked_iff mr_Revoke_def Let_def split: option.splits)

type_synonym revocation_lists = "string \<Rightarrow> entry list"

definition sr_revoke ::
  "(entry list \<Rightarrow> entry list) \<Rightarrow> string \<Rightarrow> string \<Rightarrow> gotime \<Rightarrow> gotime \<Rightarrow> revocation_lists \<Rightarrow> revocation_lists" where
  "sr_revoke srt slug jti exp now s =
     (if jti = [] then s else s(slug := revoke_fn srt now jti exp (s slug)))"

definition sr_revoked :: "string \<Rightarrow> string \<Rightarrow> gotime \<Rightarrow> revocation_lists \<Rightarrow> bool" where
  "sr_revoked slug jti t s \<longleftrightarrow> jti \<noteq> [] \<and> listed (s slug) jti t"

interpretation sr: revoker "sr_revoke srt" sr_revoked "\<lambda>slug jti now s. has_room jti now (s slug)"
  by unfold_locales (auto simp: sr_revoke_def sr_revoked_def revoke_fn_hit revoke_fn_other)

section \<open>The update loop\<close>

record ksecret =
  s_rev :: nat  \<comment> \<open>the resource version\<close>
  s_raw :: string  \<comment> \<open>\<open>Data["revoked-jtis"]\<close>; empty when absent\<close>
  s_rest :: "(string \<times> string) list"  \<comment> \<open>the other data keys\<close>

datatype revoke_err = RE_Api kerr | RE_Parse | RE_Conflicts

record attempt =
  at_get :: "kerr option"
  at_other :: "ksecret \<Rightarrow> ksecret"  \<comment> \<open>what others do between the Get and the Update\<close>
  at_put :: "kerr option"

definition marshal_entries :: "bool \<Rightarrow> entry list \<Rightarrow> string" where
  \<comment> \<open>a nil slice is \<open>null\<close>\<close>
  "marshal_entries isnil es = (if isnil then ''null''
     else print_json (JArr (map (\<lambda>e. JObj [(''jti'', JStr (e_Jti e)), (''exp'', JNum (dec_int (e_Exp e)))]) es)))"

definition entry_of :: "json \<Rightarrow> entry option" where
  "entry_of j = (case j of
     JObj ms \<Rightarrow> (case (set_string (members_for ''jti'' ms) [], set_int64 (members_for ''exp'' ms) 0) of
        (Some jt, Some ex) \<Rightarrow> Some \<lparr>e_Jti = jt, e_Exp = ex\<rparr> | _ \<Rightarrow> None)
   | JNull \<Rightarrow> Some \<lparr>e_Jti = [], e_Exp = 0\<rparr>
   | _ \<Rightarrow> None)"

definition unmarshal_entries :: "string \<Rightarrow> (bool \<times> entry list) option" where
  \<comment> \<open>with whether the slice is nil\<close>
  "unmarshal_entries raw =
     (if raw = [] then Some (True, [])
      else (case json_unmarshal raw of
         Some (JArr js) \<Rightarrow> (if None \<in> set (map entry_of js) then None
            else Some (False, map (\<lambda>j. the (entry_of j)) js))
       | Some JNull \<Rightarrow> Some (True, [])
       | _ \<Rightarrow> None))"

fun sr_loop :: "attempt list \<Rightarrow> (entry list \<Rightarrow> entry list) \<Rightarrow> ksecret option \<Rightarrow> revoke_err option \<times> ksecret option" where
  "sr_loop [] fn s = (Some RE_Conflicts, s)"
| "sr_loop (a # as) fn s = (case at_get a of Some e \<Rightarrow> (Some (RE_Api e), s)
     | None \<Rightarrow> (case s of None \<Rightarrow> (Some (RE_Api KNotFound), None)
       | Some sec \<Rightarrow> (case unmarshal_entries (s_raw sec) of None \<Rightarrow> (Some RE_Parse, s)
         | Some (isnil, l) \<Rightarrow>
             (let updated = fn l; encoded = marshal_entries (isnil \<and> updated = []) updated;
                  sec' = at_other a sec
              in (case at_put a of
                    Some e \<Rightarrow> if e = KConflict then sr_loop as fn (Some sec') else (Some (RE_Api e), Some sec')
                  | None \<Rightarrow> if s_rev sec' \<noteq> s_rev sec then sr_loop as fn (Some sec')
                      else (None, Some (sec\<lparr>s_raw := encoded, s_rev := s_rev sec + 1\<rparr>)))))))"

definition sr_update ::
  "attempt \<Rightarrow> attempt \<Rightarrow> attempt \<Rightarrow> (entry list \<Rightarrow> entry list) \<Rightarrow> ksecret option
   \<Rightarrow> revoke_err option \<times> ksecret option" where
  \<comment> \<open>at most three attempts\<close>
  "sr_update a1 a2 a3 fn s = sr_loop [a1, a2, a3] fn s"

definition sr_Revoke ::
  "(entry list \<Rightarrow> entry list) \<Rightarrow> gotime \<Rightarrow> string \<Rightarrow> gotime \<Rightarrow> attempt \<Rightarrow> attempt \<Rightarrow> attempt \<Rightarrow> ksecret option
   \<Rightarrow> revoke_err option \<times> ksecret option" where
  "sr_Revoke srt now jti exp a1 a2 a3 s =
     (if jti = [] then (None, s) else sr_update a1 a2 a3 (revoke_fn srt now jti exp) s)"

definition sr_read :: "kerr option \<Rightarrow> ksecret option \<Rightarrow> revoke_err + entry list" where
  "sr_read get s = (case get of Some e \<Rightarrow> Inl (RE_Api e)
     | None \<Rightarrow> (case s of None \<Rightarrow> Inl (RE_Api KNotFound)
       | Some sec \<Rightarrow> (case unmarshal_entries (s_raw sec) of None \<Rightarrow> Inl RE_Parse | Some (_, l) \<Rightarrow> Inr l)))"

definition sr_IsRevoked :: "gotime \<Rightarrow> string \<Rightarrow> kerr option \<Rightarrow> ksecret option \<Rightarrow> revoke_err + bool" where
  "sr_IsRevoked now jti get s =
     (if jti = [] then Inr False
      else (case sr_read get s of
              Inl e \<Rightarrow> if e = RE_Api KNotFound then Inr False else Inl e
            | Inr l \<Rightarrow> Inr (listed l jti now)))"

lemma fold_key_entry [simp]: "equal_fold ''jti'' ''exp'' = False" "equal_fold ''exp'' ''jti'' = False"
  by simp_all

lemma entry_of_print [simp]:
  "in_int64 (e_Exp e) \<Longrightarrow>
   entry_of (JObj [(''jti'', JStr (e_Jti e)), (''exp'', JNum (dec_int (e_Exp e)))]) = Some e"
  by (simp add: entry_of_def members_for_def)

lemma unmarshal_marshal_entries:
  assumes "\<forall>e \<in> set es. in_int64 (e_Exp e)" "isnil \<Longrightarrow> es = []"
  shows "unmarshal_entries (marshal_entries isnil es) = Some (isnil, es)"
proof (cases isnil)
  case True
  have "json_unmarshal (print_json JNull) = Some JNull" by (rule json_unmarshal_print) simp
  with True assms(2) show ?thesis by (simp add: marshal_entries_def unmarshal_entries_def)
next
  case False
  let ?f = "\<lambda>e. JObj [(''jti'', JStr (e_Jti e)), (''exp'', JNum (dec_int (e_Exp e)))]"
  have "wf_json (JArr (map ?f es))" by (simp add: list_all_iff)
  then have "json_unmarshal (print_json (JArr (map ?f es))) = Some (JArr (map ?f es))"
    by (rule json_unmarshal_print)
  moreover have "map entry_of (map ?f es) = map Some es" using assms(1) by simp
  then have "None \<notin> set (map entry_of (map ?f es))" "map (\<lambda>j. the (entry_of j)) (map ?f es) = es"
    using assms(1) by (auto intro!: map_idI)
  moreover have "print_json (JArr (map ?f es)) \<noteq> []" by simp
  ultimately show ?thesis using False by (simp add: marshal_entries_def unmarshal_entries_def del: print_json.simps map_map)
qed

lemma set_int64_range: "set_int64 js i = Some k \<Longrightarrow> in_int64 i \<Longrightarrow> in_int64 k"
proof (induction js i rule: set_int64.induct)
  case (3 l js cur)
  then obtain i where i: "int64_of l = Some i" "set_int64 js i = Some k" by (auto split: option.splits)
  then have "in_int64 i"
    by (auto simp: int64_of_def in_int64_def Let_def int64_max_def split: list.splits if_splits)
  with 3 i show ?case by simp
qed auto

lemma unmarshal_entries_range:
  assumes "unmarshal_entries raw = Some (isnil, l)"
  shows "(\<forall>e \<in> set l. in_int64 (e_Exp e)) \<and> (isnil \<longrightarrow> l = [])"
proof -
  have "in_int64 (e_Exp e)" if "entry_of j = Some e" for j e
    using that by (auto simp: entry_of_def in_int64_def int64_max_def split: json.splits option.splits
        dest!: set_int64_range)
  then have r: "None \<notin> set (map entry_of js) \<Longrightarrow> \<forall>e \<in> set (map (\<lambda>j. the (entry_of j)) js). in_int64 (e_Exp e)" for js
    by (induction js) auto
  show ?thesis
  proof (cases "raw = []")
    case False
    with assms obtain j where j: "json_unmarshal raw = Some j" by (auto simp: unmarshal_entries_def split: option.splits)
    show ?thesis
    proof (cases j)
      case (JArr js)
      with False j assms have "None \<notin> set (map entry_of js)" "l = map (\<lambda>j. the (entry_of j)) js" "\<not> isnil"
        by (auto simp: unmarshal_entries_def split: if_splits)
      with r show ?thesis by blast
    qed (use False j assms in \<open>auto simp: unmarshal_entries_def\<close>)
  qed (use assms in \<open>simp add: unmarshal_entries_def\<close>)
qed

section \<open>What a successful update is\<close>

definition honest :: "attempt \<Rightarrow> bool" where
  \<comment> \<open>the API server gives every change of the object a new version\<close>
  "honest a \<longleftrightarrow> (\<forall>s. s_rev (at_other a s) = s_rev s \<longrightarrow> at_other a s = s)"

lemma sr_loop_atomic:
  assumes "\<forall>a \<in> set as. honest a" "sr_loop as fn (Some s0) = (r, s')"
  shows "\<exists>k s. k \<le> length as \<and> s = fold at_other (take k as) s0
    \<and> (if r = None
       then (\<exists>isnil l. unmarshal_entries (s_raw s) = Some (isnil, l)
          \<and> s' = Some (s\<lparr>s_raw := marshal_entries (isnil \<and> fn l = []) (fn l), s_rev := s_rev s + 1\<rparr>))
       else s' = Some s)"
  using assms
proof (induction "as" arbitrary: s0)
  case Nil
  then show ?case by auto
next
  case (Cons a as)
  show ?case
  proof (cases "at_get a \<noteq> None \<or> unmarshal_entries (s_raw s0) = None")
    case True
    with Cons.prems have "r \<noteq> None" "s' = Some s0" by (auto split: option.splits)
    then show ?thesis by (intro exI[of _ 0] exI[of _ s0]) auto
  next
    case False
    then obtain isnil l where l: "at_get a = None" "unmarshal_entries (s_raw s0) = Some (isnil, l)" by auto
    let ?o = "at_other a s0"
    show ?thesis
    proof (cases "at_put a = Some KConflict \<or> at_put a = None \<and> s_rev ?o \<noteq> s_rev s0")
      case True
      with l Cons.prems have "sr_loop as fn (Some ?o) = (r, s')" by auto
      with Cons obtain k s where k: "k \<le> length as" "s = fold at_other (take k as) ?o"
        "if r = None then (\<exists>isnil l. unmarshal_entries (s_raw s) = Some (isnil, l)
          \<and> s' = Some (s\<lparr>s_raw := marshal_entries (isnil \<and> fn l = []) (fn l), s_rev := s_rev s + 1\<rparr>))
         else s' = Some s" by fastforce
      then show ?thesis by (intro exI[of _ "Suc k"] exI[of _ s]) simp
    next
      case no: False
      show ?thesis
      proof (cases "at_put a")
        case None
        with no have "at_other a s0 = s0" using Cons.prems(1) by (simp add: honest_def)
        with None no l Cons.prems have "r = None"
          "s' = Some (s0\<lparr>s_raw := marshal_entries (isnil \<and> fn l = []) (fn l), s_rev := s_rev s0 + 1\<rparr>)"
          by (simp_all add: Let_def)
        with l show ?thesis by (intro exI[of _ 0]) simp
      next
        case (Some e)
        with no l Cons.prems have "r = Some (RE_Api e)" "s' = Some ?o" by (auto simp: Let_def)
        then show ?thesis by (intro exI[of _ 1] exI[of _ ?o]) simp
      qed
    qed
  qed
qed


definition quiet :: attempt where
  "quiet = \<lparr>at_get = None, at_other = (\<lambda>s. s), at_put = None\<rparr>"

definition rival :: attempt where
  \<comment> \<open>another replica logs session \<open>j0\<close> out in between\<close>
  "rival = quiet\<lparr>at_other := (\<lambda>s. s\<lparr>s_rev := s_rev s + 1, s_raw := marshal_entries False [\<lparr>e_Jti = ''j0'', e_Exp = 50\<rparr>]\<rparr>)\<rparr>"


section \<open>At the cap\<close>

lemma sorted_drop_take:
  assumes "sorted (map f l)" "x \<in> set (take n l)" "y \<in> set (drop n l)"
  shows "f x \<le> f y"
proof -
  from assms(1) have "sorted (map f (take n l) @ map f (drop n l))"
    by (metis append_take_drop_id map_append)
  with assms(2,3) show ?thesis by (auto simp: sorted_append)
qed

text \<open>When a session is logged out of a workspace whose list already holds 1000 or more unexpired
  revocations, exactly 1000 remain, none of them invented, and every entry dropped expires no later
  than every entry kept.  The drop does not favour the new entry: when everything listed outlives the
  session, the revocation just made is the one that is lost, and the session stays valid.\<close>

theorem revoke_at_cap:
  assumes "sorts srt" "unix_sec now < unix_sec exp" "jti \<notin> e_Jti ` set (pruneExpired (unix_sec now) l)"
    and "MaxEntriesPerSlug \<le> length (pruneExpired (unix_sec now) l)"
    and "r = revoke_fn srt now jti exp l"
    and "full = mset (pruneExpired (unix_sec now) l) + {#\<lparr>e_Jti = jti, e_Exp = unix_sec exp\<rparr>#}"
  shows "length r = MaxEntriesPerSlug \<and> mset r \<subseteq># full
    \<and> (\<forall>d \<in># full - mset r. \<forall>k \<in> set r. e_Exp d \<le> e_Exp k)
    \<and> ((\<forall>e \<in> set (pruneExpired (unix_sec now) l). unix_sec exp < e_Exp e) \<longrightarrow> \<not> listed r jti t)"
proof -
  let ?l2 = "pruneExpired (unix_sec now) l @ [\<lparr>e_Jti = jti, e_Exp = unix_sec exp\<rparr>]"
  let ?n = "length ?l2 - MaxEntriesPerSlug"
  have srt: "mset (srt ?l2) = full" "sorted (map e_Exp (srt ?l2))" "length (srt ?l2) = length ?l2"
    using assms(1,6) mset_eq_length[of "srt ?l2" ?l2] by (simp_all add: sorts_def)
  have r: "r = drop ?n (srt ?l2)"
    using assms(2,3,4,5) set_first_None[of jti "unix_sec exp" "pruneExpired (unix_sec now) l"]
    by (simp add: revoke_fn_def Let_def)
  have split: "full = mset (take ?n (srt ?l2)) + mset r"
    unfolding r srt(1)[symmetric] by (metis append_take_drop_id mset_append)
  have len: "length r = MaxEntriesPerSlug" using assms(4) srt(3) by (simp add: r)
  have le: "\<forall>d \<in># full - mset r. \<forall>k \<in> set r. e_Exp d \<le> e_Exp k"
    unfolding split using sorted_drop_take[OF srt(2)] r by auto
  have lost: "\<not> listed r jti t" if "\<forall>e \<in> set (pruneExpired (unix_sec now) l). unix_sec exp < e_Exp e"
  proof
    assume "listed r jti t"
    then obtain k where k: "k \<in> set r" "e_Jti k = jti" by (auto simp: listed_def list_ex_iff)
    have "k \<in># full" using k(1) split by auto
    let ?new = "\<lparr>e_Jti = jti, e_Exp = unix_sec exp\<rparr>"
    have fresh: "?new \<notin> set (pruneExpired (unix_sec now) l)"
      using assms(3) by (metis entry.select_convs(1) image_eqI)
    from assms(3,6) k(2) \<open>k \<in># full\<close> have kn: "k = ?new" by auto
    have n: "1 \<le> ?n" using assms(4) by simp
    then obtain d where d: "d \<in> set (take ?n (srt ?l2))"
      using srt(3) by (cases "take ?n (srt ?l2)") auto
    then have "e_Exp d \<le> e_Exp k" using sorted_drop_take[OF srt(2)] k(1) r by blast
    moreover have "d \<in># full" using d split by auto
    ultimately have dn: "d = ?new" using that kn assms(6) by fastforce
    have "count full ?new = 1" using fresh assms(6) by (simp add: count_eq_zero_iff)
    moreover have "count (mset (take ?n (srt ?l2))) ?new \<ge> 1" "count (mset r) ?new \<ge> 1"
      using d dn k(1) kn by (metis Suc_leI One_nat_def count_greater_zero_iff set_mset_mset)+
    ultimately show False unfolding split count_union by linarith
  qed
  show ?thesis using len le lost split by simp
qed

definition crowd :: "entry list" where
  \<comment> \<open>1000 forged entries that expire far in the future\<close>
  "crowd = replicate MaxEntriesPerSlug \<lparr>e_Jti = ''x'', e_Exp = 4000000000\<rparr>"

corollary revoke_at_cap_witness:
  "length (revoke_fn (sort_key e_Exp) 0 ''j1'' (seconds 60) crowd) = MaxEntriesPerSlug
   \<and> \<not> listed (revoke_fn (sort_key e_Exp) 0 ''j1'' (seconds 60) crowd) ''j1'' (seconds 1)"
proof -
  have p: "pruneExpired (unix_sec 0) crowd = crowd"
    by (simp add: pruneExpired_def crowd_def unix_sec_def filter_replicate)
  have u: "unix_sec (seconds 60) = 60" "unix_sec 0 = 0" by (simp_all add: unix_sec_def seconds_def)
  have s: "sorts (sort_key e_Exp)" by (simp add: sorts_def)
  have n: "''j1'' \<notin> e_Jti ` set (pruneExpired (unix_sec 0) crowd)"
    unfolding p by (auto simp: crowd_def)
  have l: "MaxEntriesPerSlug \<le> length (pruneExpired (unix_sec 0) crowd)"
    unfolding p by (simp add: crowd_def)
  have lt: "unix_sec 0 < unix_sec (seconds 60)" by (simp add: u)
  from revoke_at_cap[OF s lt n l refl refl, of "seconds 1"] show ?thesis
    unfolding p by (simp add: u) (auto simp: crowd_def)
qed

section \<open>Logout\<close>



end
