(* ===== verification/Quotas.thy ===== *)
theory Quotas
  imports Users
begin

text \<open>
  \<open>pkg/quotas\<close>: the limits of each tier, their lookup and override, the per-user workspace cap, and
  \<open>ClampResources\<close>.  The mutable table \<open>defaults\<close> is an association list passed around.  A
  \<open>resource.Quantity\<close> is its text; \<open>Quantity.Cmp\<close> is the parameter \<open>qcmp\<close>.  An empty resource list
  stands for the nil map as well.
\<close>

record limits =
  MaxInstancesPerUser :: int
  MemoryRequest :: string
  MemoryLimit :: string
  CPURequest :: string
  CPULimit :: string
  DailyTokens :: int
  DailyMessages :: int
  MaxTelegramBots :: int
  IdleSuspendAfter :: goduration
  DefaultModel :: string

type_synonym tier_table = "(string \<times> limits) list"

definition no_limits :: limits where
  "no_limits = \<lparr>MaxInstancesPerUser = 0, MemoryRequest = [], MemoryLimit = [], CPURequest = [], CPULimit = [],
     DailyTokens = 0, DailyMessages = 0, MaxTelegramBots = 0, IdleSuspendAfter = 0, DefaultModel = []\<rparr>"

definition defaults :: tier_table where
  "defaults =
    [(''free'', \<lparr>MaxInstancesPerUser = 1, MemoryRequest = ''384Mi'', MemoryLimit = ''768Mi'',
        CPURequest = ''50m'', CPULimit = ''300m'', DailyTokens = 0, DailyMessages = 100, MaxTelegramBots = 0,
        IdleSuspendAfter = 14 * hours 24, DefaultModel = ''openrouter/stepfun/step-3.5-flash:free''\<rparr>),
     (''starter'', \<lparr>MaxInstancesPerUser = 3, MemoryRequest = ''1Gi'', MemoryLimit = ''2Gi'',
        CPURequest = ''100m'', CPULimit = ''500m'', DailyTokens = 500000, DailyMessages = 0, MaxTelegramBots = 1,
        IdleSuspendAfter = 0, DefaultModel = ''openrouter/anthropic/claude-haiku-4-5''\<rparr>),
     (''growth'', \<lparr>MaxInstancesPerUser = 10, MemoryRequest = ''1Gi'', MemoryLimit = ''2Gi'',
        CPURequest = ''200m'', CPULimit = ''1000m'', DailyTokens = 2000000, DailyMessages = 0, MaxTelegramBots = 5,
        IdleSuspendAfter = 0, DefaultModel = ''openrouter/anthropic/claude-haiku-4-5''\<rparr>),
     (''enterprise'', no_limits)]"

definition zero_or :: "tier_table \<Rightarrow> string \<Rightarrow> limits" where
  \<comment> \<open>\<open>m[k]\<close> on a Go map: the zero value when absent\<close>
  "zero_or d k = (case map_of d k of None \<Rightarrow> no_limits | Some l \<Rightarrow> l)"

definition For :: "tier_table \<Rightarrow> string \<Rightarrow> limits" where
  "For d t =
     (if t = [] then zero_or d TierFree
      else (case map_of d (to_lower t) of Some l \<Rightarrow> l | None \<Rightarrow> zero_or d TierFree))"

definition quota_ValidTier :: "string \<Rightarrow> bool" where
  "quota_ValidTier t \<longleftrightarrow> (let u = to_lower t in
     u = TierFree \<or> u = TierStarter \<or> u = TierGrowth \<or> u = TierEnterprise)"

definition Override :: "string \<Rightarrow> limits \<Rightarrow> tier_table \<Rightarrow> bool \<times> tier_table" where
  \<comment> \<open>\<open>False\<close>: \<open>ErrInvalidTier\<close>\<close>
  "Override t l d = (if \<not> quota_ValidTier t then (False, d) else (True, al_put (to_lower t) l d))"

definition MaxInstancesReached :: "tier_table \<Rightarrow> string \<Rightarrow> int \<Rightarrow> bool" where
  "MaxInstancesReached d t count =
     (let l = For d t in if MaxInstancesPerUser l = 0 then False else count \<ge> MaxInstancesPerUser l)"

definition tier_key :: "string \<Rightarrow> string" where
  "tier_key t = (if quota_ValidTier t then to_lower t else TierFree)"

definition full_table :: "tier_table \<Rightarrow> bool" where
  "full_table d \<longleftrightarrow> (\<forall>t. map_of d t \<noteq> None \<longleftrightarrow> t = TierFree \<or> t = TierStarter \<or> t = TierGrowth \<or> t = TierEnterprise)"

lemma full_defaults: "full_table defaults"
  by (auto simp: full_table_def defaults_def users_consts)

lemma full_Override: "full_table d \<Longrightarrow> full_table (snd (Override t l d))"
  by (auto simp: full_table_def Override_def quota_ValidTier_def Let_def)

lemma tier_lower [simp]:
  "to_lower TierFree = TierFree" "to_lower TierStarter = TierStarter" "to_lower TierGrowth = TierGrowth"
  "to_lower TierEnterprise = TierEnterprise" "to_lower [] = []" "TierFree \<noteq> []"
  by code_simp+

lemma For_tier_key: "full_table d \<Longrightarrow> For d t = zero_or d (tier_key t)"
proof -
  assume f: "full_table d"
  have v: "quota_ValidTier t \<longleftrightarrow> map_of d (to_lower t) \<noteq> None"
    using f by (simp add: full_table_def quota_ValidTier_def Let_def)
  show ?thesis
  proof (cases "quota_ValidTier t")
    case True
    then have "to_lower t \<noteq> []"
      by (auto simp: quota_ValidTier_def Let_def users_consts simp del: to_lower_Nil_iff)
    with True v show ?thesis by (auto simp: For_def zero_or_def tier_key_def)
  next
    case False
    with v show ?thesis by (simp add: For_def tier_key_def)
  qed
qed

text \<open>Tier lookup is total and fails safe: a tier name counts in any letter case, an empty or
  unknown one gets the free tier's limits (never the unlimited enterprise ones), overriding a tier
  changes that tier and nothing else, an unknown tier cannot be overridden, and the two packages'
  validators agree up to letter case.\<close>

theorem tier_lookup_safe:
  assumes "full_table d" "Override t l d = (ok, d')"
  shows "full_table d' \<and> (ok \<longleftrightarrow> quota_ValidTier t) \<and> (quota_ValidTier t \<longleftrightarrow> ValidTier (to_lower t))
    \<and> For d u = For d (tier_key u)
    \<and> (For d' u = (if ok \<and> tier_key u = to_lower t then l else For d u))
    \<and> (\<not> quota_ValidTier u \<longrightarrow> For d u = For d TierFree)"
proof -
  have f: "full_table d'" using full_Override[OF assms(1), of t l] assms(2) by simp
  have k: "tier_key (tier_key u) = tier_key u"
    by (auto simp: tier_key_def quota_ValidTier_def Let_def)
  have z: "zero_or (al_put k l d) k' = (if k' = k then l else zero_or d k')" for k k'
    by (simp add: zero_or_def)
  have v: "quota_ValidTier t \<longleftrightarrow> ValidTier (to_lower t)"
    by (simp add: quota_ValidTier_def ValidTier_def Let_def)
  have nv: "\<not> quota_ValidTier u \<Longrightarrow> tier_key u = tier_key TierFree"
    by (simp add: tier_key_def)
  show ?thesis
  proof (cases "quota_ValidTier t")
    case True
    with assms(2) have d': "ok" "d' = al_put (to_lower t) l d" by (simp_all add: Override_def)
    have "For d' u = (if tier_key u = to_lower t then l else For d u)"
      unfolding For_tier_key[OF f] For_tier_key[OF assms(1)] unfolding d'(2) by (rule z)
    with True d' f v k show ?thesis by (simp add: For_tier_key[OF assms(1)] nv)
  next
    case False
    with assms(2) have "\<not> ok" "d' = d" by (simp_all add: Override_def)
    with False f v k show ?thesis by (simp add: For_tier_key[OF assms(1)] nv)
  qed
qed

corollary tier_lookup_safe_witness:
  "For defaults ''Platinum'' = For defaults TierFree \<and> For defaults ''GROWTH'' = For defaults ''growth''"
proof -
  have "For defaults u = For defaults (tier_key u) \<and> (\<not> quota_ValidTier u \<longrightarrow> For defaults u = For defaults TierFree)" for u
    using tier_lookup_safe[OF full_defaults, of "''free''" no_limits _ _ u] by (metis surj_pair)
  moreover have "\<not> quota_ValidTier ''Platinum''" "tier_key ''GROWTH'' = ''growth''"
    by code_simp+
  ultimately show ?thesis by metis
qed

section \<open>Clamping\<close>

record requirements =
  rq_Requests :: "(string \<times> string) list"
  rq_Limits :: "(string \<times> string) list"

type_synonym qcmp = "string \<Rightarrow> string \<Rightarrow> int"

definition clamp_one :: "qcmp \<Rightarrow> string \<Rightarrow> string \<Rightarrow> (string \<times> string) list \<Rightarrow> (string \<times> string) list" where
  \<comment> \<open>one of the four blocks of \<open>ClampResources\<close>\<close>
  "clamp_one qcmp ceiling res m =
     (if ceiling = [] then m
      else (case map_of m res of
              None \<Rightarrow> al_put res ceiling m
            | Some v \<Rightarrow> if qcmp v ceiling > 0 then al_put res ceiling m else m))"

definition copy_list :: "(string \<times> string) list \<Rightarrow> (string \<times> string) list" where
  \<comment> \<open>copying the entries of a map into a fresh one\<close>
  "copy_list m = fold (\<lambda>(k, v) out. al_put k v out) m []"

definition ClampResources :: "qcmp \<Rightarrow> tier_table \<Rightarrow> requirements option \<Rightarrow> string \<Rightarrow> requirements" where
  "ClampResources qcmp d inp t =
     (let l = For d t;
          rs = (case inp of None \<Rightarrow> [] | Some i \<Rightarrow> copy_list (rq_Requests i));
          ls = (case inp of None \<Rightarrow> [] | Some i \<Rightarrow> copy_list (rq_Limits i));
          rs1 = clamp_one qcmp (MemoryRequest l) ''memory'' rs;
          ls1 = clamp_one qcmp (MemoryLimit l) ''memory'' ls;
          rs2 = clamp_one qcmp (CPURequest l) ''cpu'' rs1;
          ls2 = clamp_one qcmp (CPULimit l) ''cpu'' ls1
      in \<lparr>rq_Requests = rs2, rq_Limits = ls2\<rparr>)"

lemma map_of_copy_list:
  assumes "distinct (map fst m)"
  shows "map_of (copy_list m) = map_of m"
proof -
  have "distinct (map fst m) \<Longrightarrow> map_of (fold (\<lambda>(k, v) out. al_put k v out) m out) = map_of out ++ map_of m" for out
  proof (induction m arbitrary: out)
    case (Cons kv m)
    obtain k v where kv: "kv = (k, v)" by (cases kv)
    with Cons have "map_of m k = None" by (simp add: map_of_eq_None_iff)
    with Cons kv show ?case by (auto simp: map_add_def fun_eq_iff split: option.splits)
  qed simp
  with assms show ?thesis by (simp add: copy_list_def)
qed

definition clamped :: "qcmp \<Rightarrow> string \<Rightarrow> string option \<Rightarrow> string option" where
  \<comment> \<open>what the ceiling makes of one entry\<close>
  "clamped qcmp ceiling v = (if ceiling = [] then v
     else (case v of None \<Rightarrow> Some ceiling | Some q \<Rightarrow> if qcmp q ceiling > 0 then Some ceiling else Some q))"

lemma map_of_clamp_one:
  "map_of (clamp_one qcmp ceiling res m) k = (if k = res then clamped qcmp ceiling (map_of m res) else map_of m k)"
  by (auto simp: clamp_one_def clamped_def split: option.splits)

lemma ClampResources_entries:
  fixes inp
  defines "rs \<equiv> (case inp of None \<Rightarrow> (\<lambda>_. None) | Some i \<Rightarrow> map_of (rq_Requests i))"
    and "ls \<equiv> (case inp of None \<Rightarrow> (\<lambda>_. None) | Some i \<Rightarrow> map_of (rq_Limits i))"
  assumes "\<And>i. inp = Some i \<Longrightarrow> distinct (map fst (rq_Requests i)) \<and> distinct (map fst (rq_Limits i))"
  shows "map_of (rq_Requests (ClampResources qcmp d inp t)) k =
      (if k = ''cpu'' then clamped qcmp (CPURequest (For d t)) (rs k)
       else if k = ''memory'' then clamped qcmp (MemoryRequest (For d t)) (rs k) else rs k)"
    and "map_of (rq_Limits (ClampResources qcmp d inp t)) k =
      (if k = ''cpu'' then clamped qcmp (CPULimit (For d t)) (ls k)
       else if k = ''memory'' then clamped qcmp (MemoryLimit (For d t)) (ls k) else ls k)"
  using assms(3)
  by (auto simp: ClampResources_def Let_def map_of_clamp_one rs_def ls_def map_of_copy_list split: option.splits)


definition demo_cmp :: qcmp where
  \<comment> \<open>a comparison of quantities that is enough for the examples: all in Mi\<close>
  "demo_cmp a b = int (digits_val (filter is_digit a)) - int (digits_val (filter is_digit b))"


text \<open>Requests and limits are clamped separately, so the result need not be a valid
  resource specification: a workspace that only lowers its memory limit below the tier's memory request
  gets the tier's request above its own limit, which the API server refuses.\<close>

theorem clamp_can_cross:
  assumes "MemoryRequest (For d t) \<noteq> []" "MemoryLimit (For d t) \<noteq> []"
    and "qcmp v (MemoryLimit (For d t)) \<le> 0" "qcmp v (MemoryRequest (For d t)) < 0"
    and "out = ClampResources qcmp d (Some \<lparr>rq_Requests = [], rq_Limits = [(''memory'', v)]\<rparr>) t"
  shows "map_of (rq_Limits out) ''memory'' = Some v
    \<and> map_of (rq_Requests out) ''memory'' = Some (MemoryRequest (For d t)) \<and> qcmp v (MemoryRequest (For d t)) < 0"
  using assms ClampResources_entries[of "Some \<lparr>rq_Requests = [], rq_Limits = [(''memory'', v)]\<rparr>" qcmp d t "''memory''"]
  by (simp add: clamped_def)

corollary clamp_can_cross_witness:
  "map_of (rq_Limits (ClampResources demo_cmp defaults (Some \<lparr>rq_Requests = [], rq_Limits = [(''memory'', ''256Mi'')]\<rparr>) ''free'')) ''memory''
     = Some ''256Mi''
   \<and> map_of (rq_Requests (ClampResources demo_cmp defaults (Some \<lparr>rq_Requests = [], rq_Limits = [(''memory'', ''256Mi'')]\<rparr>) ''free'')) ''memory''
     = Some ''384Mi''"
proof -
  have f: "MemoryRequest (For defaults ''free'') = ''384Mi''" "MemoryLimit (For defaults ''free'') = ''768Mi''"
    unfolding For_def defaults_def by code_simp+
  have "demo_cmp ''256Mi'' ''768Mi'' \<le> 0" "demo_cmp ''256Mi'' ''384Mi'' < 0"
    unfolding demo_cmp_def by code_simp+
  from clamp_can_cross[of defaults "''free''" demo_cmp "''256Mi''", unfolded f, OF _ _ this refl] show ?thesis by simp
qed

end
