(* ===== verification/KaiTypes.thy ===== *)
theory KaiTypes
  imports Slugs Quotas Kube
begin

text \<open>
  The custom resource \<open>KaiInstance\<close> (\<open>operator/api/v1alpha1/kaiinstance_types.go\<close>): its spec, its
  status, the metadata the controller reads, and the two accessors that prefer the \<open>tenant\<close> fields
  over the legacy \<open>customer\<close> fields.
\<close>

record kai_spec =
  sp_CustomerName :: string
  sp_ProjectName :: string
  sp_CustomerSlug :: string
  sp_TenantName :: string
  sp_TenantSlug :: string
  sp_Model :: string
  sp_Telegram :: "string option"  \<comment> \<open>\<open>TelegramConfig.BotTokenSecretRef\<close>\<close>
  sp_GatewayAuth :: "(string \<times> string) option"  \<comment> \<open>mode and token\<close>
  sp_Resources :: "requirements option"
  sp_Suspended :: bool
  sp_ExternalAccess :: "bool option"
  sp_Tier :: string
  sp_UserRef :: string
  sp_AppRef :: string
  sp_Org :: string
  sp_Managed :: string

datatype phase = PhaseUnset | PhaseProvisioning | PhaseRunning | PhaseSuspended | PhaseFailed

datatype cond_status = CondTrue | CondFalse | CondUnknown

record condition =
  cd_Type :: string
  cd_Status :: cond_status
  cd_Reason :: string
  cd_Message :: string
  cd_LastTransitionTime :: gotime

record kai_status =
  ks_ObservedGeneration :: int
  ks_Phase :: phase
  ks_Ready :: bool
  ks_GatewayURL :: string
  ks_ExternalURL :: string
  ks_CustomerSlug :: string
  ks_ConfigHash :: string
  ks_Conditions :: "condition list"

record kai =
  k_Name :: string
  k_Namespace :: string
  k_Generation :: int
  k_Deleting :: bool  \<comment> \<open>the deletion timestamp is set\<close>
  k_Finalizers :: "string list"
  k_Labels :: "(string \<times> string) list"
  k_Annotations :: "(string \<times> string) list"
  k_Spec :: kai_spec
  k_Status :: kai_status

definition KaiInstanceFinalizer :: string where
  "KaiInstanceFinalizer = ''swarm.emai.io/finalizer''"

definition ConditionConfigMapReady :: string where "ConditionConfigMapReady = ''ConfigMapReady''"
definition ConditionDeploymentAvailable :: string where "ConditionDeploymentAvailable = ''DeploymentAvailable''"
definition ConditionNetworkPolicyApplied :: string where "ConditionNetworkPolicyApplied = ''NetworkPolicyApplied''"
definition ConditionPVCBound :: string where "ConditionPVCBound = ''PVCBound''"
definition ConditionIngressReady :: string where "ConditionIngressReady = ''IngressReady''"

definition EffectiveName :: "kai_spec \<Rightarrow> string" where
  "EffectiveName s = (if sp_TenantName s \<noteq> [] then sp_TenantName s else sp_CustomerName s)"

definition EffectiveSlug :: "kai_spec \<Rightarrow> string" where
  "EffectiveSlug s = (if sp_TenantSlug s \<noteq> [] then sp_TenantSlug s else sp_CustomerSlug s)"

definition empty_spec :: kai_spec where
  "empty_spec = \<lparr>sp_CustomerName = [], sp_ProjectName = [], sp_CustomerSlug = [], sp_TenantName = [],
     sp_TenantSlug = [], sp_Model = [], sp_Telegram = None, sp_GatewayAuth = None, sp_Resources = None,
     sp_Suspended = False, sp_ExternalAccess = None, sp_Tier = [], sp_UserRef = [], sp_AppRef = [],
     sp_Org = [], sp_Managed = []\<rparr>"

definition empty_status :: kai_status where
  "empty_status = \<lparr>ks_ObservedGeneration = 0, ks_Phase = PhaseUnset, ks_Ready = False, ks_GatewayURL = [],
     ks_ExternalURL = [], ks_CustomerSlug = [], ks_ConfigHash = [], ks_Conditions = []\<rparr>"

definition resolve_slug :: "kai_spec \<Rightarrow> string" where
  \<comment> \<open>step 4 of \<open>Reconcile\<close>\<close>
  "resolve_slug s = (let slug = EffectiveSlug s in if slug = [] then slugify (EffectiveName s) else slug)"

end
