(* ===== verification/Cluster.thy ===== *)
theory Cluster
  imports KaiTypes
begin

text \<open>
  The cluster as the web servers see it: the stored KaiInstances, Secrets and ConfigMaps, with a list of
  faults that makes any call fail in any way (as in theory Controller).  Secrets carry the resource
  version against which an update is checked, so a write based on a stale read is refused.
\<close>

record secret =
  sc_data :: "(string \<times> string) list"
  sc_version :: nat

record kube =
  kb_kais :: "((string \<times> string) \<times> kai) list"
  kb_secrets :: "((string \<times> string) \<times> secret) list"
  kb_cms :: "((string \<times> string) \<times> (string \<times> string) list) list"
  kb_faults :: "kerr option list"

definition kb_next :: "kube \<Rightarrow> kerr option \<times> kube" where
  "kb_next w = (case kb_faults w of [] \<Rightarrow> (None, w) | f # fs \<Rightarrow> (f, w\<lparr>kb_faults := fs\<rparr>))"

definition kc_get :: "string \<times> string \<Rightarrow> kube \<Rightarrow> (kerr + kai) \<times> kube" where
  "kc_get nn w = (case kb_next w of (Some e, w1) \<Rightarrow> (Inl e, w1)
   | (None, w1) \<Rightarrow> (case map_of (kb_kais w1) nn of None \<Rightarrow> (Inl KNotFound, w1) | Some k \<Rightarrow> (Inr k, w1)))"

definition kc_create :: "kai \<Rightarrow> kube \<Rightarrow> kerr option \<times> kube" where
  "kc_create k w = (case kb_next w of (Some e, w1) \<Rightarrow> (Some e, w1)
   | (None, w1) \<Rightarrow> (let nn = (k_Namespace k, k_Name k) in
       case map_of (kb_kais w1) nn of Some _ \<Rightarrow> (Some KAlreadyExists, w1)
       | None \<Rightarrow> (None, w1\<lparr>kb_kais := kb_kais w1 @ [(nn, k)]\<rparr>)))"

definition labelled :: "string \<Rightarrow> string \<Rightarrow> string \<Rightarrow> (string \<times> string) \<times> kai \<Rightarrow> bool" where
  "labelled ns l v e \<longleftrightarrow> fst (fst e) = ns \<and> map_of (k_Labels (snd e)) l = Some v"

definition kc_list :: "string \<Rightarrow> string \<Rightarrow> string \<Rightarrow> kube \<Rightarrow> (kerr + kai list) \<times> kube" where
  \<comment> \<open>the objects of a namespace with a label value\<close>
  "kc_list ns l v w = (case kb_next w of (Some e, w1) \<Rightarrow> (Inl e, w1)
   | (None, w1) \<Rightarrow> (Inr (map snd (filter (labelled ns l v) (kb_kais w1))), w1))"

definition kc_list_all :: "string \<Rightarrow> kube \<Rightarrow> (kerr + kai list) \<times> kube" where
  "kc_list_all ns w = (case kb_next w of (Some e, w1) \<Rightarrow> (Inl e, w1)
   | (None, w1) \<Rightarrow> (Inr (map snd (filter (\<lambda>e. fst (fst e) = ns) (kb_kais w1))), w1))"

definition ks_get :: "string \<times> string \<Rightarrow> kube \<Rightarrow> (kerr + secret) \<times> kube" where
  "ks_get nn w = (case kb_next w of (Some e, w1) \<Rightarrow> (Inl e, w1)
   | (None, w1) \<Rightarrow> (case map_of (kb_secrets w1) nn of None \<Rightarrow> (Inl KNotFound, w1) | Some s \<Rightarrow> (Inr s, w1)))"

definition ks_update :: "string \<times> string \<Rightarrow> secret \<Rightarrow> kube \<Rightarrow> kerr option \<times> kube" where
  "ks_update nn s w = (case kb_next w of (Some e, w1) \<Rightarrow> (Some e, w1)
   | (None, w1) \<Rightarrow> (case map_of (kb_secrets w1) nn of None \<Rightarrow> (Some KNotFound, w1)
       | Some cur \<Rightarrow> if sc_version cur \<noteq> sc_version s then (Some KConflict, w1)
           else (None, w1\<lparr>kb_secrets := al_put nn (s\<lparr>sc_version := Suc (sc_version s)\<rparr>) (kb_secrets w1)\<rparr>)))"

definition cm_get :: "string \<times> string \<Rightarrow> kube \<Rightarrow> (kerr + (string \<times> string) list) \<times> kube" where
  "cm_get nn w = (case kb_next w of (Some e, w1) \<Rightarrow> (Inl e, w1)
   | (None, w1) \<Rightarrow> (case map_of (kb_cms w1) nn of None \<Rightarrow> (Inl KNotFound, w1) | Some d \<Rightarrow> (Inr d, w1)))"

definition same_objects :: "kube \<Rightarrow> kube \<Rightarrow> bool" where
  "same_objects w w' \<longleftrightarrow> kb_kais w' = kb_kais w \<and> kb_secrets w' = kb_secrets w \<and> kb_cms w' = kb_cms w"

lemma same_objects_refl [simp]: "same_objects w w"
  by (simp add: same_objects_def)

lemma same_objects_trans: "same_objects w w' \<Longrightarrow> same_objects w' w'' \<Longrightarrow> same_objects w w''"
  by (simp add: same_objects_def)

lemma kb_next_keeps [simp]:
  "kb_kais (snd (kb_next w)) = kb_kais w" "kb_secrets (snd (kb_next w)) = kb_secrets w" "kb_cms (snd (kb_next w)) = kb_cms w"
  by (simp_all add: kb_next_def split: list.splits)

lemma kb_next_eq: "kb_next w = (f, w') \<Longrightarrow> same_objects w w'"
  using kb_next_keeps[of w] by (simp add: same_objects_def)

lemma kb_next_quiet [simp]: "kb_faults w = [] \<Longrightarrow> kb_next w = (None, w)"
  by (simp add: kb_next_def)

lemma reads_keep:
  "same_objects w (snd (kc_get nn w))" "same_objects w (snd (kc_list ns l v w))" "same_objects w (snd (kc_list_all ns w))"
  "same_objects w (snd (ks_get nn w))" "same_objects w (snd (cm_get nn w))"
  by (simp_all add: same_objects_def kc_get_def kc_list_def kc_list_all_def ks_get_def cm_get_def split_beta split: option.splits)

lemma reads_alt:
  "kc_get nn w = ((case fst (kb_next w) of Some e \<Rightarrow> Inl e | None \<Rightarrow>
     (case map_of (kb_kais w) nn of None \<Rightarrow> Inl KNotFound | Some k \<Rightarrow> Inr k)), snd (kb_next w))"
  "ks_get nn w = ((case fst (kb_next w) of Some e \<Rightarrow> Inl e | None \<Rightarrow>
     (case map_of (kb_secrets w) nn of None \<Rightarrow> Inl KNotFound | Some s \<Rightarrow> Inr s)), snd (kb_next w))"
  "cm_get nn w = ((case fst (kb_next w) of Some e \<Rightarrow> Inl e | None \<Rightarrow>
     (case map_of (kb_cms w) nn of None \<Rightarrow> Inl KNotFound | Some d \<Rightarrow> Inr d)), snd (kb_next w))"
  by (auto simp: kc_get_def ks_get_def cm_get_def split_beta split: option.split)

lemma kc_get_Inr: "kc_get nn w = (Inr k, w') \<Longrightarrow> map_of (kb_kais w) nn = Some k"
  by (auto simp: same_objects_def kc_get_def split: prod.splits option.splits dest!: kb_next_eq)

lemma ks_get_Inr: "ks_get nn w = (Inr s, w') \<Longrightarrow> map_of (kb_secrets w) nn = Some s"
  by (auto simp: same_objects_def ks_get_def split: prod.splits option.splits dest!: kb_next_eq)

lemma kc_create_cases:
  assumes "kc_create k w = (r, w')"
  shows "kb_secrets w' = kb_secrets w \<and> kb_cms w' = kb_cms w
    \<and> (r = None \<longrightarrow> map_of (kb_kais w) (k_Namespace k, k_Name k) = None \<and> kb_kais w' = kb_kais w @ [((k_Namespace k, k_Name k), k)])
    \<and> (r \<noteq> None \<longrightarrow> kb_kais w' = kb_kais w)"
  using assms by (auto simp: same_objects_def kc_create_def Let_def split: prod.splits option.splits dest!: kb_next_eq)

lemma ks_update_cases:
  assumes "ks_update nn s w = (r, w')"
  shows "kb_kais w' = kb_kais w \<and> kb_cms w' = kb_cms w
    \<and> (r = None \<longrightarrow> (\<exists>cur. map_of (kb_secrets w) nn = Some cur \<and> sc_version cur = sc_version s)
         \<and> kb_secrets w' = al_put nn (s\<lparr>sc_version := Suc (sc_version s)\<rparr>) (kb_secrets w))
    \<and> (r \<noteq> None \<longrightarrow> kb_secrets w' = kb_secrets w)"
  using assms by (auto simp: same_objects_def ks_update_def split: prod.splits option.splits if_splits dest!: kb_next_eq)

section \<open>A small cluster\<close>

definition idle_kai :: kai where
  "idle_kai = \<lparr>k_Name = ''kai-acme'', k_Namespace = ''emai-swarm'', k_Generation = 1, k_Deleting = False, k_Finalizers = [KaiInstanceFinalizer],
     k_Labels = [], k_Annotations = [], k_Spec = empty_spec\<lparr>sp_GatewayAuth := Some (''token'', ''tok'')\<rparr>, k_Status = empty_status\<rparr>"

definition idle_kube :: kube where
  "idle_kube = \<lparr>kb_kais = [((''emai-swarm'', ''kai-acme''), idle_kai)], kb_secrets = [], kb_cms = [], kb_faults = []\<rparr>"

end
