(* ===== verification/Http.thy ===== *)
theory Http
  imports Auth
begin

text \<open>
  What the web servers share: responses (\<open>writeJSON\<close>, \<open>writeErr\<close>, \<open>writeUnauthorized\<close> of each
  \<open>main.go\<close>), the decoding of a JSON body into a struct of string fields, \<open>net.SplitHostPort\<close> and
  \<open>requireLoopback\<close>.  A response is its status, its JSON body (none for a bare status) and the cookies
  it sets; a \<open>map[string]string\<close> body lists its keys in sorted order, as \<open>encoding/json\<close> writes it.
\<close>

record resp =
  rs_status :: int
  rs_body :: "json option"
  rs_cookies :: "cookie list"

definition writeJSON :: "int \<Rightarrow> json \<Rightarrow> resp" where
  "writeJSON st j = \<lparr>rs_status = st, rs_body = Some j, rs_cookies = []\<rparr>"

definition str_obj :: "(string \<times> string) list \<Rightarrow> json" where
  "str_obj kvs = JObj (map (\<lambda>(k, v). (k, JStr v)) kvs)"

definition writeErr :: "int \<Rightarrow> string \<Rightarrow> resp" where
  "writeErr st msg = writeJSON st (str_obj [(''error'', msg)])"

definition writeUnauthorized :: resp where
  "writeUnauthorized = writeErr 401 ''unauthorized''"

definition writeStatus :: "int \<Rightarrow> resp" where
  \<comment> \<open>\<open>w.WriteHeader(st)\<close> and no body\<close>
  "writeStatus st = \<lparr>rs_status = st, rs_body = None, rs_cookies = []\<rparr>"

definition SetCookie :: "cookie \<Rightarrow> resp \<Rightarrow> resp" where
  "SetCookie c r = r\<lparr>rs_cookies := rs_cookies r @ [c]\<rparr>"

lemma resp_simps [simp]:
  "rs_status (writeJSON st j) = st" "rs_body (writeJSON st j) = Some j" "rs_cookies (writeJSON st j) = []"
  "rs_status (writeErr st m) = st" "rs_cookies (writeErr st m) = []"
  "rs_status (writeStatus st) = st" "rs_body (writeStatus st) = None" "rs_cookies (writeStatus st) = []"
  "rs_status (SetCookie c r) = rs_status r" "rs_body (SetCookie c r) = rs_body r"
  "rs_cookies (SetCookie c r) = rs_cookies r @ [c]"
  by (simp_all add: writeJSON_def writeErr_def writeStatus_def SetCookie_def)

lemma writeErr_inject [simp]: "writeErr st m = writeErr st' m' \<longleftrightarrow> st = st' \<and> m = m'"
  by (auto simp: writeErr_def writeJSON_def str_obj_def)

section \<open>Bodies\<close>

definition fields_of :: "string list \<Rightarrow> json \<Rightarrow> string list option" where
  \<comment> \<open>a JSON value assigned to a struct of string fields\<close>
  "fields_of names j = (case j of
     JObj ms \<Rightarrow> those (map (\<lambda>n. set_string (members_for n ms) []) names)
   | JNull \<Rightarrow> Some (map (\<lambda>_. []) names)
   | _ \<Rightarrow> None)"

definition omit_empty :: "string \<Rightarrow> string \<Rightarrow> (string \<times> json) list" where
  \<comment> \<open>a string field tagged \<open>omitempty\<close>\<close>
  "omit_empty k v = (if v = [] then [] else [(k, JStr v)])"

definition decode_list :: "(json \<Rightarrow> 'a option) \<Rightarrow> string \<Rightarrow> 'a list option" where
  \<comment> \<open>\<open>json.Unmarshal\<close> into a slice; \<open>null\<close> is the nil slice\<close>
  "decode_list elem raw = (case json_unmarshal raw of
     Some (JArr js) \<Rightarrow> those (map elem js)
   | Some JNull \<Rightarrow> Some []
   | _ \<Rightarrow> None)"

fun set_bool :: "json list \<Rightarrow> bool \<Rightarrow> bool option" where
  "set_bool [] cur = Some cur"
| "set_bool (JNull # js) cur = set_bool js cur"
| "set_bool (JBool b # js) cur = set_bool js b"
| "set_bool (_ # js) cur = None"

definition object_opt :: "json \<Rightarrow> (string \<times> json) list option" where
  \<comment> \<open>the members decoded into a struct; \<open>None\<close>: a type error\<close>
  "object_opt j = (case j of JObj ms \<Rightarrow> Some ms | JNull \<Rightarrow> Some [] | _ \<Rightarrow> None)"

fun set_list :: "(json \<Rightarrow> 'a option) \<Rightarrow> json list \<Rightarrow> 'a list \<Rightarrow> 'a list option" where
  \<comment> \<open>a slice field\<close>
  "set_list f [] cur = Some cur"
| "set_list f (JNull # js) cur = set_list f js []"
| "set_list f (JArr vs # js) cur = (case those (map f vs) of None \<Rightarrow> None | Some xs \<Rightarrow> set_list f js xs)"
| "set_list f (_ # js) cur = None"

subsection \<open>Decoding whose error is dropped\<close>

fun keep_string :: "json list \<Rightarrow> string \<Rightarrow> string" where
  \<comment> \<open>a value of another type is skipped\<close>
  "keep_string [] cur = cur"
| "keep_string (JStr s # js) cur = keep_string js s"
| "keep_string (_ # js) cur = keep_string js cur"

fun keep_bool :: "json list \<Rightarrow> bool \<Rightarrow> bool" where
  "keep_bool [] cur = cur"
| "keep_bool (JBool b # js) cur = keep_bool js b"
| "keep_bool (_ # js) cur = keep_bool js cur"

definition object_members :: "json \<Rightarrow> (string \<times> json) list" where
  "object_members j = (case j of JObj ms \<Rightarrow> ms | _ \<Rightarrow> [])"

definition nested :: "string \<Rightarrow> (string \<times> json) list \<Rightarrow> (string \<times> json) list" where
  \<comment> \<open>the members decoded into the struct field \<open>name\<close>, every occurrence in turn\<close>
  "nested name ms = concat (map object_members (members_for name ms))"

fun keep_list :: "(json \<Rightarrow> 'a) \<Rightarrow> json list \<Rightarrow> 'a list \<Rightarrow> 'a list" where
  \<comment> \<open>a later array replaces an earlier one\<close>
  "keep_list f [] cur = cur"
| "keep_list f (JArr js # r) cur = keep_list f r (map f js)"
| "keep_list f (JNull # r) cur = keep_list f r []"
| "keep_list f (_ # r) cur = keep_list f r cur"

subsection \<open>Bodies of requests\<close>

definition decode_fields :: "string list \<Rightarrow> string \<Rightarrow> string list option" where
  \<comment> \<open>\<open>json.NewDecoder(body).Decode(&v)\<close>\<close>
  "decode_fields names body = (case json_decode body of None \<Rightarrow> None | Some j \<Rightarrow> fields_of names j)"

lemma those_length: "those xs = Some ys \<Longrightarrow> length ys = length xs"
  by (induction xs arbitrary: ys) (auto split: option.splits)

lemma decode_fields_length: "decode_fields names body = Some vs \<Longrightarrow> length vs = length names"
  by (auto simp: decode_fields_def fields_of_def split: option.splits json.splits dest: those_length)

lemma decode_fields_print [simp]: "decode_fields names (print_json (str_obj kvs)) = fields_of names (str_obj kvs)"
proof -
  have "wf_json (str_obj kvs)" by (auto simp: str_obj_def list_all_iff)
  then show ?thesis by (simp add: decode_fields_def)
qed

section \<open>What a session opens\<close>

text \<open>
  The promise the web servers share: whatever else they look at, they accept a cookie under a slug only if
  it is a token that \<open>auth.Authenticate\<close> accepts for that slug with some signing key.
\<close>

locale session_gate =
  fixes hmac :: hmac_fun
    and gate :: "string option \<Rightarrow> string \<Rightarrow> gotime \<Rightarrow> 'st \<Rightarrow> claims option"
  assumes checked: "gate ck slug t st = Some cl \<Longrightarrow> \<exists>v secret. ck = Some v \<and> Authenticate hmac v slug secret t = Some cl"
begin

lemma token: "gate ck slug t st = Some cl \<Longrightarrow> \<exists>v secret. ck = Some v \<and> v \<noteq> [] \<and> secret \<noteq> [] \<and> ParseJWT hmac v secret = Inr cl"
  by (drule checked) (auto simp: Authenticate_def split: if_splits sum.splits)

lemma scope: "gate ck slug t st = Some cl \<Longrightarrow> c_Slug cl = slug \<and> unix_sec t < c_Exp cl"
  by (drule checked) (auto simp: Authenticate_def split: if_splits sum.splits)

lemma no_cookie: "gate None slug t st = None"
  by (cases "gate None slug t st") (auto dest: checked)

lemma one_home:
  assumes "gate ck slug t st = Some cl" "gate ck slug' t' st' = Some cl'"
  shows "slug' = slug \<and> cl' = cl"
proof -
  obtain v s s' where "ParseJWT hmac v s = Inr cl" "ParseJWT hmac v s' = Inr cl'"
    using token[OF assms(1)] token[OF assms(2)] by auto
  then have "cl' = cl" by (auto simp: ParseJWT_def Let_def split: list.splits if_splits option.splits)
  with scope[OF assms(1)] scope[OF assms(2)] show ?thesis by simp
qed

end

section \<open>Addresses\<close>

definition last_cut :: "char \<Rightarrow> string \<Rightarrow> (string \<times> string) option" where
  \<comment> \<open>around the last \<open>c\<close>\<close>
  "last_cut c s = (case cut_at c (rev s) of (_, None) \<Rightarrow> None | (a, Some b) \<Rightarrow> Some (rev b, rev a))"

definition SplitHostPort :: "string \<Rightarrow> string option" where
  \<comment> \<open>the host part\<close>
  "SplitHostPort s = (case last_cut (CHR '':'') s of None \<Rightarrow> None
     | Some (h, p) \<Rightarrow>
         (case s of
            CHR ''['' # t \<Rightarrow> (case cut_at (CHR '']'') t of (_, None) \<Rightarrow> None
              | (host, Some r) \<Rightarrow> if r = CHR '':'' # p \<and> CHR ''['' \<notin> set t \<and> CHR '']'' \<notin> set r then Some host else None)
          | _ \<Rightarrow> if CHR '':'' \<in> set h \<or> CHR ''['' \<in> set s \<or> CHR '']'' \<in> set s then None else Some h))"

definition requireLoopback :: "(string \<Rightarrow> bool) \<Rightarrow> string \<Rightarrow> bool" where
  \<comment> \<open>\<open>True\<close>: no error; the parameter says whether \<open>net.ParseIP\<close> reads its argument as a loopback address\<close>
  "requireLoopback is_loopback addr = (case SplitHostPort addr of None \<Rightarrow> False
     | Some host \<Rightarrow> if host = [] then False else if host = ''localhost'' then True else is_loopback host)"

definition envTrue :: "string \<Rightarrow> bool" where
  \<comment> \<open>of the variable's value\<close>
  "envTrue v \<longleftrightarrow> v = ''1'' \<or> equal_fold v ''true''"

definition envDefault :: "string \<Rightarrow> string \<Rightarrow> string" where
  "envDefault v def = (if v \<noteq> [] then v else def)"

lemma last_cut_append: "c \<notin> set b \<Longrightarrow> last_cut c (a @ c # b) = Some (a, b)"
  by (simp add: last_cut_def)

lemma SplitHostPort_plain:
  assumes "CHR '':'' \<notin> set h" "CHR '':'' \<notin> set p" "CHR ''['' \<notin> set (h @ p)" "CHR '']'' \<notin> set (h @ p)"
  shows "SplitHostPort (h @ CHR '':'' # p) = Some h"
proof -
  have l: "last_cut (CHR '':'') (h @ CHR '':'' # p) = Some (h, p)" by (rule last_cut_append[OF assms(2)])
  show ?thesis
  proof (cases "h @ CHR '':'' # p")
    case (Cons c t)
    have "c \<noteq> CHR ''[''" using assms(3) Cons by (cases h) auto
    then have "\<And>A B. (case h @ CHR '':'' # p of CHR ''['' # t \<Rightarrow> A t | _ \<Rightarrow> B) = B" unfolding Cons by (simp split: char.split bool.split)
    then show ?thesis unfolding SplitHostPort_def l using assms by simp
  qed simp
qed

text \<open>The development mode never listens on an address whose host part is empty or not a loopback.\<close>

lemma requireLoopback_host:
  "requireLoopback is_loopback addr \<Longrightarrow> \<exists>h. SplitHostPort addr = Some h \<and> h \<noteq> [] \<and> (h = ''localhost'' \<or> is_loopback h)"
  by (auto simp: requireLoopback_def split: option.splits if_splits)

end
