(* ===== verification/Workspace.thy ===== *)
theory Workspace
  imports Users Revocation Cluster Http
begin

text \<open>
  The workspace server: login, logout and sessions (\<open>web/workspace/server/auth.go\<close>), SaaS login
  (\<open>saas.go\<close>) and the administration of the users of a workspace (\<open>users.go\<close>).  The user store is any
  \<open>users.Store\<close>, the revoker any \<open>auth.Revoker\<close>.  Parameters: HMAC, argon2id, \<open>mail.ParseAddress\<close>,
  \<open>time.Format\<close>.  Clock, random bytes, faults of the API server and what others do to the cluster between two
  calls of a handler are inputs.
\<close>

section \<open>Server, requests\<close>

record 'r revoker_api =
  rv_Revoke :: "string \<Rightarrow> string \<Rightarrow> gotime \<Rightarrow> gotime \<Rightarrow> 'r \<Rightarrow> bool \<times> 'r"  \<comment> \<open>slug, jti, expiry, now; \<open>True\<close>: an error\<close>
  rv_IsRevoked :: "string \<Rightarrow> string \<Rightarrow> gotime \<Rightarrow> 'r \<Rightarrow> bool option \<times> 'r"  \<comment> \<open>\<open>None\<close>: an error\<close>

record ('s, 'r) ws =
  ws_namespace :: string
  ws_chatBase :: string
  ws_statusBase :: string
  ws_demoMode :: bool
  ws_devSecret :: string
  ws_revoker :: "'r revoker_api option"
  ws_store :: "'s users_store option"
  ws_core :: bool  \<comment> \<open>the clients are wired\<close>
  ws_dyn :: bool
  ws_hmac :: hmac_fun
  ws_argon :: argon2_fun
  ws_version :: nat
  ws_parse :: "string \<Rightarrow> bool"
  ws_stamp :: "gotime \<Rightarrow> string"  \<comment> \<open>RFC 3339\<close>

record ('s, 'r) ws_state =
  wt_users :: 's
  wt_kube :: kube
  wt_rev :: 'r

record ws_request =
  wq_slug :: string
  wq_email :: string  \<comment> \<open>the path value\<close>
  wq_cookie :: "string option"
  wq_Body :: string

record ws_env =
  we_now :: gotime
  we_salt :: "string option"
  we_jti :: "string option"
  we_race :: "kube \<Rightarrow> kube"  \<comment> \<open>others, between the read of the list and its update\<close>
  we_other :: "kube \<Rightarrow> kube"  \<comment> \<open>others, between Get and Update of one update\<close>

section \<open>The users of a workspace\<close>

definition usersSecretKey :: string where
  "usersSecretKey = ''users.json''"

record user_record =
  ur_Email :: string
  ur_PasswordHash :: string
  ur_CreatedAt :: string
  ur_PasswordUpdatedAt :: string

datatype secret_err = errAlreadyExists | errNotFound | errSecretMissing | errApi kerr | errParse

definition user_json :: "user_record \<Rightarrow> json" where
  "user_json u = str_obj [(''email'', ur_Email u), (''passwordHash'', ur_PasswordHash u),
     (''createdAt'', ur_CreatedAt u), (''passwordUpdatedAt'', ur_PasswordUpdatedAt u)]"

definition marshal_users :: "user_record list \<Rightarrow> string" where
  "marshal_users us = print_indent (JArr (map user_json us))"

definition user_of :: "json \<Rightarrow> user_record option" where
  "user_of j = (case fields_of [''email'', ''passwordHash'', ''createdAt'', ''passwordUpdatedAt''] j of
     Some [em, ph, ca, pu] \<Rightarrow> Some \<lparr>ur_Email = em, ur_PasswordHash = ph, ur_CreatedAt = ca, ur_PasswordUpdatedAt = pu\<rparr>
   | _ \<Rightarrow> None)"

definition unmarshal_users :: "string \<Rightarrow> user_record list option" where
  "unmarshal_users raw = decode_list user_of raw"

definition users_secret :: "('s, 'r) ws \<Rightarrow> string \<Rightarrow> string \<times> string" where
  "users_secret c slug = (ws_namespace c, ''kai-'' @ slug @ ''-users'')"

definition data_of :: "secret \<Rightarrow> string \<Rightarrow> string" where
  "data_of sec k = (case map_of (sc_data sec) k of None \<Rightarrow> [] | Some v \<Rightarrow> v)"

definition readUsersSecret :: "('s, 'r) ws \<Rightarrow> string \<Rightarrow> kube \<Rightarrow> (secret_err + user_record list \<times> secret) \<times> kube" where
  "readUsersSecret c slug w =
     (if \<not> ws_core c then (Inl errSecretMissing, w)
      else (case ks_get (users_secret c slug) w of
          (Inl e, w1) \<Rightarrow> (Inl (if e = KNotFound then errSecretMissing else errApi e), w1)
        | (Inr sec, w1) \<Rightarrow>
            (let raw = data_of sec usersSecretKey in
             if raw = [] then (Inr ([], sec), w1)
             else (case unmarshal_users raw of None \<Rightarrow> (Inl errParse, w1) | Some us \<Rightarrow> (Inr (us, sec), w1)))))"

definition updateUsersSecret :: "('s, 'r) ws \<Rightarrow> string \<Rightarrow> (user_record list \<Rightarrow> secret_err + user_record list)
   \<Rightarrow> (kube \<Rightarrow> kube) \<Rightarrow> kube \<Rightarrow> secret_err option \<times> kube" where
  "updateUsersSecret c slug fn other w =
     (case readUsersSecret c slug w of
        (Inl e, w1) \<Rightarrow> (Some e, w1)
      | (Inr (us, sec), w1) \<Rightarrow>
         (case fn us of Inl e \<Rightarrow> (Some e, w1)
          | Inr updated \<Rightarrow>
             (case ks_update (users_secret c slug)
                 (sec\<lparr>sc_data := al_put usersSecretKey (marshal_users updated) (sc_data sec)\<rparr>) (other w1) of
                (None, w2) \<Rightarrow> (None, w2) | (Some e, w2) \<Rightarrow> (Some (errApi e), w2))))"

definition validEmail :: "(string \<Rightarrow> bool) \<Rightarrow> string \<Rightarrow> bool" where
  "validEmail parse s = (if s = [] \<or> length s > 254 then False else if \<not> parse s then False else CHR ''@'' \<in> set s)"

definition validPassword :: "string \<Rightarrow> bool" where
  "validPassword s \<longleftrightarrow> 8 \<le> length s \<and> length s \<le> 1024"

definition norm :: "string \<Rightarrow> string" where
  "norm s = trim_space (to_lower s)"

section \<open>Secrets and sessions\<close>

definition readJWTSecret :: "('s, 'r) ws \<Rightarrow> string \<Rightarrow> kube \<Rightarrow> string option \<times> kube" where
  "readJWTSecret c slug w =
     (if \<not> ws_core c then (None, w)
      else (case ks_get (ws_namespace c, ''kai-'' @ slug @ ''-chat-bridge'') w of
          (Inl _, w1) \<Rightarrow> (None, w1)
        | (Inr sec, w1) \<Rightarrow> (if data_of sec ''jwt-secret'' = [] then None else Some (data_of sec ''jwt-secret''), w1)))"

definition resolveJWTSecret :: "('s, 'r) ws \<Rightarrow> string \<Rightarrow> kube \<Rightarrow> string option \<times> kube" where
  "resolveJWTSecret c slug w = (if ws_demoMode c then (Some (ws_devSecret c), w) else readJWTSecret c slug w)"

definition issueAndSetSessionWithUID :: "('s, 'r) ws \<Rightarrow> string \<Rightarrow> string \<Rightarrow> string \<Rightarrow> string \<Rightarrow> ws_env \<Rightarrow> resp \<Rightarrow> resp" where
  \<comment> \<open>with the handler's two answers: the error and, with the cookie, the last argument\<close>
  "issueAndSetSessionWithUID c slug email uid secret en ok =
     (case IssueSessionWithUID (ws_hmac c) slug email uid secret (we_now en) (we_jti en) of
        None \<Rightarrow> writeErr 500 ''session'' | Some ck \<Rightarrow> SetCookie ck ok)"

definition issueAndSetSession :: "('s, 'r) ws \<Rightarrow> string \<Rightarrow> string \<Rightarrow> string \<Rightarrow> ws_env \<Rightarrow> resp \<Rightarrow> resp" where
  "issueAndSetSession c slug email secret en ok = issueAndSetSessionWithUID c slug email [] secret en ok"

definition authedClaims :: "('s, 'r) ws \<Rightarrow> ws_request \<Rightarrow> string \<Rightarrow> gotime \<Rightarrow> ('s, 'r) ws_state \<Rightarrow> claims option \<times> ('s, 'r) ws_state" where
  "authedClaims c r slug now st =
     (case wq_cookie r of None \<Rightarrow> (None, st)
      | Some v \<Rightarrow> if v = [] then (None, st)
        else (case resolveJWTSecret c slug (wt_kube st) of
            (None, w) \<Rightarrow> (None, st\<lparr>wt_kube := w\<rparr>)
          | (Some secret, w) \<Rightarrow>
             (let st = st\<lparr>wt_kube := w\<rparr> in
              case Authenticate (ws_hmac c) v slug secret now of None \<Rightarrow> (None, st)
              | Some cl \<Rightarrow>
                 (case ws_revoker c of None \<Rightarrow> (Some cl, st)
                  | Some rv \<Rightarrow>
                     (case rv_IsRevoked rv slug (c_Jti cl) now (wt_rev st) of
                        (Some False, t) \<Rightarrow> (Some cl, st\<lparr>wt_rev := t\<rparr>)
                      | (_, t) \<Rightarrow> (None, st\<lparr>wt_rev := t\<rparr>))))))"

definition requireCenterAuth :: "('s, 'r) ws \<Rightarrow> ws_request \<Rightarrow> string \<Rightarrow> gotime \<Rightarrow> ('s, 'r) ws_state \<Rightarrow> bool \<times> ('s, 'r) ws_state" where
  \<comment> \<open>\<open>False\<close>: a 401 has been written\<close>
  "requireCenterAuth c r slug now st =
     (if slug_rejected slug then (False, st)
      else if ws_demoMode c then (True, st)
      else (case authedClaims c r slug now st of (cl, st1) \<Rightarrow> (cl \<noteq> None, st1)))"

interpretation ws_gate: session_gate "ws_hmac c" "\<lambda>ck slug t st. fst (authedClaims c (r\<lparr>wq_cookie := ck\<rparr>) slug t st)" for c r
proof
  fix ck slug t st cl
  assume a: "fst (authedClaims c (r\<lparr>wq_cookie := ck\<rparr>) slug t st) = Some cl"
  then show "\<exists>v secret. ck = Some v \<and> Authenticate (ws_hmac c) v slug secret t = Some cl"
    by (auto simp: authedClaims_def Let_def split: option.splits prod.splits if_splits bool.splits)
qed

section \<open>SaaS login\<close>

record kai_binding =
  bi_Managed :: string
  bi_UserRef :: string

definition IsSaaS :: "kai_binding \<Rightarrow> bool" where
  "IsSaaS b \<longleftrightarrow> bi_Managed b = ''saas'' \<and> bi_UserRef b \<noteq> []"

datatype binding_err = errKaiNotFound | errNoClient | errLookup kerr

definition loadKaiBinding :: "('s, 'r) ws \<Rightarrow> string \<Rightarrow> kube \<Rightarrow> (binding_err + kai_binding) \<times> kube" where
  "loadKaiBinding c slug w =
     (if ws_demoMode c then (Inr \<lparr>bi_Managed = ''saas'', bi_UserRef = ''u_demo''\<rparr>, w)
      else if \<not> ws_dyn c then (Inl errNoClient, w)
      else (case kc_get (ws_namespace c, ''kai-'' @ slug) w of
          (Inl e, w1) \<Rightarrow> (Inl (if e = KNotFound then errKaiNotFound else errLookup e), w1)
        | (Inr k, w1) \<Rightarrow> (Inr \<lparr>bi_Managed = sp_Managed (k_Spec k), bi_UserRef = sp_UserRef (k_Spec k)\<rparr>, w1)))"

definition loginSaaS :: "('s, 'r) ws \<Rightarrow> string \<Rightarrow> string \<Rightarrow> kai_binding \<Rightarrow> 's \<Rightarrow> user option" where
  \<comment> \<open>\<open>None\<close>: \<open>errInvalidLogin\<close>\<close>
  "loginSaaS c email password binding us =
     (case ws_store c of None \<Rightarrow> None
      | Some store \<Rightarrow> (case st_GetByEmail store (NormalizeEmail email) us of
          Inl _ \<Rightarrow> None
        | Inr u \<Rightarrow>
            if \<not> VerifyArgon2id (ws_argon c) (ws_version c) password (u_PasswordHash u) then None
            else if u_EmailVerifiedAt u = None then None
            else if u_DeletedAt u \<noteq> None then None
            else if \<not> equal_fold (u_ID u) (bi_UserRef binding) then None
            else Some u))"

section \<open>Login and logout\<close>

definition invalid_login :: resp where
  "invalid_login = writeErr 401 ''invalid login''"

definition logged_in :: "string \<Rightarrow> string \<Rightarrow> resp" where
  "logged_in email setup = writeJSON 200 (str_obj [(''email'', email), (''setup'', setup)])"

definition bootstrapAdmin :: "('s, 'r) ws \<Rightarrow> string \<Rightarrow> string \<Rightarrow> string \<Rightarrow> string \<Rightarrow> ws_env \<Rightarrow> kube \<Rightarrow> resp \<times> kube" where
  \<comment> \<open>\<open>handleLogin\<close> behind \<open>if len(users) == 0\<close>\<close>
  "bootstrapAdmin c slug email password secret en w =
     (if \<not> validPassword password then (writeErr 400 ''password must be at least 8 characters'', w)
      else (case HashPassword (ws_argon c) (ws_version c) password (we_salt en) of
          None \<Rightarrow> (writeErr 500 ''hash failed'', w)
        | Some hash \<Rightarrow>
           (let now = ws_stamp c (we_now en) in
            case updateUsersSecret c slug (\<lambda>existing. if existing \<noteq> [] then Inl errAlreadyExists
                else Inr [\<lparr>ur_Email = email, ur_PasswordHash = hash, ur_CreatedAt = now, ur_PasswordUpdatedAt = now\<rparr>])
                (we_other en) (we_race en w) of
              (Some _, w1) \<Rightarrow> (writeErr 409 (''another admin was just created '' @ [CHR 0xE2, CHR 0x80, CHR 0x94]
                  @ '' please retry sign-in''), w1)
            | (None, w1) \<Rightarrow> (issueAndSetSession c slug email secret en
                (writeJSON 201 (str_obj [(''email'', email), (''setup'', ''true'')])), w1))))"

definition passwordLogin :: "('s, 'r) ws \<Rightarrow> string \<Rightarrow> string \<Rightarrow> string \<Rightarrow> string \<Rightarrow> user_record list \<Rightarrow> ws_env \<Rightarrow> resp" where
  \<comment> \<open>the normal path\<close>
  "passwordLogin c slug email password secret us en =
     (case find (\<lambda>u. equal_fold (ur_Email u) email) us of
        None \<Rightarrow> invalid_login
      | Some u \<Rightarrow>
          if \<not> VerifyArgon2id (ws_argon c) (ws_version c) password (ur_PasswordHash u) then invalid_login
          else issueAndSetSession c slug email secret en (logged_in email ''false''))"

definition login_kube :: "('s, 'r) ws \<Rightarrow> string \<Rightarrow> string \<Rightarrow> string \<Rightarrow> ws_env \<Rightarrow> 's \<Rightarrow> kube \<Rightarrow> resp \<times> kube" where
  \<comment> \<open>\<open>handleLogin\<close> from the load of the binding on\<close>
  "login_kube c slug email password en us w =
     (case loadKaiBinding c slug w of
        (Inl e, w1) \<Rightarrow> (if e = errKaiNotFound then invalid_login else writeErr 503 ''center not provisioned'', w1)
      | (Inr binding, w1) \<Rightarrow>
         (case readJWTSecret c slug w1 of
            (None, w2) \<Rightarrow> (writeErr 503 ''center not provisioned'', w2)
          | (Some secret, w2) \<Rightarrow>
             if IsSaaS binding
             then (case loginSaaS c email password binding us of
                 None \<Rightarrow> (invalid_login, w2)
               | Some u \<Rightarrow> (issueAndSetSessionWithUID c slug (u_Email u) (u_ID u) secret en (logged_in (u_Email u) ''false''), w2))
             else (case readUsersSecret c slug w2 of
                 (Inl _, w3) \<Rightarrow> (writeErr 503 ''users secret unavailable'', w3)
               | (Inr (recs, _), w3) \<Rightarrow>
                   if recs = [] then bootstrapAdmin c slug email password secret en w3
                   else (passwordLogin c slug email password secret recs en, w3))))"

definition handleLogin :: "('s, 'r) ws \<Rightarrow> ws_request \<Rightarrow> ws_env \<Rightarrow> ('s, 'r) ws_state \<Rightarrow> resp \<times> ('s, 'r) ws_state" where
  "handleLogin c r en st =
     (let slug = wq_slug r in
      if slug_rejected slug then (invalid_login, st)
      else (case decode_fields [''email'', ''password''] (wq_Body r) of
          Some [email0, password] \<Rightarrow>
           (let email = norm email0 in
            if email = [] \<or> password = [] then (invalid_login, st)
            else if ws_demoMode c
              then (issueAndSetSessionWithUID c slug email ''u_demo'' (ws_devSecret c) en (logged_in email ''false''), st)
            else (let (rs, w) = login_kube c slug email password en (wt_users st) (wt_kube st) in (rs, st\<lparr>wt_kube := w\<rparr>)))
        | _ \<Rightarrow> (writeErr 400 ''invalid body'', st)))"

definition unsafeParseClaims :: "string \<Rightarrow> claims option" where
  "unsafeParseClaims token = (case split_on (CHR ''.'') token of
     h # p # s # rest \<Rightarrow> (case url_decode p of None \<Rightarrow> None | Some payload \<Rightarrow> unmarshal_claims payload)
   | _ \<Rightarrow> None)"

definition handleLogout :: "('s, 'r) ws \<Rightarrow> ws_request \<Rightarrow> ws_env \<Rightarrow> ('s, 'r) ws_state \<Rightarrow> resp \<times> ('s, 'r) ws_state" where
  "handleLogout c r en st =
     (SetCookie MakeClearCookie (writeStatus 204),
      (case (wq_cookie r, ws_revoker c) of
         (Some v, Some rv) \<Rightarrow>
           if v = [] then st
           else (case unsafeParseClaims v of None \<Rightarrow> st
             | Some cl \<Rightarrow> if c_Jti cl = [] then st
                 else st\<lparr>wt_rev := snd (rv_Revoke rv (c_Slug cl) (c_Jti cl) (seconds (c_Exp cl)) (we_now en) (wt_rev st))\<rparr>)
       | _ \<Rightarrow> st))"

definition auth_info :: "claims option \<Rightarrow> bool \<Rightarrow> resp" where
  "auth_info cl setup = writeJSON 200 (case cl of
     Some cl \<Rightarrow> JObj [(''authenticated'', JBool True), (''email'', JStr (c_Sub cl)), (''needsSetup'', JBool False), (''slug'', JStr (c_Slug cl))]
   | None \<Rightarrow> JObj [(''authenticated'', JBool False), (''needsSetup'', JBool setup)])"

definition needs_setup :: "('s, 'r) ws \<Rightarrow> string \<Rightarrow> kube \<Rightarrow> bool \<times> kube" where
  \<comment> \<open>the end of \<open>handleAuthInfo\<close>\<close>
  "needs_setup c slug w =
     (if \<not> ws_core c then (False, w)
      else (case loadKaiBinding c slug w of
          (Inr b, w1) \<Rightarrow> if IsSaaS b then (False, w1)
            else (case readUsersSecret c slug w1 of (Inr (us, _), w2) \<Rightarrow> (us = [], w2) | (Inl _, w2) \<Rightarrow> (False, w2))
        | (Inl _, w1) \<Rightarrow> (False, w1)))"

definition handleAuthInfo :: "('s, 'r) ws \<Rightarrow> ws_request \<Rightarrow> ws_env \<Rightarrow> ('s, 'r) ws_state \<Rightarrow> resp \<times> ('s, 'r) ws_state" where
  "handleAuthInfo c r en st =
     (let slug = wq_slug r in
      if slug_rejected slug then (auth_info None False, st)
      else (case authedClaims c r slug (we_now en) st of
          (Some cl, st1) \<Rightarrow> (auth_info (Some cl) False, st1)
        | (None, st1) \<Rightarrow>
            if ws_demoMode c then (auth_info None False, st1)
            else (let (b, w) = needs_setup c slug (wt_kube st1) in (auth_info None b, st1\<lparr>wt_kube := w\<rparr>))))"

section \<open>User administration\<close>

definition user_public :: "string \<Rightarrow> string \<Rightarrow> string \<Rightarrow> json" where
  "user_public em ca pu = str_obj [(''email'', em), (''createdAt'', ca), (''passwordUpdatedAt'', pu)]"

definition demo_users :: "('s, 'r) ws \<Rightarrow> gotime \<Rightarrow> json" where
  "demo_users c now = JArr
     [user_public ''anna.schmidt@acme.de'' (ws_stamp c (now - hours 72)) (ws_stamp c (now - hours 24)),
      user_public ''tobias.weber@acme.de'' (ws_stamp c (now - hours 48)) (ws_stamp c (now - hours 48))]"

definition listUsers :: "('s, 'r) ws \<Rightarrow> ws_request \<Rightarrow> ws_env \<Rightarrow> ('s, 'r) ws_state \<Rightarrow> resp \<times> ('s, 'r) ws_state" where
  "listUsers c r en st =
     (case requireCenterAuth c r (wq_slug r) (we_now en) st of
        (False, st1) \<Rightarrow> (writeUnauthorized, st1)
      | (True, st1) \<Rightarrow>
          if ws_demoMode c then (writeJSON 200 (demo_users c (we_now en)), st1)
          else (case readUsersSecret c (wq_slug r) (wt_kube st1) of
              (Inl _, w) \<Rightarrow> (writeErr 500 ''read failed'', st1\<lparr>wt_kube := w\<rparr>)
            | (Inr (us, _), w) \<Rightarrow>
                (writeJSON 200 (JArr (map (\<lambda>u. user_public (ur_Email u) (ur_CreatedAt u) (ur_PasswordUpdatedAt u)) us)),
                 st1\<lparr>wt_kube := w\<rparr>)))"

definition add_fn :: "user_record \<Rightarrow> user_record list \<Rightarrow> secret_err + user_record list" where
  "add_fn u us = (if list_ex (\<lambda>v. equal_fold (ur_Email v) (ur_Email u)) us then Inl errAlreadyExists else Inr (us @ [u]))"

definition addUser :: "('s, 'r) ws \<Rightarrow> ws_request \<Rightarrow> ws_env \<Rightarrow> ('s, 'r) ws_state \<Rightarrow> resp \<times> ('s, 'r) ws_state" where
  "addUser c r en st =
     (case requireCenterAuth c r (wq_slug r) (we_now en) st of
        (False, st1) \<Rightarrow> (writeUnauthorized, st1)
      | (True, st1) \<Rightarrow>
        (case decode_fields [''email'', ''password''] (wq_Body r) of
           Some [email0, password] \<Rightarrow>
            (let email = norm email0; now = ws_stamp c (we_now en) in
             if \<not> validEmail (ws_parse c) email then (writeErr 400 ''invalid email'', st1)
             else if \<not> validPassword password then (writeErr 400 ''password must be at least 8 characters'', st1)
             else if ws_demoMode c then (writeJSON 201 (user_public email now now), st1)
             else (case HashPassword (ws_argon c) (ws_version c) password (we_salt en) of
                 None \<Rightarrow> (writeErr 500 ''hash failed'', st1)
               | Some hash \<Rightarrow>
                  (case updateUsersSecret c (wq_slug r) (add_fn \<lparr>ur_Email = email, ur_PasswordHash = hash,
                        ur_CreatedAt = now, ur_PasswordUpdatedAt = now\<rparr>) (we_other en) (wt_kube st1) of
                     (e, w) \<Rightarrow>
                       (case e of None \<Rightarrow> writeJSON 201 (user_public email now now)
                        | Some errAlreadyExists \<Rightarrow> writeErr 409 ''email already exists''
                        | Some errSecretMissing \<Rightarrow> writeErr 503 ''users secret not yet provisioned''
                        | Some _ \<Rightarrow> writeErr 500 ''write failed'',
                        st1\<lparr>wt_kube := w\<rparr>))))
         | _ \<Rightarrow> (writeErr 400 ''invalid body'', st1)))"

definition remove_fn :: "string \<Rightarrow> user_record list \<Rightarrow> secret_err + user_record list" where
  "remove_fn email us = Inr (filter (\<lambda>u. \<not> equal_fold (ur_Email u) email) us)"

definition removeUser :: "('s, 'r) ws \<Rightarrow> ws_request \<Rightarrow> ws_env \<Rightarrow> ('s, 'r) ws_state \<Rightarrow> resp \<times> ('s, 'r) ws_state" where
  "removeUser c r en st =
     (let email = norm (wq_email r) in
      case requireCenterAuth c r (wq_slug r) (we_now en) st of
        (False, st1) \<Rightarrow> (writeUnauthorized, st1)
      | (True, st1) \<Rightarrow>
          if \<not> validEmail (ws_parse c) email then (writeErr 400 ''invalid email'', st1)
          else if ws_demoMode c then (writeStatus 204, st1)
          else (case updateUsersSecret c (wq_slug r) (remove_fn email) (we_other en) (wt_kube st1) of
              (e, w) \<Rightarrow> (case e of None \<Rightarrow> writeStatus 204
                  | Some errSecretMissing \<Rightarrow> writeErr 503 ''users secret not yet provisioned''
                  | Some _ \<Rightarrow> writeErr 500 ''write failed'', st1\<lparr>wt_kube := w\<rparr>)))"

fun reset_first :: "string \<Rightarrow> string \<Rightarrow> string \<Rightarrow> user_record list \<Rightarrow> user_record list option" where
  \<comment> \<open>\<open>None\<close>: not found\<close>
  "reset_first email hash now [] = None"
| "reset_first email hash now (u # us) =
     (if equal_fold (ur_Email u) email then Some (u\<lparr>ur_PasswordHash := hash, ur_PasswordUpdatedAt := now\<rparr> # us)
      else map_option (\<lambda>vs. u # vs) (reset_first email hash now us))"

definition reset_fn :: "string \<Rightarrow> string \<Rightarrow> string \<Rightarrow> user_record list \<Rightarrow> secret_err + user_record list" where
  "reset_fn email hash now us = (case reset_first email hash now us of None \<Rightarrow> Inl errNotFound | Some vs \<Rightarrow> Inr vs)"

definition resetPassword :: "('s, 'r) ws \<Rightarrow> ws_request \<Rightarrow> ws_env \<Rightarrow> ('s, 'r) ws_state \<Rightarrow> resp \<times> ('s, 'r) ws_state" where
  "resetPassword c r en st =
     (let email = norm (wq_email r) in
      case requireCenterAuth c r (wq_slug r) (we_now en) st of
        (False, st1) \<Rightarrow> (writeUnauthorized, st1)
      | (True, st1) \<Rightarrow>
          if \<not> validEmail (ws_parse c) email then (writeErr 400 ''invalid email'', st1)
          else (case decode_fields [''password''] (wq_Body r) of
             Some [password] \<Rightarrow>
               if \<not> validPassword password then (writeErr 400 ''password must be at least 8 characters'', st1)
               else if ws_demoMode c then (writeStatus 204, st1)
               else (case HashPassword (ws_argon c) (ws_version c) password (we_salt en) of
                   None \<Rightarrow> (writeErr 500 ''hash failed'', st1)
                 | Some hash \<Rightarrow>
                    (case updateUsersSecret c (wq_slug r) (reset_fn email hash (ws_stamp c (we_now en))) (we_other en) (wt_kube st1) of
                       (e, w) \<Rightarrow> (case e of None \<Rightarrow> writeStatus 204
                           | Some errNotFound \<Rightarrow> writeErr 404 ''user not found''
                           | Some errSecretMissing \<Rightarrow> writeErr 503 ''users secret not yet provisioned''
                           | Some _ \<Rightarrow> writeErr 500 ''write failed'', st1\<lparr>wt_kube := w\<rparr>)))
           | _ \<Rightarrow> (writeErr 400 ''invalid body'', st1)))"

end
