(* ===== verification/WorkspaceView.thy ===== *)
theory WorkspaceView
  imports Workspace
begin

text \<open>
  The pages of the workspace server: the centre of a workspace (\<open>main.go\<close>), its agents (\<open>agents.go\<close>) and
  the signed-in user's profile and workspaces (\<open>saas.go\<close>), with the canned data of the demo mode.
  Objects are read from the cluster as the operator's types; the JSON of the ConfigMaps is decoded as the
  code decodes it, strictly for team, links and briefings, leniently for \<open>openclaw.json\<close>.
\<close>

section \<open>Data\<close>

record app_link =
  al_Label :: string
  al_URL :: string
  al_Description :: string
  al_Icon :: string
  al_External :: bool

record briefing =
  br_ID :: string
  br_Title :: string
  br_Date :: string
  br_Excerpt :: string
  br_Body :: string

record channel =
  ch_Kind :: string
  ch_Label :: string
  ch_Hint :: string

record team_member =
  tm_Name :: string
  tm_Role :: string
  tm_Company :: string
  tm_Email :: string
  tm_Phone :: string
  tm_Timezone :: string
  tm_Avatar :: string

record center_response =
  ce_CustomerName :: string
  ce_ProjectName :: string
  ce_Slug :: string
  ce_Status :: string
  ce_StatusLabel :: string
  ce_Links :: "app_link list"
  ce_Channels :: "channel list"
  ce_Team :: "team_member list"
  ce_Scope :: string
  ce_Heartbeat :: string
  ce_Briefings :: "briefing list"

definition link_json :: "app_link \<Rightarrow> json" where
  "link_json l = JObj ([(''label'', JStr (al_Label l)), (''url'', JStr (al_URL l))] @ omit_empty ''description'' (al_Description l)
     @ omit_empty ''icon'' (al_Icon l) @ (if al_External l then [(''external'', JBool True)] else []))"

definition briefing_json :: "briefing \<Rightarrow> json" where
  "briefing_json b = JObj ([(''id'', JStr (br_ID b)), (''title'', JStr (br_Title b))] @ omit_empty ''date'' (br_Date b)
     @ omit_empty ''excerpt'' (br_Excerpt b) @ omit_empty ''body'' (br_Body b))"

definition channel_json :: "channel \<Rightarrow> json" where
  "channel_json h = JObj ([(''kind'', JStr (ch_Kind h)), (''label'', JStr (ch_Label h))] @ omit_empty ''hint'' (ch_Hint h))"

definition team_json :: "team_member \<Rightarrow> json" where
  "team_json m = JObj ([(''name'', JStr (tm_Name m))] @ omit_empty ''role'' (tm_Role m) @ omit_empty ''company'' (tm_Company m)
     @ omit_empty ''email'' (tm_Email m) @ omit_empty ''phone'' (tm_Phone m) @ omit_empty ''timezone'' (tm_Timezone m)
     @ omit_empty ''avatar'' (tm_Avatar m))"

definition center_json :: "center_response \<Rightarrow> json" where
  "center_json e = JObj ([(''customerName'', JStr (ce_CustomerName e)), (''projectName'', JStr (ce_ProjectName e)),
     (''slug'', JStr (ce_Slug e)), (''status'', JStr (ce_Status e)), (''statusLabel'', JStr (ce_StatusLabel e)),
     (''links'', JArr (map link_json (ce_Links e))), (''channels'', JArr (map channel_json (ce_Channels e))),
     (''team'', JArr (map team_json (ce_Team e)))] @ omit_empty ''scope'' (ce_Scope e) @ omit_empty ''heartbeat'' (ce_Heartbeat e)
     @ [(''briefings'', JArr (map briefing_json (ce_Briefings e)))])"

section \<open>The centre of a workspace\<close>

definition translateStatus :: "kai \<Rightarrow> string \<times> string" where
  "translateStatus k =
     (if sp_Suspended (k_Spec k) then (''paused'', ''Paused'')
      else (case ks_Phase (k_Status k) of
          PhaseRunning \<Rightarrow> if ks_Ready (k_Status k) then (''online'', ''Online'') else (''setting-up'', ''Setting up'')
        | PhaseProvisioning \<Rightarrow> (''setting-up'', ''Setting up'')
        | PhaseSuspended \<Rightarrow> (''paused'', ''Paused'')
        | PhaseFailed \<Rightarrow> (''issue'', ''Issue detected'')
        | PhaseUnset \<Rightarrow> (''unknown'', ''Unknown'')))"

definition buildChannels :: "kai \<Rightarrow> channel list" where
  "buildChannels k =
     \<lparr>ch_Kind = ''webchat'', ch_Label = ''Web chat'', ch_Hint = ''Use the link in '' @ [CHR 0x27] @ ''Your apps'' @ [CHR 0x27] @ ''.''\<rparr>
     # (case sp_Telegram (k_Spec k) of None \<Rightarrow> []
        | Some ref \<Rightarrow> [\<lparr>ch_Kind = ''telegram'', ch_Label = ''Telegram'',
            ch_Hint = (if ref \<noteq> [] then ''Bot configured ('' @ ref @ '')'' else ''Configured'')\<rparr>])"

definition joinURL :: "string \<Rightarrow> string \<Rightarrow> string" where
  "joinURL base path = (if base = [] then path else trim_right (CHR ''/'') base @ path)"

definition path_plain :: "char \<Rightarrow> bool" where
  "path_plain c \<longleftrightarrow> is_lower c \<or> is_upper c \<or> is_digit c \<or> c \<in> set ''-_.~$&+=:@''"

definition upper_hex :: "nat \<Rightarrow> char" where
  "upper_hex n = (if n < 10 then char_of (48 + n) else char_of (55 + n))"

definition path_escape :: "string \<Rightarrow> string" where
  \<comment> \<open>\<open>url.PathEscape\<close>\<close>
  "path_escape s = concat (map (\<lambda>c. if path_plain c then [c]
     else [CHR ''%'', upper_hex (code c div 16), upper_hex (code c mod 16)]) s)"

definition annotationCustomLinks :: string where
  "annotationCustomLinks = ''swarm.emai.io/customer-links''"

definition link_of :: "json \<Rightarrow> app_link option" where
  "link_of j = (case (fields_of [''label'', ''url'', ''description'', ''icon''] j,
       set_bool (case j of JObj ms \<Rightarrow> members_for ''external'' ms | _ \<Rightarrow> []) False) of
     (Some [lb, ur, de, ic], Some ex) \<Rightarrow> Some \<lparr>al_Label = lb, al_URL = ur, al_Description = de, al_Icon = ic, al_External = ex\<rparr>
   | _ \<Rightarrow> None)"

definition buildLinks :: "('s, 'r) ws \<Rightarrow> string \<Rightarrow> kai \<Rightarrow> app_link list" where
  "buildLinks c slug k =
     (let encSlug = path_escape slug;
          raw = (case map_of (k_Annotations k) annotationCustomLinks of None \<Rightarrow> [] | Some v \<Rightarrow> v)
      in [\<lparr>al_Label = ''Chat with Kai'', al_URL = joinURL (ws_chatBase c) (''/chat/'' @ encSlug),
            al_Description = ''Talk to your project assistant.'', al_Icon = [CHR 0xF0, CHR 0x9F, CHR 0x92, CHR 0xAC], al_External = False\<rparr>,
          \<lparr>al_Label = ''Status'', al_URL = joinURL (ws_statusBase c) (''/status/'' @ encSlug),
            al_Description = ''Check whether your assistant is online.'', al_Icon = [CHR 0xF0, CHR 0x9F, CHR 0x9F, CHR 0xA2], al_External = False\<rparr>]
         @ (if raw = [] then [] else (case decode_list link_of raw of None \<Rightarrow> []
              | Some custom \<Rightarrow> map (\<lambda>l. l\<lparr>al_External := True\<rparr>) custom)))"

definition member_of :: "json \<Rightarrow> team_member option" where
  "member_of j = (case fields_of [''name'', ''role'', ''company'', ''email'', ''phone'', ''timezone'', ''avatar''] j of
     Some [na, ro, co, em, ph, ti, av] \<Rightarrow> Some \<lparr>tm_Name = na, tm_Role = ro, tm_Company = co, tm_Email = em,
       tm_Phone = ph, tm_Timezone = ti, tm_Avatar = av\<rparr>
   | _ \<Rightarrow> None)"

definition cm_data :: "(string \<times> string) list \<Rightarrow> string \<Rightarrow> string" where
  "cm_data d k = (case map_of d k of None \<Rightarrow> [] | Some v \<Rightarrow> v)"

definition loadProfile :: "('s, 'r) ws \<Rightarrow> string \<Rightarrow> kube \<Rightarrow> (team_member list \<times> string \<times> string) \<times> kube" where
  "loadProfile c slug w =
     (if \<not> ws_core c then (([], [], []), w)
      else (case cm_get (ws_namespace c, ''kai-'' @ slug @ ''-profile'') w of
          (Inl _, w1) \<Rightarrow> (([], [], []), w1)
        | (Inr d, w1) \<Rightarrow>
            ((case map_of d ''team.json'' of None \<Rightarrow> [] | Some raw \<Rightarrow> (case decode_list member_of raw of None \<Rightarrow> [] | Some ms \<Rightarrow> ms),
              cm_data d ''scope.md'', cm_data d ''heartbeat.md''), w1)))"

definition briefing_of :: "json \<Rightarrow> briefing option" where
  "briefing_of j = (case fields_of [''id'', ''title'', ''date'', ''excerpt'', ''body''] j of
     Some [bi, ti, da, ex, bo] \<Rightarrow> Some \<lparr>br_ID = bi, br_Title = ti, br_Date = da, br_Excerpt = ex, br_Body = bo\<rparr>
   | _ \<Rightarrow> None)"

definition newest_first :: "briefing list \<Rightarrow> briefing list" where
  \<comment> \<open>\<open>sort.SliceStable\<close>, later dates first\<close>
  "newest_first bs = rev (sort_key br_Date (rev bs))"

definition loadBriefings :: "('s, 'r) ws \<Rightarrow> string \<Rightarrow> kube \<Rightarrow> briefing list \<times> kube" where
  "loadBriefings c slug w =
     (if \<not> ws_core c then ([], w)
      else (case cm_get (ws_namespace c, ''kai-'' @ slug @ ''-briefings'') w of
          (Inl _, w1) \<Rightarrow> ([], w1)
        | (Inr d, w1) \<Rightarrow> (case map_of d ''briefings.json'' of None \<Rightarrow> ([], w1)
            | Some raw \<Rightarrow> (case decode_list briefing_of raw of None \<Rightarrow> ([], w1) | Some bs \<Rightarrow> (newest_first bs, w1)))))"

subsection \<open>Demo data\<close>

fun title_from :: "bool \<Rightarrow> string \<Rightarrow> string" where
  \<comment> \<open>\<open>strings.Title\<close>; the flag: at the start of a word\<close>
  "title_from b [] = []"
| "title_from b (c # s) = (if b \<and> is_lower c then char_of (code c - 32) else c)
     # title_from (\<not> (is_lower c \<or> is_upper c \<or> is_digit c \<or> c = CHR ''_'' \<or> 128 \<le> code c)) s"

definition demo_links :: "string \<Rightarrow> app_link list" where
  "demo_links slug = [
    \<lparr>al_Label = ''Chat with Kai'', al_URL = ''/chat/'' @ slug, al_Description = ''Talk to your project assistant.'', al_Icon = [CHR 0xF0, CHR 0x9F, CHR 0x92, CHR 0xAC], al_External = False\<rparr>,
    \<lparr>al_Label = ''Status'', al_URL = ''/status/'' @ slug, al_Description = ''Check whether your assistant is online.'', al_Icon = [CHR 0xF0, CHR 0x9F, CHR 0x9F, CHR 0xA2], al_External = False\<rparr>,
    \<lparr>al_Label = ''MissionControl'', al_URL = ''https://mc.emai.dev/'' @ slug, al_Description = ''Project board: tasks, meetings, decisions.'', al_Icon = [CHR 0xF0, CHR 0x9F, CHR 0x93, CHR 0x8B], al_External = True\<rparr>,
    \<lparr>al_Label = ''Robot fleet'', al_URL = ''https://neodem.emai.dev/'' @ slug, al_Description = ''NeoDEM dashboard for your robots.'', al_Icon = [CHR 0xF0, CHR 0x9F, CHR 0xA4, CHR 0x96], al_External = True\<rparr>]"

definition demo_channels :: "channel list" where
  "demo_channels = [
    \<lparr>ch_Kind = ''webchat'', ch_Label = ''Web chat'', ch_Hint = ''Use the link in '' @ [CHR 0x27] @ ''Your apps'' @ [CHR 0x27] @ ''.''\<rparr>,
    \<lparr>ch_Kind = ''telegram'', ch_Label = ''Telegram'', ch_Hint = ''@AcmeKaiBot''\<rparr>]"

definition demo_team :: "string \<Rightarrow> team_member list" where
  "demo_team customer = [
    \<lparr>tm_Name = ''Anna Schmidt'', tm_Role = ''Project Lead'', tm_Company = customer, tm_Email = ''anna.schmidt@acme.de'', tm_Phone = [], tm_Timezone = ''Europe/Berlin'', tm_Avatar = []\<rparr>,
    \<lparr>tm_Name = ''Tobias Weber'', tm_Role = ''Robotics Engineer'', tm_Company = customer, tm_Email = ''tobias.weber@acme.de'', tm_Phone = [], tm_Timezone = ''Europe/Berlin'', tm_Avatar = []\<rparr>,
    \<lparr>tm_Name = ''Markus Heuser'', tm_Role = ''EmAI Project Lead'', tm_Company = ''EmAI'', tm_Email = ''markus@emai.dev'', tm_Phone = [], tm_Timezone = ''Europe/Berlin'', tm_Avatar = []\<rparr>,
    \<lparr>tm_Name = ''On-call'', tm_Role = ''Escalation'', tm_Company = ''EmAI'', tm_Email = [], tm_Phone = ''+49 30 12345678'', tm_Timezone = [], tm_Avatar = [CHR 0xF0, CHR 0x9F, CHR 0x9A, CHR 0xA8]\<rparr>]"

definition demo_scope :: string where
  "demo_scope = ''## What Kai handles for you'' @ [CHR 0x0A, CHR 0x0A] @ ''- **Project tracking** ''
    @ [CHR 0xE2, CHR 0x80, CHR 0x94] @ '' open tasks, deadlines, weekly status reports.'' @ [CHR 0x0A]
    @ ''- **Meeting prep** '' @ [CHR 0xE2, CHR 0x80, CHR 0x94]
    @ '' agendas + briefings before each meeting.'' @ [CHR 0x0A] @ ''- **Documentation** ''
    @ [CHR 0xE2, CHR 0x80, CHR 0x94] @ '' research notes, decisions, action items.'' @ [CHR 0x0A]
    @ ''- **Operational nudges** '' @ [CHR 0xE2, CHR 0x80, CHR 0x94]
    @ '' reminders for things you have committed to.'' @ [CHR 0x0A, CHR 0x0A] @ ''## Out of scope''
    @ [CHR 0x0A, CHR 0x0A]
    @ ''Kai does *not* handle billing, contracts, or anything legal. Reach out to your EmAI lead for those.''"

definition demo_heartbeat :: string where
  "demo_heartbeat = ''- **Monday 09:00** '' @ [CHR 0xE2, CHR 0x80, CHR 0x94] @ '' Weekly status briefing posted here.''
    @ [CHR 0x0A] @ ''- **Wednesday** '' @ [CHR 0xE2, CHR 0x80, CHR 0x94] @ '' Mid-week task triage in chat.''
    @ [CHR 0x0A] @ ''- **Friday 16:00** '' @ [CHR 0xE2, CHR 0x80, CHR 0x94]
    @ '' Sprint summary + next-week preview.'' @ [CHR 0x0A] @ ''- **Daily** ''
    @ [CHR 0xE2, CHR 0x80, CHR 0x94] @ '' Telegram nudge if there is anything urgent waiting for you.''"

definition demo_briefings :: "(int \<Rightarrow> string) \<Rightarrow> briefing list" where
  "demo_briefings d = [
    \<lparr>br_ID = ''demo-week-17'', br_Title = ''Weekly briefing '' @ [CHR 0xE2, CHR 0x80, CHR 0x94] @ '' Week 17'', br_Date = d 2,
      br_Excerpt = ''3 tasks completed, 2 in flight, milestone review on Thursday.'',
      br_Body = ''## Highlights'' @ [CHR 0x0A, CHR 0x0A] @ ''- **Migrated CI to ARM64** ''
        @ [CHR 0xE2, CHR 0x80, CHR 0x94] @ '' ~30% faster builds.'' @ [CHR 0x0A]
        @ ''- **Operator reconciliation** for `KaiInstance` deployed to staging.'' @ [CHR 0x0A]
        @ ''- **SO-101 demo** ran successfully twice this week.'' @ [CHR 0x0A, CHR 0x0A] @ ''## In flight''
        @ [CHR 0x0A, CHR 0x0A] @ ''1. Robot agent rewrite in Rust '' @ [CHR 0xE2, CHR 0x80, CHR 0x94]
        @ '' 60% complete.'' @ [CHR 0x0A] @ ''2. New training-worker container ''
        @ [CHR 0xE2, CHR 0x80, CHR 0x94] @ '' pending review.'' @ [CHR 0x0A, CHR 0x0A] @ ''## Upcoming''
        @ [CHR 0x0A, CHR 0x0A] @ ''- **Thursday 14:00** '' @ [CHR 0xE2, CHR 0x80, CHR 0x94]
        @ '' Milestone review with team.'' @ [CHR 0x0A] @ ''- **Monday** '' @ [CHR 0xE2, CHR 0x80, CHR 0x94]
        @ '' Next sprint planning.''\<rparr>,
    \<lparr>br_ID = ''demo-meeting-retro'', br_Title = ''Meeting: SO-101 demo retrospective'', br_Date = d 8,
      br_Excerpt = ''Team reviewed the demo. Two action items captured.'',
      br_Body = ''### Decisions'' @ [CHR 0x0A, CHR 0x0A] @ ''- Continue with the Rust agent rewrite.'' @ [CHR 0x0A]
        @ ''- Defer training-worker rollout to Q3.'' @ [CHR 0x0A, CHR 0x0A] @ ''### Action items''
        @ [CHR 0x0A, CHR 0x0A] @ ''- [ ] Customer to share latest robot config (due in 1 week).'' @ [CHR 0x0A]
        @ ''- [ ] EmAI to write up calibration runbook (due in 2 weeks).''\<rparr>,
    \<lparr>br_ID = ''demo-week-16'', br_Title = ''Weekly briefing '' @ [CHR 0xE2, CHR 0x80, CHR 0x94] @ '' Week 16'', br_Date = d 9,
      br_Excerpt = ''Quiet week. Operator scaffolded, first reconcile loop working.'',
      br_Body = ''## Highlights'' @ [CHR 0x0A, CHR 0x0A] @ ''- Operator scaffold landed.'' @ [CHR 0x0A]
        @ ''- First reconcile loop turning a `KaiInstance` into a Deployment + ConfigMap.''
        @ [CHR 0x0A, CHR 0x0A] @ ''## Notes'' @ [CHR 0x0A, CHR 0x0A] @ ''No blockers from your side this week.''\<rparr>,
    \<lparr>br_ID = ''demo-week-15'', br_Title = ''Weekly briefing '' @ [CHR 0xE2, CHR 0x80, CHR 0x94] @ '' Week 15'', br_Date = d 16,
      br_Excerpt = ''Sprint planning + new dependency review.'',
      br_Body = []\<rparr>,
    \<lparr>br_ID = ''demo-kickoff'', br_Title = ''Project kickoff'', br_Date = d 30,
      br_Excerpt = ''Initial scoping meeting with the engineering team.'',
      br_Body = []\<rparr>]"

definition demoData :: "('s, 'r) ws \<Rightarrow> gotime \<Rightarrow> string \<Rightarrow> center_response" where
  "demoData c now slug =
     (let customer = (if slug \<noteq> ''demo'' \<and> slug \<noteq> [] then title_from True (replace_all ''-'' '' '' slug) else ''Acme GmbH'');
          d = (\<lambda>days. ws_stamp c (now - days * hours 24))
      in \<lparr>ce_CustomerName = customer, ce_ProjectName = ''Robotik Pilot 2026'', ce_Slug = slug, ce_Status = ''online'',
          ce_StatusLabel = ''Online'', ce_Links = demo_links slug, ce_Channels = demo_channels, ce_Team = demo_team customer,
          ce_Scope = demo_scope, ce_Heartbeat = demo_heartbeat, ce_Briefings = demo_briefings d\<rparr>)"

subsection \<open>The handler\<close>

definition getCenter :: "('s, 'r) ws \<Rightarrow> ws_request \<Rightarrow> ws_env \<Rightarrow> ('s, 'r) ws_state \<Rightarrow> resp \<times> ('s, 'r) ws_state" where
  "getCenter c r en st =
     (let slug = wq_slug r in
      if slug_rejected slug then (writeUnauthorized, st)
      else if ws_demoMode c then (writeJSON 200 (center_json (demoData c (we_now en) slug)), st)
      else (case requireCenterAuth c r slug (we_now en) st of
          (False, st1) \<Rightarrow> (writeUnauthorized, st1)
        | (True, st1) \<Rightarrow>
            if \<not> ws_dyn c then (writeErr 503 ''center backend unavailable'', st1)
            else (case kc_get (ws_namespace c, ''kai-'' @ slug) (wt_kube st1) of
                (Inl e, w) \<Rightarrow> (if e = KNotFound then writeUnauthorized else writeErr 500 ''lookup failed'', st1\<lparr>wt_kube := w\<rparr>)
              | (Inr k, w) \<Rightarrow>
                  (let (status, label) = translateStatus k; ((team, scope, heartbeat), w1) = loadProfile c slug w;
                       (briefings, w2) = loadBriefings c slug w1
                   in (writeJSON 200 (center_json \<lparr>ce_CustomerName = sp_CustomerName (k_Spec k), ce_ProjectName = sp_ProjectName (k_Spec k),
                         ce_Slug = slug, ce_Status = status, ce_StatusLabel = label, ce_Links = buildLinks c slug k,
                         ce_Channels = buildChannels k, ce_Team = team, ce_Scope = scope, ce_Heartbeat = heartbeat,
                         ce_Briefings = briefings\<rparr>), st1\<lparr>wt_kube := w2\<rparr>)))))"

section \<open>Agents\<close>

record agent =
  ag_ID :: string
  ag_Name :: string
  ag_Emoji :: string
  ag_Model :: string
  ag_Persona :: string
  ag_Skills :: "string list"
  ag_Source :: string
  ag_Default :: bool

definition agent_json :: "agent \<Rightarrow> json" where
  \<comment> \<open>a workspace without skills has the nil slice, printed as \<open>null\<close>\<close>
  "agent_json a = JObj ([(''id'', JStr (ag_ID a)), (''name'', JStr (ag_Name a))] @ omit_empty ''emoji'' (ag_Emoji a)
     @ [(''model'', JStr (ag_Model a)), (''persona'', JStr (ag_Persona a)),
        (''skills'', if ag_Skills a = [] then JNull else JArr (map JStr (ag_Skills a))), (''source'', JStr (ag_Source a))]
     @ (if ag_Default a then [(''default'', JBool True)] else []))"

definition agents_json :: "agent list \<Rightarrow> json" where
  "agents_json as = JObj [(''agents'', JArr (map agent_json as))]"

subsection \<open>openclaw.json\<close>

record claw_agent =
  ca_ID :: string
  ca_Default :: bool
  ca_Name :: string
  ca_Emoji :: string
  ca_Model :: string

record claw_config =
  cc_Primary :: string
  cc_List :: "claw_agent list"

definition claw_agent_of :: "json \<Rightarrow> claw_agent" where
  "claw_agent_of j = (let ms = object_members j in
     \<lparr>ca_ID = keep_string (members_for ''id'' ms) [], ca_Default = keep_bool (members_for ''default'' ms) False,
      ca_Name = keep_string (members_for ''name'' (nested ''identity'' ms)) [],
      ca_Emoji = keep_string (members_for ''emoji'' (nested ''identity'' ms)) [],
      ca_Model = keep_string (members_for ''primary'' (nested ''model'' ms)) []\<rparr>)"

definition claw_config_of :: "string \<Rightarrow> claw_config" where
  \<comment> \<open>the error of \<open>json.Unmarshal\<close> is dropped: what does not fit is left at its zero value\<close>
  "claw_config_of raw = (case json_unmarshal raw of None \<Rightarrow> \<lparr>cc_Primary = [], cc_List = []\<rparr>
   | Some j \<Rightarrow> (let ags = nested ''agents'' (object_members j) in
       \<lparr>cc_Primary = keep_string (members_for ''primary'' (nested ''model'' (nested ''defaults'' ags))) [],
        cc_List = keep_list claw_agent_of (members_for ''list'' ags) []\<rparr>))"

subsection \<open>The handler\<close>

definition skill_id :: "string \<Rightarrow> string option" where
  \<comment> \<open>one round of the loop of \<open>extractSkills\<close>\<close>
  "skill_id k = (if \<not> has_prefix ''SKILL-'' k \<or> \<not> has_suffix ''.md'' k then None
     else (let i = trim_suffix ''.md'' (trim_prefix ''SKILL-'' k) in if i \<noteq> [] then Some i else None))"

definition extractSkills :: "(string \<times> string) list \<Rightarrow> string list" where
  "extractSkills d = sort (List.map_filter (\<lambda>(k, _). skill_id k) d)"

definition agentSource :: "('s, 'r) ws \<Rightarrow> string \<Rightarrow> kube \<Rightarrow> string \<times> kube" where
  "agentSource c slug w =
     (if \<not> ws_dyn c then (''default-template'', w)
      else (case kc_get (ws_namespace c, ''kai-'' @ slug) w of
          (Inl _, w1) \<Rightarrow> (''default-template'', w1)
        | (Inr k, w1) \<Rightarrow> (if sp_AppRef (k_Spec k) \<noteq> [] then sp_AppRef (k_Spec k) else ''default-template'', w1)))"

definition agents_of :: "(string \<times> string) list \<Rightarrow> string \<Rightarrow> agent list" where
  "agents_of d source =
     (let cfg = (case map_of d ''openclaw.json'' of None \<Rightarrow> \<lparr>cc_Primary = [], cc_List = []\<rparr> | Some raw \<Rightarrow> claw_config_of raw)
      in map (\<lambda>a. \<lparr>ag_ID = ca_ID a, ag_Name = ca_Name a, ag_Emoji = ca_Emoji a,
            ag_Model = (if ca_Model a = [] then cc_Primary cfg else ca_Model a), ag_Persona = cm_data d ''SOUL.md'',
            ag_Skills = extractSkills d, ag_Source = source, ag_Default = ca_Default a\<rparr>) (cc_List cfg))"

definition demo_persona :: "string \<Rightarrow> string" where
  "demo_persona slug = ''## Wer ich bin'' @ [CHR 0x0A, CHR 0x0A] @ ''Ich bin **Kai**, der Projekt-Assistent f''
    @ [CHR 0xC3, CHR 0xBC] @ ''r '' @ slug
    @ ''. Ich helfe dabei, Aufgaben zu strukturieren, Termine vorzubereiten und den '' @ [CHR 0xC3, CHR 0x9C]
    @ ''berblick zu behalten.'' @ [CHR 0x0A, CHR 0x0A] @ ''## Was ich '' @ [CHR 0xC3, CHR 0xBC]
    @ ''bernehme'' @ [CHR 0x0A, CHR 0x0A] @ ''- Projekt-Status verfolgen'' @ [CHR 0x0A]
    @ ''- Briefings vorbereiten'' @ [CHR 0x0A] @ ''- Meeting-Notizen festhalten'' @ [CHR 0x0A, CHR 0x0A]
    @ ''## Was ich nicht mache'' @ [CHR 0x0A, CHR 0x0A] @ ''- Vertr'' @ [CHR 0xC3, CHR 0xA4]
    @ ''ge oder Rechnungen'' @ [CHR 0x0A] @ ''- Personalentscheidungen''"

definition demoAgents :: "string \<Rightarrow> agent list" where
  "demoAgents slug = [\<lparr>ag_ID = ''kai-'' @ slug, ag_Name = ''Kai'', ag_Emoji = [CHR 0xF0, CHR 0x9F, CHR 0xA4, CHR 0x96],
     ag_Model = ''openrouter/anthropic/claude-sonnet-4-6'', ag_Persona = demo_persona slug, ag_Skills = [''mc''],
     ag_Source = ''project-assistant'', ag_Default = True\<rparr>]"

definition listAgents :: "('s, 'r) ws \<Rightarrow> ws_request \<Rightarrow> ws_env \<Rightarrow> ('s, 'r) ws_state \<Rightarrow> resp \<times> ('s, 'r) ws_state" where
  "listAgents c r en st =
     (let slug = wq_slug r in
      if slug_rejected slug then (writeUnauthorized, st)
      else if ws_demoMode c then (writeJSON 200 (agents_json (demoAgents slug)), st)
      else (case requireCenterAuth c r slug (we_now en) st of
          (False, st1) \<Rightarrow> (writeUnauthorized, st1)
        | (True, st1) \<Rightarrow>
            if \<not> ws_core c then (writeErr 503 ''agents backend unavailable'', st1)
            else (case cm_get (ws_namespace c, ''kai-'' @ slug @ ''-identity'') (wt_kube st1) of
                (Inl e, w) \<Rightarrow> (if e = KNotFound then writeJSON 200 (agents_json []) else writeErr 500 ''lookup failed'', st1\<lparr>wt_kube := w\<rparr>)
              | (Inr d, w) \<Rightarrow> (let (source, w1) = agentSource c slug w in (writeJSON 200 (agents_json (agents_of d source)), st1\<lparr>wt_kube := w1\<rparr>)))))"

section \<open>Owned workspaces and the owner\<close>

record owned_workspace =
  ow_Slug :: string
  ow_Name :: string
  ow_ProjectName :: string
  ow_Status :: string
  ow_StatusLabel :: string
  ow_AppRef :: string
  ow_Current :: bool

definition owned_json :: "owned_workspace list \<Rightarrow> json" where
  "owned_json ows = JObj [(''workspaces'', JArr (map (\<lambda>o'. JObj ([(''slug'', JStr (ow_Slug o')), (''name'', JStr (ow_Name o'))]
     @ omit_empty ''projectName'' (ow_ProjectName o') @ [(''status'', JStr (ow_Status o')), (''statusLabel'', JStr (ow_StatusLabel o'))]
     @ omit_empty ''appRef'' (ow_AppRef o') @ (if ow_Current o' then [(''current'', JBool True)] else []))) ows))]"

definition owned_of :: "string \<Rightarrow> kai \<Rightarrow> owned_workspace" where
  "owned_of slug k = (let ws = trim_prefix ''kai-'' (k_Name k); (status, label) = translateStatus k in
     \<lparr>ow_Slug = ws, ow_Name = sp_CustomerName (k_Spec k), ow_ProjectName = sp_ProjectName (k_Spec k), ow_Status = status,
      ow_StatusLabel = label, ow_AppRef = sp_AppRef (k_Spec k), ow_Current = (ws = slug)\<rparr>)"

fun upper_first :: "string \<Rightarrow> string" where
  "upper_first [] = []"
| "upper_first (c # s) = (if is_lower c then char_of (code c - 32) else c) # s"

definition humanizeSlug :: "string \<Rightarrow> string" where
  "humanizeSlug s = (if s = [] then [] else join_with '' '' (map upper_first (split_on (CHR ''-'') s)))"

definition demoOwnedWorkspaces :: "string \<Rightarrow> owned_workspace list" where
  "demoOwnedWorkspaces cur =
     [\<lparr>ow_Slug = cur, ow_Name = humanizeSlug cur, ow_ProjectName = ''Robotik Pilot 2026'', ow_Status = ''online'',
        ow_StatusLabel = ''Online'', ow_AppRef = ''project-assistant'', ow_Current = True\<rparr>,
      \<lparr>ow_Slug = ''side-project'', ow_Name = ''Side Project'', ow_ProjectName = ''Personal sandbox'', ow_Status = ''online'',
        ow_StatusLabel = ''Online'', ow_AppRef = ''personal-assistant'', ow_Current = False\<rparr>,
      \<lparr>ow_Slug = ''study-group'', ow_Name = ''Study Group'', ow_ProjectName = ''Master'' @ [CHR 0x27] @ ''s thesis prep'',
        ow_Status = ''setting-up'', ow_StatusLabel = ''Setting up'', ow_AppRef = ''study-buddy'', ow_Current = False\<rparr>]"

definition handleOwnedWorkspaces :: "('s, 'r) ws \<Rightarrow> ws_request \<Rightarrow> ws_env \<Rightarrow> ('s, 'r) ws_state \<Rightarrow> resp \<times> ('s, 'r) ws_state" where
  "handleOwnedWorkspaces c r en st =
     (let slug = wq_slug r in
      if slug_rejected slug then (writeUnauthorized, st)
      else if ws_demoMode c then (writeJSON 200 (owned_json (demoOwnedWorkspaces slug)), st)
      else (case authedClaims c r slug (we_now en) st of
          (None, st1) \<Rightarrow> (writeUnauthorized, st1)
        | (Some cl, st1) \<Rightarrow>
            if c_Uid cl = [] then (writeJSON 200 (owned_json []), st1)
            else if \<not> ws_dyn c then (writeErr 503 ''workspaces backend unavailable'', st1)
            else (case kc_list (ws_namespace c) ''swarm.io/user-id'' (c_Uid cl) (wt_kube st1) of
                (Inl _, w) \<Rightarrow> (writeErr 500 ''list failed'', st1\<lparr>wt_kube := w\<rparr>)
              | (Inr ks, w) \<Rightarrow> (writeJSON 200 (owned_json (map (owned_of slug) ks)), st1\<lparr>wt_kube := w\<rparr>))))"

definition owner_json :: "string \<Rightarrow> string \<Rightarrow> string \<Rightarrow> string \<Rightarrow> json" where
  "owner_json email uid tier managed = JObj ([(''email'', JStr email)] @ omit_empty ''userId'' uid @ omit_empty ''tier'' tier
     @ omit_empty ''managed'' managed)"

definition handleOwner :: "('s, 'r) ws \<Rightarrow> ws_request \<Rightarrow> ws_env \<Rightarrow> ('s, 'r) ws_state \<Rightarrow> resp \<times> ('s, 'r) ws_state" where
  "handleOwner c r en st =
     (let slug = wq_slug r in
      if slug_rejected slug then (writeUnauthorized, st)
      else (case authedClaims c r slug (we_now en) st of
          (None, st1) \<Rightarrow> (writeUnauthorized, st1)
        | (Some cl, st1) \<Rightarrow>
           (case loadKaiBinding c slug (wt_kube st1) of
              (Inl _, w) \<Rightarrow> (writeJSON 200 (owner_json (c_Sub cl) (c_Uid cl) [] []), st1\<lparr>wt_kube := w\<rparr>)
            | (Inr b, w) \<Rightarrow>
               (let tier = (if IsSaaS b \<and> c_Uid cl \<noteq> [] then (case ws_store c of None \<Rightarrow> []
                        | Some store \<Rightarrow> (case st_GetByID store (c_Uid cl) (wt_users st1) of Inl _ \<Rightarrow> [] | Inr u \<Rightarrow> u_Tier u)) else [])
                in (writeJSON 200 (owner_json (c_Sub cl) (c_Uid cl) tier (bi_Managed b)), st1\<lparr>wt_kube := w\<rparr>)))))"

end
