(* ===== verification/WorkspaceUsers.thy ===== *)
theory WorkspaceUsers
  imports WorkspaceView
begin

text \<open>
  The user list of a workspace, kept in a Secret: reads change nothing, and an update is atomic whatever
  other replicas do in between.  Also the small workspace \<open>acme\<close> on which the witnesses run.
\<close>

section \<open>Reads\<close>

lemma readUsersSecret_keeps:
  assumes "readUsersSecret c slug w = (r, w')"
  shows "same_objects w w'"
  using assms reads_keep(4)[of w "users_secret c slug"]
  by (auto simp: readUsersSecret_def Let_def split: if_splits prod.splits sum.splits option.splits)

lemma readJWTSecret_keeps:
  assumes "readJWTSecret c slug w = (r, w')"
  shows "same_objects w w'"
  using assms reads_keep(4)[of w "(ws_namespace c, ''kai-'' @ slug @ ''-chat-bridge'')"]
  by (auto simp: readJWTSecret_def split: if_splits prod.splits sum.splits)

lemma loadKaiBinding_keeps:
  assumes "loadKaiBinding c slug w = (r, w')"
  shows "same_objects w w'"
  using assms reads_keep(1)[of w "(ws_namespace c, ''kai-'' @ slug)"]
  by (auto simp: loadKaiBinding_def split: if_splits prod.splits sum.splits)

lemma loadKaiBinding_Inr:
  assumes "loadKaiBinding c slug w = (Inr b, w')" "\<not> ws_demoMode c"
  obtains k where "map_of (kb_kais w) (ws_namespace c, ''kai-'' @ slug) = Some k"
    "b = \<lparr>bi_Managed = sp_Managed (k_Spec k), bi_UserRef = sp_UserRef (k_Spec k)\<rparr>"
  using assms by (auto simp: loadKaiBinding_def split: if_splits prod.splits sum.splits dest!: kc_get_Inr)

lemma readJWTSecret_Some:
  assumes "readJWTSecret c slug w = (Some s, w')"
  obtains sec where "map_of (kb_secrets w) (ws_namespace c, ''kai-'' @ slug @ ''-chat-bridge'') = Some sec"
    "s = data_of sec ''jwt-secret''" "s \<noteq> []"
  using assms by (auto simp: readJWTSecret_def split: if_splits prod.splits sum.splits dest!: ks_get_Inr)

definition users_in :: "secret \<Rightarrow> user_record list option" where
  \<comment> \<open>the user list a Secret holds\<close>
  "users_in sec = (let raw = data_of sec usersSecretKey in if raw = [] then Some [] else unmarshal_users raw)"

lemma readUsersSecret_Inr:
  assumes "readUsersSecret c slug w = (Inr (us, sec), w')"
  shows "map_of (kb_secrets w) (users_secret c slug) = Some sec" "users_in sec = Some us" "ws_core c"
  using assms
  by (auto simp: readUsersSecret_def users_in_def Let_def split: if_splits prod.splits sum.splits option.splits dest!: ks_get_Inr)

section \<open>Updates of the user list are atomic\<close>

lemma fold_user_keys [simp]:
  "equal_fold ''email'' ''passwordHash'' = False" "equal_fold ''email'' ''createdAt'' = False"
  "equal_fold ''email'' ''passwordUpdatedAt'' = False" "equal_fold ''passwordHash'' ''email'' = False"
  "equal_fold ''passwordHash'' ''createdAt'' = False" "equal_fold ''passwordHash'' ''passwordUpdatedAt'' = False"
  "equal_fold ''createdAt'' ''email'' = False" "equal_fold ''createdAt'' ''passwordHash'' = False"
  "equal_fold ''createdAt'' ''passwordUpdatedAt'' = False" "equal_fold ''passwordUpdatedAt'' ''email'' = False"
  "equal_fold ''passwordUpdatedAt'' ''passwordHash'' = False" "equal_fold ''passwordUpdatedAt'' ''createdAt'' = False"
  by (simp_all add: equal_fold_def to_lower_def lower_char_def is_upper_def code_def)

lemma user_of_json [simp]: "user_of (user_json u) = Some u"
  by (simp add: user_of_def user_json_def str_obj_def fields_of_def members_for_def)

lemma those_map_Some [simp]: "those (map (\<lambda>x. Some (f x)) xs) = Some (map f xs)"
  by (induction xs) simp_all

lemma unmarshal_marshal_users [simp]: "unmarshal_users (marshal_users us) = Some us"
proof -
  have "wf_json (JArr (map user_json us))" by (simp add: list_all_iff user_json_def str_obj_def)
  then have "json_unmarshal (marshal_users us) = Some (JArr (map user_json us))" by (simp add: marshal_users_def)
  then show ?thesis using those_map_Some[of "\<lambda>u. u" us] by (simp add: unmarshal_users_def decode_list_def comp_def)
qed

lemma marshal_users_nonempty [simp]: "marshal_users us \<noteq> []"
  by (simp add: marshal_users_def print_indent_def)

lemma users_in_written [simp]:
  "users_in (sec\<lparr>sc_data := al_put usersSecretKey (marshal_users us) d, sc_version := v\<rparr>) = Some us"
  "users_in (sec\<lparr>sc_version := v, sc_data := al_put usersSecretKey (marshal_users us) d\<rparr>) = Some us"
  by (simp_all add: users_in_def data_of_def)

definition honest_others :: "(kube \<Rightarrow> kube) \<Rightarrow> bool" where
  \<comment> \<open>whoever changes a Secret changes its resource version\<close>
  "honest_others f \<longleftrightarrow> (\<forall>w nn s s'. map_of (kb_secrets w) nn = Some s \<and> map_of (kb_secrets (f w)) nn = Some s'
     \<and> sc_version s = sc_version s' \<longrightarrow> s = s')"

lemma updateUsersSecret_write:
  assumes "honest_others other" "updateUsersSecret c slug fn other w = (r, w')"
    and d: "readUsersSecret c slug w = (Inr (us, sec), w1)" and vs: "fn us = Inr vs"
  shows "r = None \<and> map_of (kb_secrets (other w1)) (users_secret c slug) = Some sec \<and> users_in sec = Some us
      \<and> (\<exists>sec'. kb_secrets w' = al_put (users_secret c slug) sec' (kb_secrets (other w1)) \<and> users_in sec' = Some vs
           \<and> (\<forall>k. k \<noteq> usersSecretKey \<longrightarrow> map_of (sc_data sec') k = map_of (sc_data sec) k))
      \<and> kb_kais w' = kb_kais (other w1) \<and> kb_cms w' = kb_cms (other w1)
    \<or> r \<noteq> None \<and> same_objects (other w1) w'"
proof -
  note s = readUsersSecret_keeps[OF d] and rd = readUsersSecret_Inr[OF d]
  let ?sec = "sec\<lparr>sc_data := al_put usersSecretKey (marshal_users vs) (sc_data sec)\<rparr>"
  obtain e w2 where u: "ks_update (users_secret c slug) ?sec (other w1) = (e, w2)" by fastforce
  have w: "w' = w2" "r = map_option errApi e" using assms(2) d vs u by (auto simp: updateUsersSecret_def split: option.splits)
  note k = ks_update_cases[OF u]
  show ?thesis
  proof (cases e)
    case None
    then obtain cur where cur: "map_of (kb_secrets (other w1)) (users_secret c slug) = Some cur" "sc_version cur = sc_version sec"
      using k by auto
    have "map_of (kb_secrets w1) (users_secret c slug) = Some sec" using s rd(1) by (simp add: same_objects_def)
    then have "map_of (kb_secrets (other w1)) (users_secret c slug) = Some sec"
      using assms(1) cur unfolding honest_others_def by metis
    moreover have "\<exists>sec'. kb_secrets w' = al_put (users_secret c slug) sec' (kb_secrets (other w1)) \<and> users_in sec' = Some vs
         \<and> (\<forall>k. k \<noteq> usersSecretKey \<longrightarrow> map_of (sc_data sec') k = map_of (sc_data sec) k)"
      using k None w by (intro exI[of _ "?sec\<lparr>sc_version := Suc (sc_version ?sec)\<rparr>"]) simp
    moreover have "kb_kais w' = kb_kais (other w1)" "kb_cms w' = kb_cms (other w1)" "r = None" using k w None by simp_all
    ultimately show ?thesis using rd(2) by blast
  next
    case (Some x)
    then have "same_objects (other w1) w'" "r \<noteq> None" using k w by (simp_all add: same_objects_def)
    then show ?thesis by blast
  qed
qed

text \<open>C26: concurrent edits of a user list are never lost: an update that succeeds has applied its change to
  the list that was stored at the moment of writing, whatever other replicas did since it was read, and
  has changed nothing but that list; an update that fails has changed nothing itself.\<close>

theorem user_update_atomic:
  assumes "honest_others other" "updateUsersSecret c slug fn other w = (r, w')"
  shows "(r = None \<longrightarrow> (\<exists>w1 sec us vs. same_objects w w1 \<and> map_of (kb_secrets (other w1)) (users_secret c slug) = Some sec
        \<and> users_in sec = Some us \<and> fn us = Inr vs
        \<and> (\<exists>sec'. kb_secrets w' = al_put (users_secret c slug) sec' (kb_secrets (other w1)) \<and> users_in sec' = Some vs
             \<and> (\<forall>k. k \<noteq> usersSecretKey \<longrightarrow> map_of (sc_data sec') k = map_of (sc_data sec) k))
        \<and> kb_kais w' = kb_kais (other w1) \<and> kb_cms w' = kb_cms (other w1)))
    \<and> (r \<noteq> None \<longrightarrow> (\<exists>w1. same_objects w w1 \<and> (same_objects w1 w' \<or> same_objects (other w1) w')))"
proof -
  obtain d w1 where d: "readUsersSecret c slug w = (d, w1)" by fastforce
  note s = readUsersSecret_keeps[OF d]
  have fails: ?thesis if "w' = w1" "r \<noteq> None" using that s same_objects_refl by blast
  show ?thesis
  proof (cases d)
    case (Inl e)
    then show ?thesis using assms(2) d by (intro fails) (auto simp: updateUsersSecret_def)
  next
    case (Inr p)
    obtain us sec where p: "d = Inr (us, sec)" using Inr by (metis prod.collapse)
    show ?thesis
    proof (cases "fn us")
      case (Inl e)
      then show ?thesis using assms(2) d p by (intro fails) (auto simp: updateUsersSecret_def)
    next
      case (Inr vs)
      from updateUsersSecret_write[where fn = fn, OF assms d[unfolded p] Inr] show ?thesis
      proof (elim disjE conjE)
        assume "r \<noteq> None" "same_objects (other w1) w'"
        then show ?thesis using s by blast
      qed (use s Inr in blast)
    qed
  qed
qed

definition demo_ws :: "(mem_store, revocation_lists) ws" where
  "demo_ws = \<lparr>ws_namespace = ''emai-swarm'', ws_chatBase = [], ws_statusBase = [], ws_demoMode = False, ws_devSecret = [],
     ws_revoker = None, ws_store = Some (MemoryStore (\<lambda>s. CHR ''@'' \<in> set s)), ws_core = True, ws_dyn = True,
     ws_hmac = (\<lambda>k m. k @ m), ws_argon = (\<lambda>p s _ _ _ _. p), ws_version = 19, ws_parse = (\<lambda>s. CHR ''@'' \<in> set s),
     ws_stamp = (\<lambda>_. ''2026-01-01T00:00:00Z'')\<rparr>"

definition ann :: user_record where
  "ann = \<lparr>ur_Email = ''ann@acme.de'', ur_PasswordHash = ''h'', ur_CreatedAt = ''t'', ur_PasswordUpdatedAt = ''t''\<rparr>"

definition acme_secrets :: "user_record list \<Rightarrow> ((string \<times> string) \<times> secret) list" where
  "acme_secrets us = [((''emai-swarm'', ''kai-acme-users''), \<lparr>sc_data = [(usersSecretKey, marshal_users us)], sc_version = 1\<rparr>),
     ((''emai-swarm'', ''kai-acme-chat-bridge''), \<lparr>sc_data = [(''jwt-secret'', ''key'')], sc_version = 1\<rparr>)]"

definition acme_kai :: kai where
  "acme_kai = \<lparr>k_Name = ''kai-acme'', k_Namespace = ''emai-swarm'', k_Generation = 1, k_Deleting = False, k_Finalizers = [],
     k_Labels = [], k_Annotations = [], k_Spec = empty_spec, k_Status = empty_status\<rparr>"

definition acme_kube :: "user_record list \<Rightarrow> kube" where
  "acme_kube us = \<lparr>kb_kais = [((''emai-swarm'', ''kai-acme''), acme_kai)], kb_secrets = acme_secrets us, kb_cms = [], kb_faults = []\<rparr>"

lemma acme_users_secret: "users_secret demo_ws ''acme'' = (''emai-swarm'', ''kai-acme-users'')"
  by (simp add: users_secret_def demo_ws_def)

lemma acme_read: "readUsersSecret demo_ws ''acme'' (acme_kube us)
    = (Inr (us, \<lparr>sc_data = [(usersSecretKey, marshal_users us)], sc_version = 1\<rparr>), acme_kube us)"
  by (simp add: readUsersSecret_def acme_users_secret ks_get_def acme_kube_def acme_secrets_def data_of_def)
    (simp add: demo_ws_def)

corollary user_update_atomic_witness:
  "\<exists>sec'. map_of (kb_secrets (snd (updateUsersSecret demo_ws ''acme'' (remove_fn ''ann@acme.de'') (\<lambda>w. w) (acme_kube [ann]))))
      (''emai-swarm'', ''kai-acme-users'') = Some sec' \<and> users_in sec' = Some []"
proof -
  obtain r w' where u: "updateUsersSecret demo_ws ''acme'' (remove_fn ''ann@acme.de'') (\<lambda>w. w) (acme_kube [ann]) = (r, w')" by fastforce
  have h: "honest_others (\<lambda>w. w)" by (auto simp: honest_others_def)
  have r: "r = None"
    using u by (auto simp: updateUsersSecret_def acme_read remove_fn_def ks_update_def acme_users_secret)
      (simp_all add: acme_kube_def acme_secrets_def)
  have k: "kb_secrets w1 = acme_secrets [ann]" if "same_objects (acme_kube [ann]) w1" for w1
    using that by (simp add: same_objects_def acme_kube_def)
  have l: "us = [ann]" if "map_of (acme_secrets [ann]) (users_secret demo_ws ''acme'') = Some sec" "users_in sec = Some us" for sec us
    using that by (auto simp: acme_secrets_def acme_users_secret users_in_def data_of_def)
  obtain w1 sec us vs sec' where a: "same_objects (acme_kube [ann]) w1" "map_of (kb_secrets w1) (users_secret demo_ws ''acme'') = Some sec"
    "users_in sec = Some us" "remove_fn ''ann@acme.de'' us = Inr vs" "users_in sec' = Some vs"
    "kb_secrets w' = al_put (users_secret demo_ws ''acme'') sec' (kb_secrets w1)"
    using user_update_atomic[OF h u] r by blast
  have "us = [ann]" using l a(2,3) k[OF a(1)] by simp
  then have "vs = []" using a(4) by (simp add: remove_fn_def ann_def)
  then show ?thesis using a(5,6) by (simp add: u acme_users_secret)
qed

end
