(* ===== verification/WorkspaceSafety.thy ===== *)
theory WorkspaceSafety
  imports WorkspaceUsers
begin

text \<open>
  What the workspace server guarantees about sessions: who gets one, where it is accepted, what every refused
  login looks like; and what it does not: sessions outlive their users, an emptied user list is open to
  anyone, and forged logout requests make a revoked session valid again.
\<close>

section \<open>Login\<close>

lemma issue_cookie:
  assumes "rs_cookies (issueAndSetSessionWithUID c slug email uid secret en ok) \<noteq> []" "rs_cookies ok = []"
  obtains ck where "IssueSessionWithUID (ws_hmac c) slug email uid secret (we_now en) (we_jti en) = Some ck"
    "issueAndSetSessionWithUID c slug email uid secret en ok = SetCookie ck ok"
    "rs_cookies (issueAndSetSessionWithUID c slug email uid secret en ok) = [ck]"
  using assms by (auto simp: issueAndSetSessionWithUID_def split: option.splits)

lemma invalid_login_cookies [simp]:
  "rs_cookies invalid_login = []" "rs_cookies (logged_in e s) = []" "rs_status (logged_in e s) = 200" "rs_status invalid_login = 401"
  by (simp_all add: invalid_login_def logged_in_def)

lemma find_member: "find P xs = Some x \<Longrightarrow> x \<in> set xs \<and> P x"
  by (induction xs) (auto split: if_splits)

lemma passwordLogin_cookie:
  assumes "rs_cookies (passwordLogin c slug email pw secret us en) \<noteq> []"
  shows "\<exists>u \<in> set us. equal_fold (ur_Email u) email \<and> VerifyArgon2id (ws_argon c) (ws_version c) pw (ur_PasswordHash u)"
    "passwordLogin c slug email pw secret us en = issueAndSetSession c slug email secret en (logged_in email ''false'')"
  using assms
  by (auto simp: passwordLogin_def dest: find_member split: option.splits if_splits)

lemma bootstrapAdmin_cookie:
  assumes "rs_cookies (fst (bootstrapAdmin c slug email pw secret en w)) \<noteq> []"
  shows "validPassword pw" "fst (bootstrapAdmin c slug email pw secret en w)
    = issueAndSetSession c slug email secret en (writeJSON 201 (str_obj [(''email'', email), (''setup'', ''true'')]))"
  using assms by (auto simp: bootstrapAdmin_def Let_def split: option.splits if_splits prod.splits)

definition session_for :: "('s, 'r) ws \<Rightarrow> kube \<Rightarrow> string \<Rightarrow> string \<Rightarrow> string \<Rightarrow> ws_env \<Rightarrow> resp \<Rightarrow> bool" where
  \<comment> \<open>the response sets one cookie: a session of the workspace signed with its secret\<close>
  "session_for c w slug email uid en rs \<longleftrightarrow> (\<exists>sec ck.
     map_of (kb_secrets w) (ws_namespace c, ''kai-'' @ slug @ ''-chat-bridge'') = Some sec \<and> data_of sec ''jwt-secret'' \<noteq> []
     \<and> IssueSessionWithUID (ws_hmac c) slug email uid (data_of sec ''jwt-secret'') (we_now en) (we_jti en) = Some ck
     \<and> rs_cookies rs = [ck])"

definition owns :: "('s, 'r) ws \<Rightarrow> string \<Rightarrow> string \<Rightarrow> kai \<Rightarrow> 's \<Rightarrow> user \<Rightarrow> bool" where
  \<comment> \<open>a verified, live account with this address and password, referred to by the workspace\<close>
  "owns c email pw k us u \<longleftrightarrow> (\<exists>store. ws_store c = Some store \<and> st_GetByEmail store (NormalizeEmail email) us = Inr u
     \<and> VerifyArgon2id (ws_argon c) (ws_version c) pw (u_PasswordHash u) \<and> u_EmailVerifiedAt u \<noteq> None \<and> u_DeletedAt u = None
     \<and> equal_fold (u_ID u) (sp_UserRef (k_Spec k)))"

lemma loginSaaS_iff:
  "loginSaaS c email pw \<lparr>bi_Managed = m, bi_UserRef = sp_UserRef (k_Spec k)\<rparr> us = Some u \<longleftrightarrow> owns c email pw k us u"
  by (auto simp: loginSaaS_def owns_def split: option.splits sum.splits)

abbreviation saas_managed :: "kai \<Rightarrow> bool" where
  "saas_managed k \<equiv> sp_Managed (k_Spec k) = ''saas'' \<and> sp_UserRef (k_Spec k) \<noteq> []"

definition entitled :: "('s, 'r) ws \<Rightarrow> string \<Rightarrow> string \<Rightarrow> string \<Rightarrow> kai \<Rightarrow> 's \<Rightarrow> kube \<Rightarrow> ws_env \<Rightarrow> resp \<Rightarrow> bool" where
  \<comment> \<open>the cookie is what the password and address entitle to in workspace \<open>k\<close>\<close>
  "entitled c slug email pw k us w en rs \<longleftrightarrow>
     (if saas_managed k
      then \<exists>u. owns c email pw k us u \<and> session_for c w slug (u_Email u) (u_ID u) en rs \<and> rs_status rs = 200
      else session_for c w slug email [] en rs
        \<and> (\<exists>sec recs. map_of (kb_secrets w) (users_secret c slug) = Some sec \<and> users_in sec = Some recs
            \<and> (if recs = [] then validPassword pw \<and> rs_status rs = 201
               else (\<exists>u \<in> set recs. equal_fold (ur_Email u) email \<and> VerifyArgon2id (ws_argon c) (ws_version c) pw (ur_PasswordHash u))
                 \<and> rs_status rs = 200)))"

lemma login_kube_cookie:
  assumes "\<not> ws_demoMode c" "login_kube c slug email pw en us w = (rs, w')" "rs_cookies rs \<noteq> []"
  obtains k where "map_of (kb_kais w) (ws_namespace c, ''kai-'' @ slug) = Some k" "entitled c slug email pw k us w en rs"
proof -
  obtain b w1 where b: "loadKaiBinding c slug w = (Inr b, w1)"
    using assms(2,3) by (auto simp: login_kube_def split: prod.splits sum.splits if_splits)
  obtain k where k: "map_of (kb_kais w) (ws_namespace c, ''kai-'' @ slug) = Some k"
    "b = \<lparr>bi_Managed = sp_Managed (k_Spec k), bi_UserRef = sp_UserRef (k_Spec k)\<rparr>"
    using loadKaiBinding_Inr[OF b assms(1)] by blast
  have s: "IsSaaS b \<longleftrightarrow> saas_managed k" by (simp add: IsSaaS_def k(2))
  obtain secret w2 where j: "readJWTSecret c slug w1 = (Some secret, w2)"
    using assms(2,3) by (auto simp: login_kube_def b split: prod.splits option.splits)
  have kw: "same_objects w w1" "same_objects w1 w2" using loadKaiBinding_keeps[OF b] readJWTSecret_keeps[OF j] by simp_all
  obtain sec where sec: "map_of (kb_secrets w) (ws_namespace c, ''kai-'' @ slug @ ''-chat-bridge'') = Some sec"
    "secret = data_of sec ''jwt-secret''" "secret \<noteq> []"
    using readJWTSecret_Some[OF j] kw(1) by (auto simp: same_objects_def)
  have sf: "session_for c w slug em uid en rs \<and> rs_status rs = rs_status ok"
    if "rs = issueAndSetSessionWithUID c slug em uid secret en ok" "rs_cookies ok = []" for em uid ok
    using assms(3) sec that by (auto simp: session_for_def elim!: issue_cookie)
  show ?thesis
  proof (cases "saas_managed k")
    case True
    with assms(2,3) s b j obtain u where u: "loginSaaS c email pw b us = Some u"
      "rs = issueAndSetSessionWithUID c slug (u_Email u) (u_ID u) secret en (logged_in (u_Email u) ''false'')"
      by (auto simp: login_kube_def split: option.splits)
    have "owns c email pw k us u" using u(1) loginSaaS_iff unfolding k(2) by metis
    with sf[OF u(2)] have "entitled c slug email pw k us w en rs" using True by (auto simp: entitled_def)
    then show ?thesis by (rule that[OF k(1)])
  next
    case False
    then have f: "\<not> IsSaaS b" using s by simp
    obtain recs us_sec w3 where rd: "readUsersSecret c slug w2 = (Inr (recs, us_sec), w3)"
      using assms(2,3) f by (auto simp: login_kube_def b j split: prod.splits sum.splits)
    note ri = readUsersSecret_Inr[OF rd]
    have m: "map_of (kb_secrets w) (users_secret c slug) = Some us_sec" using ri(1) kw by (simp add: same_objects_def)
    show ?thesis
    proof (cases "recs = []")
      case True
      then have e: "rs = fst (bootstrapAdmin c slug email pw secret en w3)" using assms(2) f by (simp add: login_kube_def b j rd)
      note bc = bootstrapAdmin_cookie[OF assms(3)[unfolded e]]
      have "entitled c slug email pw k us w en rs" unfolding entitled_def if_not_P[OF False]
        using m ri(2) bc(1) sf[OF e[unfolded bc(2) issueAndSetSession_def]] True by auto
      then show ?thesis by (rule that[OF k(1)])
    next
      case nonempty: False
      then have e: "rs = passwordLogin c slug email pw secret recs en" using assms(2) f by (simp add: login_kube_def b j rd)
      note pc = passwordLogin_cookie[OF assms(3)[unfolded e]]
      have "entitled c slug email pw k us w en rs" unfolding entitled_def if_not_P[OF False]
        using m ri(2) pc(1) sf[OF e[unfolded pc(2) issueAndSetSession_def]] nonempty by auto
      then show ?thesis by (rule that[OF k(1)])
    qed
  qed
qed

lemma handleLogin_entitled:
  assumes "\<not> ws_demoMode c" "handleLogin c r en st = (rs, st')" "rs_cookies rs \<noteq> []"
  shows "\<not> slug_rejected (wq_slug r) \<and> (\<exists>em pw k. decode_fields [''email'', ''password''] (wq_Body r) = Some [em, pw]
    \<and> map_of (kb_kais (wt_kube st)) (ws_namespace c, ''kai-'' @ wq_slug r) = Some k
    \<and> entitled c (wq_slug r) (norm em) pw k (wt_users st) (wt_kube st) en rs)"
proof -
  have s: "\<not> slug_rejected (wq_slug r)" using assms(2,3) by (auto simp: handleLogin_def Let_def split: if_splits)
  obtain vs where v0: "decode_fields [''email'', ''password''] (wq_Body r) = Some vs"
    using assms(2,3) s by (cases "decode_fields [''email'', ''password''] (wq_Body r)") (auto simp: handleLogin_def Let_def)
  obtain em pw where v: "vs = [em, pw]" using decode_fields_length[OF v0] by (auto simp: length_Suc_conv)
  have ne: "norm em \<noteq> []" "pw \<noteq> []" using assms(2,3) s v0 v by (auto simp: handleLogin_def Let_def split: if_splits)
  obtain w where l: "login_kube c (wq_slug r) (norm em) pw en (wt_users st) (wt_kube st) = (rs, w)"
    using assms(1,2) s v0 v ne by (auto simp: handleLogin_def Let_def split: prod.splits)
  show ?thesis by (rule login_kube_cookie[OF assms(1) l assms(3)]) (use s v0 v in blast)
qed

text \<open>C12: a session is given only to someone entitled to it: outside the demo mode, a login answers with a
  cookie only for a valid slug whose workspace exists, the cookie is one session of that slug signed with
  the workspace's own secret, and the caller gave the password of the verified account that owns it (SaaS), or
  of a listed user, or is the first to log in while the user list is empty.\<close>

theorem login_entitled:
  assumes "\<not> ws_demoMode c" "handleLogin c r en st = (rs, st')" "rs_cookies rs \<noteq> []"
  shows "\<not> slug_rejected (wq_slug r) \<and> (\<exists>em pw k. decode_fields [''email'', ''password''] (wq_Body r) = Some [em, pw]
    \<and> map_of (kb_kais (wt_kube st)) (ws_namespace c, ''kai-'' @ wq_slug r) = Some k
    \<and> entitled c (wq_slug r) (norm em) pw k (wt_users st) (wt_kube st) en rs)"
  by (rule handleLogin_entitled[OF assms])

section \<open>Quiet clusters\<close>

text \<open>What the operations do when no call fails and nobody interferes.\<close>

lemma read_quiet:
  assumes "kb_faults w = []" "ws_core c" "map_of (kb_secrets w) (users_secret c slug) = Some sec" "users_in sec = Some us"
  shows "readUsersSecret c slug w = (Inr (us, sec), w)"
  using assms by (auto simp: readUsersSecret_def ks_get_def users_in_def Let_def split: if_splits)

definition written :: "secret \<Rightarrow> user_record list \<Rightarrow> secret" where
  "written sec vs = sec\<lparr>sc_data := al_put usersSecretKey (marshal_users vs) (sc_data sec), sc_version := Suc (sc_version sec)\<rparr>"

lemma users_in_written' [simp]: "users_in (written sec vs) = Some vs"
  by (simp add: written_def)

lemma update_quiet:
  assumes "kb_faults w = []" "ws_core c" "map_of (kb_secrets w) (users_secret c slug) = Some sec" "users_in sec = Some us" "fn us = Inr vs"
  shows "updateUsersSecret c slug fn (\<lambda>w. w) w = (None, w\<lparr>kb_secrets := al_put (users_secret c slug) (written sec vs) (kb_secrets w)\<rparr>)"
  using assms(1,3,5) by (simp add: updateUsersSecret_def read_quiet[OF assms(1-4)] ks_update_def written_def)

lemma readJWT_quiet: "kb_faults w = [] \<Longrightarrow> snd (readJWTSecret c slug w) = w"
  by (simp add: readJWTSecret_def ks_get_def split: option.splits)

lemma authedClaims_quiet: "kb_faults (wt_kube st) = [] \<Longrightarrow> wt_kube (snd (authedClaims c r slug t st)) = wt_kube st"
  using readJWT_quiet[of "wt_kube st" c slug]
  by (auto simp: authedClaims_def resolveJWTSecret_def Let_def split: option.splits prod.splits bool.splits)

lemma requireCenterAuth_quiet:
  "kb_faults (wt_kube st) = [] \<Longrightarrow> wt_kube (snd (requireCenterAuth c r slug t st)) = wt_kube st"
  using authedClaims_quiet[of st c r slug t] by (auto simp: requireCenterAuth_def split: prod.splits)

lemma users_not_bridge: "users_secret c s \<noteq> (ns, ''kai-'' @ s' @ ''-chat-bridge'')"
proof
  assume "users_secret c s = (ns, ''kai-'' @ s' @ ''-chat-bridge'')"
  then have "last (''kai-'' @ s @ ''-users'') = last (''kai-'' @ s' @ ''-chat-bridge'')" by (simp only: users_secret_def prod.inject)
  then show False by simp
qed

lemma login_bootstrap_quiet:
  assumes "\<not> ws_demoMode c" "ws_core c" "ws_dyn c" "kb_faults w = []"
    and "map_of (kb_kais w) (ws_namespace c, ''kai-'' @ slug) = Some k" "\<not> saas_managed k"
    and "map_of (kb_secrets w) (ws_namespace c, ''kai-'' @ slug @ ''-chat-bridge'') = Some jsec" "data_of jsec ''jwt-secret'' \<noteq> []"
    and "map_of (kb_secrets w) (users_secret c slug) = Some usec" "users_in usec = Some []"
    and "validPassword pw" "we_salt en = Some salt" "we_other en = (\<lambda>w. w)" "we_race en = (\<lambda>w. w)"
  shows "\<exists>u. ur_Email u = email \<and> login_kube c slug email pw en us w
    = (issueAndSetSession c slug email (data_of jsec ''jwt-secret'') en (writeJSON 201 (str_obj [(''email'', email), (''setup'', ''true'')])),
       w\<lparr>kb_secrets := al_put (users_secret c slug) (written usec [u]) (kb_secrets w)\<rparr>)"
proof -
  obtain h where h: "HashPassword (ws_argon c) (ws_version c) pw (we_salt en) = Some h" using assms(12) by (simp add: HashPassword_def)
  let ?u = "\<lparr>ur_Email = email, ur_PasswordHash = h, ur_CreatedAt = ws_stamp c (we_now en), ur_PasswordUpdatedAt = ws_stamp c (we_now en)\<rparr>"
  have b: "loadKaiBinding c slug w = (Inr \<lparr>bi_Managed = sp_Managed (k_Spec k), bi_UserRef = sp_UserRef (k_Spec k)\<rparr>, w)"
    unfolding loadKaiBinding_def kc_get_def kb_next_quiet[OF assms(4)] prod.case assms(5) using assms(1,3) by simp
  have j: "readJWTSecret c slug w = (Some (data_of jsec ''jwt-secret''), w)"
    unfolding readJWTSecret_def ks_get_def kb_next_quiet[OF assms(4)] prod.case assms(7) using assms(2,8) by simp
  have i: "\<not> IsSaaS \<lparr>bi_Managed = sp_Managed (k_Spec k), bi_UserRef = sp_UserRef (k_Spec k)\<rparr>" using assms(6) by (simp add: IsSaaS_def)
  note u = update_quiet[OF assms(4,2,9,10), of "\<lambda>existing. if existing \<noteq> [] then Inl errAlreadyExists else Inr [?u]" "[?u]"]
  show ?thesis
    by (intro exI[of _ ?u])
      (simp add: login_kube_def b j i read_quiet[OF assms(4,2,9,10)] bootstrapAdmin_def assms(11,13,14) h u Let_def)
qed

text \<open>An emptied user list is open to anyone: once the last user of an internal workspace has been removed,
  any caller, without a session, who logs in with an address and password of their choice is answered 201,
  gets a session of the workspace and becomes its only user.\<close>

theorem emptied_list_is_open:
  assumes "\<not> ws_demoMode c" "ws_core c" "ws_dyn c" "kb_faults (wt_kube st) = []" "wq_slug d = slug" "wq_slug r = slug"
    and "map_of (kb_kais (wt_kube st)) (ws_namespace c, ''kai-'' @ slug) = Some k" "\<not> saas_managed k"
    and "map_of (kb_secrets (wt_kube st)) (ws_namespace c, ''kai-'' @ slug @ ''-chat-bridge'') = Some jsec" "data_of jsec ''jwt-secret'' \<noteq> []"
    and "map_of (kb_secrets (wt_kube st)) (users_secret c slug) = Some usec" "users_in usec = Some [last_user]"
    and "fst (requireCenterAuth c d slug (we_now en) st)" "equal_fold (ur_Email last_user) (norm (wq_email d))"
      "validEmail (ws_parse c) (norm (wq_email d))" "we_other en = (\<lambda>w. w)"
    and "decode_fields [''email'', ''password''] (wq_Body r) = Some [em, pw]" "norm em \<noteq> []" "validPassword pw"
    and "we_salt en' = Some salt" "we_jti en' = Some jti" "we_other en' = (\<lambda>w. w)" "we_race en' = (\<lambda>w. w)"
  shows "let (rs1, st1) = removeUser c d en st; (rs, st2) = handleLogin c r en' st1 in
    rs_status rs1 = 204 \<and> rs_status rs = 201 \<and> session_for c (wt_kube st2) slug (norm em) [] en' rs
    \<and> (\<exists>sec u. map_of (kb_secrets (wt_kube st2)) (users_secret c slug) = Some sec \<and> users_in sec = Some [u] \<and> ur_Email u = norm em)"
proof -
  obtain st0 where a: "requireCenterAuth c d slug (we_now en) st = (True, st0)" using assms(13) by (cases "requireCenterAuth c d slug (we_now en) st") simp
  have k0: "wt_kube st0 = wt_kube st" using requireCenterAuth_quiet[OF assms(4), of c d slug "we_now en"] by (simp add: a)
  have sl: "\<not> slug_rejected slug" using a by (auto simp: requireCenterAuth_def split: if_splits)
  let ?w1 = "(wt_kube st)\<lparr>kb_secrets := al_put (users_secret c slug) (written usec []) (kb_secrets (wt_kube st))\<rparr>"
  have rm: "remove_fn (norm (wq_email d)) [last_user] = Inr []" using assms(14) by (simp add: remove_fn_def)
  note up = update_quiet[where fn = "remove_fn (norm (wq_email d))" and vs = "[]", OF assms(4,2,11,12) rm]
  have r1: "removeUser c d en st = (writeStatus 204, st0\<lparr>wt_kube := ?w1\<rparr>)"
    by (simp add: removeUser_def Let_def assms(1,5,15,16) a k0 up)
  have bridge: "map_of (kb_secrets ?w1) (ws_namespace c, ''kai-'' @ slug @ ''-chat-bridge'') = Some jsec"
    using assms(9) users_not_bridge[of c slug "ws_namespace c" slug] by simp
  have usec: "map_of (kb_secrets ?w1) (users_secret c slug) = Some (written usec [])" by simp
  have f: "kb_faults ?w1 = []" "map_of (kb_kais ?w1) (ws_namespace c, ''kai-'' @ slug) = Some k" using assms(4,7) by simp_all
  obtain u where u: "ur_Email u = norm em" "login_kube c slug (norm em) pw en' (wt_users st0) ?w1
    = (issueAndSetSession c slug (norm em) (data_of jsec ''jwt-secret'') en' (writeJSON 201 (str_obj [(''email'', norm em), (''setup'', ''true'')])),
       ?w1\<lparr>kb_secrets := al_put (users_secret c slug) (written (written usec []) [u]) (kb_secrets ?w1)\<rparr>)"
    using login_bootstrap_quiet[OF assms(1-3) f assms(8) bridge assms(10) usec users_in_written' assms(19,20,22,23), of "norm em" "wt_users st0"]
    by blast
  have p: "pw \<noteq> []" using assms(19) by (auto simp: validPassword_def)
  let ?w2 = "?w1\<lparr>kb_secrets := al_put (users_secret c slug) (written (written usec []) [u]) (kb_secrets ?w1)\<rparr>"
  let ?rs = "issueAndSetSession c slug (norm em) (data_of jsec ''jwt-secret'') en' (writeJSON 201 (str_obj [(''email'', norm em), (''setup'', ''true'')]))"
  have r2: "handleLogin c r en' (st0\<lparr>wt_kube := ?w1\<rparr>) = (?rs, st0\<lparr>wt_kube := ?w2\<rparr>)"
    by (simp add: handleLogin_def Let_def assms(1,6,17,18) sl p u(2) del: al_put.simps)
  obtain ck where ck: "IssueSessionWithUID (ws_hmac c) slug (norm em) [] (data_of jsec ''jwt-secret'') (we_now en') (we_jti en') = Some ck"
    using assms(21) by (simp add: IssueSessionWithUID_def newJTI_def)
  have "map_of (kb_secrets ?w2) (ws_namespace c, ''kai-'' @ slug @ ''-chat-bridge'') = Some jsec"
    using bridge users_not_bridge[of c slug "ws_namespace c" slug] by simp
  then have "session_for c ?w2 slug (norm em) [] en' ?rs"
    using ck assms(10) by (simp add: session_for_def issueAndSetSession_def issueAndSetSessionWithUID_def)
  then show ?thesis
    by (simp add: r1 r2 u(1) issueAndSetSession_def issueAndSetSessionWithUID_def ck)
qed

section \<open>Revocation in the Secret\<close>

definition sr_api :: "(entry list \<Rightarrow> entry list) \<Rightarrow> revocation_lists revoker_api" where
  \<comment> \<open>\<open>SecretRevoker\<close>, by the atomic specification its update loop refines\<close>
  "sr_api srt = \<lparr>rv_Revoke = (\<lambda>slug jti exp now s. (False, sr_revoke srt slug jti exp now s)),
     rv_IsRevoked = (\<lambda>slug jti now s. (Some (sr_revoked slug jti now s), s))\<rparr>"

lemma authedClaims_sr:
  assumes "\<not> ws_demoMode c" "ws_revoker c = Some (sr_api srt)" "kb_faults (wt_kube st) = []"
  shows "snd (authedClaims c r slug t st) = st"
    and "fst (authedClaims c r slug t st) = Some cl \<longleftrightarrow> (\<exists>v sec. wq_cookie r = Some v \<and> v \<noteq> [] \<and> ws_core c
       \<and> map_of (kb_secrets (wt_kube st)) (ws_namespace c, ''kai-'' @ slug @ ''-chat-bridge'') = Some sec \<and> data_of sec ''jwt-secret'' \<noteq> []
       \<and> Authenticate (ws_hmac c) v slug (data_of sec ''jwt-secret'') t = Some cl \<and> \<not> sr_revoked slug (c_Jti cl) t (wt_rev st))"
  using assms(1-3)
  by (auto simp: authedClaims_def resolveJWTSecret_def readJWTSecret_def ks_get_def sr_api_def Let_def split: option.splits bool.splits)

lemma requireCenterAuth_sr:
  assumes "\<not> ws_demoMode c" "ws_revoker c = Some (sr_api srt)" "kb_faults (wt_kube st) = []"
  shows "snd (requireCenterAuth c r slug t st) = st"
  using authedClaims_sr(1)[OF assms, of r slug t] by (auto simp: requireCenterAuth_def assms(1) split: prod.splits)

definition forged_token :: "string \<Rightarrow> int \<Rightarrow> string \<Rightarrow> string" where
  "forged_token slug x j = ''x'' @ ''.'' @ url_encode (marshal_claims \<lparr>c_Sub = [], c_Slug = slug, c_Exp = x, c_Iat = 0, c_Jti = j, c_Uid = []\<rparr>)
     @ ''.'' @ ''x''"

definition forged :: "string \<Rightarrow> int \<Rightarrow> string \<Rightarrow> ws_request" where
  \<comment> \<open>a logout request with a token nobody signed\<close>
  "forged slug x j = \<lparr>wq_slug = slug, wq_email = [], wq_cookie = Some (forged_token slug x j), wq_Body = []\<rparr>"

lemma forged_claims:
  assumes "in_int64 x"
  shows "unsafeParseClaims (forged_token slug x j) = Some \<lparr>c_Sub = [], c_Slug = slug, c_Exp = x, c_Iat = 0, c_Jti = j, c_Uid = []\<rparr>"
proof -
  let ?c = "\<lparr>c_Sub = [], c_Slug = slug, c_Exp = x, c_Iat = 0, c_Jti = j, c_Uid = []\<rparr>"
  have s: "split_on (CHR ''.'') (forged_token slug x j) = [''x'', url_encode (marshal_claims ?c), ''x'']"
    unfolding forged_token_def by (rule split_on_three) (simp_all add: b64_encode_no_dot)
  have "unmarshal_claims (marshal_claims ?c) = Some ?c"
    by (rule unmarshal_marshal_claims) (use assms in \<open>simp_all add: in_int64_def int64_max_def\<close>)
  then show ?thesis using s by (simp add: unsafeParseClaims_def)
qed

lemma forged_logout:
  assumes "ws_revoker c = Some (sr_api srt)" "in_int64 x" "j \<noteq> []"
  shows "snd (handleLogout c (forged slug x j) en st) = st\<lparr>wt_rev := sr_revoke srt slug j (seconds x) (we_now en) (wt_rev st)\<rparr>"
proof -
  have "wq_cookie (forged slug x j) = Some (forged_token slug x j)" "forged_token slug x j \<noteq> []"
    by (simp_all add: forged_def forged_token_def)
  with forged_claims[OF assms(2), of slug j] assms(1,3) show ?thesis
    by (simp add: handleLogout_def sr_api_def)
qed

subsection \<open>Flooding the list\<close>

lemma flood_step:
  fixes js :: "string list"
  defines "P \<equiv> (\<lambda>e. e_Jti e \<in> set js)"
  assumes "sorts srt" "unix_sec now < x" "j \<in> set js"
    and "length l \<le> MaxEntriesPerSlug" "\<forall>e \<in> set l. P e \<longrightarrow> e_Exp e = x" "\<forall>e \<in> set l. \<not> P e \<longrightarrow> e_Exp e < x"
    and "\<forall>e \<in> set l. e_Jti e \<noteq> j" "length (filter P l) < MaxEntriesPerSlug" "r = revoke_fn srt now j (seconds x) l"
  shows "mset (filter P r) = mset (filter P l) + {#\<lparr>e_Jti = j, e_Exp = x\<rparr>#}" "length r \<le> MaxEntriesPerSlug"
    "\<forall>e \<in> set r. e \<in> set l \<or> e = \<lparr>e_Jti = j, e_Exp = x\<rparr>"
proof -
  let ?n = "\<lparr>e_Jti = j, e_Exp = x\<rparr>"
  let ?l1 = "pruneExpired (unix_sec now) l" and ?l2 = "pruneExpired (unix_sec now) l @ [?n]"
  have u: "unix_sec (seconds x) = x" by (simp add: unix_sec_def seconds_def)
  have sf: "set_first j x ?l1 = None" using assms(8) by (auto simp: set_first_None pruneExpired_def)
  have fp: "filter P ?l1 = filter P l" using assms(3,6) by (auto simp: pruneExpired_def filter_filter intro: filter_cong)
  have l1: "length ?l1 \<le> MaxEntriesPerSlug" "set ?l1 \<subseteq> set l" using assms(5) by (auto simp: pruneExpired_def intro: le_trans[OF length_filter_le])
  have r: "r = (if length ?l2 > MaxEntriesPerSlug then drop (length ?l2 - MaxEntriesPerSlug) (srt ?l2) else ?l2)"
    using assms(10) sf assms(3) by (simp add: revoke_fn_def u Let_def)
  have pn: "P ?n" using assms(4) by (simp add: P_def)
  have m2: "mset (filter P ?l2) = mset (filter P l) + {#?n#}" using pn by (simp add: fp)
  show "mset (filter P r) = mset (filter P l) + {#?n#}"
  proof (cases "length ?l2 > MaxEntriesPerSlug")
    case True
    then have len: "length ?l2 = Suc MaxEntriesPerSlug" using l1 by simp
    obtain b where b: "b \<in> set ?l2" "\<not> P b"
    proof (rule ccontr)
      assume "\<not> thesis"
      then have "filter P ?l2 = ?l2" using that by (auto simp: filter_id_conv)
      then have "length (filter P ?l2) = Suc MaxEntriesPerSlug" using len by simp
      then show False using assms(9) pn by (simp add: fp)
    qed
    have srt: "mset (srt ?l2) = mset ?l2" "sorted (map e_Exp (srt ?l2))" using assms(2) by (auto simp: sorts_def)
    then have "length (srt ?l2) = Suc MaxEntriesPerSlug" using len by (metis size_mset)
    then obtain a rest where a: "srt ?l2 = a # rest" by (cases "srt ?l2") auto
    have "b \<in> set (a # rest)" using b(1) srt(1) a by (metis set_mset_mset)
    then have "e_Exp a \<le> e_Exp b" using srt(2) a by auto
    moreover have "e_Exp b < x" using b l1(2) assms(7) pn by auto
    moreover have "a \<in> set ?l2" using srt(1) a by (metis list.set_intros(1) set_mset_mset)
    ultimately have "\<not> P a" using assms(6) l1(2) by (auto simp: less_le_not_le)
    then have "filter P (srt ?l2) = filter P rest" using a by simp
    moreover have "r = rest" using r True len a by simp
    ultimately have "mset (filter P r) = filter_mset P (mset (srt ?l2))" by (metis mset_filter)
    then show ?thesis using m2 srt(1) by (metis mset_filter)
  next
    case False
    then show ?thesis using r m2 by simp
  qed
  show "length r \<le> MaxEntriesPerSlug"
  proof (cases "length ?l2 > MaxEntriesPerSlug")
    case True
    have "length (srt ?l2) = length ?l2" using assms(2) by (metis sorts_def size_mset)
    then show ?thesis using r True by simp
  qed (use r in simp)
  have "set (srt ?l2) = set ?l2" using assms(2) by (metis sorts_def set_mset_mset)
  then have "set r \<subseteq> set ?l2" using r set_drop_subset by (metis (no_types, lifting) order_refl)
  then show "\<forall>e \<in> set r. e \<in> set l \<or> e = ?n" using l1(2) by auto
qed

lemma flood:
  fixes js :: "string list"
  defines "P \<equiv> (\<lambda>e. e_Jti e \<in> set js)"
  assumes "sorts srt" "unix_sec now < x" "set ks \<subseteq> set js" "distinct ks" "length ks + length (filter P l) \<le> MaxEntriesPerSlug"
    and "length l \<le> MaxEntriesPerSlug" "\<forall>e \<in> set l. P e \<longrightarrow> e_Exp e = x" "\<forall>e \<in> set l. \<not> P e \<longrightarrow> e_Exp e < x"
    and "\<forall>e \<in> set l. e_Jti e \<notin> set ks" "r = foldl (\<lambda>l j. revoke_fn srt now j (seconds x) l) l ks"
  shows "length r \<le> MaxEntriesPerSlug \<and> length (filter P r) = length ks + length (filter P l)"
  using assms(4-)
proof (induction ks arbitrary: l)
  case (Cons j ks)
  let ?l' = "revoke_fn srt now j (seconds x) l"
  have st: "mset (filter P ?l') = mset (filter P l) + {#\<lparr>e_Jti = j, e_Exp = x\<rparr>#}" "length ?l' \<le> MaxEntriesPerSlug"
    "\<forall>e \<in> set ?l'. e \<in> set l \<or> e = \<lparr>e_Jti = j, e_Exp = x\<rparr>"
    using flood_step[of srt now x j js l ?l'] assms(2,3) Cons.prems by (auto simp: P_def)
  have len: "length (filter P ?l') = Suc (length (filter P l))" using st(1) by (metis size_mset size_add_mset add_mset_add_single)
  have "length r \<le> MaxEntriesPerSlug \<and> length (filter P r) = length ks + length (filter P ?l')"
  proof (rule Cons.IH)
    show "set ks \<subseteq> set js" "distinct ks" "length ?l' \<le> MaxEntriesPerSlug" using Cons.prems st by auto
    show "length ks + length (filter P ?l') \<le> MaxEntriesPerSlug" using Cons.prems(3) len by simp
    show "\<forall>e \<in> set ?l'. P e \<longrightarrow> e_Exp e = x" "\<forall>e \<in> set ?l'. \<not> P e \<longrightarrow> e_Exp e < x" "\<forall>e \<in> set ?l'. e_Jti e \<notin> set ks"
      using st(3) Cons.prems by (auto simp: P_def)
    show "r = foldl (\<lambda>l j. revoke_fn srt now j (seconds x) l) ?l' ks" using Cons.prems(8) by simp
  qed
  then show ?case using len by simp
qed simp

lemma forged_logouts:
  assumes "ws_revoker c = Some (sr_api srt)" "in_int64 x" "[] \<notin> set js"
  shows "foldl (\<lambda>s j. snd (handleLogout c (forged slug x j) en s)) st js
    = st\<lparr>wt_rev := (wt_rev st)(slug := foldl (\<lambda>l j. revoke_fn srt (we_now en) j (seconds x) l) (wt_rev st slug) js)\<rparr>"
  using assms(3)
proof (induction js arbitrary: st)
  case (Cons j js)
  then have "j \<noteq> []" "[] \<notin> set js" by auto
  with Cons.IH forged_logout[OF assms(1,2), of j slug en st] show ?case by (simp add: sr_revoke_def cong: if_cong)
qed simp

text \<open>Anyone can make logged-out sessions valid again: a thousand logout requests that carry tokens
  nobody signed, with fresh ids and an expiry later than that of the sessions on the list, leave no earlier
  revocation of the workspace on it, so that a session refused before as revoked is accepted after.\<close>

theorem forged_logouts_unrevoke:
  assumes "\<not> ws_demoMode c" "sorts srt" "ws_revoker c = Some (sr_api srt)" "kb_faults (wt_kube st) = []" "ws_core c"
    and "distinct js" "length js = MaxEntriesPerSlug" "[] \<notin> set js" "in_int64 x" "unix_sec (we_now en) < x"
    and "length (wt_rev st slug) \<le> MaxEntriesPerSlug" "\<forall>e \<in> set (wt_rev st slug). e_Exp e < x \<and> e_Jti e \<notin> set js"
    and "map_of (kb_secrets (wt_kube st)) (ws_namespace c, ''kai-'' @ slug @ ''-chat-bridge'') = Some sec"
    and "wq_cookie v = Some tok" "Authenticate (ws_hmac c) tok slug (data_of sec ''jwt-secret'') t = Some cl" "c_Jti cl \<notin> set js"
    and "st' = foldl (\<lambda>s j. snd (handleLogout c (forged slug x j) en s)) st js"
  shows "fst (authedClaims c v slug t st) = (if sr_revoked slug (c_Jti cl) t (wt_rev st) then None else Some cl)
    \<and> fst (authedClaims c v slug t st') = Some cl"
proof -
  let ?l = "foldl (\<lambda>l j. revoke_fn srt (we_now en) j (seconds x) l) (wt_rev st slug) js"
  have st': "st' = st\<lparr>wt_rev := (wt_rev st)(slug := ?l)\<rparr>" using assms(17) forged_logouts[OF assms(3,9,8)] by simp
  have empty: "filter (\<lambda>e. e_Jti e \<in> set js) (wt_rev st slug) = []" using assms(12) by (auto simp: filter_empty_conv)
  have "length ?l \<le> MaxEntriesPerSlug \<and> length (filter (\<lambda>e. e_Jti e \<in> set js) ?l) = length js + length (filter (\<lambda>e. e_Jti e \<in> set js) (wt_rev st slug))"
    by (rule flood[OF assms(2,10) subset_refl assms(6) _ assms(11) _ _ _ refl]) (use assms(7,12) empty in auto)
  then have "length (filter (\<lambda>e. e_Jti e \<in> set js) ?l) \<ge> length ?l" using assms(7) empty by simp
  then have "\<forall>e \<in> set ?l. e_Jti e \<in> set js"
    by (metis (no_types, lifting) length_filter_less linorder_not_less)
  then have nl: "\<not> sr_revoked slug (c_Jti cl) t (wt_rev st')" using assms(16) by (auto simp: st' sr_revoked_def listed_def list_ex_iff)
  have ne: "tok \<noteq> []" "data_of sec ''jwt-secret'' \<noteq> []" using assms(15) by (auto simp: Authenticate_def split: if_splits)
  have f': "kb_faults (wt_kube st') = []" "wt_kube st' = wt_kube st" using assms(4) by (simp_all add: st')
  note a = authedClaims_sr(2)[OF assms(1,3,4), of v slug t] and a' = authedClaims_sr(2)[OF assms(1,3) f'(1), of v slug t]
  have "fst (authedClaims c v slug t st) = None" if "sr_revoked slug (c_Jti cl) t (wt_rev st)"
  proof (cases "fst (authedClaims c v slug t st)")
    case (Some cl')
    then have "cl' = cl" "\<not> sr_revoked slug (c_Jti cl') t (wt_rev st)" using a assms(13-15) by auto
    with that show ?thesis by simp
  qed
  moreover have "fst (authedClaims c v slug t st) = Some cl" if "\<not> sr_revoked slug (c_Jti cl) t (wt_rev st)"
    using a assms(5,13-15) ne that by blast
  moreover have "fst (authedClaims c v slug t st') = Some cl" using a' assms(5,13-15) ne nl f' by simp
  ultimately show ?thesis by simp
qed

definition ann_claims :: claims where
  "ann_claims = \<lparr>c_Sub = ''ann@acme.de'', c_Slug = ''acme'', c_Exp = 9, c_Iat = 0, c_Jti = ''j'', c_Uid = []\<rparr>"

definition ann_token :: string where
  "ann_token = SignJWT (\<lambda>k m. k @ m) ann_claims ''key''"

definition ann_request :: ws_request where
  "ann_request = \<lparr>wq_slug = ''acme'', wq_email = ''ann@acme.de'', wq_cookie = Some ann_token, wq_Body = []\<rparr>"

definition calm_env :: ws_env where
  "calm_env = \<lparr>we_now = 0, we_salt = Some ''0123456789abcdef'', we_jti = Some ''12345678'', we_race = (\<lambda>w. w), we_other = (\<lambda>w. w)\<rparr>"

definition acme_state :: "user_record list \<Rightarrow> entry list \<Rightarrow> (mem_store, revocation_lists) ws_state" where
  "acme_state us l = \<lparr>wt_users = [], wt_kube = acme_kube us, wt_rev = (\<lambda>_. l)\<rparr>"

lemma ann_authenticated: "Authenticate (\<lambda>k m. k @ m) ann_token ''acme'' ''key'' 0 = Some ann_claims"
proof -
  have "ParseJWT (\<lambda>k m. k @ m) (SignJWT (\<lambda>k m. k @ m) ann_claims ''key'') ''key'' = Inr ann_claims"
    by (rule ParseJWT_SignJWT) (simp_all add: ann_claims_def in_int64_def int64_max_def)
  moreover have "SignJWT (\<lambda>k m. k @ m) ann_claims ''key'' \<noteq> []" by (simp add: SignJWT_form)
  ultimately show ?thesis by (simp add: Authenticate_def ann_token_def ann_claims_def unix_sec_def)
qed

definition sws :: "(mem_store, revocation_lists) ws" where
  "sws = demo_ws\<lparr>ws_revoker := Some (sr_api (sort_key e_Exp))\<rparr>"

lemma sws_simps:
  "\<not> ws_demoMode sws" "ws_revoker sws = Some (sr_api (sort_key e_Exp))" "ws_core sws" "ws_dyn sws" "ws_namespace sws = ''emai-swarm''"
  "ws_hmac sws = (\<lambda>k m. k @ m)" "kb_faults (wt_kube (acme_state us l)) = []" "wt_rev (acme_state us l) s = l"
  "map_of (kb_secrets (wt_kube (acme_state us l))) (''emai-swarm'', ''kai-'' @ ''acme'' @ ''-chat-bridge'') = Some \<lparr>sc_data = [(''jwt-secret'', ''key'')], sc_version = 1\<rparr>"
  "map_of (kb_secrets (wt_kube (acme_state us l))) (users_secret sws ''acme'') = Some \<lparr>sc_data = [(usersSecretKey, marshal_users us)], sc_version = 1\<rparr>"
  "users_in \<lparr>sc_data = [(usersSecretKey, marshal_users us)], sc_version = 1\<rparr> = Some us"
  "map_of (kb_kais (wt_kube (acme_state us l))) (''emai-swarm'', ''kai-'' @ ''acme'') = Some acme_kai"
  by (simp_all add: sws_def demo_ws_def acme_state_def acme_kube_def acme_secrets_def users_secret_def users_in_def data_of_def)

corollary forged_logouts_unrevoke_witness:
  "let st = acme_state [ann] [\<lparr>e_Jti = ''j'', e_Exp = 9\<rparr>];
       js = map (\<lambda>n. CHR ''f'' # dec_int (int n)) [0..<MaxEntriesPerSlug];
       st' = foldl (\<lambda>s j. snd (handleLogout sws (forged ''acme'' 4000000000 j) calm_env s)) st js
   in fst (authedClaims sws ann_request ''acme'' 0 st) = None \<and> fst (authedClaims sws ann_request ''acme'' 0 st') = Some ann_claims"
proof -
  let ?l = "[\<lparr>e_Jti = ''j'', e_Exp = 9\<rparr>]"
  let ?js = "map (\<lambda>n. CHR ''f'' # dec_int (int n)) [0..<MaxEntriesPerSlug]"
  have "distinct ?js" by (simp add: distinct_map inj_on_def)
  moreover have "length ?js = MaxEntriesPerSlug" "[] \<notin> set ?js" "in_int64 4000000000" "unix_sec (we_now calm_env) < 4000000000"
    by (auto simp: in_int64_def int64_max_def calm_env_def unix_sec_def)
  moreover have "length (wt_rev (acme_state [ann] ?l) ''acme'') \<le> MaxEntriesPerSlug"
    "\<forall>e \<in> set (wt_rev (acme_state [ann] ?l) ''acme''). e_Exp e < 4000000000 \<and> e_Jti e \<notin> set ?js" "c_Jti ann_claims \<notin> set ?js"
    by (auto simp: acme_state_def MaxEntriesPerSlug_def ann_claims_def)
  moreover have "sorts (sort_key e_Exp)" by (simp add: sorts_def)
  moreover have "sr_revoked ''acme'' (c_Jti ann_claims) 0 (wt_rev (acme_state [ann] ?l))"
    by (simp add: sr_revoked_def sws_simps(8) ann_claims_def listed_def unix_sec_def)
  moreover have "Authenticate (ws_hmac sws) ann_token ''acme'' (data_of \<lparr>sc_data = [(''jwt-secret'', ''key'')], sc_version = 1\<rparr> ''jwt-secret'') 0 = Some ann_claims"
    using ann_authenticated by (simp add: sws_simps(6) data_of_def)
  moreover have "wq_cookie ann_request = Some ann_token" by (simp add: ann_request_def)
  ultimately show ?thesis
    using forged_logouts_unrevoke[OF sws_simps(1) _ sws_simps(2,7,3), of ?js 4000000000 calm_env "[ann]" ?l "''acme''" "\<lparr>sc_data = [(''jwt-secret'', ''key'')], sc_version = 1\<rparr>" ann_request ann_token 0 ann_claims]
      sws_simps(5) sws_simps(9)[of "[ann]" ?l] by (simp only: Let_def if_True simp_thms)
qed

section \<open>Sessions outlive their users\<close>

definition quiet_env :: "ws_env \<Rightarrow> bool" where
  "quiet_env en \<longleftrightarrow> we_other en = (\<lambda>w. w) \<and> we_race en = (\<lambda>w. w)"

lemma update_keeps_others:
  assumes "kb_faults w = []" "updateUsersSecret c slug fn (\<lambda>w. w) w = (r, w')"
  shows "kb_faults w' = []" "nn \<noteq> users_secret c slug \<Longrightarrow> map_of (kb_secrets w') nn = map_of (kb_secrets w) nn"
proof -
  obtain d w1 where d: "readUsersSecret c slug w = (d, w1)" by fastforce
  have w1: "w1 = w" using d assms(1)
    by (auto simp: readUsersSecret_def ks_get_def Let_def split: if_splits option.splits)
  have "kb_faults w' = [] \<and> (nn \<noteq> users_secret c slug \<longrightarrow> map_of (kb_secrets w') nn = map_of (kb_secrets w) nn)"
    using assms(2) assms(1) unfolding updateUsersSecret_def d w1
    by (auto simp: ks_update_def split: sum.splits prod.splits option.splits if_splits)
  then show "kb_faults w' = []" "nn \<noteq> users_secret c slug \<Longrightarrow> map_of (kb_secrets w') nn = map_of (kb_secrets w) nn" by simp_all
qed

lemma admin_keeps_bridge:
  assumes "\<not> ws_demoMode c" "ws_revoker c = Some (sr_api srt)" "kb_faults (wt_kube st) = []" "quiet_env en"
    and "st' = snd (removeUser c d en st) \<or> st' = snd (resetPassword c d en st) \<or> st' = snd (addUser c d en st)"
  shows "kb_faults (wt_kube st') = [] \<and> wt_rev st' = wt_rev st
    \<and> map_of (kb_secrets (wt_kube st')) (ns, ''kai-'' @ s @ ''-chat-bridge'') = map_of (kb_secrets (wt_kube st)) (ns, ''kai-'' @ s @ ''-chat-bridge'')"
proof -
  obtain b st0 where a: "requireCenterAuth c d (wq_slug d) (we_now en) st = (b, st0)" by fastforce
  have k0: "st0 = st" using requireCenterAuth_sr[OF assms(1-3), of d "wq_slug d" "we_now en"] a by simp
  define Q where "Q = (\<lambda>s' :: ('a, revocation_lists) ws_state. kb_faults (wt_kube s') = [] \<and> wt_rev s' = wt_rev st
    \<and> map_of (kb_secrets (wt_kube s')) (ns, ''kai-'' @ s @ ''-chat-bridge'') = map_of (kb_secrets (wt_kube st)) (ns, ''kai-'' @ s @ ''-chat-bridge''))"
  have q0: "Q st" using assms(3) by (simp add: Q_def)
  have q1: "Q (st\<lparr>wt_kube := snd (updateUsersSecret c (wq_slug d) fn (\<lambda>w. w) (wt_kube st))\<rparr>)" for fn
    using update_keeps_others(1)[OF assms(3) surjective_pairing, of c "wq_slug d" fn]
      update_keeps_others(2)[OF assms(3) surjective_pairing, where nn = "(ns, ''kai-'' @ s @ ''-chat-bridge'')" and c = c and slug = "wq_slug d" and fn = fn]
      users_not_bridge[of c "wq_slug d" ns s] by (auto simp: Q_def)
  have e: "we_other en = (\<lambda>w. w)" using assms(4) by (simp add: quiet_env_def)
  have "Q (snd (removeUser c d en st))"
    by (simp add: removeUser_def Let_def a k0 e assms(1) split_beta q0 q1 split: bool.split)
  moreover have "Q (snd (resetPassword c d en st))"
    by (simp add: resetPassword_def Let_def a k0 e assms(1) split_beta q0 q1 split: bool.split option.split list.split)
  moreover have "Q (snd (addUser c d en st))"
    by (simp add: addUser_def Let_def a k0 e assms(1) split_beta q0 q1 split: bool.split option.split list.split)
  ultimately have "Q st'" using assms(5) by blast
  then show ?thesis by (simp add: Q_def)
qed

text \<open>Removing a user or resetting their password does not end their sessions: a session accepted before is
  accepted after, with the same claims, and still opens the user administration, with which the removed user
  can add themselves again.\<close>

theorem sessions_outlive_users:
  assumes "\<not> ws_demoMode c" "ws_revoker c = Some (sr_api srt)" "kb_faults (wt_kube st) = []" "quiet_env en"
    and "st' = snd (removeUser c d en st) \<or> st' = snd (resetPassword c d en st)"
    and "fst (authedClaims c r slug t st) = Some cl" "\<not> slug_rejected slug"
  shows "fst (authedClaims c r slug t st') = Some cl \<and> fst (requireCenterAuth c r slug t st')"
proof -
  have k: "kb_faults (wt_kube st') = []" "wt_rev st' = wt_rev st"
    "map_of (kb_secrets (wt_kube st')) (ws_namespace c, ''kai-'' @ slug @ ''-chat-bridge'') = map_of (kb_secrets (wt_kube st)) (ws_namespace c, ''kai-'' @ slug @ ''-chat-bridge'')"
    using admin_keeps_bridge[OF assms(1-4), of st' d "ws_namespace c" slug] assms(5) by auto
  have a: "fst (authedClaims c r slug t st') = Some cl"
    using assms(6) unfolding authedClaims_sr(2)[OF assms(1-3)] authedClaims_sr(2)[OF assms(1,2) k(1)] k(2,3) .
  then show ?thesis using assms(1,7) by (cases "authedClaims c r slug t st'") (simp add: requireCenterAuth_def)
qed

lemma acme_slug: "\<not> slug_rejected ''acme''"
  by (simp add: slug_rejected_def slugRegex_iff) code_simp

lemma ann_session: "fst (authedClaims sws ann_request ''acme'' 0 (acme_state us [])) = Some ann_claims"
  unfolding authedClaims_sr(2)[OF sws_simps(1,2,7)]
  using ann_authenticated sws_simps(9)[of us "[]"]
  by (auto simp: sws_simps(3,5,6,8) ann_request_def sr_revoked_def listed_def data_of_def Authenticate_def)

corollary sessions_outlive_users_witness:
  "fst (requireCenterAuth sws ann_request ''acme'' 0 (snd (removeUser sws ann_request calm_env (acme_state [ann] []))))"
proof -
  have q: "quiet_env calm_env" by (simp add: quiet_env_def calm_env_def)
  show ?thesis
    using sessions_outlive_users[OF sws_simps(1,2,7) q disjI1[OF refl] ann_session acme_slug]
    by blast
qed

section \<open>Two logins of a stranger\<close>

definition mal_login :: ws_request where
  "mal_login = \<lparr>wq_slug = ''acme'', wq_email = [], wq_cookie = None,
     wq_Body = print_json (str_obj [(''email'', ''Mal@x.org''), (''password'', ''12345678'')])\<rparr>"

lemma mal_fields: "decode_fields [''email'', ''password''] (wq_Body mal_login) = Some [''Mal@x.org'', ''12345678'']"
  unfolding mal_login_def ws_request.simps decode_fields_print by code_simp

lemma mal_norm: "norm ''Mal@x.org'' = ''mal@x.org''"
  by code_simp

lemma mal_bootstrap:
  "rs_cookies (fst (handleLogin sws mal_login calm_env (acme_state [] []))) \<noteq> []"
proof -
  have ns: "\<not> saas_managed acme_kai" by (simp add: acme_kai_def empty_spec_def)
  have p: "validPassword ''12345678''" by (simp add: validPassword_def)
  have e: "we_salt calm_env = Some ''0123456789abcdef''" "we_other calm_env = (\<lambda>w. w)" "we_race calm_env = (\<lambda>w. w)" "we_jti calm_env = Some ''12345678''"
    by (simp_all add: calm_env_def)
  have wk: "wq_slug mal_login = ''acme''" by (simp add: mal_login_def)
  have k: "map_of (kb_kais (wt_kube (acme_state [] []))) (ws_namespace sws, ''kai-'' @ ''acme'') = Some acme_kai"
    "map_of (kb_secrets (wt_kube (acme_state [] []))) (ws_namespace sws, ''kai-'' @ ''acme'' @ ''-chat-bridge'') = Some \<lparr>sc_data = [(''jwt-secret'', ''key'')], sc_version = 1\<rparr>"
    using sws_simps(9,12) unfolding sws_simps(5) by blast+
  have key: "data_of \<lparr>sc_data = [(''jwt-secret'', ''key'')], sc_version = 1\<rparr> ''jwt-secret'' \<noteq> []" by (simp add: data_of_def)
  obtain u where u: "login_kube sws ''acme'' ''mal@x.org'' ''12345678'' calm_env (wt_users (acme_state [] [])) (wt_kube (acme_state [] []))
    = (issueAndSetSession sws ''acme'' ''mal@x.org'' (data_of \<lparr>sc_data = [(''jwt-secret'', ''key'')], sc_version = 1\<rparr> ''jwt-secret'') calm_env
        (writeJSON 201 (str_obj [(''email'', ''mal@x.org''), (''setup'', ''true'')])),
       (wt_kube (acme_state [] []))\<lparr>kb_secrets := al_put (users_secret sws ''acme'') (written \<lparr>sc_data = [(usersSecretKey, marshal_users [])], sc_version = 1\<rparr> [u])
          (kb_secrets (wt_kube (acme_state [] [])))\<rparr>)"
    using login_bootstrap_quiet[OF sws_simps(1,3,4,7) k(1) ns k(2) key sws_simps(10,11) p e(1-3)] by blast
  show ?thesis
    by (simp add: handleLogin_def Let_def wk acme_slug mal_fields mal_norm sws_simps(1) u issueAndSetSession_def
        issueAndSetSessionWithUID_def IssueSessionWithUID_def newJTI_def e(4))
qed

corollary login_entitled_witness:
  "\<exists>k. entitled sws ''acme'' ''mal@x.org'' ''12345678'' k [] (wt_kube (acme_state [] [])) calm_env
     (fst (handleLogin sws mal_login calm_env (acme_state [] [])))"
proof -
  obtain rs st' where h: "handleLogin sws mal_login calm_env (acme_state [] []) = (rs, st')" by fastforce
  have c: "rs_cookies rs \<noteq> []" using mal_bootstrap h by simp
  have wk: "wq_slug mal_login = ''acme''" "wt_users (acme_state [] []) = []" by (simp_all add: mal_login_def acme_state_def)
  from login_entitled[OF sws_simps(1) h c] show ?thesis by (auto simp: h mal_fields mal_norm wk)
qed

corollary emptied_list_is_open_witness:
  "let (rs1, st1) = removeUser sws ann_request calm_env (acme_state [ann] []); (rs, st2) = handleLogin sws mal_login calm_env st1
   in rs_status rs1 = 204 \<and> rs_status rs = 201"
proof -
  have ns: "\<not> saas_managed acme_kai" by (simp add: acme_kai_def empty_spec_def)
  have key: "data_of \<lparr>sc_data = [(''jwt-secret'', ''key'')], sc_version = 1\<rparr> ''jwt-secret'' \<noteq> []" by (simp add: data_of_def)
  have e: "we_salt calm_env = Some ''0123456789abcdef''" "we_other calm_env = (\<lambda>w. w)" "we_race calm_env = (\<lambda>w. w)" "we_jti calm_env = Some ''12345678''"
    by (simp_all add: calm_env_def)
  have r: "wq_slug ann_request = ''acme''" "wq_slug mal_login = ''acme''" "we_now calm_env = 0" by (simp_all add: ann_request_def mal_login_def calm_env_def)
  have k: "map_of (kb_kais (wt_kube (acme_state [ann] []))) (ws_namespace sws, ''kai-'' @ ''acme'') = Some acme_kai"
    "map_of (kb_secrets (wt_kube (acme_state [ann] []))) (ws_namespace sws, ''kai-'' @ ''acme'' @ ''-chat-bridge'') = Some \<lparr>sc_data = [(''jwt-secret'', ''key'')], sc_version = 1\<rparr>"
    using sws_simps(9,12) unfolding sws_simps(5) by blast+
  have ad: "fst (requireCenterAuth sws ann_request ''acme'' (we_now calm_env) (acme_state [ann] []))"
    using ann_session[of "[ann]"] by (simp add: requireCenterAuth_def sws_simps(1) acme_slug r(3) split_beta)
  have nm: "norm (wq_email ann_request) = ''ann@acme.de''" unfolding ann_request_def ws_request.simps by code_simp
  have f: "equal_fold (ur_Email ann) (norm (wq_email ann_request))" "validEmail (ws_parse sws) (norm (wq_email ann_request))"
    unfolding nm by (simp_all add: ann_def validEmail_def sws_def demo_ws_def)
  have m: "norm ''Mal@x.org'' \<noteq> []" "validPassword ''12345678''" by (simp_all add: mal_norm validPassword_def)
  from emptied_list_is_open[OF sws_simps(1,3,4,7) r(1,2) k(1) ns k(2) key sws_simps(10,11) ad f e(2) mal_fields m e(1,4,2,3)]
  show ?thesis by (auto simp: Let_def split: prod.splits)
qed

section \<open>Sessions stay in their workspace\<close>

lemma handleLogin_cookie:
  assumes "handleLogin c r en st = (rs, st')" "ck \<in> set (rs_cookies rs)"
  shows "\<exists>email uid secret. IssueSessionWithUID (ws_hmac c) (wq_slug r) email uid secret (we_now en) (we_jti en) = Some ck"
proof -
  have i: "\<exists>em ui se. IssueSessionWithUID (ws_hmac c) slug em ui se (we_now en) (we_jti en) = Some ck"
    if "ck \<in> set (rs_cookies (issueAndSetSessionWithUID c slug email uid secret en ok))" "rs_cookies ok = []" for slug email uid secret ok
    using that by (auto simp: issueAndSetSessionWithUID_def split: option.splits)
  have b: "\<exists>em ui se. IssueSessionWithUID (ws_hmac c) slug em ui se (we_now en) (we_jti en) = Some ck"
    if "ck \<in> set (rs_cookies (fst (bootstrapAdmin c slug email pw secret en w)))" for slug email pw secret w
    using that i by (auto simp: bootstrapAdmin_def Let_def issueAndSetSession_def split: option.splits if_splits prod.splits)
  have p: "\<exists>em ui se. IssueSessionWithUID (ws_hmac c) slug em ui se (we_now en) (we_jti en) = Some ck"
    if "ck \<in> set (rs_cookies (passwordLogin c slug email pw secret us en))" for slug email pw secret us
    using that i by (auto simp: passwordLogin_def issueAndSetSession_def split: option.splits if_splits)
  have l: "\<exists>em ui se. IssueSessionWithUID (ws_hmac c) slug em ui se (we_now en) (we_jti en) = Some ck"
    if "ck \<in> set (rs_cookies (fst (login_kube c slug email pw en us w)))" for slug email pw us w
    using that i b p by (auto simp: login_kube_def split: option.splits if_splits prod.splits sum.splits)
  show ?thesis using assms i l
    by (auto simp: handleLogin_def Let_def split: option.splits if_splits prod.splits list.splits) (metis fst_conv)+
qed

text \<open>A session stays in its workspace: the cookie of a login is refused under every other slug, at any time
  and in any state of cluster, users and revocations, even if two workspaces shared a signing key.\<close>

theorem session_stays_home:
  assumes "handleLogin c r en st = (rs, st')" "ck \<in> set (rs_cookies rs)" "slug' \<noteq> wq_slug r"
    and "wq_cookie r' = Some (ck_Value ck)" "in_int64 (unix_sec (we_now en))" "in_int64 (unix_sec (we_now en) + 86400)"
  shows "fst (authedClaims c r' slug' t st2) = None"
proof -
  obtain email uid secret where i: "IssueSessionWithUID (ws_hmac c) (wq_slug r) email uid secret (we_now en) (we_jti en) = Some ck"
    using handleLogin_cookie[OF assms(1,2)] by blast
  then obtain jti where v: "ck_Value ck = SignJWT (ws_hmac c) \<lparr>c_Sub = email, c_Slug = wq_slug r, c_Exp = unix_sec (we_now en) + 86400,
      c_Iat = unix_sec (we_now en), c_Jti = jti, c_Uid = uid\<rparr> secret"
    by (auto simp: IssueSessionWithUID_def Let_def SessionTTL_def hours_def split: option.splits)
  have "Authenticate (ws_hmac c) (ck_Value ck) slug' secret' t = None" for secret'
  proof (cases "Authenticate (ws_hmac c) (ck_Value ck) slug' secret' t")
    case (Some cl)
    then have p: "ParseJWT (ws_hmac c) (ck_Value ck) secret' = Inr cl" "c_Slug cl = slug'"
      by (auto simp: Authenticate_def split: if_splits sum.splits)
    have "c_Slug cl = wq_slug r"
      using ParseJWT_signed_claims[OF p(1)[unfolded v]] assms(5,6) by simp
    with p(2) assms(3) show ?thesis by simp
  qed simp
  then show ?thesis by (auto simp: authedClaims_def assms(4) Let_def split: option.splits prod.splits)
qed

corollary session_stays_home_witness:
  "\<exists>ck. ck \<in> set (rs_cookies (fst (handleLogin sws mal_login calm_env (acme_state [] []))))
     \<and> fst (authedClaims sws (ann_request\<lparr>wq_cookie := Some (ck_Value ck)\<rparr>) ''other'' 0 (acme_state [ann] [])) = None"
proof -
  obtain rs st' where h: "handleLogin sws mal_login calm_env (acme_state [] []) = (rs, st')" by fastforce
  obtain ck where ck: "ck \<in> set (rs_cookies rs)" using mal_bootstrap h by (cases "rs_cookies rs") auto
  have n: "''other'' \<noteq> wq_slug mal_login" "in_int64 (unix_sec (we_now calm_env))" "in_int64 (unix_sec (we_now calm_env) + 86400)"
    by (simp_all add: mal_login_def calm_env_def unix_sec_def in_int64_def int64_max_def)
  have "fst (authedClaims sws (ann_request\<lparr>wq_cookie := Some (ck_Value ck)\<rparr>) ''other'' 0 (acme_state [ann] [])) = None"
    by (rule session_stays_home[OF h ck n(1) _ n(2,3)]) simp
  with ck h show ?thesis by auto
qed

section \<open>SaaS logins\<close>

lemma saas_login:
  assumes "\<not> ws_demoMode c" "ws_core c" "ws_dyn c" "kb_faults (wt_kube st) = []" "\<not> slug_rejected (wq_slug r)"
    and "map_of (kb_kais (wt_kube st)) (ws_namespace c, ''kai-'' @ wq_slug r) = Some k" "saas_managed k"
    and "map_of (kb_secrets (wt_kube st)) (ws_namespace c, ''kai-'' @ wq_slug r @ ''-chat-bridge'') = Some sec" "data_of sec ''jwt-secret'' \<noteq> []"
    and "decode_fields [''email'', ''password''] (wq_Body r) = Some [em, pw]" "norm em \<noteq> []" "pw \<noteq> []" "we_jti en = Some jti"
  shows "snd (handleLogin c r en st) = st
    \<and> (\<forall>u. owns c (norm em) pw k (wt_users st) u \<longrightarrow> session_for c (wt_kube st) (wq_slug r) (u_Email u) (u_ID u) en (fst (handleLogin c r en st)))
    \<and> ((\<forall>u. \<not> owns c (norm em) pw k (wt_users st) u) \<longrightarrow> fst (handleLogin c r en st) = invalid_login)"
proof -
  let ?b = "\<lparr>bi_Managed = sp_Managed (k_Spec k), bi_UserRef = sp_UserRef (k_Spec k)\<rparr>"
  have b: "loadKaiBinding c (wq_slug r) (wt_kube st) = (Inr ?b, wt_kube st)"
    unfolding loadKaiBinding_def kc_get_def kb_next_quiet[OF assms(4)] prod.case assms(6) using assms(1,3) by simp
  have j: "readJWTSecret c (wq_slug r) (wt_kube st) = (Some (data_of sec ''jwt-secret''), wt_kube st)"
    unfolding readJWTSecret_def ks_get_def kb_next_quiet[OF assms(4)] prod.case assms(8) using assms(2,9) by simp
  have i: "IsSaaS ?b" using assms(7) by (simp add: IsSaaS_def)
  have h: "handleLogin c r en st = (case loginSaaS c (norm em) pw ?b (wt_users st) of None \<Rightarrow> (invalid_login, st)
      | Some u \<Rightarrow> (issueAndSetSessionWithUID c (wq_slug r) (u_Email u) (u_ID u) (data_of sec ''jwt-secret'') en (logged_in (u_Email u) ''false''), st))"
    by (simp add: handleLogin_def Let_def assms(1,5,10-12) login_kube_def b j i split: option.split)
  show ?thesis
  proof (cases "loginSaaS c (norm em) pw ?b (wt_users st)")
    case None
    then have "\<not> owns c (norm em) pw k (wt_users st) u" for u by (metis loginSaaS_iff option.distinct(1))
    then show ?thesis by (simp add: h None)
  next
    case (Some u)
    then have o: "owns c (norm em) pw k (wt_users st) u" by (simp add: loginSaaS_iff)
    have "u' = u" if "owns c (norm em) pw k (wt_users st) u'" for u' using that o by (auto simp: owns_def)
    moreover obtain ck where ck: "IssueSessionWithUID (ws_hmac c) (wq_slug r) (u_Email u) (u_ID u) (data_of sec ''jwt-secret'') (we_now en) (we_jti en) = Some ck"
      using assms(13) by (simp add: IssueSessionWithUID_def newJTI_def)
    moreover have f: "handleLogin c r en st = (SetCookie ck (logged_in (u_Email u) ''false''), st)"
      unfolding h Some option.case issueAndSetSessionWithUID_def ck ..
    moreover have "session_for c (wt_kube st) (wq_slug r) (u_Email u) (u_ID u) en (SetCookie ck (logged_in (u_Email u) ''false''))"
      unfolding session_for_def using assms(8,9) ck by (intro exI[of _ sec] exI[of _ ck]) simp
    ultimately show ?thesis unfolding f fst_conv snd_conv using o by blast
  qed
qed

text \<open>C13: every refused SaaS login looks the same: in a working cluster a login to a SaaS workspace answers with
  a session when the caller gave the password of the verified, live account that owns the workspace, and with
  one and the same 401 otherwise, whichever of the conditions failed; it changes nothing in either case.\<close>

theorem saas_login_exact:
  assumes "\<not> ws_demoMode c" "ws_core c" "ws_dyn c" "kb_faults (wt_kube st) = []" "\<not> slug_rejected (wq_slug r)"
    and "map_of (kb_kais (wt_kube st)) (ws_namespace c, ''kai-'' @ wq_slug r) = Some k" "saas_managed k"
    and "map_of (kb_secrets (wt_kube st)) (ws_namespace c, ''kai-'' @ wq_slug r @ ''-chat-bridge'') = Some sec" "data_of sec ''jwt-secret'' \<noteq> []"
    and "decode_fields [''email'', ''password''] (wq_Body r) = Some [em, pw]" "norm em \<noteq> []" "pw \<noteq> []" "we_jti en = Some jti"
  shows "snd (handleLogin c r en st) = st
    \<and> (\<forall>u. owns c (norm em) pw k (wt_users st) u \<longrightarrow> session_for c (wt_kube st) (wq_slug r) (u_Email u) (u_ID u) en (fst (handleLogin c r en st)))
    \<and> ((\<forall>u. \<not> owns c (norm em) pw k (wt_users st) u) \<longrightarrow> fst (handleLogin c r en st) = invalid_login)"
  by (rule saas_login[OF assms])

definition saas_kai :: kai where
  "saas_kai = acme_kai\<lparr>k_Spec := empty_spec\<lparr>sp_Managed := ''saas'', sp_UserRef := ''u_1''\<rparr>\<rparr>"

definition saas_state :: "mem_store \<Rightarrow> (mem_store, revocation_lists) ws_state" where
  "saas_state us = \<lparr>wt_users = us, wt_kube = (acme_kube [])\<lparr>kb_kais := [((''emai-swarm'', ''kai-acme''), saas_kai)]\<rparr>, wt_rev = (\<lambda>_. [])\<rparr>"

corollary saas_login_exact_witness:
  "handleLogin sws mal_login calm_env (saas_state []) = (invalid_login, saas_state [])"
proof -
  have k: "map_of (kb_kais (wt_kube (saas_state []))) (ws_namespace sws, ''kai-'' @ wq_slug mal_login) = Some saas_kai" "saas_managed saas_kai"
    by (simp_all add: saas_state_def sws_simps(5) mal_login_def saas_kai_def)
  have s: "map_of (kb_secrets (wt_kube (saas_state []))) (ws_namespace sws, ''kai-'' @ wq_slug mal_login @ ''-chat-bridge'') = Some \<lparr>sc_data = [(''jwt-secret'', ''key'')], sc_version = 1\<rparr>"
    "data_of \<lparr>sc_data = [(''jwt-secret'', ''key'')], sc_version = 1\<rparr> ''jwt-secret'' \<noteq> []"
    by (simp_all add: saas_state_def acme_kube_def acme_secrets_def sws_simps(5) mal_login_def data_of_def)
  have f: "kb_faults (wt_kube (saas_state [])) = []" "\<not> slug_rejected (wq_slug mal_login)" "norm ''Mal@x.org'' \<noteq> []" "''12345678'' \<noteq> []"
    "we_jti calm_env = Some ''12345678''"
    by (simp_all add: saas_state_def acme_kube_def mal_login_def acme_slug mal_norm calm_env_def)
  have "\<not> owns sws (norm ''Mal@x.org'') ''12345678'' saas_kai (wt_users (saas_state [])) u" for u
    by (auto simp: owns_def sws_def demo_ws_def MemoryStore_def mem_GetByEmail_def saas_state_def)
  then show ?thesis
    using saas_login_exact[OF sws_simps(1,3,4) f(1,2) k s mal_fields f(3-5)]
    by (simp add: prod_eq_iff)
qed

end
