(* ===== verification/WorkspacePages.thy ===== *)
theory WorkspacePages
  imports WorkspaceSafety
begin

text \<open>
  The pages of a workspace depend on its own objects only.
\<close>

section \<open>Pages show their own workspace\<close>

definition alike :: "('s, 'r) ws \<Rightarrow> string \<Rightarrow> kube \<Rightarrow> kube \<Rightarrow> bool" where
  \<comment> \<open>the same faults and the same objects named after the slug\<close>
  "alike c slug w w' \<longleftrightarrow> kb_faults w = kb_faults w'
     \<and> map_of (kb_kais w) (ws_namespace c, ''kai-'' @ slug) = map_of (kb_kais w') (ws_namespace c, ''kai-'' @ slug)
     \<and> (\<forall>s. map_of (kb_secrets w) (ws_namespace c, ''kai-'' @ slug @ s) = map_of (kb_secrets w') (ws_namespace c, ''kai-'' @ slug @ s)
          \<and> map_of (kb_cms w) (ws_namespace c, ''kai-'' @ slug @ s) = map_of (kb_cms w') (ws_namespace c, ''kai-'' @ slug @ s))"

lemma alike_next:
  assumes "alike c slug w w'"
  shows "fst (kb_next w) = fst (kb_next w')" "alike c slug (snd (kb_next w)) (snd (kb_next w'))"
  using assms by (auto simp: alike_def kb_next_def split: list.split)

lemma alike_reads:
  assumes "alike c slug w w'"
  shows "fst (kc_get (ws_namespace c, ''kai-'' @ slug) w) = fst (kc_get (ws_namespace c, ''kai-'' @ slug) w')"
    "alike c slug (snd (kc_get nn w)) (snd (kc_get nn w'))"
    "fst (ks_get (ws_namespace c, ''kai-'' @ slug @ s) w) = fst (ks_get (ws_namespace c, ''kai-'' @ slug @ s) w')"
    "alike c slug (snd (ks_get nn w)) (snd (ks_get nn w'))"
    "fst (cm_get (ws_namespace c, ''kai-'' @ slug @ s) w) = fst (cm_get (ws_namespace c, ''kai-'' @ slug @ s) w')"
    "alike c slug (snd (cm_get nn w)) (snd (cm_get nn w'))"
proof -
  have m: "map_of (kb_kais w) (ws_namespace c, ''kai-'' @ slug) = map_of (kb_kais w') (ws_namespace c, ''kai-'' @ slug)"
    "map_of (kb_secrets w) (ws_namespace c, ''kai-'' @ slug @ s) = map_of (kb_secrets w') (ws_namespace c, ''kai-'' @ slug @ s)"
    "map_of (kb_cms w) (ws_namespace c, ''kai-'' @ slug @ s) = map_of (kb_cms w') (ws_namespace c, ''kai-'' @ slug @ s)"
    using assms unfolding alike_def by blast+
  show "fst (kc_get (ws_namespace c, ''kai-'' @ slug) w) = fst (kc_get (ws_namespace c, ''kai-'' @ slug) w')"
    "fst (ks_get (ws_namespace c, ''kai-'' @ slug @ s) w) = fst (ks_get (ws_namespace c, ''kai-'' @ slug @ s) w')"
    "fst (cm_get (ws_namespace c, ''kai-'' @ slug @ s) w) = fst (cm_get (ws_namespace c, ''kai-'' @ slug @ s) w')"
    unfolding reads_alt fst_conv alike_next(1)[OF assms] m by (rule refl)+
  show "alike c slug (snd (kc_get nn w)) (snd (kc_get nn w'))" "alike c slug (snd (ks_get nn w)) (snd (ks_get nn w'))"
    "alike c slug (snd (cm_get nn w)) (snd (cm_get nn w'))"
    unfolding reads_alt snd_conv by (rule alike_next(2)[OF assms])+
qed

definition agree :: "('s, 'r) ws \<Rightarrow> string \<Rightarrow> 'x \<times> kube \<Rightarrow> 'x \<times> kube \<Rightarrow> bool" where
  "agree c slug a b \<longleftrightarrow> fst a = fst b \<and> alike c slug (snd a) (snd b)"

lemma agreeE:
  assumes "agree c slug (f w) (f w')"
  obtains x u u' where "f w = (x, u)" "f w' = (x, u')" "alike c slug u u'"
  using assms by (cases "f w", cases "f w'") (auto simp: agree_def)

lemma agree_pair: "alike c slug u u' \<Longrightarrow> agree c slug (x, u) (x, u')"
  by (simp add: agree_def)

lemma alike_agree:
  assumes "alike c slug w w'"
  shows "agree c slug (kc_get (ws_namespace c, ''kai-'' @ slug) w) (kc_get (ws_namespace c, ''kai-'' @ slug) w')"
    "agree c slug (ks_get (ws_namespace c, ''kai-'' @ slug @ s) w) (ks_get (ws_namespace c, ''kai-'' @ slug @ s) w')"
    "agree c slug (cm_get (ws_namespace c, ''kai-'' @ slug @ s) w) (cm_get (ws_namespace c, ''kai-'' @ slug @ s) w')"
  unfolding agree_def using alike_reads[OF assms] by blast+

lemma alike_jwt:
  assumes "alike c slug w w'"
  shows "agree c slug (readJWTSecret c slug w) (readJWTSecret c slug w')"
proof -
  obtain x u u' where "ks_get (ws_namespace c, ''kai-'' @ slug @ ''-chat-bridge'') w = (x, u)"
    "ks_get (ws_namespace c, ''kai-'' @ slug @ ''-chat-bridge'') w' = (x, u')" "alike c slug u u'"
    using alike_agree(2)[OF assms] by (rule agreeE)
  then show ?thesis unfolding readJWTSecret_def by (cases x) (simp_all only: prod.case sum.case agree_pair assms split: if_split, simp_all)
qed

lemma alike_profile:
  assumes "alike c slug w w'"
  shows "agree c slug (loadProfile c slug w) (loadProfile c slug w')"
proof -
  obtain x u u' where "cm_get (ws_namespace c, ''kai-'' @ slug @ ''-profile'') w = (x, u)"
    "cm_get (ws_namespace c, ''kai-'' @ slug @ ''-profile'') w' = (x, u')" "alike c slug u u'"
    using alike_agree(3)[OF assms] by (rule agreeE)
  then show ?thesis unfolding loadProfile_def by (cases x) (simp_all only: prod.case sum.case agree_pair assms split: if_split, simp_all)
qed

lemma alike_briefings:
  assumes "alike c slug w w'"
  shows "agree c slug (loadBriefings c slug w) (loadBriefings c slug w')"
proof -
  obtain x u u' where "cm_get (ws_namespace c, ''kai-'' @ slug @ ''-briefings'') w = (x, u)"
    "cm_get (ws_namespace c, ''kai-'' @ slug @ ''-briefings'') w' = (x, u')" "alike c slug u u'"
    using alike_agree(3)[OF assms] by (rule agreeE)
  then show ?thesis unfolding loadBriefings_def
    by (cases x) (auto simp: agree_pair assms simp del: append.simps split: option.split)
qed

lemma alike_source:
  assumes "alike c slug w w'"
  shows "agree c slug (agentSource c slug w) (agentSource c slug w')"
proof -
  obtain x u u' where "kc_get (ws_namespace c, ''kai-'' @ slug) w = (x, u)"
    "kc_get (ws_namespace c, ''kai-'' @ slug) w' = (x, u')" "alike c slug u u'"
    using alike_agree(1)[OF assms] by (rule agreeE)
  then show ?thesis unfolding agentSource_def by (cases x) (simp_all only: prod.case sum.case agree_pair assms split: if_split, simp_all)
qed

definition alike_states :: "('s, 'r) ws \<Rightarrow> string \<Rightarrow> ('s, 'r) ws_state \<Rightarrow> ('s, 'r) ws_state \<Rightarrow> bool" where
  "alike_states c slug st st' \<longleftrightarrow> alike c slug (wt_kube st) (wt_kube st') \<and> wt_rev st = wt_rev st'"

lemma alike_auth:
  assumes "alike_states c slug st st'"
  shows "fst (requireCenterAuth c r slug t st) = fst (requireCenterAuth c r slug t st')"
    "alike_states c slug (snd (requireCenterAuth c r slug t st)) (snd (requireCenterAuth c r slug t st'))"
proof -
  have k: "alike c slug (wt_kube st) (wt_kube st')" "wt_rev st = wt_rev st'" using assms by (simp_all add: alike_states_def)
  have "agree c slug (resolveJWTSecret c slug (wt_kube st)) (resolveJWTSecret c slug (wt_kube st'))"
    using alike_jwt[OF k(1)] k(1) by (simp add: resolveJWTSecret_def agree_pair)
  then obtain x u u' where "resolveJWTSecret c slug (wt_kube st) = (x, u)" "resolveJWTSecret c slug (wt_kube st') = (x, u')" "alike c slug u u'"
    by (rule agreeE)
  then have "fst (authedClaims c r slug t st) = fst (authedClaims c r slug t st')
      \<and> alike_states c slug (snd (authedClaims c r slug t st)) (snd (authedClaims c r slug t st'))"
    using k assms by (auto simp: authedClaims_def alike_states_def Let_def split: option.split prod.split bool.split)
  then show "fst (requireCenterAuth c r slug t st) = fst (requireCenterAuth c r slug t st')"
    "alike_states c slug (snd (requireCenterAuth c r slug t st)) (snd (requireCenterAuth c r slug t st'))"
    using assms by (auto simp: requireCenterAuth_def split_beta)
qed

text \<open>C37: the pages of a workspace show its own data only: what the centre and agents pages of a workspace
  answer depends on nothing but the objects named after its slug, so that whatever other workspaces, their
  Secrets, their ConfigMaps and the accounts hold, the answer is the same.\<close>

theorem pages_isolated:
  assumes "alike_states c (wq_slug r) st st'"
  shows "fst (getCenter c r en st) = fst (getCenter c r en st') \<and> fst (listAgents c r en st) = fst (listAgents c r en st')"
proof -
  let ?slug = "wq_slug r"
  obtain b s1 s1' where a: "requireCenterAuth c r ?slug (we_now en) st = (b, s1)" "requireCenterAuth c r ?slug (we_now en) st' = (b, s1')"
    "alike_states c ?slug s1 s1'"
    using alike_auth[OF assms, of r "we_now en"]
    by (cases "requireCenterAuth c r ?slug (we_now en) st", cases "requireCenterAuth c r ?slug (we_now en) st'") auto
  have k1: "alike c ?slug (wt_kube s1) (wt_kube s1')" using a(3) by (simp add: alike_states_def)
  obtain x u u' where g: "kc_get (ws_namespace c, ''kai-'' @ ?slug) (wt_kube s1) = (x, u)"
    "kc_get (ws_namespace c, ''kai-'' @ ?slug) (wt_kube s1') = (x, u')" "alike c ?slug u u'"
    using alike_agree(1)[OF k1] by (rule agreeE)
  obtain p v v' where p: "loadProfile c ?slug u = (p, v)" "loadProfile c ?slug u' = (p, v')" "alike c ?slug v v'"
    using alike_profile[OF g(3)] by (rule agreeE)
  obtain bs z z' where z: "loadBriefings c ?slug v = (bs, z)" "loadBriefings c ?slug v' = (bs, z')" "alike c ?slug z z'"
    using alike_briefings[OF p(3)] by (rule agreeE)
  obtain y m m' where m: "cm_get (ws_namespace c, ''kai-'' @ ?slug @ ''-identity'') (wt_kube s1) = (y, m)"
    "cm_get (ws_namespace c, ''kai-'' @ ?slug @ ''-identity'') (wt_kube s1') = (y, m')" "alike c ?slug m m'"
    using alike_agree(3)[OF k1] by (rule agreeE)
  obtain so n n' where n: "agentSource c ?slug m = (so, n)" "agentSource c ?slug m' = (so, n')"
    using alike_source[OF m(3)] by (rule agreeE)
  have "fst (getCenter c r en st) = fst (getCenter c r en st')"
  proof (cases "b \<and> (\<exists>k. x = Inr k)")
    case True
    then obtain k where k: "b" "x = Inr k" by blast
    obtain sl lb tm sc hb where q: "translateStatus k = (sl, lb)" "p = (tm, sc, hb)" by (metis prod_cases3 surj_pair)
    show ?thesis unfolding getCenter_def Let_def a(1,2)
      by (simp_all only: k prod.case bool.case if_False if_True g(1,2)[unfolded k] sum.case p(1,2)[unfolded q] q(1) z(1,2) fst_conv split: if_split, simp_all)
  next
    case False
    then show ?thesis unfolding getCenter_def Let_def a(1,2)
      by (cases b; cases x) (simp_all only: prod.case bool.case if_False if_True g(1,2) sum.case fst_conv split: if_split, simp_all)
  qed
  moreover have "fst (listAgents c r en st) = fst (listAgents c r en st')"
    unfolding listAgents_def Let_def a(1,2) by (cases b; cases y) (simp_all only: prod.case bool.case if_False if_True m(1,2) sum.case n(1,2) fst_conv split: if_split, simp_all)
  ultimately show ?thesis ..
qed

definition neighbour :: "(mem_store, revocation_lists) ws_state" where
  \<comment> \<open>the cluster of \<open>acme_state\<close> with the objects of another workspace\<close>
  "neighbour = (acme_state [ann] [])\<lparr>wt_kube := (acme_kube [ann])\<lparr>
     kb_kais := kb_kais (acme_kube [ann]) @ [((''emai-swarm'', ''kai-other''), acme_kai\<lparr>k_Name := ''kai-other''\<rparr>)],
     kb_cms := [((''emai-swarm'', ''kai-other-profile''), [(''scope.md'', ''secret'')])]\<rparr>\<rparr>"

corollary pages_isolated_witness:
  "fst (getCenter sws ann_request calm_env (acme_state [ann] [])) = fst (getCenter sws ann_request calm_env neighbour)"
proof -
  have "alike_states sws (wq_slug ann_request) (acme_state [ann] []) neighbour"
    by (simp add: alike_states_def alike_def neighbour_def acme_state_def acme_kube_def ann_request_def sws_simps(5))
  then show ?thesis using pages_isolated by blast
qed

end
