(* ===== verification/Chat.thy ===== *)
theory Chat
  imports Workspace
begin

text \<open>
  The chat server: login, sessions and the users it reads (\<open>web/chat/server/auth.go\<close>, \<open>users.go\<close>).  It
  shares the Secrets of a workspace with the workspace server and reads them with code of its own.  Parameters
  and inputs are those of theory Workspace; requests are its \<open>ws_request\<close>.
\<close>

section \<open>Server\<close>

record 'r chat =
  ch_namespace :: string
  ch_demoMode :: bool
  ch_devSecret :: string
  ch_dyn :: bool  \<comment> \<open>the clients are wired\<close>
  ch_core :: bool
  ch_revoker :: "'r revoker_api option"
  ch_hmac :: hmac_fun
  ch_argon :: argon2_fun
  ch_version :: nat

record 'r chat_state =
  ct_kube :: kube
  ct_rev :: 'r

section \<open>Secrets and sessions\<close>

definition chat_readUsers :: "'r chat \<Rightarrow> string \<Rightarrow> kube \<Rightarrow> user_record list option \<times> kube" where
  \<comment> \<open>\<open>None\<close>: an error\<close>
  "chat_readUsers c slug w =
     (if \<not> ch_core c then (None, w)
      else (case ks_get (ch_namespace c, ''kai-'' @ slug @ ''-users'') w of
          (Inl _, w1) \<Rightarrow> (None, w1)
        | (Inr sec, w1) \<Rightarrow>
            (let raw = data_of sec ''users.json'' in
             (if raw = [] then Some [] else unmarshal_users raw, w1))))"

definition chat_readJWTSecret :: "'r chat \<Rightarrow> string \<Rightarrow> kube \<Rightarrow> string option \<times> kube" where
  "chat_readJWTSecret c slug w =
     (if \<not> ch_core c then (None, w)
      else (case ks_get (ch_namespace c, ''kai-'' @ slug @ ''-chat-bridge'') w of
          (Inl _, w1) \<Rightarrow> (None, w1)
        | (Inr sec, w1) \<Rightarrow> (case map_of (sc_data sec) ''jwt-secret'' of
            None \<Rightarrow> (None, w1)
          | Some jwt \<Rightarrow> (if jwt = [] then None else Some jwt, w1))))"

definition chat_resolveJWTSecret :: "'r chat \<Rightarrow> string \<Rightarrow> kube \<Rightarrow> string option \<times> kube" where
  "chat_resolveJWTSecret c slug w = (if ch_demoMode c then (Some (ch_devSecret c), w) else chat_readJWTSecret c slug w)"

definition chat_issueAndSetSession :: "'r chat \<Rightarrow> string \<Rightarrow> string \<Rightarrow> string \<Rightarrow> ws_env \<Rightarrow> resp \<Rightarrow> resp" where
  \<comment> \<open>with the handler's two answers, as in theory Workspace\<close>
  "chat_issueAndSetSession c slug email secret en ok =
     (case IssueSession (ch_hmac c) slug email secret (we_now en) (we_jti en) of
        None \<Rightarrow> writeErr 500 ''session'' | Some ck \<Rightarrow> SetCookie ck ok)"

definition chat_authedClaims :: "'r chat \<Rightarrow> ws_request \<Rightarrow> string \<Rightarrow> gotime \<Rightarrow> 'r chat_state \<Rightarrow> claims option \<times> 'r chat_state" where
  "chat_authedClaims c r slug now st =
     (case wq_cookie r of None \<Rightarrow> (None, st)
      | Some v \<Rightarrow>
        if v = [] then (None, st)
        else (case chat_resolveJWTSecret c slug (ct_kube st) of
            (None, w) \<Rightarrow> (None, st\<lparr>ct_kube := w\<rparr>)
          | (Some secret, w) \<Rightarrow>
              (case Authenticate (ch_hmac c) v slug secret now of
                 None \<Rightarrow> (None, st\<lparr>ct_kube := w\<rparr>)
               | Some cl \<Rightarrow>
                   (case ch_revoker c of
                      None \<Rightarrow> (Some cl, st\<lparr>ct_kube := w\<rparr>)
                    | Some rv \<Rightarrow>
                        (case rv_IsRevoked rv slug (c_Jti cl) now (ct_rev st) of
                           (None, t) \<Rightarrow> (None, st\<lparr>ct_kube := w, ct_rev := t\<rparr>)
                         | (Some revoked, t) \<Rightarrow> (if revoked then None else Some cl, st\<lparr>ct_kube := w, ct_rev := t\<rparr>))))))"

interpretation chat_gate: session_gate "ch_hmac c" "\<lambda>ck slug t st. fst (chat_authedClaims c (r\<lparr>wq_cookie := ck\<rparr>) slug t st)" for c r
proof
  fix ck slug t st cl
  assume "fst (chat_authedClaims c (r\<lparr>wq_cookie := ck\<rparr>) slug t st) = Some cl"
  then show "\<exists>v secret. ck = Some v \<and> Authenticate (ch_hmac c) v slug secret t = Some cl"
    by (auto simp: chat_authedClaims_def split: option.splits prod.splits if_splits)
qed

section \<open>Handlers\<close>

definition chat_welcome :: "string \<Rightarrow> resp" where
  "chat_welcome email = writeJSON 200 (str_obj [(''email'', email)])"

definition chat_login_kube :: "'r chat \<Rightarrow> string \<Rightarrow> string \<Rightarrow> string \<Rightarrow> ws_env \<Rightarrow> kube \<Rightarrow> resp \<times> kube" where
  \<comment> \<open>\<open>handleLogin\<close> from the read of the users on; the verification against a dummy hash has no effect\<close>
  "chat_login_kube c slug email password en w =
     (case chat_readUsers c slug w of
        (None, w1) \<Rightarrow> (invalid_login, w1)
      | (Some users, w1) \<Rightarrow>
         (case chat_readJWTSecret c slug w1 of
            (None, w2) \<Rightarrow> (writeErr 503 ''chat not provisioned'', w2)
          | (Some secret, w2) \<Rightarrow>
              (case find (\<lambda>u. equal_fold (ur_Email u) email) users of
                 None \<Rightarrow> (invalid_login, w2)
               | Some u \<Rightarrow>
                   if \<not> VerifyArgon2id (ch_argon c) (ch_version c) password (ur_PasswordHash u) then (invalid_login, w2)
                   else (chat_issueAndSetSession c slug email secret en (chat_welcome email), w2))))"

definition chat_handleLogin :: "'r chat \<Rightarrow> ws_request \<Rightarrow> ws_env \<Rightarrow> 'r chat_state \<Rightarrow> resp \<times> 'r chat_state" where
  "chat_handleLogin c r en st =
     (let slug = wq_slug r in
      if slug_rejected slug then (invalid_login, st)
      else (case decode_fields [''email'', ''password''] (wq_Body r) of
          Some [email0, password] \<Rightarrow>
           (let email = trim_space (to_lower email0) in
            if email = [] \<or> password = [] then (invalid_login, st)
            else if ch_demoMode c
              then (chat_issueAndSetSession c slug email (ch_devSecret c) en (chat_welcome email), st)
            else (let (rs, w) = chat_login_kube c slug email password en (ct_kube st) in (rs, st\<lparr>ct_kube := w\<rparr>)))
        | _ \<Rightarrow> (writeErr 400 ''invalid body'', st)))"

definition chat_unsafeParseClaims :: "string \<Rightarrow> claims option" where
  "chat_unsafeParseClaims token = (case split_on (CHR ''.'') token of
     h # p # s # rest \<Rightarrow> (case url_decode p of None \<Rightarrow> None | Some payload \<Rightarrow> unmarshal_claims payload)
   | _ \<Rightarrow> None)"

definition chat_handleLogout :: "'r chat \<Rightarrow> ws_request \<Rightarrow> ws_env \<Rightarrow> 'r chat_state \<Rightarrow> resp \<times> 'r chat_state" where
  "chat_handleLogout c r en st =
     (SetCookie MakeClearCookie (writeStatus 204),
      (case (wq_cookie r, ch_revoker c) of
         (Some v, Some rv) \<Rightarrow>
           if v = [] then st
           else (case chat_unsafeParseClaims v of None \<Rightarrow> st
             | Some cl \<Rightarrow> if c_Jti cl = [] then st
                 else st\<lparr>ct_rev := snd (rv_Revoke rv (c_Slug cl) (c_Jti cl) (seconds (c_Exp cl)) (we_now en) (ct_rev st))\<rparr>)
       | _ \<Rightarrow> st))"

definition chat_handleMe :: "'r chat \<Rightarrow> ws_request \<Rightarrow> ws_env \<Rightarrow> 'r chat_state \<Rightarrow> resp \<times> 'r chat_state" where
  "chat_handleMe c r en st =
     (case chat_authedClaims c r (wq_slug r) (we_now en) st of
        (None, st1) \<Rightarrow> (writeErr 401 ''not logged in'', st1)
      | (Some cl, st1) \<Rightarrow> (writeJSON 200 (str_obj [(''email'', c_Sub cl), (''slug'', c_Slug cl)]), st1))"

end
