(* ===== verification/Bridge.thy ===== *)
theory Bridge
  imports Chat
begin

text \<open>
  The chat bridge (\<open>web/chat/server/bridge.go\<close>): one browser connection, one connection to the gateway of the
  workspace, the bootstrap of the latter (\<open>handshake\<close>, \<open>ensureSession\<close>), the requests the bridge makes
  on it, and the two loops that run at the same time.  The gateway is the list of frames it will send; reading
  past its end is a read error (closed, or timed out).  Writes fail as a list of outcomes says.  Parameters: what
  \<open>websocket.Dial\<close> and \<open>websocket.Accept\<close> answer.
\<close>

section \<open>Configuration\<close>

record bridge_config =
  bc_GatewayURL :: string
  bc_GatewayToken :: string

datatype bridge_err = NoKubeClient | LoadFailed kerr | MissingToken | DialFailed string | ReadFailed | WriteFailed
  | ConnectRejected | SessionRejected | HistoryRejected | BadHistory

record bridge_env =
  be_template :: string  \<comment> \<open>\<open>GATEWAY_URL_TEMPLATE\<close>\<close>
  be_origin :: string  \<comment> \<open>\<open>BRIDGE_ORIGIN\<close>\<close>
  be_allowed :: string  \<comment> \<open>\<open>ALLOWED_ORIGINS\<close>\<close>
  be_dial :: "string \<Rightarrow> string \<Rightarrow> (string list \<times> bool list) option"  \<comment> \<open>of URL and Origin: frames and outcomes of writes\<close>
  be_accept :: "string list \<Rightarrow> bool"  \<comment> \<open>of the origin patterns\<close>
  be_writes :: "bool list"  \<comment> \<open>outcomes of the writes to the browser\<close>
  be_frames :: "string list"  \<comment> \<open>what the browser will send\<close>

definition loadBridgeConfig :: "'r chat \<Rightarrow> bridge_env \<Rightarrow> string \<Rightarrow> kube \<Rightarrow> (bridge_err + bridge_config) \<times> kube" where
  "loadBridgeConfig c en slug w =
     (if \<not> ch_dyn c then (Inl NoKubeClient, w)
      else (case kc_get (ch_namespace c, ''kai-'' @ slug) w of
          (Inl e, w1) \<Rightarrow> (Inl (LoadFailed e), w1)
        | (Inr k, w1) \<Rightarrow>
            (let gatewayToken = (case sp_GatewayAuth (k_Spec k) of None \<Rightarrow> [] | Some (_, t) \<Rightarrow> t);
                 gatewayHost = (if ks_GatewayURL (k_Status k) = [] then ''kai-'' @ slug @ ''.'' @ ch_namespace c @ ''.svc:18789''
                                else ks_GatewayURL (k_Status k));
                 gatewayURL = (if be_template en \<noteq> [] then replace_all ''{slug}'' slug (be_template en) else ''ws://'' @ gatewayHost)
             in if gatewayToken = [] then (Inl MissingToken, w1)
                else (Inr \<lparr>bc_GatewayURL = gatewayURL, bc_GatewayToken = gatewayToken\<rparr>, w1))))"

section \<open>The upstream connection\<close>

record upstream =
  uc_frames :: "string list"
  uc_writes :: "bool list"
  uc_sent :: "json list"
  uc_cfg :: bridge_config
  uc_email :: string
  uc_sessionKey :: string
  uc_pendingReq :: "string list"
  uc_reqCounter :: nat

definition uc_send :: "json \<Rightarrow> upstream \<Rightarrow> bool \<times> upstream" where
  \<comment> \<open>\<open>True\<close>: written\<close>
  "uc_send m u = (case uc_writes u of
     [] \<Rightarrow> (True, u\<lparr>uc_sent := uc_sent u @ [m]\<rparr>)
   | ok # r \<Rightarrow> (ok, u\<lparr>uc_writes := r, uc_sent := (if ok then uc_sent u @ [m] else uc_sent u)\<rparr>))"

definition nextReqID :: "string \<Rightarrow> upstream \<Rightarrow> string \<times> upstream" where
  "nextReqID prefix u = (prefix @ ''-'' @ dec_nat (Suc (uc_reqCounter u)), u\<lparr>uc_reqCounter := Suc (uc_reqCounter u)\<rparr>)"

definition await :: "string \<Rightarrow> upstream \<Rightarrow> upstream" where
  \<comment> \<open>\<open>c.pendingReq[id] = make(chan json.RawMessage, 1)\<close>; nothing reads these channels\<close>
  "await i u = u\<lparr>uc_pendingReq := i # uc_pendingReq u\<rparr>"

definition request_frame :: "string \<Rightarrow> string \<Rightarrow> json \<Rightarrow> json" where
  "request_frame i method params = JObj [(''id'', JStr i), (''method'', JStr method), (''params'', params), (''type'', JStr ''req'')]"

fun read_until :: "(string \<Rightarrow> 'a option) \<Rightarrow> string list \<Rightarrow> ('a \<times> string list) option" where
  \<comment> \<open>the loops around \<open>Read\<close>: frames that do not fit are dropped\<close>
  "read_until f [] = None"
| "read_until f (raw # rest) = (case f raw of None \<Rightarrow> read_until f rest | Some x \<Rightarrow> Some (x, rest))"

definition uc_read_until :: "(string \<Rightarrow> 'a option) \<Rightarrow> upstream \<Rightarrow> 'a option \<times> upstream" where
  "uc_read_until f u = (case read_until f (uc_frames u) of
     None \<Rightarrow> (None, u\<lparr>uc_frames := []\<rparr>)
   | Some (x, rest) \<Rightarrow> (Some x, u\<lparr>uc_frames := rest\<rparr>))"

subsection \<open>Responses\<close>

record ws_res =
  wr_Type :: string
  wr_ID :: string
  wr_OK :: bool
  wr_Error :: "json option"  \<comment> \<open>\<open>None\<close>: absent\<close>
  wr_Payload :: "json option"

definition raw_field :: "string \<Rightarrow> (string \<times> json) list \<Rightarrow> json option" where
  \<comment> \<open>a field of type \<open>json.RawMessage\<close>\<close>
  "raw_field name ms = (case rev (members_for name ms) of [] \<Rightarrow> None | j # _ \<Rightarrow> Some j)"

definition ws_res_of :: "string \<Rightarrow> ws_res option" where
  "ws_res_of raw = (case json_unmarshal raw of None \<Rightarrow> None
   | Some j \<Rightarrow> (case (fields_of [''type'', ''id''] j, object_opt j) of
       (Some [ty, i], Some ms) \<Rightarrow> (case set_bool (members_for ''ok'' ms) False of None \<Rightarrow> None
         | Some ok \<Rightarrow> Some \<lparr>wr_Type = ty, wr_ID = i, wr_OK = ok, wr_Error = raw_field ''error'' ms, wr_Payload = raw_field ''payload'' ms\<rparr>)
     | _ \<Rightarrow> None))"

definition res_with :: "string \<Rightarrow> string \<Rightarrow> ws_res option" where
  "res_with i raw = (case ws_res_of raw of None \<Rightarrow> None
   | Some r \<Rightarrow> if wr_Type r = ''res'' \<and> wr_ID r = i then Some r else None)"

definition readUntilRes :: "string \<Rightarrow> upstream \<Rightarrow> ws_res option \<times> upstream" where
  "readUntilRes i u = uc_read_until (res_with i) u"

section \<open>Bootstrap\<close>

definition openClawVer :: int where "openClawVer = 3"

definition connect_params :: "string \<Rightarrow> json" where
  "connect_params token = JObj
     [(''auth'', str_obj [(''token'', token)]),
      (''caps'', JArr []),
      (''client'', str_obj [(''id'', ''openclaw-tui''), (''mode'', ''cli''), (''platform'', ''go-bridge''), (''version'', ''1.0.0'')]),
      (''locale'', JStr ''en''),
      (''maxProtocol'', JNum (dec_int openClawVer)),
      (''minProtocol'', JNum (dec_int openClawVer)),
      (''role'', JStr ''operator''),
      (''scopes'', JArr [JStr ''operator.read'', JStr ''operator.write'']),
      (''userAgent'', JStr ''emai-chat-bridge/1.0'')]"

definition challenge :: "string \<Rightarrow> unit option" where
  "challenge raw = (case json_unmarshal raw of None \<Rightarrow> None
   | Some j \<Rightarrow> if fields_of [''type'', ''event''] j = Some [''event'', ''connect.challenge''] then Some () else None)"

definition handshake :: "upstream \<Rightarrow> bridge_err option \<times> upstream" where
  "handshake u = (case uc_read_until challenge u of
     (None, u1) \<Rightarrow> (Some ReadFailed, u1)
   | (Some _, u1) \<Rightarrow>
      (let (i, u2) = nextReqID ''connect'' u1
       in case uc_send (request_frame i ''connect'' (connect_params (bc_GatewayToken (uc_cfg u)))) (await i u2) of
            (False, u3) \<Rightarrow> (Some WriteFailed, u3)
          | (True, u3) \<Rightarrow> (case uc_read_until (res_with i) u3 of
               (None, u4) \<Rightarrow> (Some ReadFailed, u4)
             | (Some r, u4) \<Rightarrow> (if wr_OK r then None else Some ConnectRejected,
                  u4\<lparr>uc_pendingReq := removeAll i (uc_pendingReq u4)\<rparr>))))"

definition first_session :: "json option \<Rightarrow> string option" where
  \<comment> \<open>the error of \<open>json.Unmarshal\<close> is dropped\<close>
  "first_session payload = (case payload of None \<Rightarrow> None
   | Some j \<Rightarrow> (case keep_list (\<lambda>e. keep_string (members_for ''key'' (object_members e)) []) (members_for ''sessions'' (object_members j)) [] of
       [] \<Rightarrow> None | k # _ \<Rightarrow> Some k))"

definition created_key :: "json option \<Rightarrow> string" where
  "created_key payload = (case payload of None \<Rightarrow> ''agent:main:main''
   | Some j \<Rightarrow> (case fields_of [''key''] j of
       Some [k] \<Rightarrow> if k \<noteq> [] then k else ''agent:main:main''
     | _ \<Rightarrow> ''agent:main:main''))"

definition create_session :: "upstream \<Rightarrow> bridge_err option \<times> upstream" where
  "create_session u =
     (let (i, u1) = nextReqID ''sess-create'' u
      in case uc_send (request_frame i ''sessions.create'' (str_obj [(''channel'', ''webchat'')])) (await i u1) of
           (False, u2) \<Rightarrow> (Some WriteFailed, u2)
         | (True, u2) \<Rightarrow> (case readUntilRes i u2 of
              (None, u3) \<Rightarrow> (Some ReadFailed, u3)
            | (Some r, u3) \<Rightarrow>
                if \<not> wr_OK r then (Some SessionRejected, u3)
                else (None, u3\<lparr>uc_sessionKey := created_key (wr_Payload r)\<rparr>)))"

definition ensureSession :: "upstream \<Rightarrow> bridge_err option \<times> upstream" where
  "ensureSession u =
     (let (i, u1) = nextReqID ''sess-list'' u
      in case uc_send (request_frame i ''sessions.list'' (JObj [])) (await i u1) of
           (False, u2) \<Rightarrow> (Some WriteFailed, u2)
         | (True, u2) \<Rightarrow> (case readUntilRes i u2 of
              (None, u3) \<Rightarrow> (Some ReadFailed, u3)
            | (Some r, u3) \<Rightarrow>
                (case (if wr_OK r then first_session (wr_Payload r) else None) of
                   Some k \<Rightarrow> (None, u3\<lparr>uc_sessionKey := k\<rparr>)
                 | None \<Rightarrow> create_session u3)))"

definition dialUpstream :: "'r chat \<Rightarrow> bridge_env \<Rightarrow> string \<Rightarrow> string \<Rightarrow> kube \<Rightarrow> (bridge_err + upstream) \<times> kube" where
  "dialUpstream c en slug email w = (case loadBridgeConfig c en slug w of
     (Inl e, w1) \<Rightarrow> (Inl e, w1)
   | (Inr cfg, w1) \<Rightarrow>
      (let bridgeOrigin = (if be_origin en = [] then ''https://kai.emai.dev'' else be_origin en)
       in case be_dial en (bc_GatewayURL cfg) bridgeOrigin of
            None \<Rightarrow> (Inl (DialFailed (bc_GatewayURL cfg)), w1)
          | Some (frames, writes) \<Rightarrow>
             (case handshake \<lparr>uc_frames = frames, uc_writes = writes, uc_sent = [], uc_cfg = cfg, uc_email = email,
                 uc_sessionKey = [], uc_pendingReq = [], uc_reqCounter = 0\<rparr> of
                (Some e, _) \<Rightarrow> (Inl e, w1)
              | (None, u) \<Rightarrow> (case ensureSession u of (Some e, _) \<Rightarrow> (Inl e, w1) | (None, u') \<Rightarrow> (Inr u', w1)))))"

section \<open>Chat messages\<close>

definition sendChat :: "string \<Rightarrow> int \<Rightarrow> upstream \<Rightarrow> bool \<times> upstream" where
  \<comment> \<open>the second argument is the clock in milliseconds\<close>
  "sendChat text ms u =
     (let (i, u1) = nextReqID ''chat'' u
      in uc_send (request_frame i ''chat.send'' (JObj [(''deliver'', JBool False),
           (''idempotencyKey'', JStr (''msg-'' @ dec_int ms @ ''-'' @ i)), (''message'', JStr text), (''sessionKey'', JStr (uc_sessionKey u1))])) u1)"

record chat_message =
  cm_Role :: string
  cm_Text :: string

definition block_of :: "json \<Rightarrow> (string \<times> string) option" where
  "block_of j = (case fields_of [''type'', ''text''] j of Some [ty, tx] \<Rightarrow> Some (ty, tx) | _ \<Rightarrow> None)"

definition content_of :: "(string \<times> json) list \<Rightarrow> (string \<times> string) list option" where
  "content_of ms = set_list block_of (members_for ''content'' ms) []"

definition entry_content :: "json \<Rightarrow> (string \<times> (string \<times> string) list) option" where
  "entry_content j = (case (fields_of [''role''] j, object_opt j) of
     (Some [ro], Some ms) \<Rightarrow> map_option (Pair ro) (content_of ms)
   | _ \<Rightarrow> None)"

fun join_blocks :: "string \<Rightarrow> (string \<times> string) list \<Rightarrow> string" where
  "join_blocks sb [] = sb"
| "join_blocks sb ((ty, tx) # bs) =
     (if ty = ''text'' \<and> tx \<noteq> [] \<and> \<not> has_prefix ''{'' tx
      then join_blocks ((if sb \<noteq> [] then sb @ [CHR 0x0A] else sb) @ tx) bs
      else join_blocks sb bs)"

definition shown :: "string \<times> (string \<times> string) list \<Rightarrow> chat_message option" where
  "shown m = (case m of (ro, bs) \<Rightarrow>
     if ro \<noteq> ''user'' \<and> ro \<noteq> ''assistant'' then None
     else (let text = trim_space (join_blocks [] bs) in if text = [] then None else Some \<lparr>cm_Role = ro, cm_Text = text\<rparr>))"

definition history_of :: "ws_res \<Rightarrow> bridge_err + chat_message list" where
  \<comment> \<open>\<open>requestHistory\<close> once the response is there\<close>
  "history_of r =
     (if \<not> wr_OK r then Inl HistoryRejected
      else (case wr_Payload r of None \<Rightarrow> Inl BadHistory
        | Some j \<Rightarrow> (case object_opt j of None \<Rightarrow> Inl BadHistory
          | Some ms \<Rightarrow> (case set_list entry_content (members_for ''messages'' ms) [] of None \<Rightarrow> Inl BadHistory
            | Some es \<Rightarrow> Inr (List.map_filter shown es)))))"

definition ask_history :: "upstream \<Rightarrow> (bool \<times> string) \<times> upstream" where
  \<comment> \<open>\<open>requestHistory\<close> up to its wait\<close>
  "ask_history u =
     (let (i, u1) = nextReqID ''history'' u;
          (ok, u2) = uc_send (request_frame i ''chat.history'' (JObj [(''limit'', JNum (dec_int 50)), (''sessionKey'', JStr (uc_sessionKey u1))])) (await i u1)
      in ((ok, i), u2))"

definition requestHistory :: "upstream \<Rightarrow> (bridge_err + chat_message list) \<times> upstream" where
  \<comment> \<open>while nothing else reads the connection\<close>
  "requestHistory u = (case ask_history u of
     ((False, _), u1) \<Rightarrow> (Inl WriteFailed, u1)
   | ((True, i), u1) \<Rightarrow> (case readUntilRes i u1 of
        (None, u2) \<Rightarrow> (Inl ReadFailed, u2)
      | (Some r, u2) \<Rightarrow> (history_of r, u2)))"

section \<open>What the browser is told\<close>

definition chat_blocks :: "(string \<times> string) list \<Rightarrow> string" where
  \<comment> \<open>the text blocks of an event, joined\<close>
  "chat_blocks bs = concat (map (\<lambda>(ty, tx). if ty = ''text'' \<and> tx \<noteq> [] then tx else []) bs)"

definition delta_msg :: "string \<Rightarrow> string \<Rightarrow> json" where
  "delta_msg run text = str_obj [(''runId'', run), (''text'', text), (''type'', ''delta'')]"

definition final_msg :: "string \<Rightarrow> string \<Rightarrow> json" where
  "final_msg run text = str_obj [(''runId'', run), (''text'', text), (''type'', ''final'')]"

definition error_msg :: "string \<Rightarrow> json" where
  "error_msg m = str_obj [(''message'', m), (''type'', ''error'')]"

definition ready_msg :: "string \<Rightarrow> json" where
  "ready_msg email = str_obj [(''email'', email), (''type'', ''ready'')]"

definition history_msg :: "chat_message list \<Rightarrow> json" where
  "history_msg ms = JObj [(''messages'', JArr (map (\<lambda>m. str_obj [(''role'', cm_Role m), (''text'', cm_Text m)]) ms)), (''type'', JStr ''history'')]"

record chat_event =
  ce_State :: string
  ce_RunID :: string
  ce_Error :: string
  ce_Content :: "(string \<times> string) list"

fun set_message :: "json list \<Rightarrow> (string \<times> string) list \<Rightarrow> (string \<times> string) list option" where
  \<comment> \<open>the field \<open>Message\<close>\<close>
  "set_message [] cur = Some cur"
| "set_message (j # js) cur = (case object_opt j of None \<Rightarrow> None
   | Some ms \<Rightarrow> (case set_list block_of (members_for ''content'' ms) cur of None \<Rightarrow> None | Some bs \<Rightarrow> set_message js bs))"

definition chat_event_of :: "json \<Rightarrow> chat_event option" where
  "chat_event_of j = (case (fields_of [''state'', ''runId'', ''errorMessage''] j, object_opt j) of
     (Some [sta, run, err], Some ms) \<Rightarrow> (case set_message (members_for ''message'' ms) [] of None \<Rightarrow> None
       | Some bs \<Rightarrow> Some \<lparr>ce_State = sta, ce_RunID = run, ce_Error = err, ce_Content = bs\<rparr>)
   | _ \<Rightarrow> None)"

definition event_payload :: "string \<Rightarrow> json option" where
  \<comment> \<open>of an event named \<open>chat\<close>\<close>
  "event_payload raw = (case json_unmarshal raw of None \<Rightarrow> None
   | Some j \<Rightarrow> (case (fields_of [''type'', ''event''] j, object_opt j) of
       (Some [ty, ev], Some ms) \<Rightarrow> if ty \<noteq> ''event'' \<or> ev \<noteq> ''chat'' then None else raw_field ''payload'' ms
     | _ \<Rightarrow> None))"

definition chat_out :: "string \<Rightarrow> json option" where
  \<comment> \<open>one round of \<open>pumpUpstreamToBrowser\<close>: the message a frame becomes\<close>
  "chat_out raw = (case event_payload raw of None \<Rightarrow> None
   | Some pl \<Rightarrow> (case chat_event_of pl of None \<Rightarrow> None
     | Some p \<Rightarrow>
        (let sb = chat_blocks (ce_Content p) in
         if ce_State p = ''delta'' then (if sb \<noteq> [] then Some (delta_msg (ce_RunID p) sb) else None)
         else if ce_State p = ''final'' then Some (final_msg (ce_RunID p) sb)
         else if ce_State p = ''error'' then Some (error_msg (if ce_Error p = [] then ''agent error'' else ce_Error p))
         else None)))"

section \<open>The two loops\<close>

text \<open>
  The goroutine of \<open>pumpUpstreamToBrowser\<close> and the loop of \<open>handleWS\<close> run at the same time and both may read
  the upstream connection: the pump always, the loop while it waits for a history it asked for.  A frame goes
  to whichever of the two reads it.  A move of either is one step; any interleaving is possible.
\<close>

datatype main_at = AtCheck | AtRead | AtHistory string | Stopped

record bridge =
  br_up :: upstream
  br_in :: "string list"  \<comment> \<open>what the browser will send\<close>
  br_writes :: "bool list"
  br_out :: "json list"  \<comment> \<open>written to the browser\<close>
  br_pump :: bool  \<comment> \<open>the pump runs\<close>
  br_main :: main_at
  br_done :: bool  \<comment> \<open>the context is cancelled\<close>

definition sendJSON :: "json \<Rightarrow> bridge \<Rightarrow> bool \<times> bridge" where
  "sendJSON m s = (case br_writes s of
     [] \<Rightarrow> (True, s\<lparr>br_out := br_out s @ [m]\<rparr>)
   | ok # r \<Rightarrow> (ok, s\<lparr>br_writes := r, br_out := (if ok then br_out s @ [m] else br_out s)\<rparr>))"

definition browser_msg :: "string \<Rightarrow> (string \<times> string) option" where
  "browser_msg raw = (case json_unmarshal raw of None \<Rightarrow> None
   | Some j \<Rightarrow> (case fields_of [''type'', ''text''] j of Some [ty, tx] \<Rightarrow> Some (ty, tx) | _ \<Rightarrow> None))"

definition pump_move :: "bridge \<Rightarrow> bridge" where
  "pump_move s =
     (if \<not> br_pump s then s
      else if br_done s then s\<lparr>br_pump := False\<rparr>
      else (case uc_frames (br_up s) of
          [] \<Rightarrow> s\<lparr>br_pump := False\<rparr>
        | raw # rest \<Rightarrow>
            (let s1 = s\<lparr>br_up := (br_up s)\<lparr>uc_frames := rest\<rparr>\<rparr> in
             case chat_out raw of None \<Rightarrow> s1
             | Some m \<Rightarrow> (case sendJSON m s1 of (True, s2) \<Rightarrow> s2 | (False, s2) \<Rightarrow> s2\<lparr>br_pump := False\<rparr>))))"

definition main_send :: "string \<Rightarrow> int \<Rightarrow> bridge \<Rightarrow> bridge" where
  "main_send text ms s =
     (if trim_space text = [] then s
      else (case sendChat text ms (br_up s) of
          (True, u) \<Rightarrow> s\<lparr>br_up := u\<rparr>
        | (False, u) \<Rightarrow> snd (sendJSON (error_msg ''Failed to send.'') (s\<lparr>br_up := u\<rparr>))))"

definition stop :: "bridge \<Rightarrow> bridge" where
  \<comment> \<open>\<open>return\<close>, with the deferred \<open>cancel\<close>\<close>
  "stop s = s\<lparr>br_main := Stopped, br_done := True\<rparr>"

definition main_move :: "int \<Rightarrow> bridge \<Rightarrow> bridge" where
  \<comment> \<open>one step of the loop of \<open>handleWS\<close> at a time in milliseconds\<close>
  "main_move ms s = (case br_main s of
     AtCheck \<Rightarrow> if br_done s \<or> \<not> br_pump s then stop s else s\<lparr>br_main := AtRead\<rparr>
   | AtRead \<Rightarrow>
       (if br_done s then stop s
        else (case br_in s of
            [] \<Rightarrow> stop s
          | raw # rest \<Rightarrow>
              (let s1 = s\<lparr>br_in := rest, br_main := AtCheck\<rparr> in
               case browser_msg raw of
                 None \<Rightarrow> s1
               | Some (ty, text) \<Rightarrow>
                   if ty = ''send'' then main_send text ms s1
                   else if ty = ''history''
                     then (case ask_history (br_up s1) of ((ok, i), u) \<Rightarrow>
                             s1\<lparr>br_up := u, br_main := (if ok then AtHistory i else AtCheck)\<rparr>)
                   else s1)))
   | AtHistory i \<Rightarrow>
       (if br_done s then s\<lparr>br_main := AtCheck\<rparr>
        else (case uc_frames (br_up s) of
            [] \<Rightarrow> s\<lparr>br_main := AtCheck\<rparr>
          | raw # rest \<Rightarrow>
              (let s1 = s\<lparr>br_up := (br_up s)\<lparr>uc_frames := rest\<rparr>\<rparr> in
               case res_with i raw of
                 None \<Rightarrow> s1
               | Some r \<Rightarrow> (case history_of r of
                     Inl _ \<Rightarrow> s1\<lparr>br_main := AtCheck\<rparr>
                   | Inr hist \<Rightarrow> (snd (sendJSON (history_msg hist) s1))\<lparr>br_main := AtCheck\<rparr>))))
   | Stopped \<Rightarrow> s)"

definition timeout_move :: "bridge \<Rightarrow> bridge" where
  \<comment> \<open>the wait for a history runs out: an expired context closes the connection\<close>
  "timeout_move s = (case br_main s of
     AtHistory i \<Rightarrow> s\<lparr>br_main := AtCheck, br_up := (br_up s)\<lparr>uc_frames := []\<rparr>\<rparr>
   | _ \<Rightarrow> s)"

inductive bridge_step :: "bridge \<Rightarrow> bridge \<Rightarrow> bool" where
  pump: "bridge_step s (pump_move s)"
| main: "bridge_step s (main_move ms s)"
| timeout: "bridge_step s (timeout_move s)"
| cancelled: "bridge_step s (s\<lparr>br_done := True\<rparr>)"

section \<open>The handler\<close>

definition start_bridge :: "bridge_env \<Rightarrow> string \<Rightarrow> upstream \<Rightarrow> bridge option" where
  \<comment> \<open>ready and history, up to the start of the two loops; \<open>None\<close>: the browser is gone\<close>
  "start_bridge en email u =
     (let s = \<lparr>br_up = u, br_in = be_frames en, br_writes = be_writes en, br_out = [], br_pump = True, br_main = AtCheck, br_done = False\<rparr>
      in case sendJSON (ready_msg email) s of
           (False, _) \<Rightarrow> None
         | (True, s1) \<Rightarrow> (case requestHistory u of
              (Inr hist, u1) \<Rightarrow> Some (if hist \<noteq> [] then snd (sendJSON (history_msg hist) (s1\<lparr>br_up := u1\<rparr>)) else s1\<lparr>br_up := u1\<rparr>)
            | (Inl _, u1) \<Rightarrow> Some (s1\<lparr>br_up := u1\<rparr>)))"

definition demo_greeting :: "string \<Rightarrow> json" where
  "demo_greeting email = history_msg [\<lparr>cm_Role = ''assistant'', cm_Text = ''Hi '' @ email @ '' '' @ [CHR 0xE2, CHR 0x80, CHR 0x94]
     @ '' this is a local demo. Send anything; I'' @ [CHR 0x27] @ ''ll echo it back with a smile.''\<rparr>]"

definition demo_reply :: "string \<Rightarrow> int \<Rightarrow> json list" where
  \<comment> \<open>what one message is answered, in this order; the answers to several messages may mix\<close>
  "demo_reply text ms = (let run = ''demo-'' @ dec_int ms in
     map (delta_msg run) [''You said: '', text, [CHR 0x0A, CHR 0x0A] @ ''_(Demo mode '' @ [CHR 0xE2, CHR 0x80, CHR 0x94] @ '' no upstream agent.)_'']
     @ [final_msg run []])"

definition demo_answers :: "string \<Rightarrow> int \<Rightarrow> json list" where
  \<comment> \<open>to one frame of the browser\<close>
  "demo_answers raw ms = (case browser_msg raw of
     Some (ty, text) \<Rightarrow> if ty \<noteq> ''send'' \<or> trim_space text = [] then [] else demo_reply text ms
   | None \<Rightarrow> [])"

definition runDemoLoop :: "bridge_env \<Rightarrow> string \<Rightarrow> int list \<Rightarrow> json list \<times> json list list" where
  \<comment> \<open>what is written first, and the answers to the frames, which come at the given times\<close>
  "runDemoLoop en email clock =
     (if take 1 (be_writes en) = [False] then ([], [])
      else ([ready_msg email, demo_greeting email], map (\<lambda>(raw, ms). demo_answers raw ms) (zip (be_frames en) clock)))"

datatype ws_outcome =
  WsRefused int string  \<comment> \<open>\<open>http.Error\<close>\<close>
| WsNotUpgraded  \<comment> \<open>\<open>websocket.Accept\<close> has answered\<close>
| WsDemo string
| WsUnreachable "json list"  \<comment> \<open>what was written before the close\<close>
| WsGone
| WsBridged bridge

definition handleWS :: "'r chat \<Rightarrow> bridge_env \<Rightarrow> ws_request \<Rightarrow> gotime \<Rightarrow> 'r chat_state \<Rightarrow> ws_outcome \<times> 'r chat_state" where
  "handleWS c en r now st =
     (let slug = wq_slug r in
      if slug_rejected slug then (WsRefused 400 ''bad slug'', st)
      else (case chat_authedClaims c r slug now st of
          (None, st1) \<Rightarrow> (WsRefused 401 ''unauthorized'', st1)
        | (Some claims, st1) \<Rightarrow>
            (let allowed = (if be_allowed en \<noteq> [] then split_on (CHR '','') (be_allowed en) else []) in
             if \<not> be_accept en allowed then (WsNotUpgraded, st1)
             else if ch_demoMode c then (WsDemo (c_Sub claims), st1)
             else (case dialUpstream c en slug (c_Sub claims) (ct_kube st1) of
                 (Inl _, w) \<Rightarrow> (WsUnreachable [error_msg ''Cannot reach the agent right now.''], st1\<lparr>ct_kube := w\<rparr>)
               | (Inr u, w) \<Rightarrow>
                   (case start_bridge en (c_Sub claims) u of
                      None \<Rightarrow> (WsGone, st1\<lparr>ct_kube := w\<rparr>)
                    | Some s \<Rightarrow> (WsBridged s, st1\<lparr>ct_kube := w\<rparr>))))))"

end
