(* ===== verification/ChatSafety.thy ===== *)
theory ChatSafety
  imports WorkspaceSafety Chat
begin

text \<open>
  Sessions across the two servers: the chat server accepts what the workspace server accepts, gives sessions of
  its own only to listed users, and opens to the session a SaaS login made.
\<close>

section \<open>One session for both servers\<close>

definition same_deployment :: "('s, 'r) ws \<Rightarrow> 'r chat \<Rightarrow> bool" where
  \<comment> \<open>configured alike, outside the demo mode\<close>
  "same_deployment c d \<longleftrightarrow> ws_namespace c = ch_namespace d \<and> \<not> ws_demoMode c \<and> \<not> ch_demoMode d \<and> ws_core c = ch_core d
     \<and> ws_hmac c = ch_hmac d \<and> ws_revoker c = ch_revoker d"

definition chat_view :: "('s, 'r) ws_state \<Rightarrow> 'r chat_state" where
  "chat_view st = \<lparr>ct_kube = wt_kube st, ct_rev = wt_rev st\<rparr>"

lemma chat_jwt_same: "same_deployment c d \<Longrightarrow> chat_resolveJWTSecret d slug w = resolveJWTSecret c slug w"
  by (simp add: same_deployment_def chat_resolveJWTSecret_def resolveJWTSecret_def chat_readJWTSecret_def readJWTSecret_def
      data_of_def split: option.split sum.split prod.split)

text \<open>C17: workspace and chat server accept the same sessions: configured alike and in the same cluster they answer
  every cookie under every slug at every time with the same claims or the same refusal, and change the state alike.\<close>

theorem chat_accepts_workspace_sessions:
  assumes "same_deployment c d"
  shows "chat_authedClaims d r slug t (chat_view st) = apsnd chat_view (authedClaims c r slug t st)"
proof -
  note same = chat_jwt_same[OF assms, of slug "wt_kube st"]
  have "ch_hmac d = ws_hmac c" "ch_revoker d = ws_revoker c" using assms by (simp_all add: same_deployment_def)
  with same show ?thesis
    by (auto simp: chat_authedClaims_def authedClaims_def chat_view_def Let_def split: option.split prod.split bool.split)
qed

definition chat_demo :: "revocation_lists chat" where
  "chat_demo = \<lparr>ch_namespace = ''emai-swarm'', ch_demoMode = False, ch_devSecret = [], ch_dyn = True, ch_core = True,
     ch_revoker = ws_revoker sws, ch_hmac = (\<lambda>k m. k @ m), ch_argon = (\<lambda>p s _ _ _ _. p), ch_version = 19\<rparr>"

lemma same_demo: "same_deployment sws chat_demo"
  by (simp add: same_deployment_def chat_demo_def sws_simps(1,3,5,6))

corollary chat_accepts_workspace_sessions_witness:
  "fst (chat_authedClaims chat_demo ann_request ''acme'' 0 (chat_view (acme_state [] []))) = Some ann_claims"
  using chat_accepts_workspace_sessions[OF same_demo, of ann_request "''acme''" 0 "acme_state [] []"] ann_session[of "[]"]
  by (simp add: apsnd_def map_prod_def split_beta)

section \<open>Logins at the chat server\<close>

lemma chat_readUsers_Some:
  assumes "chat_readUsers c slug w = (Some us, w')"
  shows "same_objects w w' \<and> (\<exists>sec. map_of (kb_secrets w) (ch_namespace c, ''kai-'' @ slug @ ''-users'') = Some sec \<and> users_in sec = Some us)"
proof -
  obtain x w1 where g: "ks_get (ch_namespace c, ''kai-'' @ slug @ ''-users'') w = (x, w1)" by fastforce
  then have "same_objects w w1" using reads_keep(4)[of w] by (metis snd_conv)
  with assms g show ?thesis
    by (auto simp: chat_readUsers_def Let_def users_in_def usersSecretKey_def split: if_splits sum.splits dest!: ks_get_Inr)
qed

lemma chat_readJWTSecret_Some:
  assumes "chat_readJWTSecret c slug w = (Some k, w')"
  shows "k \<noteq> [] \<and> (\<exists>sec. map_of (kb_secrets w) (ch_namespace c, ''kai-'' @ slug @ ''-chat-bridge'') = Some sec \<and> data_of sec ''jwt-secret'' = k)"
  using assms by (auto simp: chat_readJWTSecret_def data_of_def split: if_splits sum.splits prod.splits option.splits dest!: ks_get_Inr)

lemma chat_login_kube_keeps: "same_objects w (snd (chat_login_kube c slug email pw en w))"
proof -
  have r: "same_objects w (snd (chat_readUsers c slug w))" for w
    by (cases "chat_readUsers c slug w") (use reads_keep(4) in \<open>auto simp: chat_readUsers_def Let_def split: if_splits sum.splits prod.splits; metis snd_conv\<close>)
  have j: "same_objects w (snd (chat_readJWTSecret c slug w))" for w
    using reads_keep(4)[of w "(ch_namespace c, ''kai-'' @ slug @ ''-chat-bridge'')"]
    by (auto simp: chat_readJWTSecret_def split: sum.splits prod.splits option.splits)
  obtain x w1 where x: "chat_readUsers c slug w = (x, w1)" by fastforce
  obtain y w2 where y: "chat_readJWTSecret c slug w1 = (y, w2)" by fastforce
  have "same_objects w w1" "same_objects w w2" using r[of w] j[of w1] same_objects_trans by (auto simp: x y)
  then show ?thesis by (simp add: chat_login_kube_def x y split: option.split)
qed

lemma chat_login_kube_cookie:
  assumes "rs_cookies (fst (chat_login_kube c slug email pw en w)) \<noteq> []"
  shows "\<exists>us usec u jsec ck. map_of (kb_secrets w) (ch_namespace c, ''kai-'' @ slug @ ''-users'') = Some usec \<and> users_in usec = Some us
    \<and> find (\<lambda>v. equal_fold (ur_Email v) email) us = Some u \<and> VerifyArgon2id (ch_argon c) (ch_version c) pw (ur_PasswordHash u)
    \<and> map_of (kb_secrets w) (ch_namespace c, ''kai-'' @ slug @ ''-chat-bridge'') = Some jsec \<and> data_of jsec ''jwt-secret'' \<noteq> []
    \<and> IssueSession (ch_hmac c) slug email (data_of jsec ''jwt-secret'') (we_now en) (we_jti en) = Some ck
    \<and> rs_cookies (fst (chat_login_kube c slug email pw en w)) = [ck]"
proof -
  obtain us w1 where us: "chat_readUsers c slug w = (Some us, w1)"
    using assms by (auto simp: chat_login_kube_def split: prod.splits option.splits)
  obtain k w2 where k: "chat_readJWTSecret c slug w1 = (Some k, w2)"
    using assms by (auto simp: chat_login_kube_def us split: prod.splits option.splits)
  obtain u ck where u: "find (\<lambda>v. equal_fold (ur_Email v) email) us = Some u" "VerifyArgon2id (ch_argon c) (ch_version c) pw (ur_PasswordHash u)"
    "IssueSession (ch_hmac c) slug email k (we_now en) (we_jti en) = Some ck"
    "rs_cookies (fst (chat_login_kube c slug email pw en w)) = [ck]"
    using assms by (auto simp: chat_login_kube_def us k chat_issueAndSetSession_def chat_welcome_def split: option.splits if_splits)
  show ?thesis using chat_readUsers_Some[OF us] chat_readJWTSecret_Some[OF k] u by (auto simp: same_objects_def)
qed

lemma chat_handleLogin_kube:
  assumes "\<not> ch_demoMode c" "chat_handleLogin c r en st = (rs, st')" "rs_cookies rs \<noteq> []"
  shows "\<not> slug_rejected (wq_slug r) \<and> (\<exists>em pw. decode_fields [''email'', ''password''] (wq_Body r) = Some [em, pw]
    \<and> rs = fst (chat_login_kube c (wq_slug r) (norm em) pw en (ct_kube st)))"
  using assms by (auto simp: chat_handleLogin_def norm_def Let_def split: if_splits option.splits list.splits prod.splits)

text \<open>The chat server gives sessions only to listed users: outside the demo mode a login answers with a cookie
  only for a valid slug, for the password of the first listed user of that address, and the cookie is one session of the slug
  signed with the workspace's own secret; an empty list lets nobody in, and no login changes a stored object.\<close>

theorem chat_login_entitled:
  assumes "\<not> ch_demoMode c" "chat_handleLogin c r en st = (rs, st')"
  shows "same_objects (ct_kube st) (ct_kube st') \<and> ct_rev st' = ct_rev st \<and> (rs_cookies rs \<noteq> [] \<longrightarrow> \<not> slug_rejected (wq_slug r)
    \<and> (\<exists>em pw us usec u jsec ck. decode_fields [''email'', ''password''] (wq_Body r) = Some [em, pw]
        \<and> map_of (kb_secrets (ct_kube st)) (ch_namespace c, ''kai-'' @ wq_slug r @ ''-users'') = Some usec \<and> users_in usec = Some us
        \<and> find (\<lambda>v. equal_fold (ur_Email v) (norm em)) us = Some u \<and> VerifyArgon2id (ch_argon c) (ch_version c) pw (ur_PasswordHash u)
        \<and> map_of (kb_secrets (ct_kube st)) (ch_namespace c, ''kai-'' @ wq_slug r @ ''-chat-bridge'') = Some jsec \<and> data_of jsec ''jwt-secret'' \<noteq> []
        \<and> IssueSession (ch_hmac c) (wq_slug r) (norm em) (data_of jsec ''jwt-secret'') (we_now en) (we_jti en) = Some ck \<and> rs_cookies rs = [ck]))"
proof -
  have kube: "same_objects (ct_kube st) (ct_kube st') \<and> ct_rev st' = ct_rev st"
    using assms chat_login_kube_keeps[of "ct_kube st"]
    by (auto simp: chat_handleLogin_def Let_def split_beta split: if_splits option.splits list.splits)
  show ?thesis using kube chat_handleLogin_kube[OF assms] chat_login_kube_cookie by metis
qed

corollary chat_login_entitled_witness:
  "rs_cookies (fst (chat_handleLogin chat_demo mal_login calm_env (chat_view (acme_state [] [])))) = []"
proof -
  obtain rs st' where l: "chat_handleLogin chat_demo mal_login calm_env (chat_view (acme_state [] [])) = (rs, st')" by fastforce
  have "\<not> ch_demoMode chat_demo" by (simp add: chat_demo_def)
  note e = chat_login_entitled[OF this l]
  have "map_of (kb_secrets (ct_kube (chat_view (acme_state [] [])))) (ch_namespace chat_demo, ''kai-'' @ wq_slug mal_login @ ''-users'')
      = Some \<lparr>sc_data = [(usersSecretKey, marshal_users [])], sc_version = 1\<rparr>"
    by (simp add: chat_view_def acme_state_def acme_kube_def acme_secrets_def chat_demo_def mal_login_def)
  then have "rs_cookies rs = []" using e sws_simps(11)[of "[]"] by auto
  then show ?thesis by (simp add: l)
qed

section \<open>A workspace session opens the chat\<close>

definition account_email :: "('s, 'r) ws \<Rightarrow> kai \<Rightarrow> string \<Rightarrow> string \<Rightarrow> 's \<Rightarrow> string \<Rightarrow> bool" where
  \<comment> \<open>the address under which a login with this address and password goes\<close>
  "account_email c k em pw us email \<longleftrightarrow>
     (if saas_managed k then \<exists>u. owns c em pw k us u \<and> email = u_Email u else email = em)"

lemma entitled_session:
  "entitled c slug em pw k us w en rs \<Longrightarrow> \<exists>email uid. session_for c w slug email uid en rs \<and> account_email c k em pw us email"
  by (auto simp: entitled_def account_email_def split: if_splits)

lemma chat_authedClaims_live:
  assumes "\<not> ch_demoMode d" "ch_core d" "kb_faults (ct_kube st) = []" "wq_cookie r = Some v" "v \<noteq> []"
    and "map_of (kb_secrets (ct_kube st)) (ch_namespace d, ''kai-'' @ slug @ ''-chat-bridge'') = Some sec" "data_of sec ''jwt-secret'' = key" "key \<noteq> []"
    and "\<And>rv cl. ch_revoker d = Some rv \<Longrightarrow> Authenticate (ch_hmac d) v slug key t = Some cl \<Longrightarrow>
           fst (rv_IsRevoked rv slug (c_Jti cl) t (ct_rev st)) = Some False"
  shows "fst (chat_authedClaims d r slug t st) = Authenticate (ch_hmac d) v slug key t"
proof -
  have "chat_resolveJWTSecret d slug (ct_kube st) = (Some key, ct_kube st)"
    using assms(1-3,6-8) by (auto simp: chat_resolveJWTSecret_def chat_readJWTSecret_def ks_get_def data_of_def split: option.splits)
  with assms(4,5,9) show ?thesis
    by (auto simp: chat_authedClaims_def split_beta split: option.split) 
qed

text \<open>A workspace login opens the chat: the cookie of a login at the workspace server is accepted by the chat server
  of the same deployment under the same slug for exactly 24 hours, as long as the signing key stays and the session is not
  revoked, and the chat server greets the caller with the address of the account that logged in.\<close>

theorem login_opens_chat:
  assumes "same_deployment c d" "handleLogin c r en st = (rs, st')" "ck \<in> set (rs_cookies rs)"
    and "wq_slug r' = wq_slug r" "wq_cookie r' = Some (ck_Value ck)" "kb_faults (ct_kube st2) = []"
    and "map_of (kb_secrets (ct_kube st2)) (ch_namespace d, ''kai-'' @ wq_slug r @ ''-chat-bridge'')
       = map_of (kb_secrets (wt_kube st)) (ch_namespace d, ''kai-'' @ wq_slug r @ ''-chat-bridge'')" "ch_core d"
    and "\<And>rv b. ch_revoker d = Some rv \<Longrightarrow> we_jti en = Some b \<Longrightarrow>
           fst (rv_IsRevoked rv (wq_slug r) (hex_encode b) (we_now en') (ct_rev st2)) = Some False"
    and "in_int64 (unix_sec (we_now en))" "in_int64 (unix_sec (we_now en) + 86400)"
  shows "\<exists>em pw k email. decode_fields [''email'', ''password''] (wq_Body r) = Some [em, pw]
    \<and> map_of (kb_kais (wt_kube st)) (ws_namespace c, ''kai-'' @ wq_slug r) = Some k \<and> account_email c k (norm em) pw (wt_users st) email
    \<and> fst (chat_handleMe d r' en' st2) =
        (if unix_sec (we_now en') < unix_sec (we_now en) + 86400
         then writeJSON 200 (str_obj [(''email'', email), (''slug'', wq_slug r)]) else writeErr 401 ''not logged in'')"
proof -
  have d: "\<not> ws_demoMode c" "\<not> ch_demoMode d" "ws_hmac c = ch_hmac d" "ws_namespace c = ch_namespace d"
    using assms(1) by (simp_all add: same_deployment_def)
  have ne: "rs_cookies rs \<noteq> []" using assms(3) by auto
  obtain em pw k where k: "decode_fields [''email'', ''password''] (wq_Body r) = Some [em, pw]"
    "map_of (kb_kais (wt_kube st)) (ws_namespace c, ''kai-'' @ wq_slug r) = Some k"
    "entitled c (wq_slug r) (norm em) pw k (wt_users st) (wt_kube st) en rs"
    using handleLogin_entitled[OF d(1) assms(2) ne] by blast
  obtain email uid where s: "session_for c (wt_kube st) (wq_slug r) email uid en rs" "account_email c k (norm em) pw (wt_users st) email"
    using entitled_session[OF k(3)] by blast
  obtain sec where i: "map_of (kb_secrets (wt_kube st)) (ws_namespace c, ''kai-'' @ wq_slug r @ ''-chat-bridge'') = Some sec"
    "data_of sec ''jwt-secret'' \<noteq> []"
    "IssueSessionWithUID (ws_hmac c) (wq_slug r) email uid (data_of sec ''jwt-secret'') (we_now en) (we_jti en) = Some ck"
    using s(1) assms(3) by (auto simp: session_for_def)
  obtain b where b: "we_jti en = Some b" using i(3) by (cases "we_jti en") (auto simp: IssueSessionWithUID_def newJTI_def)
  note au = issued_session[OF i(3)[unfolded b] i(2) assms(10,11), where slug' = "wq_slug r" and t = "we_now en'", simplified, folded d(3)]
  have v: "ck_Value ck \<noteq> []"
    using i(3) by (auto simp: IssueSessionWithUID_def SignJWT_form Let_def split: option.splits)
  have "fst (chat_authedClaims d r' (wq_slug r) (we_now en') st2) = Authenticate (ch_hmac d) (ck_Value ck) (wq_slug r) (data_of sec ''jwt-secret'') (we_now en')"
    by (rule chat_authedClaims_live[OF d(2) assms(8,6,5) v _ refl i(2)])
      (use assms(7,9) i(1) b au d in \<open>auto split: if_splits\<close>)
  then have "fst (chat_handleMe d r' en' st2) =
        (if unix_sec (we_now en') < unix_sec (we_now en) + 86400
         then writeJSON 200 (str_obj [(''email'', email), (''slug'', wq_slug r)]) else writeErr 401 ''not logged in'')"
    using au d(3) by (simp add: chat_handleMe_def assms(4) split_beta)
  then show ?thesis using k(1,2) s(2) by blast
qed

corollary login_opens_chat_witness:
  "fst (chat_handleMe chat_demo (mal_login\<lparr>wq_cookie := Some (ck_Value (hd (rs_cookies (fst
       (handleLogin sws mal_login calm_env (acme_state [] []))))))\<rparr>) calm_env (chat_view (acme_state [] [])))
   = writeJSON 200 (str_obj [(''email'', ''mal@x.org''), (''slug'', ''acme'')])"
proof -
  obtain rs st' where h: "handleLogin sws mal_login calm_env (acme_state [] []) = (rs, st')" by fastforce
  have c: "hd (rs_cookies rs) \<in> set (rs_cookies rs)" using mal_bootstrap by (simp add: h)
  have wk: "wq_slug mal_login = ''acme''" "we_now calm_env = 0" by (simp_all add: mal_login_def calm_env_def)
  have ns: "ch_namespace chat_demo = ws_namespace sws" "kb_faults (ct_kube (chat_view (acme_state [] []))) = []" "ch_core chat_demo"
    by (simp_all add: chat_demo_def sws_simps(5) chat_view_def acme_state_def acme_kube_def)
  have bridge: "map_of (kb_secrets (ct_kube (chat_view (acme_state [] [])))) nn = map_of (kb_secrets (wt_kube (acme_state [] []))) nn" for nn
    by (simp add: chat_view_def)
  have rv: "fst (rv_IsRevoked rv slug (hex_encode b) t (ct_rev (chat_view (acme_state [] [])))) = Some False"
    if "ch_revoker chat_demo = Some rv" "we_jti calm_env = Some b" for rv b slug t
    using that by (simp add: chat_demo_def sws_simps(2) sr_api_def sr_revoked_def listed_def chat_view_def acme_state_def) auto
  have i: "in_int64 (unix_sec (we_now calm_env))" "in_int64 (unix_sec (we_now calm_env) + 86400)"
    by (simp_all add: wk(2) unix_sec_def in_int64_def int64_max_def)
  have u: "account_email sws k ''mal@x.org'' pw us email \<longleftrightarrow> email = ''mal@x.org''"
    if "map_of (kb_kais (wt_kube (acme_state [] []))) (ws_namespace sws, ''kai-acme'') = Some k" for k pw us email
    using that sws_simps(12)[of "[]" "[]"] by (simp add: account_email_def sws_simps(5)) (auto simp: acme_kai_def empty_spec_def)
  show ?thesis
    using login_opens_chat[OF same_demo h c, of "mal_login\<lparr>wq_cookie := Some (ck_Value (hd (rs_cookies rs)))\<rparr>" "chat_view (acme_state [] [])" calm_env,
        OF _ _ ns(2) bridge ns(3) rv i]
    by (auto simp: h wk mal_fields mal_norm u unix_sec_def)
qed

end
