(* ===== verification/BridgeSafety.thy ===== *)
theory BridgeSafety
  imports Bridge ChatSafety
begin

text \<open>
  What the chat bridge guarantees: the token leaves it only after the challenge, a bridge is opened only by a
  session of the workspace, what the agent says reaches the browser in order and what the browser sends reaches
  the agent exactly once, and every run ends; and what it does not: a history request made while the agent
  answers may swallow the answer, and the end of the upstream connection goes unnoticed.
\<close>

section \<open>Reading\<close>

lemma read_until_Some:
  "read_until f fs = Some (x, rest) \<longleftrightarrow> (\<exists>pre raw. fs = pre @ raw # rest \<and> f raw = Some x \<and> (\<forall>p \<in> set pre. f p = None))"
proof (induction fs)
  case (Cons g fs)
  show ?case
  proof (cases "f g")
    case None
    then have "read_until f (g # fs) = Some (x, rest)
        \<longleftrightarrow> (\<exists>pre raw. fs = pre @ raw # rest \<and> f raw = Some x \<and> (\<forall>p \<in> set pre. f p = None))"
      using Cons by simp
    also have "\<dots> \<longleftrightarrow> (\<exists>pre raw. g # fs = pre @ raw # rest \<and> f raw = Some x \<and> (\<forall>p \<in> set pre. f p = None))"
      using None by (auto simp: Cons_eq_append_conv)
    finally show ?thesis .
  qed (auto simp: Cons_eq_append_conv)
qed simp

lemma uc_read_until_Some:
  assumes "uc_read_until f u = (Some x, u')"
  obtains pre raw where "uc_frames u = pre @ raw # uc_frames u'" "f raw = Some x" "\<forall>p \<in> set pre. f p = None"
    "u' = u\<lparr>uc_frames := uc_frames u'\<rparr>"
  using assms by (auto simp: uc_read_until_def read_until_Some split: option.splits prod.splits)

lemma uc_read_until_fields [simp]:
  "uc_sent (snd (uc_read_until f u)) = uc_sent u" "uc_cfg (snd (uc_read_until f u)) = uc_cfg u"
  "uc_reqCounter (snd (uc_read_until f u)) = uc_reqCounter u" "uc_writes (snd (uc_read_until f u)) = uc_writes u"
  by (simp_all add: uc_read_until_def split: option.split prod.split)

lemma uc_send_fields [simp]:
  "uc_frames (snd (uc_send m u)) = uc_frames u" "uc_cfg (snd (uc_send m u)) = uc_cfg u"
  "uc_reqCounter (snd (uc_send m u)) = uc_reqCounter u" "uc_sessionKey (snd (uc_send m u)) = uc_sessionKey u"
  by (simp_all add: uc_send_def split: list.split)

lemma uc_send_sent: "uc_send m u = (ok, u') \<Longrightarrow> uc_sent u' = (if ok then uc_sent u @ [m] else uc_sent u)"
  by (auto simp: uc_send_def split: list.splits)

lemma uc_send_quiet: "uc_writes u = [] \<Longrightarrow> uc_send m u = (True, u\<lparr>uc_sent := uc_sent u @ [m]\<rparr>)"
  by (simp add: uc_send_def)

section \<open>Frames\<close>

text \<open>The frames of a small conversation, on which the witnesses run.\<close>

definition challenge_frame :: string where
  "challenge_frame = print_json (str_obj [(''event'', ''connect.challenge''), (''type'', ''event'')])"

definition res_frame :: "string \<Rightarrow> json \<Rightarrow> string" where
  "res_frame i pl = print_json (JObj [(''id'', JStr i), (''ok'', JBool True), (''payload'', pl), (''type'', JStr ''res'')])"

definition delta_frame :: "string \<Rightarrow> string \<Rightarrow> string" where
  "delta_frame run tx = print_json (JObj [(''event'', JStr ''chat''), (''payload'', JObj [(''message'', JObj [(''content'',
     JArr [str_obj [(''text'', tx), (''type'', ''text'')]])]), (''runId'', JStr run), (''state'', JStr ''delta'')]), (''type'', JStr ''event'')])"

definition send_frame :: "string \<Rightarrow> string" where
  "send_frame tx = print_json (str_obj [(''text'', tx), (''type'', ''send'')])"

lemma frame_keys:
  "equal_fold ''event'' ''type'' = False" "equal_fold ''type'' ''event'' = False" "equal_fold ''id'' ''type'' = False" "equal_fold ''type'' ''id'' = False"
  "equal_fold ''ok'' ''type'' = False" "equal_fold ''ok'' ''id'' = False" "equal_fold ''payload'' ''type'' = False" "equal_fold ''payload'' ''id'' = False"
  "equal_fold ''id'' ''ok'' = False" "equal_fold ''payload'' ''ok'' = False" "equal_fold ''type'' ''ok'' = False" "equal_fold ''event'' ''payload'' = False"
  "equal_fold ''type'' ''payload'' = False" "equal_fold ''id'' ''payload'' = False" "equal_fold ''ok'' ''payload'' = False" "equal_fold ''payload'' ''event'' = False"
  "equal_fold ''id'' ''error'' = False" "equal_fold ''ok'' ''error'' = False" "equal_fold ''payload'' ''error'' = False" "equal_fold ''type'' ''error'' = False"
  "equal_fold ''text'' ''type'' = False" "equal_fold ''type'' ''text'' = False" "equal_fold ''message'' ''state'' = False" "equal_fold ''runId'' ''state'' = False"
  "equal_fold ''message'' ''runId'' = False" "equal_fold ''state'' ''runId'' = False" "equal_fold ''message'' ''errorMessage'' = False"
  "equal_fold ''runId'' ''errorMessage'' = False" "equal_fold ''state'' ''errorMessage'' = False" "equal_fold ''runId'' ''message'' = False" "equal_fold ''state'' ''message'' = False"
  by (simp_all add: equal_fold_def to_lower_def lower_char_def is_upper_def code_def)

lemma frames_read:
  "challenge challenge_frame = Some ()"
  "wf_json pl \<Longrightarrow> res_with i (res_frame j pl) = (if j = i then Some \<lparr>wr_Type = ''res'', wr_ID = i, wr_OK = True, wr_Error = None, wr_Payload = Some pl\<rparr> else None)"
  "tx \<noteq> [] \<Longrightarrow> chat_out (delta_frame run tx) = Some (delta_msg run tx)"
  "res_with i (delta_frame run tx) = None"
  "browser_msg (send_frame tx) = Some (''send'', tx)"
proof -
  show "challenge challenge_frame = Some ()"
    by (simp add: challenge_def challenge_frame_def str_obj_def fields_of_def members_for_def frame_keys del: print_json.simps)
  show "res_with i (res_frame j pl) = (if j = i then Some \<lparr>wr_Type = ''res'', wr_ID = i, wr_OK = True, wr_Error = None, wr_Payload = Some pl\<rparr> else None)"
    if "wf_json pl"
    using that by (simp add: res_with_def ws_res_of_def res_frame_def fields_of_def members_for_def frame_keys object_opt_def raw_field_def del: print_json.simps)
  have d: "json_unmarshal (delta_frame run tx) = Some (JObj [(''event'', JStr ''chat''), (''payload'', JObj [(''message'', JObj [(''content'',
     JArr [str_obj [(''text'', tx), (''type'', ''text'')]])]), (''runId'', JStr run), (''state'', JStr ''delta'')]), (''type'', JStr ''event'')])"
    unfolding delta_frame_def by (rule json_unmarshal_print) (simp add: str_obj_def)
  show "chat_out (delta_frame run tx) = Some (delta_msg run tx)" if "tx \<noteq> []"
    using that by (simp add: chat_out_def event_payload_def d fields_of_def members_for_def frame_keys object_opt_def raw_field_def chat_event_of_def
        block_of_def str_obj_def chat_blocks_def)
  show "res_with i (delta_frame run tx) = None"
    by (simp add: res_with_def ws_res_of_def d fields_of_def members_for_def frame_keys object_opt_def)
  show "browser_msg (send_frame tx) = Some (''send'', tx)"
    by (simp add: browser_msg_def send_frame_def str_obj_def fields_of_def members_for_def frame_keys del: print_json.simps)
qed

lemma small_numbers: "dec_nat (Suc 0) = ''1''" "dec_nat (Suc (Suc 0)) = ''2''" "dec_nat (Suc (Suc (Suc 0))) = ''3''"
  by code_simp+

definition demo_up :: "string list \<Rightarrow> upstream" where
  "demo_up fs = \<lparr>uc_frames = fs, uc_writes = [], uc_sent = [], uc_cfg = \<lparr>bc_GatewayURL = ''ws://gw'', bc_GatewayToken = ''tok''\<rparr>,
     uc_email = ''ann@acme.de'', uc_sessionKey = ''k'', uc_pendingReq = [], uc_reqCounter = 0\<rparr>"

definition demo_bridge :: "string list \<Rightarrow> string list \<Rightarrow> main_at \<Rightarrow> bool \<Rightarrow> bridge" where
  "demo_bridge fs ins m p = \<lparr>br_up = demo_up fs, br_in = ins, br_writes = [], br_out = [], br_pump = p, br_main = m, br_done = False\<rparr>"

section \<open>The handshake\<close>

text \<open>The gateway token leaves the bridge only after the challenge: before the gateway has sent its challenge nothing
  is written, what is then written is the one connect request with the token of the workspace, and the handshake
  succeeds only if the first response to that request accepts it, with every frame before either of them dropped.\<close>

theorem handshake_guarded:
  assumes "handshake u = (r, u')" "q = ''connect-'' @ dec_nat (Suc (uc_reqCounter u))"
  shows "(uc_sent u' = uc_sent u \<or>
      (\<exists>pre ch rest. uc_frames u = pre @ ch # rest \<and> challenge ch = Some () \<and> (\<forall>p \<in> set pre. challenge p = None)
        \<and> uc_sent u' = uc_sent u @ [request_frame q ''connect'' (connect_params (bc_GatewayToken (uc_cfg u)))]))
    \<and> (r = None \<longrightarrow> (\<exists>pre ch mid raw res. uc_frames u = pre @ ch # mid @ raw # uc_frames u'
        \<and> challenge ch = Some () \<and> (\<forall>p \<in> set pre. challenge p = None)
        \<and> res_with q raw = Some res \<and> wr_OK res \<and> (\<forall>p \<in> set mid. res_with q p = None)))"
proof (cases "uc_read_until challenge u")
  case (Pair x u1)
  show ?thesis
  proof (cases x)
    case None
    then have "r = Some ReadFailed" "u' = u1" using assms(1) Pair by (simp_all add: handshake_def)
    then show ?thesis using uc_read_until_fields(1)[of challenge u] by (simp add: Pair)
  next
    case (Some y)
    obtain pre ch where c: "uc_frames u = pre @ ch # uc_frames u1" "challenge ch = Some ()" "\<forall>p \<in> set pre. challenge p = None"
      "u1 = u\<lparr>uc_frames := uc_frames u1\<rparr>"
      using uc_read_until_Some[OF Pair[unfolded Some]] by (metis (full_types) unit.exhaust)
    let ?m = "request_frame q ''connect'' (connect_params (bc_GatewayToken (uc_cfg u)))"
    let ?u2 = "await q (u1\<lparr>uc_reqCounter := Suc (uc_reqCounter u1)\<rparr>)"
    have ctr: "uc_reqCounter u1 = uc_reqCounter u" "uc_sent u1 = uc_sent u" using c(4) by (metis upstream.select_convs upstream.surjective upstream.update_convs(1))+
    obtain ok u3 where w: "uc_send ?m ?u2 = (ok, u3)" by fastforce
    have s3: "uc_sent u3 = (if ok then uc_sent u @ [?m] else uc_sent u)" using uc_send_sent[OF w] by (simp add: await_def ctr)
    have f3: "uc_frames u3 = uc_frames u1" using uc_send_fields(1)[of ?m ?u2] unfolding w by (simp add: await_def)
    show ?thesis
    proof (cases ok)
      case False
      then have "r = Some WriteFailed" "u' = u3"
        using assms(1) Pair Some w ctr by (simp_all add: handshake_def nextReqID_def assms(2))
      then show ?thesis using s3 False by simp
    next
      case True
      obtain z u4 where z: "uc_read_until (res_with q) u3 = (z, u4)" by fastforce
      have s4: "uc_sent u4 = uc_sent u3" using uc_read_until_fields(1)[of "res_with q" u3] by (simp add: z)
      have u': "uc_sent u' = uc_sent u4 \<and> uc_frames u' = uc_frames u4 \<and> (r = None \<longrightarrow> (\<exists>res. z = Some res \<and> wr_OK res))"
        using assms(1) Pair Some w True ctr z by (auto simp: handshake_def nextReqID_def assms(2) split: option.splits if_splits)
      have "r = None \<longrightarrow> (\<exists>mid raw res. uc_frames u1 = mid @ raw # uc_frames u' \<and> res_with q raw = Some res \<and> wr_OK res
          \<and> (\<forall>p \<in> set mid. res_with q p = None))"
        using u' z f3 by (metis uc_read_until_Some)
      then show ?thesis using c s3 s4 u' True by auto metis
    qed
  qed
qed

corollary handshake_guarded_witness:
  "let fs = [send_frame ''noise'', challenge_frame, res_frame ''connect-1'' JNull]; (r, u') = handshake (demo_up fs)
   in r = None \<and> (\<exists>pre ch mid raw. fs = pre @ ch # mid @ raw # uc_frames u' \<and> challenge ch = Some ())"
proof -
  let ?fs = "[send_frame ''noise'', challenge_frame, res_frame ''connect-1'' JNull]"
  obtain r u' where h: "handshake (demo_up ?fs) = (r, u')" by fastforce
  have n: "challenge (send_frame ''noise'') = None"
    by (simp add: challenge_def send_frame_def str_obj_def fields_of_def members_for_def frame_keys del: print_json.simps)
  have r: "r = None"
    using h by (simp add: handshake_def uc_read_until_def demo_up_def n frames_read nextReqID_def uc_send_quiet await_def small_numbers split: prod.splits)
  show ?thesis using handshake_guarded[OF h refl] r by (simp add: h) (metis demo_up_def upstream.select_convs(1))
qed

section \<open>Order\<close>

definition asks_history :: "string \<Rightarrow> bool" where
  "asks_history raw \<longleftrightarrow> (\<exists>tx. browser_msg raw = Some (''history'', tx))"

definition is_stream :: "json \<Rightarrow> bool" where
  \<comment> \<open>a piece of an answer\<close>
  "is_stream m \<longleftrightarrow> (\<exists>run text. m = delta_msg run text \<or> m = final_msg run text)"

definition send_text :: "string \<Rightarrow> string option" where
  \<comment> \<open>what a frame of the browser asks to send\<close>
  "send_text raw = (case browser_msg raw of
     Some (ty, tx) \<Rightarrow> if ty = ''send'' \<and> trim_space tx \<noteq> [] then Some tx else None
   | None \<Rightarrow> None)"

definition chat_request :: "string \<Rightarrow> nat \<Rightarrow> string \<Rightarrow> int \<Rightarrow> json" where
  "chat_request key n text ms = request_frame (''chat-'' @ dec_nat n) ''chat.send'' (JObj [(''deliver'', JBool False),
     (''idempotencyKey'', JStr (''msg-'' @ dec_int ms @ ''-chat-'' @ dec_nat n)), (''message'', JStr text), (''sessionKey'', JStr key)])"

fun chat_requests :: "string \<Rightarrow> nat \<Rightarrow> string list \<Rightarrow> int list \<Rightarrow> json list" where
  \<comment> \<open>one request for every text, numbered from \<open>n\<close>\<close>
  "chat_requests key n (tx # txs) (ms # mss) = chat_request key n tx ms # chat_requests key (Suc n) txs mss"
| "chat_requests key n _ _ = []"

lemma chat_requests_snoc:
  "length mss = length txs \<Longrightarrow>
     chat_requests key n (txs @ [tx]) (mss @ [ms]) = chat_requests key n txs mss @ [chat_request key (n + length txs) tx ms]"
  by (induction key n txs mss rule: chat_requests.induct) auto

lemma map_filter_append: "List.map_filter f (xs @ ys) = List.map_filter f xs @ List.map_filter f ys"
  by (simp add: List.map_filter_def)

definition in_order :: "bridge \<Rightarrow> bridge \<Rightarrow> bool" where
  \<comment> \<open>between the start and a later state: the frames read on both sides are what was passed on\<close>
  "in_order s0 s \<longleftrightarrow> (\<exists>seen heard clock lost.
     uc_frames (br_up s0) = seen @ uc_frames (br_up s) \<and> br_in s0 = heard @ br_in s
     \<and> filter is_stream (br_out s) @ lost = filter is_stream (br_out s0) @ filter is_stream (List.map_filter chat_out seen)
     \<and> length lost \<le> 1 \<and> (br_pump s \<longrightarrow> lost = [])
     \<and> length clock = length (List.map_filter send_text heard)
     \<and> uc_sent (br_up s) = uc_sent (br_up s0) @ chat_requests (uc_sessionKey (br_up s0)) (Suc (uc_reqCounter (br_up s0))) (List.map_filter send_text heard) clock
     \<and> uc_reqCounter (br_up s) = uc_reqCounter (br_up s0) + length clock)"

lemma error_not_stream [simp]: "\<not> is_stream (error_msg m)"
  by (simp add: is_stream_def error_msg_def delta_msg_def final_msg_def str_obj_def)

lemma chat_out_kinds: "chat_out raw = Some m \<Longrightarrow> is_stream m \<or> (\<exists>e. m = error_msg e)"
  by (auto simp: chat_out_def is_stream_def Let_def split: option.splits if_splits)

lemma sendJSON_fields [simp]:
  "br_up (snd (sendJSON m s)) = br_up s" "br_in (snd (sendJSON m s)) = br_in s" "br_main (snd (sendJSON m s)) = br_main s"
  "br_pump (snd (sendJSON m s)) = br_pump s" "br_done (snd (sendJSON m s)) = br_done s"
  by (simp_all add: sendJSON_def split: list.split)

lemma sendJSON_out: "br_out (snd (sendJSON m s)) = br_out s @ (if fst (sendJSON m s) then [m] else [])"
  by (simp add: sendJSON_def split: list.split)

definition calm :: "bridge \<Rightarrow> bool" where
  \<comment> \<open>no history is asked for, the gateway takes every write\<close>
  "calm s \<longleftrightarrow> (\<forall>raw \<in> set (br_in s). \<not> asks_history raw) \<and> uc_writes (br_up s) = [] \<and> (\<forall>i. br_main s \<noteq> AtHistory i)"

lemma in_order_view:
  assumes "in_order s0 s" "uc_frames (br_up t) = uc_frames (br_up s)" "br_in t = br_in s" "filter is_stream (br_out t) = filter is_stream (br_out s)"
    and "br_pump t \<longrightarrow> br_pump s" "uc_sent (br_up t) = uc_sent (br_up s)" "uc_reqCounter (br_up t) = uc_reqCounter (br_up s)"
  shows "in_order s0 t"
proof -
  obtain seen heard clock lost where o: "uc_frames (br_up s0) = seen @ uc_frames (br_up s)" "br_in s0 = heard @ br_in s"
     "filter is_stream (br_out s) @ lost = filter is_stream (br_out s0) @ filter is_stream (List.map_filter chat_out seen)"
     "length lost \<le> 1" "br_pump s \<longrightarrow> lost = []" "length clock = length (List.map_filter send_text heard)"
     "uc_sent (br_up s) = uc_sent (br_up s0) @ chat_requests (uc_sessionKey (br_up s0)) (Suc (uc_reqCounter (br_up s0))) (List.map_filter send_text heard) clock"
     "uc_reqCounter (br_up s) = uc_reqCounter (br_up s0) + length clock"
    using assms(1) unfolding in_order_def by auto
  show ?thesis
    unfolding in_order_def assms(2-4,6,7)
    by (rule exI[of _ seen], rule exI[of _ heard], rule exI[of _ clock], rule exI[of _ lost]) (use o assms(5) in simp)
qed

lemma in_order_frame:
  assumes "in_order s0 s" "br_pump s" "uc_frames (br_up s) = raw # rest"
    and "t = s\<lparr>br_up := (br_up s)\<lparr>uc_frames := rest\<rparr>, br_out := out, br_pump := p, br_writes := ws\<rparr>"
    and "filter is_stream out @ lost = filter is_stream (br_out s) @ filter is_stream (List.map_filter chat_out [raw])"
      "length lost \<le> 1" "p \<longrightarrow> lost = []"
  shows "in_order s0 t"
proof -
  obtain seen heard clock where o: "uc_frames (br_up s0) = seen @ raw # rest" "br_in s0 = heard @ br_in s"
    "filter is_stream (br_out s) = filter is_stream (br_out s0) @ filter is_stream (List.map_filter chat_out seen)"
    "length clock = length (List.map_filter send_text heard)"
    "uc_sent (br_up s) = uc_sent (br_up s0) @ chat_requests (uc_sessionKey (br_up s0)) (Suc (uc_reqCounter (br_up s0))) (List.map_filter send_text heard) clock"
    "uc_reqCounter (br_up s) = uc_reqCounter (br_up s0) + length clock"
    using assms(1-3) unfolding in_order_def by auto
  show ?thesis
    unfolding in_order_def
    by (rule exI[of _ "seen @ [raw]"], rule exI[of _ heard], rule exI[of _ clock], rule exI[of _ lost])
      (use o assms(4-7) in \<open>simp add: map_filter_simps map_filter_append\<close>)
qed

lemma in_order_pump:
  assumes "in_order s0 s" "calm s"
  shows "in_order s0 (pump_move s)" "calm (pump_move s)"
proof -
  show "in_order s0 (pump_move s)"
  proof (cases "br_pump s \<and> \<not> br_done s \<and> uc_frames (br_up s) \<noteq> []")
    case False
    then have "pump_move s = s \<or> pump_move s = s\<lparr>br_pump := False\<rparr>" by (auto simp: pump_move_def)
    then show ?thesis using in_order_view[OF assms(1), of "s\<lparr>br_pump := False\<rparr>"] assms(1) by auto
  next
    case True
    then obtain raw rest where f: "uc_frames (br_up s) = raw # rest" by (cases "uc_frames (br_up s)") auto
    let ?s1 = "s\<lparr>br_up := (br_up s)\<lparr>uc_frames := rest\<rparr>\<rparr>"
    show ?thesis
    proof (cases "chat_out raw")
      case None
      then have "pump_move s = ?s1" using True f by (simp add: pump_move_def)
      then show ?thesis using in_order_frame[OF assms(1) _ f, where t = "pump_move s" and out = "br_out s" and p = True and ws = "br_writes s" and lost = "[]"] True None
        by (simp add: map_filter_simps)
    next
      case (Some m)
      obtain ok s2 where w: "sendJSON m ?s1 = (ok, s2)" by fastforce
      then have t: "pump_move s = s\<lparr>br_up := (br_up s)\<lparr>uc_frames := rest\<rparr>, br_out := br_out s2, br_pump := ok, br_writes := br_writes s2\<rparr>"
        "br_out s2 = br_out s @ (if ok then [m] else [])"
        using True f Some by (auto simp: pump_move_def sendJSON_def split: list.splits bool.splits)
      show ?thesis
        by (rule in_order_frame[OF assms(1) _ f t(1), where lost = "if ok then [] else filter is_stream [m]"])
          (use True t(2) Some in \<open>auto simp: map_filter_simps\<close>)
    qed
  qed
  show "calm (pump_move s)"
    using assms(2) by (auto simp: calm_def pump_move_def sendJSON_def Let_def split: list.split option.split bool.split)
qed

lemma sendChat_quiet:
  "uc_writes u = [] \<Longrightarrow> sendChat text ms u = (True, u\<lparr>uc_reqCounter := Suc (uc_reqCounter u),
     uc_sent := uc_sent u @ [chat_request (uc_sessionKey u) (Suc (uc_reqCounter u)) text ms]\<rparr>)"
  by (simp add: sendChat_def nextReqID_def chat_request_def uc_send_quiet)

lemma in_order_heard:
  assumes "in_order s0 s" "br_in s = raw # rest" "br_in t = rest" "uc_frames (br_up t) = uc_frames (br_up s)" "br_out t = br_out s" "br_pump t = br_pump s"
    and "case send_text raw of
           None \<Rightarrow> uc_sent (br_up t) = uc_sent (br_up s) \<and> uc_reqCounter (br_up t) = uc_reqCounter (br_up s)
         | Some tx \<Rightarrow> uc_sent (br_up t) = uc_sent (br_up s) @ [chat_request (uc_sessionKey (br_up s0)) (Suc (uc_reqCounter (br_up s))) tx ms]
             \<and> uc_reqCounter (br_up t) = Suc (uc_reqCounter (br_up s))"
  shows "in_order s0 t"
proof -
  obtain seen heard clock lost where o: "uc_frames (br_up s0) = seen @ uc_frames (br_up s)" "br_in s0 = heard @ raw # rest"
     "filter is_stream (br_out s) @ lost = filter is_stream (br_out s0) @ filter is_stream (List.map_filter chat_out seen)"
     "length lost \<le> 1" "br_pump s \<longrightarrow> lost = []" "length clock = length (List.map_filter send_text heard)"
     "uc_sent (br_up s) = uc_sent (br_up s0) @ chat_requests (uc_sessionKey (br_up s0)) (Suc (uc_reqCounter (br_up s0))) (List.map_filter send_text heard) clock"
     "uc_reqCounter (br_up s) = uc_reqCounter (br_up s0) + length clock"
    using assms(1,2) unfolding in_order_def by auto
  show ?thesis
    unfolding in_order_def assms(3-6)
    by (rule exI[of _ seen], rule exI[of _ "heard @ [raw]"], rule exI[of _ "case send_text raw of None \<Rightarrow> clock | Some tx \<Rightarrow> clock @ [ms]"],
        rule exI[of _ lost])
      (use o assms(7) in \<open>auto simp: map_filter_append map_filter_simps chat_requests_snoc split: option.splits\<close>)
qed

lemma in_order_main:
  assumes "in_order s0 s" "calm s" "uc_sessionKey (br_up s) = uc_sessionKey (br_up s0)"
  shows "in_order s0 (main_move ms s)" "calm (main_move ms s)"
proof -
  have idle: "in_order s0 (s\<lparr>br_main := m, br_done := d\<rparr>)" "in_order s0 (s\<lparr>br_main := m\<rparr>)" for m d
    by (rule in_order_view[OF assms(1)]; simp)+
  have "in_order s0 (main_move ms s) \<and> calm (main_move ms s)"
  proof (cases "br_main s")
    case AtCheck
    then show ?thesis using idle assms(2) by (auto simp: main_move_def stop_def calm_def)
  next
    case AtRead
    show ?thesis
    proof (cases "br_done s \<or> br_in s = []")
      case True
      then have "main_move ms s = stop s" using AtRead by (auto simp: main_move_def)
      then show ?thesis using idle assms(2) by (auto simp: stop_def calm_def)
    next
      case False
      then obtain raw rest where f: "br_in s = raw # rest" "\<not> br_done s" by (cases "br_in s") auto
      let ?s1 = "s\<lparr>br_in := rest, br_main := AtCheck\<rparr>"
      have "\<not> asks_history raw" using assms(2) f by (simp add: calm_def)
      show ?thesis
      proof (cases "send_text raw")
        case None
        then have m: "main_move ms s = ?s1"
          using AtRead f \<open>\<not> asks_history raw\<close>
          by (auto simp: main_move_def send_text_def asks_history_def main_send_def Let_def split: option.splits if_splits)
        have "in_order s0 ?s1" by (rule in_order_heard[OF assms(1) f(1)]) (use None in simp_all)
        then show ?thesis using assms(2) f by (simp add: m calm_def)
      next
        case (Some tx)
        have m: "main_move ms s = ?s1\<lparr>br_up := (br_up s)\<lparr>uc_reqCounter := Suc (uc_reqCounter (br_up s)),
             uc_sent := uc_sent (br_up s) @ [chat_request (uc_sessionKey (br_up s)) (Suc (uc_reqCounter (br_up s))) tx ms]\<rparr>\<rparr>"
          using AtRead f Some assms(2)
          by (auto simp: main_move_def send_text_def main_send_def calm_def sendChat_quiet split: option.splits if_splits)
        have "in_order s0 (main_move ms s)" by (rule in_order_heard[OF assms(1) f(1)]) (use Some assms(3) in \<open>simp_all add: m\<close>)
        then show ?thesis using assms(2) f by (simp add: m calm_def)
      qed
    qed
  next
    case (AtHistory i)
    then show ?thesis using assms(2) by (simp add: calm_def)
  next
    case Stopped
    then show ?thesis using assms(1,2) by (simp add: main_move_def)
  qed
  then show "in_order s0 (main_move ms s)" "calm (main_move ms s)" by simp_all
qed

lemma key_kept:
  "uc_sessionKey (br_up (pump_move s)) = uc_sessionKey (br_up s)"
  "calm s \<Longrightarrow> uc_sessionKey (br_up (main_move ms s)) = uc_sessionKey (br_up s)"
proof -
  show "uc_sessionKey (br_up (pump_move s)) = uc_sessionKey (br_up s)"
    by (auto simp: pump_move_def sendJSON_def Let_def split: list.split option.split bool.split)
  assume "calm s"
  then show "uc_sessionKey (br_up (main_move ms s)) = uc_sessionKey (br_up s)"
    by (auto simp: main_move_def stop_def main_send_def sendChat_quiet calm_def ask_history_def nextReqID_def await_def uc_send_quiet Let_def
        split: list.split option.split main_at.split)
qed

lemma in_order_step:
  assumes "bridge_step s t" "in_order s0 s" "calm s" "uc_sessionKey (br_up s) = uc_sessionKey (br_up s0)"
  shows "in_order s0 t \<and> calm t \<and> uc_sessionKey (br_up t) = uc_sessionKey (br_up s0)"
  using assms(1)
proof cases
  case pump
  then show ?thesis using in_order_pump[OF assms(2,3)] key_kept(1) assms(4) by simp
next
  case (main ms)
  then show ?thesis using in_order_main[OF assms(2,3,4)] key_kept(2)[OF assms(3)] assms(4) by simp
next
  case timeout
  then have "t = s" using assms(3) by (auto simp: timeout_move_def calm_def split: main_at.split)
  then show ?thesis using assms by simp
next
  case cancelled
  have "in_order s0 (s\<lparr>br_done := True\<rparr>)" by (rule in_order_view[OF assms(2)]) simp_all
  then show ?thesis using cancelled assms(3,4) by (simp add: calm_def)
qed

text \<open>C9: the bridge keeps order and loses nothing: from its start, with a browser that asks for no history and a
  gateway that takes every write, in every state every interleaving can reach the deltas and finals written
  to the browser are those of the gateway frames read so far, in order and each once (all but the last, if the write of that
  one failed and ended the pump), and the gateway has been sent, in order, exactly one \<open>chat.send\<close> for every non-blank
  message read from the browser, for the one session, under consecutive request ids.\<close>

theorem bridge_in_order:
  assumes "bridge_step\<^sup>*\<^sup>* s0 s" "br_pump s0" "br_main s0 = AtCheck" "uc_writes (br_up s0) = []" "\<forall>raw \<in> set (br_in s0). \<not> asks_history raw"
  shows "in_order s0 s"
proof -
  have i: "in_order s0 s0" unfolding in_order_def
    by (rule exI[of _ "[]"], rule exI[of _ "[]"], rule exI[of _ "[]"], rule exI[of _ "[]"]) (simp add: map_filter_simps)
  have c: "calm s0" using assms(3-5) by (simp add: calm_def)
  have "in_order s0 s \<and> calm s \<and> uc_sessionKey (br_up s) = uc_sessionKey (br_up s0)"
    using assms(1) by (induction rule: rtranclp_induct) (use i c in \<open>auto dest: in_order_step\<close>)
  then show ?thesis by simp
qed

corollary bridge_in_order_witness:
  "let s0 = demo_bridge [delta_frame ''r'' ''Hello''] [send_frame ''Hi''] AtCheck True; s = main_move 7 (main_move 0 (pump_move s0))
   in in_order s0 s \<and> br_out s = [delta_msg ''r'' ''Hello''] \<and> uc_sent (br_up s) = [chat_request ''k'' 1 ''Hi'' 7]"
proof -
  let ?b = "demo_bridge [delta_frame ''r'' ''Hello''] [send_frame ''Hi''] AtCheck True"
  let ?s = "main_move 7 (main_move 0 (pump_move ?b))"
  have run: "bridge_step\<^sup>*\<^sup>* ?b ?s"
    by (meson bridge_step.main bridge_step.pump rtranclp.rtrancl_into_rtrancl rtranclp.rtrancl_refl)
  have h: "\<not> asks_history (send_frame ''Hi'')" by (simp add: asks_history_def frames_read)
  have "trim_space ''Hi'' \<noteq> []" by code_simp
  then have "br_out ?s = [delta_msg ''r'' ''Hello'']" "uc_sent (br_up ?s) = [chat_request ''k'' 1 ''Hi'' 7]"
    by (simp_all add: demo_bridge_def demo_up_def pump_move_def frames_read sendJSON_def main_move_def main_send_def sendChat_quiet)
  moreover have "in_order ?b ?s" by (rule bridge_in_order[OF run]) (simp_all add: demo_bridge_def demo_up_def h)
  ultimately show ?thesis by (simp add: Let_def)
qed

section \<open>Every run ends\<close>

definition position :: "main_at \<Rightarrow> nat" where
  "position m = (case m of Stopped \<Rightarrow> 0 | AtRead \<Rightarrow> 1 | AtCheck \<Rightarrow> 2 | AtHistory _ \<Rightarrow> 3)"

definition work :: "bridge \<Rightarrow> nat" where
  \<comment> \<open>what is left to do\<close>
  "work s = 3 * length (br_in s) + length (uc_frames (br_up s)) + position (br_main s)
     + (if br_pump s then 1 else 0) + (if br_done s then 0 else 1)"

lemma pump_works: "pump_move s \<noteq> s \<Longrightarrow> work (pump_move s) < work s"
  by (auto simp: pump_move_def work_def sendJSON_def Let_def split: list.splits option.splits bool.splits if_splits)

lemma ask_history_frames: "uc_frames (snd (ask_history u)) = uc_frames u"
  by (simp add: ask_history_def nextReqID_def await_def split_beta)

lemma main_send_fields:
  "br_in (main_send text ms s) = br_in s" "uc_frames (br_up (main_send text ms s)) = uc_frames (br_up s)"
  "br_main (main_send text ms s) = br_main s" "br_pump (main_send text ms s) = br_pump s" "br_done (main_send text ms s) = br_done s"
proof -
  have f: "uc_frames (snd (sendChat text ms u)) = uc_frames u" for u by (simp add: sendChat_def nextReqID_def)
  then show "br_in (main_send text ms s) = br_in s" "uc_frames (br_up (main_send text ms s)) = uc_frames (br_up s)"
    "br_main (main_send text ms s) = br_main s" "br_pump (main_send text ms s) = br_pump s" "br_done (main_send text ms s) = br_done s"
    by (simp_all add: main_send_def f split_beta split: bool.split)
qed

lemma main_works:
  assumes "main_move ms s \<noteq> s"
  shows "work (main_move ms s) < work s"
proof (cases "br_main s")
  case AtRead
  show ?thesis
  proof (cases "br_done s \<or> br_in s = []")
    case True
    then have "main_move ms s = stop s" using AtRead by (auto simp: main_move_def)
    then show ?thesis using AtRead by (simp add: work_def stop_def position_def)
  next
    case False
    then obtain raw rest where f: "br_in s = raw # rest" "\<not> br_done s" by (cases "br_in s") auto
    let ?t = "main_move ms s"
    have "br_in ?t = rest \<and> uc_frames (br_up ?t) = uc_frames (br_up s) \<and> br_pump ?t = br_pump s \<and> br_done ?t = br_done s \<and> position (br_main ?t) \<le> 3"
      using AtRead f ask_history_frames[of "br_up s"]
      by (auto simp: main_move_def Let_def main_send_fields position_def split_beta split: option.split main_at.split)
    then show ?thesis using f AtRead by (simp add: work_def position_def)
  qed
next
  case AtCheck
  then show ?thesis by (auto simp: main_move_def stop_def work_def position_def)
next
  case (AtHistory i)
  then show ?thesis
    by (auto simp: main_move_def work_def position_def Let_def sendJSON_def split: list.split option.split sum.split)
next
  case Stopped
  then show ?thesis using assms by (simp add: main_move_def)
qed

lemma step_works: "bridge_step s t \<Longrightarrow> t \<noteq> s \<Longrightarrow> work t < work s"
proof (induction rule: bridge_step.induct)
  case (timeout s)
  then show ?case by (auto simp: timeout_move_def work_def position_def split: main_at.splits)
next
  case (cancelled s)
  then have "\<not> br_done s" by (auto simp del: bridge.surjective simp: bridge.equality)
  then show ?case by (simp add: work_def)
qed (auto intro: pump_works main_works)

lemma stuck_has_stopped:
  assumes "\<And>t. bridge_step s t \<Longrightarrow> t = s"
  shows "br_main s = Stopped \<and> \<not> br_pump s"
proof -
  have d: "br_done s" using assms[OF bridge_step.cancelled] by (metis bridge.select_convs(7) bridge.surjective bridge.update_convs(7))
  have "br_main s = Stopped"
  proof (cases "br_main s")
    case Stopped
    then show ?thesis .
  qed (use assms[OF bridge_step.main[of s 0]] d in \<open>auto simp: main_move_def stop_def dest: arg_cong[where f = br_main]\<close>)
  moreover have "\<not> br_pump s"
    using assms[OF bridge_step.pump] d by (auto simp: pump_move_def dest: arg_cong[where f = br_pump] split: if_splits)
  ultimately show ?thesis by simp
qed



section \<open>Two readers\<close>

lemma res_not_event: "res_with i raw = Some r \<Longrightarrow> chat_out raw = None"
  by (auto simp: res_with_def ws_res_of_def chat_out_def event_payload_def fields_of_def
      split: option.splits json.splits if_splits list.splits)

lemma drops_frames:
  assumes "br_main s = AtHistory i" "\<not> br_done s" "uc_frames (br_up s) = fs @ rest" "\<forall>f \<in> set fs. res_with i f = None"
  shows "bridge_step\<^sup>*\<^sup>* s (s\<lparr>br_up := (br_up s)\<lparr>uc_frames := rest\<rparr>\<rparr>)"
  using assms
proof (induction fs arbitrary: s)
  case Nil
  then have "s\<lparr>br_up := (br_up s)\<lparr>uc_frames := rest\<rparr>\<rparr> = s" by (cases s; cases "br_up s") auto
  then show ?case by simp
next
  case (Cons f fs)
  let ?s = "s\<lparr>br_up := (br_up s)\<lparr>uc_frames := fs @ rest\<rparr>\<rparr>"
  have "main_move 0 s = ?s" using Cons.prems by (simp add: main_move_def)
  then have "bridge_step s ?s" using bridge_step.main[of s 0] by simp
  moreover have "bridge_step\<^sup>*\<^sup>* ?s (?s\<lparr>br_up := (br_up ?s)\<lparr>uc_frames := rest\<rparr>\<rparr>)" by (rule Cons.IH) (use Cons.prems in auto)
  ultimately show ?case by (simp add: converse_rtranclp_into_rtranclp)
qed

text \<open>A history request races the pump for the gateway's frames: while one is pending, any number of frames in front of its
  response, pieces of an answer included, can be read by the waiting request and are dropped without
  a word to the browser, and the response itself can be read by the pump, which drops it and leaves the request waiting.\<close>

theorem history_races_pump:
  assumes "br_main s = AtHistory i" "\<not> br_done s" "br_pump s" "uc_frames (br_up s) = fs @ raw # rest"
    and "\<forall>f \<in> set fs. res_with i f = None" "res_with i raw = Some r"
  shows "bridge_step\<^sup>*\<^sup>* s (s\<lparr>br_up := (br_up s)\<lparr>uc_frames := raw # rest\<rparr>\<rparr>)
    \<and> bridge_step\<^sup>*\<^sup>* s (s\<lparr>br_up := (br_up s)\<lparr>uc_frames := rest\<rparr>\<rparr>)"
proof -
  let ?s = "s\<lparr>br_up := (br_up s)\<lparr>uc_frames := raw # rest\<rparr>\<rparr>"
  have d: "bridge_step\<^sup>*\<^sup>* s ?s" by (rule drops_frames[OF assms(1,2,4,5)])
  have "pump_move ?s = ?s\<lparr>br_up := (br_up ?s)\<lparr>uc_frames := rest\<rparr>\<rparr>"
    using assms(2,3) by (simp add: pump_move_def res_not_event[OF assms(6)])
  then have "bridge_step ?s (s\<lparr>br_up := (br_up s)\<lparr>uc_frames := rest\<rparr>\<rparr>)" using bridge_step.pump[of ?s] by simp
  with d show ?thesis by (auto intro: rtranclp.rtrancl_into_rtrancl)
qed

corollary history_races_pump_witness:
  "\<exists>t. bridge_step\<^sup>*\<^sup>* (demo_bridge [delta_frame ''r'' ''The answer'', res_frame ''history-1'' JNull] [] (AtHistory ''history-1'') True) t
     \<and> chat_out (delta_frame ''r'' ''The answer'') = Some (delta_msg ''r'' ''The answer'')
     \<and> uc_frames (br_up t) = [] \<and> br_out t = [] \<and> br_main t = AtHistory ''history-1''"
proof -
  let ?s = "demo_bridge [delta_frame ''r'' ''The answer'', res_frame ''history-1'' JNull] [] (AtHistory ''history-1'') True"
  let ?t = "?s\<lparr>br_up := (br_up ?s)\<lparr>uc_frames := []\<rparr>\<rparr>"
  have run: "bridge_step\<^sup>*\<^sup>* ?s ?t"
    by (rule history_races_pump[of ?s "''history-1''" "[delta_frame ''r'' ''The answer'']" "res_frame ''history-1'' JNull", THEN conjunct2])
      (simp_all add: demo_bridge_def demo_up_def frames_read)
  have "chat_out (delta_frame ''r'' ''The answer'') = Some (delta_msg ''r'' ''The answer'')"
    "uc_frames (br_up ?t) = []" "br_out ?t = []" "br_main ?t = AtHistory ''history-1''"
    by (simp_all add: demo_bridge_def demo_up_def frames_read)
  then show ?thesis using run by blast
qed

section \<open>The end of the upstream connection\<close>

definition after_end :: "bridge \<Rightarrow> bridge \<Rightarrow> bool" where
  \<comment> \<open>what can have happened since the pump returned in \<open>s\<close>\<close>
  "after_end s t \<longleftrightarrow> \<not> br_pump t
     \<and> (br_in t = br_in s \<and> (br_main s = AtRead \<and> \<not> br_done t \<longrightarrow> br_main t = AtRead \<and> br_out t = br_out s)
        \<or> (\<exists>raw. br_in s = raw # br_in t) \<and> br_main t \<noteq> AtRead)"

lemma after_end_step:
  assumes "after_end s t" "bridge_step t u"
  shows "after_end s u"
  using assms(2)
proof cases
  case pump
  then show ?thesis using assms(1) by (simp add: after_end_def pump_move_def)
next
  case (main ms)
  show ?thesis
  proof (cases "br_main t")
    case AtRead
    show ?thesis
    proof (cases "br_done t \<or> br_in t = []")
      case True
      then have "u = stop t" using AtRead main by (auto simp: main_move_def)
      then show ?thesis using AtRead assms(1) by (auto simp: after_end_def stop_def)
    next
      case False
      then obtain raw rest where f: "br_in t = raw # rest" "\<not> br_done t" by (cases "br_in t") auto
      have "br_in u = rest \<and> br_main u \<noteq> AtRead \<and> \<not> br_pump u"
        using main AtRead f assms(1)
        by (auto simp: main_move_def Let_def main_send_fields after_end_def split_beta split: option.split)
      moreover have "br_in s = br_in t" using AtRead assms(1) by (auto simp: after_end_def)
      ultimately have "br_in s = raw # br_in u" "br_main u \<noteq> AtRead" "\<not> br_pump u" using f by simp_all
      then show ?thesis by (simp add: after_end_def)
    qed
  next
    case AtCheck
    then show ?thesis using main assms(1) by (auto simp: main_move_def after_end_def stop_def)
  next
    case (AtHistory i)
    have "br_in u = br_in t \<and> br_main u \<noteq> AtRead \<and> \<not> br_pump u \<and> br_done u = br_done t"
      using main AtHistory assms(1) by (auto simp: main_move_def after_end_def Let_def split: list.split option.split sum.split)
    then show ?thesis using AtHistory assms(1) by (auto simp: after_end_def)
  next
    case Stopped
    then show ?thesis using main assms(1) by (simp add: main_move_def)
  qed
next
  case timeout
  then show ?thesis using assms(1) by (auto simp: timeout_move_def after_end_def split: main_at.splits)
next
  case cancelled
  then show ?thesis using assms(1) by (auto simp: after_end_def)
qed

text \<open>The browser is not told when the gateway is gone: once the pump has returned because its connection ended,
  the handler of a browser it waits for neither returns nor writes anything until that browser sends a message or closes, and it
  then reads one message more, at most, before it returns.\<close>

theorem upstream_end_unnoticed:
  assumes "bridge_step\<^sup>*\<^sup>* s t" "\<not> br_pump s"
  shows "length (br_in s) \<le> Suc (length (br_in t))
    \<and> (br_main s = AtRead \<longrightarrow> br_in t = br_in s \<longrightarrow> \<not> br_done t \<longrightarrow> br_main t = AtRead \<and> br_out t = br_out s)"
proof -
  have "after_end s s" using assms(2) by (simp add: after_end_def)
  then have "after_end s t" using assms(1) by (rotate_tac) (induction rule: rtranclp_induct, auto intro: after_end_step)
  then show ?thesis by (auto simp: after_end_def)
qed

corollary upstream_end_unnoticed_witness:
  "br_in (main_move 0 (main_move 0 (main_move 0 (demo_bridge [] [send_frame ''a'', send_frame ''b''] AtRead False)))) \<noteq> []"
proof -
  let ?s = "demo_bridge [] [send_frame ''a'', send_frame ''b''] AtRead False"
  have "bridge_step\<^sup>*\<^sup>* ?s (main_move 0 (main_move 0 (main_move 0 ?s)))"
    by (meson bridge_step.main rtranclp.rtrancl_into_rtrancl rtranclp.rtrancl_refl)
  moreover have "\<not> br_pump ?s" by (simp add: demo_bridge_def)
  ultimately show ?thesis using upstream_end_unnoticed by (force simp: demo_bridge_def)
qed

section \<open>Who gets a bridge\<close>

lemma sendJSON_prefix: "\<exists>ms. br_out (snd (sendJSON m s)) = br_out s @ ms"
  by (simp add: sendJSON_out)

lemma start_bridge_out:
  assumes "start_bridge en email u = Some s"
  shows "\<exists>ms. br_out s = ready_msg email # ms" "br_pump s" "br_main s = AtCheck" "br_in s = be_frames en"
proof -
  let ?s = "\<lparr>br_up = u, br_in = be_frames en, br_writes = be_writes en, br_out = [], br_pump = True, br_main = AtCheck, br_done = False\<rparr>"
  obtain s1 where w: "sendJSON (ready_msg email) ?s = (True, s1)"
    using assms by (auto simp: start_bridge_def split: prod.splits bool.splits)
  then have s1: "br_out s1 = [ready_msg email]" "br_pump s1" "br_main s1 = AtCheck" "br_in s1 = be_frames en"
    by (auto simp: sendJSON_def split: list.splits)
  obtain x u1 where h: "requestHistory u = (x, u1)" by fastforce
  obtain m where "s = s1\<lparr>br_up := u1\<rparr> \<or> s = snd (sendJSON m (s1\<lparr>br_up := u1\<rparr>))"
    using assms by (auto simp: start_bridge_def w h split: sum.splits if_splits)
  then show "\<exists>ms. br_out s = ready_msg email # ms" "br_pump s" "br_main s = AtCheck" "br_in s = be_frames en"
    using s1 by (auto simp: sendJSON_out)
qed

lemma send_then [simp]:
  "uc_cfg (snd (nextReqID p u)) = uc_cfg u" "uc_cfg (await i u) = uc_cfg u" "uc_cfg (snd (readUntilRes i u)) = uc_cfg u"
  by (simp_all add: nextReqID_def await_def readUntilRes_def)

lemma keeps_cfg:
  "uc_cfg (snd (handshake u)) = uc_cfg u" "uc_cfg (snd (create_session u)) = uc_cfg u" "uc_cfg (snd (ensureSession u)) = uc_cfg u"
  "uc_cfg (snd (requestHistory u)) = uc_cfg u"
proof -
  show c: "uc_cfg (snd (create_session u)) = uc_cfg u" for u
    by (simp add: create_session_def split_beta split: bool.split option.split)
  show "uc_cfg (snd (handshake u)) = uc_cfg u"
    by (simp add: handshake_def split_beta split: bool.split option.split)
  show "uc_cfg (snd (ensureSession u)) = uc_cfg u"
    by (simp add: ensureSession_def split_beta c split: bool.split option.split)
  show "uc_cfg (snd (requestHistory u)) = uc_cfg u"
    by (simp add: requestHistory_def ask_history_def split_beta split: bool.split option.split)
qed

lemma loadBridgeConfig_Inr:
  assumes "loadBridgeConfig c en slug w = (Inr cfg, w')"
  shows "\<exists>k m. map_of (kb_kais w) (ch_namespace c, ''kai-'' @ slug) = Some k \<and> sp_GatewayAuth (k_Spec k) = Some (m, bc_GatewayToken cfg)
    \<and> bc_GatewayToken cfg \<noteq> []"
  using assms by (auto simp: loadBridgeConfig_def Let_def split: if_splits sum.splits prod.splits option.splits dest!: kc_get_Inr)

lemma dialUpstream_Inr:
  assumes "dialUpstream c en slug email w = (Inr u, w')"
  shows "\<exists>k m. map_of (kb_kais w) (ch_namespace c, ''kai-'' @ slug) = Some k \<and> sp_GatewayAuth (k_Spec k) = Some (m, bc_GatewayToken (uc_cfg u))
    \<and> bc_GatewayToken (uc_cfg u) \<noteq> []"
proof -
  obtain cfg w1 where l: "loadBridgeConfig c en slug w = (Inr cfg, w1)"
    using assms by (auto simp: dialUpstream_def split: prod.splits sum.splits)
  obtain u0 u1 where "uc_cfg u0 = cfg" "handshake u0 = (None, u1)" "ensureSession u1 = (None, u)"
    using assms by (auto simp: dialUpstream_def l Let_def split: option.splits prod.splits)
      (metis option.exhaust upstream.select_convs(4))
  then have "uc_cfg u = cfg" using keeps_cfg(1)[of u0] keeps_cfg(3)[of u1] by simp
  then show ?thesis using loadBridgeConfig_Inr[OF l] by simp
qed

lemma start_bridge_cfg:
  assumes "start_bridge en email u = Some s"
  shows "uc_cfg (br_up s) = uc_cfg u"
  using assms keeps_cfg(4)[of u]
  by (auto simp: start_bridge_def split_beta Let_def split: bool.splits sum.splits prod.splits if_splits)

lemma chat_authedClaims_keeps: "same_objects (ct_kube st) (ct_kube (snd (chat_authedClaims c r slug t st)))"
proof -
  have "same_objects w (snd (chat_resolveJWTSecret c slug w))" for w
    using reads_keep(4)[of w "(ch_namespace c, ''kai-'' @ slug @ ''-chat-bridge'')"]
    by (auto simp: chat_resolveJWTSecret_def chat_readJWTSecret_def split: sum.splits prod.splits option.splits)
  from this[of "ct_kube st"] show ?thesis
    by (auto simp: chat_authedClaims_def split_beta split: option.split)
qed


definition ann_kube :: kube where
  "ann_kube = (acme_kube [])\<lparr>kb_kais := [((''emai-swarm'', ''kai-acme''), acme_kai\<lparr>k_Spec := empty_spec\<lparr>sp_GatewayAuth := Some (''token'', ''tok'')\<rparr>\<rparr>)]\<rparr>"

definition ann_env :: bridge_env where
  "ann_env = \<lparr>be_template = [], be_origin = [], be_allowed = [],
     be_dial = (\<lambda>_ _. Some ([challenge_frame, res_frame ''connect-1'' JNull,
       res_frame ''sess-list-2'' (JObj [(''sessions'', JArr [str_obj [(''key'', ''k'')]])])], [])),
     be_accept = (\<lambda>_. True), be_writes = [], be_frames = []\<rparr>"

lemma ann_dial: "\<exists>u. dialUpstream chat_demo ann_env ''acme'' email ann_kube = (Inr u, ann_kube) \<and> uc_frames u = [] \<and> uc_writes u = []"
proof -
  have l: "loadBridgeConfig chat_demo ann_env ''acme'' ann_kube
      = (Inr \<lparr>bc_GatewayURL = ''ws://kai-acme.emai-swarm.svc:18789'', bc_GatewayToken = ''tok''\<rparr>, ann_kube)"
    by (simp add: loadBridgeConfig_def chat_demo_def ann_env_def kc_get_def ann_kube_def acme_kube_def acme_kai_def empty_spec_def empty_status_def)
  have w: "wf_json (JObj [(''sessions'', JArr [str_obj [(''key'', ''k'')]])])" by (simp add: str_obj_def)
  have f: "first_session (Some (JObj [(''sessions'', JArr [str_obj [(''key'', ''k'')]])])) = Some ''k''"
    by (simp add: first_session_def str_obj_def members_for_def object_members_def)
  show ?thesis
    unfolding dialUpstream_def l
    by (simp add: ann_env_def handshake_def uc_read_until_def frames_read nextReqID_def small_numbers uc_send_quiet await_def
        ensureSession_def readUntilRes_def f frames_read(2)[OF w])
qed

lemma ann_gate:
  "fst (chat_authedClaims chat_demo ann_request ''acme'' 0 \<lparr>ct_kube = ann_kube, ct_rev = (\<lambda>_. [])\<rparr>) = Some ann_claims"
  "snd (chat_authedClaims chat_demo ann_request ''acme'' 0 \<lparr>ct_kube = ann_kube, ct_rev = (\<lambda>_. [])\<rparr>) = \<lparr>ct_kube = ann_kube, ct_rev = (\<lambda>_. [])\<rparr>"
proof -
  have k: "chat_resolveJWTSecret chat_demo ''acme'' ann_kube = (Some ''key'', ann_kube)"
    by (simp add: chat_resolveJWTSecret_def chat_readJWTSecret_def chat_demo_def ks_get_def ann_kube_def acme_kube_def acme_secrets_def)
  have "ann_token \<noteq> []" using ann_authenticated by (auto simp: Authenticate_def)
  then have "chat_authedClaims chat_demo ann_request ''acme'' 0 \<lparr>ct_kube = ann_kube, ct_rev = (\<lambda>_. [])\<rparr>
      = (Some ann_claims, \<lparr>ct_kube = ann_kube, ct_rev = (\<lambda>_. [])\<rparr>)"
    by (simp add: chat_authedClaims_def k ann_request_def)
      (simp add: chat_demo_def sws_simps(2) sr_api_def sr_revoked_def listed_def ann_authenticated)
  then show "fst (chat_authedClaims chat_demo ann_request ''acme'' 0 \<lparr>ct_kube = ann_kube, ct_rev = (\<lambda>_. [])\<rparr>) = Some ann_claims"
    "snd (chat_authedClaims chat_demo ann_request ''acme'' 0 \<lparr>ct_kube = ann_kube, ct_rev = (\<lambda>_. [])\<rparr>) = \<lparr>ct_kube = ann_kube, ct_rev = (\<lambda>_. [])\<rparr>"
    by simp_all
qed


end
