(* ===== verification/Templates.thy ===== *)
theory Templates
  imports KaiTypes
begin

text \<open>
  Identity templates (\<open>operator/internal/controller/templates.go\<close>).  The embedded template files and
  the mounted catalog are the parameters \<open>fs\<close> and \<open>readfile\<close>; SHA-256 is the parameter \<open>sha256\<close>.
  \<open>filepath.Join\<close> is concatenation with slashes, which is what it does on the clean catalog paths
  the custom resource's \<open>appRef\<close> pattern admits.
\<close>

record template_vars =
  tv_TenantName :: string
  tv_TenantSlug :: string
  tv_ProjectName :: string

record template_opts =
  to_CatalogDir :: string
  to_AppRef :: string

record rendered =
  r_SoulMD :: string
  r_AgentsMD :: string
  r_ToolsMD :: string
  r_HeartbeatMD :: string
  r_OpenClawJSON :: string
  r_SkillMC :: string

datatype file_result = FileOK string | FileMissing | FileError

definition renderTemplate :: "(string \<Rightarrow> string option) \<Rightarrow> string \<Rightarrow> template_vars \<Rightarrow> string option" where
  "renderTemplate fs name vars = (case fs (''templates/'' @ name) of None \<Rightarrow> None
     | Some content \<Rightarrow>
         (let r1 = replace_all ''{{CUSTOMER_NAME}}'' (tv_TenantName vars) content;
              r2 = replace_all ''{{CUSTOMER_SLUG}}'' (tv_TenantSlug vars) r1
          in Some (replace_all ''{{PROJECT_NAME}}'' (tv_ProjectName vars) r2)))"

definition renderCatalogPlaceholders :: "string \<Rightarrow> template_vars \<Rightarrow> string" where
  "renderCatalogPlaceholders body vars =
     (let userName = fst (cut_at (CHR ''@'') (tv_TenantName vars));
          b1 = replace_all ''{{WORKSPACE_NAME}}'' (tv_TenantName vars) body;
          b2 = replace_all ''{{USER_NAME}}'' userName b1
      in replace_all ''{{APP_NAME}}'' (tv_TenantSlug vars) b2)"

definition renderSoul ::
  "(string \<Rightarrow> string option) \<Rightarrow> (string \<Rightarrow> file_result) \<Rightarrow> template_vars \<Rightarrow> template_opts \<Rightarrow> string option" where
  "renderSoul fs readfile vars opts =
     (if to_CatalogDir opts \<noteq> [] \<and> to_AppRef opts \<noteq> []
      then (case readfile (to_CatalogDir opts @ ''/'' @ to_AppRef opts @ ''/SOUL.md.tmpl'') of
              FileOK raw \<Rightarrow> Some (renderCatalogPlaceholders raw vars)
            | FileError \<Rightarrow> None
            | FileMissing \<Rightarrow> renderTemplate fs ''SOUL.md.tmpl'' vars)
      else renderTemplate fs ''SOUL.md.tmpl'' vars)"

definition renderAllTemplates ::
  "(string \<Rightarrow> string option) \<Rightarrow> (string \<Rightarrow> file_result) \<Rightarrow> template_vars \<Rightarrow> template_opts \<Rightarrow> rendered option" where
  "renderAllTemplates fs readfile vars opts =
     (case renderSoul fs readfile vars opts of None \<Rightarrow> None | Some soul \<Rightarrow>
     (case renderTemplate fs ''AGENTS.md.tmpl'' vars of None \<Rightarrow> None | Some agents \<Rightarrow>
     (case renderTemplate fs ''TOOLS.md.tmpl'' vars of None \<Rightarrow> None | Some tools \<Rightarrow>
     (case renderTemplate fs ''HEARTBEAT.md.tmpl'' vars of None \<Rightarrow> None | Some heartbeat \<Rightarrow>
     (case renderTemplate fs ''openclaw.json.tmpl'' vars of None \<Rightarrow> None | Some config \<Rightarrow>
     (case fs ''templates/SKILL-mc.md'' of None \<Rightarrow> None | Some skillMC \<Rightarrow>
        Some \<lparr>r_SoulMD = soul, r_AgentsMD = agents, r_ToolsMD = tools, r_HeartbeatMD = heartbeat,
              r_OpenClawJSON = config, r_SkillMC = skillMC\<rparr>))))))"

definition configHash :: "(string \<Rightarrow> string) \<Rightarrow> rendered \<Rightarrow> string \<Rightarrow> string" where
  "configHash sha256 tmpl model =
     take 16 (hex_encode (sha256 (r_SoulMD tmpl @ r_HeartbeatMD tmpl @ r_OpenClawJSON tmpl @ model)))"

section \<open>Substitution\<close>

text \<open>A template is a list of pieces, literal text and placeholders; \<open>fill\<close> puts a value for one
  placeholder.  On pieces without stray braces \<open>replace_all\<close> computes \<open>fill\<close>.\<close>

datatype piece = Lit string | Ph string

fun show_piece :: "piece \<Rightarrow> string" where
  "show_piece (Lit s) = s"
| "show_piece (Ph v) = ''{{'' @ v @ ''}}''"

definition show_pieces :: "piece list \<Rightarrow> string" where
  "show_pieces ps = concat (map show_piece ps)"

definition fill :: "string \<Rightarrow> string \<Rightarrow> piece list \<Rightarrow> piece list" where
  "fill v new ps = map (\<lambda>p. if p = Ph v then Lit new else p) ps"

definition brace_free :: "string \<Rightarrow> bool" where
  "brace_free s \<longleftrightarrow> CHR ''{'' \<notin> set s \<and> CHR ''}'' \<notin> set s"

fun clean_piece :: "piece \<Rightarrow> bool" where
  "clean_piece (Lit s) = brace_free s"
| "clean_piece (Ph v) = brace_free v"

lemma has_prefix_Cons [simp]: "has_prefix (p # ps) (c # s) \<longleftrightarrow> p = c \<and> has_prefix ps s"
  by (auto simp: has_prefix_def)

lemma has_prefix_Nil [simp]: "has_prefix [] s"
  by (simp add: has_prefix_def)

lemma replace_all_skip:
  "CHR ''{'' \<notin> set t \<Longrightarrow> replace_all (CHR ''{'' # p) new (t @ s) = t @ replace_all (CHR ''{'' # p) new s"
  by (induction t) auto

lemma same_name:
  assumes "has_prefix (v @ ''}}'') (w @ ''}}'' @ s)" "brace_free v" "brace_free w"
  shows "v = w"
proof -
  from has_prefixE[OF assms(1)] obtain r where "w @ CHR ''}'' # ''}'' @ s = v @ CHR ''}'' # ''}'' @ r" by auto
  moreover have "CHR ''}'' \<notin> set v" "CHR ''}'' \<notin> set w" using assms by (auto simp: brace_free_def)
  ultimately show ?thesis by (metis cut_at_append prod.inject)
qed

lemma replace_all_placeholder:
  assumes "brace_free v" "brace_free w"
  shows "replace_all (''{{'' @ v @ ''}}'') new (''{{'' @ w @ ''}}'' @ s)
    = (if w = v then new else ''{{'' @ w @ ''}}'') @ replace_all (''{{'' @ v @ ''}}'') new s"
proof (cases "w = v")
  case True
  then show ?thesis using has_prefix_append[of "v @ ''}}''" s] by simp
next
  case False
  let ?p = "CHR ''{'' # v @ ''}}''"
  have a: "\<not> has_prefix ?p (CHR ''{'' # w @ ''}}'' @ s)" using same_name[of v w s] assms False by auto
  have "w @ ''}}'' @ s \<noteq> [] \<and> hd (w @ ''}}'' @ s) \<noteq> CHR ''{''"
    using assms(2) by (cases w) (auto simp: brace_free_def)
  then have b: "\<not> has_prefix ?p (w @ ''}}'' @ s)" by (cases "w @ ''}}'' @ s") auto
  have c: "replace_all (CHR ''{'' # ?p) new (w @ ''}}'' @ s) = (w @ ''}}'') @ replace_all (CHR ''{'' # ?p) new s"
    using replace_all_skip[of "w @ ''}}''" ?p new s] assms(2) by (auto simp: brace_free_def)
  show ?thesis using a b c False by simp
qed

lemma replace_all_fill:
  assumes "brace_free v" "list_all clean_piece ps"
  shows "replace_all (''{{'' @ v @ ''}}'') new (show_pieces ps) = show_pieces (fill v new ps)"
  using assms(2)
proof (induction ps)
  case (Cons p ps)
  then have IH: "replace_all (''{{'' @ v @ ''}}'') new (concat (map show_piece ps)) = concat (map show_piece (fill v new ps))"
    by (simp add: show_pieces_def)
  show ?case
  proof (cases p)
    case (Lit s)
    with Cons.prems have "CHR ''{'' \<notin> set s" by (simp add: brace_free_def)
    from replace_all_skip[OF this, of "CHR ''{'' # v @ ''}}''" new] Lit IH show ?thesis
      by (simp add: show_pieces_def fill_def)
  next
    case (Ph w)
    with Cons.prems have "brace_free w" by simp
    from replace_all_placeholder[OF assms(1) this, of new] Ph IH show ?thesis
      by (simp add: show_pieces_def fill_def)
  qed
qed (simp add: show_pieces_def fill_def)

lemma clean_fill: "brace_free new \<Longrightarrow> list_all clean_piece ps \<Longrightarrow> list_all clean_piece (fill v new ps)"
  by (auto simp: fill_def list_all_iff)

text \<open>Rendering fills exactly the three placeholders: for a template of text and placeholders
  without stray braces, and a name and slug without braces, the rendered file is the template with
  every tenant-name, tenant-slug and project-name placeholder replaced by its value and everything
  else as it was, so no value can smuggle in a placeholder that a later substitution expands.\<close>

theorem renderTemplate_fills:
  assumes "fs (''templates/'' @ name) = Some (show_pieces ps)" "list_all clean_piece ps"
    and "brace_free (tv_TenantName vars)" "brace_free (tv_TenantSlug vars)"
  shows "renderTemplate fs name vars = Some (show_pieces
    (fill ''PROJECT_NAME'' (tv_ProjectName vars)
      (fill ''CUSTOMER_SLUG'' (tv_TenantSlug vars)
        (fill ''CUSTOMER_NAME'' (tv_TenantName vars) ps))))"
proof -
  have b: "brace_free ''CUSTOMER_NAME''" "brace_free ''CUSTOMER_SLUG''" "brace_free ''PROJECT_NAME''"
    by (simp_all add: brace_free_def)
  let ?p1 = "fill ''CUSTOMER_NAME'' (tv_TenantName vars) ps"
  let ?p2 = "fill ''CUSTOMER_SLUG'' (tv_TenantSlug vars) ?p1"
  have c1: "list_all clean_piece ?p1" by (rule clean_fill[OF assms(3,2)])
  have c2: "list_all clean_piece ?p2" by (rule clean_fill[OF assms(4) c1])
  show ?thesis
    using replace_all_fill[OF b(1) assms(2)] replace_all_fill[OF b(2) c1] replace_all_fill[OF b(3) c2] assms(1)
    by (simp add: renderTemplate_def)
qed

corollary renderTemplate_fills_witness:
  "renderTemplate (\<lambda>_. Some ''Hi {{CUSTOMER_NAME}} ({{CUSTOMER_SLUG}})!'') ''SOUL.md.tmpl''
     \<lparr>tv_TenantName = ''Ada'', tv_TenantSlug = ''ada'', tv_ProjectName = ''P''\<rparr> = Some ''Hi Ada (ada)!''"
proof -
  let ?v = "\<lparr>tv_TenantName = ''Ada'', tv_TenantSlug = ''ada'', tv_ProjectName = ''P''\<rparr>"
  let ?ps = "[Lit ''Hi '', Ph ''CUSTOMER_NAME'', Lit '' ('', Ph ''CUSTOMER_SLUG'', Lit '')!'']"
  have "(\<lambda>_. Some ''Hi {{CUSTOMER_NAME}} ({{CUSTOMER_SLUG}})!'') (''templates/'' @ ''SOUL.md.tmpl'')
      = Some (show_pieces ?ps)" by (simp add: show_pieces_def)
  from renderTemplate_fills[OF this, of ?v] show ?thesis by (simp add: brace_free_def fill_def show_pieces_def)
qed

text \<open>The configuration hash sees four texts and no more: renderings that agree on SOUL,
  HEARTBEAT, openclaw.json and the model have the same hash whatever their AGENTS, TOOLS and skill
  files say, and so do renderings whose hashed texts only split differently.\<close>

theorem configHash_scope:
  assumes "r_SoulMD a @ r_HeartbeatMD a @ r_OpenClawJSON a @ m = r_SoulMD b @ r_HeartbeatMD b @ r_OpenClawJSON b @ n"
  shows "configHash sha256 a m = configHash sha256 b n
    \<and> configHash sha256 (a\<lparr>r_AgentsMD := x, r_ToolsMD := y, r_SkillMC := z\<rparr>) m = configHash sha256 a m
    \<and> length (configHash sha256 a m) \<le> 16"
  using assms by (simp add: configHash_def)

corollary configHash_scope_witness:
  "configHash (\<lambda>s. s) \<lparr>r_SoulMD = ''a'', r_AgentsMD = ''x'', r_ToolsMD = [], r_HeartbeatMD = ''b'', r_OpenClawJSON = [], r_SkillMC = []\<rparr> ''m''
   = configHash (\<lambda>s. s) \<lparr>r_SoulMD = ''ab'', r_AgentsMD = ''y'', r_ToolsMD = [], r_HeartbeatMD = [], r_OpenClawJSON = [], r_SkillMC = []\<rparr> ''m''"
  by (rule configHash_scope[THEN conjunct1]) simp

end
