(* ===== verification/Resources.thy ===== *)
theory Resources
  imports Templates Base64
begin

text \<open>
  The child objects of a \<open>KaiInstance\<close> (\<open>operator/internal/controller/resources.go\<close> and the builders
  of \<open>secrets.go\<close>).  An object is its labels, annotations, controlling owner and a body per kind; its
  name and namespace are the key it is stored under.
\<close>

section \<open>Objects\<close>

type_synonym labels = "(string \<times> string) list"

datatype kind = ConfigMapKind | SecretKind | PVCKind | DeploymentKind | ServiceKind | IngressKind | NetworkPolicyKind

type_synonym okey = "kind \<times> string \<times> string"  \<comment> \<open>kind, namespace, name\<close>

datatype env_value = EnvText string | EnvSecret string string

record probe =
  pr_Path :: string
  pr_Port :: int
  pr_InitialDelay :: int
  pr_Period :: int
  pr_Timeout :: int
  pr_FailureThreshold :: int

record container =
  ct_Name :: string
  ct_Image :: string
  ct_Command :: "string list"
  ct_Env :: "(string \<times> env_value) list"
  ct_Resources :: "requirements option"
  ct_Ports :: "(string \<times> int \<times> string) list"
  ct_Liveness :: "probe option"
  ct_Readiness :: "probe option"
  ct_Mounts :: "(string \<times> string) list"

datatype volume = VolumeClaim string string | VolumeConfigMap string string

record deployment_spec =
  ds_Replicas :: "int option"
  ds_Selector :: labels
  ds_PodLabels :: labels
  ds_PodAnnotations :: labels
  ds_Automount :: bool
  ds_InitContainers :: "container list"
  ds_Containers :: "container list"
  ds_Volumes :: "volume list"

record service_spec =
  sv_Type :: string
  sv_Selector :: labels
  sv_Ports :: "(string \<times> int \<times> int \<times> string) list"
  sv_ClusterIP :: string

record policy_spec =
  np_PodSelector :: labels
  np_PolicyTypes :: "string list"
  np_Ingress :: "labels list"  \<comment> \<open>the pod selectors admitted as peers\<close>
  np_Egress :: "(string \<times> int) list list"  \<comment> \<open>per rule the protocols and ports\<close>

record ingress_rule =
  ir_Host :: string
  ir_Path :: string
  ir_PathType :: string
  ir_Service :: string
  ir_Port :: int

record ingress_spec =
  in_Class :: string
  in_TLSHosts :: "string list"
  in_TLSSecret :: string
  in_Rules :: "ingress_rule list"

datatype body =
  ConfigMapBody "(string \<times> string) list"
| SecretBody "(string \<times> string) list"
| PVCBody "string list" "(string \<times> string) list" bool  \<comment> \<open>access modes, requests, bound\<close>
| DeploymentBody deployment_spec int  \<comment> \<open>spec and available replicas\<close>
| ServiceBody service_spec
| IngressBody ingress_spec
| NetworkPolicyBody policy_spec

record obj =
  o_Labels :: labels
  o_Annotations :: labels
  o_Owner :: "string option"  \<comment> \<open>the name of the controlling KaiInstance\<close>
  o_Body :: body

section \<open>Constants, names, labels\<close>

definition agentImage :: string where "agentImage = ''ghcr.io/openclaw/openclaw:latest''"
definition gatewayPort :: int where "gatewayPort = 18789"
definition defaultModel :: string where "defaultModel = ''openrouter/stepfun/step-3.5-flash:free''"

definition isSaaSEnrolled :: "kai option \<Rightarrow> bool" where
  "isSaaSEnrolled ki = (case ki of None \<Rightarrow> False
     | Some kai \<Rightarrow> if sp_Managed (k_Spec kai) = ''internal'' then False else sp_Tier (k_Spec kai) \<noteq> [])"

definition commonLabels :: "string \<Rightarrow> labels" where
  "commonLabels slug =
    [(''app.kubernetes.io/name'', ''kai-'' @ slug), (''app.kubernetes.io/part-of'', ''emai-swarm''),
     (''app.kubernetes.io/managed-by'', ''swarm-operator''), (''emai.io/component'', ''agent''),
     (''emai.io/role'', ''customer''), (''emai.io/customer'', slug), (''swarm.io/tenant'', slug)]"

definition put_if :: "string \<Rightarrow> string \<Rightarrow> labels \<Rightarrow> labels" where
  "put_if k v l = (if v \<noteq> [] then al_put k v l else l)"

definition commonLabelsFor :: "kai option \<Rightarrow> string \<Rightarrow> labels" where
  "commonLabelsFor ki slug = (case ki of None \<Rightarrow> commonLabels slug
     | Some kai \<Rightarrow>
         put_if ''swarm.io/managed'' (sp_Managed (k_Spec kai))
           (put_if ''swarm.io/org'' (sp_Org (k_Spec kai))
             (put_if ''swarm.io/app'' (sp_AppRef (k_Spec kai))
               (put_if ''swarm.io/tier'' (sp_Tier (k_Spec kai))
                 (put_if ''swarm.io/user-id'' (sp_UserRef (k_Spec kai)) (commonLabels slug))))))"

definition childName :: "string \<Rightarrow> string" where
  "childName slug = ''kai-'' @ slug"

definition usersSecretName :: "string \<Rightarrow> string" where
  "usersSecretName slug = childName slug @ ''-users''"

definition chatBridgeSecretName :: "string \<Rightarrow> string" where
  "chatBridgeSecretName slug = childName slug @ ''-chat-bridge''"

section \<open>Builders\<close>

definition buildConfigMap :: "kai \<Rightarrow> string \<Rightarrow> rendered \<Rightarrow> okey \<times> obj" where
  "buildConfigMap kai slug tmpl = ((ConfigMapKind, k_Namespace kai, childName slug @ ''-identity''),
     \<lparr>o_Labels = commonLabelsFor (Some kai) slug, o_Annotations = [], o_Owner = None,
      o_Body = ConfigMapBody [(''SOUL.md'', r_SoulMD tmpl), (''AGENTS.md'', r_AgentsMD tmpl),
        (''TOOLS.md'', r_ToolsMD tmpl), (''HEARTBEAT.md'', r_HeartbeatMD tmpl),
        (''openclaw.json'', r_OpenClawJSON tmpl), (''SKILL-mc.md'', r_SkillMC tmpl)]\<rparr>)"

definition buildPVC :: "kai \<Rightarrow> string \<Rightarrow> okey \<times> obj" where
  "buildPVC kai slug = ((PVCKind, k_Namespace kai, childName slug @ ''-state''),
     \<lparr>o_Labels = commonLabelsFor (Some kai) slug, o_Annotations = [], o_Owner = None,
      o_Body = PVCBody [''ReadWriteOnce''] [(''storage'', ''1Gi'')] False\<rparr>)"

definition initScript :: string where
  "initScript = join_with [CHR 0x0A]
    [''set -e'',
     ''mkdir -p /state/workspace /state/workspace/skills/mc /state/workspace/memory'',
     ''[ -f /state/workspace/SOUL.md ] || cp /identity/SOUL.md /state/workspace/SOUL.md'',
     ''[ -f /state/workspace/AGENTS.md ] || cp /identity/AGENTS.md /state/workspace/AGENTS.md'',
     ''[ -f /state/workspace/TOOLS.md ] || cp /identity/TOOLS.md /state/workspace/TOOLS.md'',
     ''[ -f /state/workspace/HEARTBEAT.md ] || cp /identity/HEARTBEAT.md /state/workspace/HEARTBEAT.md'',
     ''cp /identity/SKILL-mc.md /state/workspace/skills/mc/SKILL.md'',
     ''applied='' @ [CHR 0x22, CHR 0x22],
     ''[ -f /state/.config-hash ] && applied=$(cat /state/.config-hash)'',
     ''if [ '' @ [CHR 0x22] @ ''$applied'' @ [CHR 0x22] @ '' != '' @ [CHR 0x22] @ ''$EXPECTED_HASH'' @ [CHR 0x22]
       @ '' ] || [ ! -f /state/openclaw.json ]; then'',
     ''  cp /identity/openclaw.json /state/openclaw.json'',
     ''  printf %s '' @ [CHR 0x22] @ ''$EXPECTED_HASH'' @ [CHR 0x22] @ '' > /state/.config-hash'',
     ''fi'',
     ''chown -R 1000:1000 /state'']"

definition healthz_probe :: "int \<Rightarrow> int \<Rightarrow> probe" where
  "healthz_probe initial period = \<lparr>pr_Path = ''/healthz'', pr_Port = gatewayPort, pr_InitialDelay = initial,
     pr_Period = period, pr_Timeout = 30, pr_FailureThreshold = 5\<rparr>"

definition effective_model :: "tier_table \<Rightarrow> kai \<Rightarrow> string" where
  \<comment> \<open>the model resolution of \<open>buildDeployment\<close>\<close>
  "effective_model d kai =
     (let tierDefault = DefaultModel (For d (sp_Tier (k_Spec kai)));
          m1 = (if isSaaSEnrolled (Some kai) \<and> tierDefault \<noteq> [] then tierDefault else defaultModel)
      in if sp_Model (k_Spec kai) \<noteq> [] then sp_Model (k_Spec kai) else m1)"

definition effective_resources :: "qcmp \<Rightarrow> tier_table \<Rightarrow> kai \<Rightarrow> requirements" where
  \<comment> \<open>the resource requirements of \<open>buildDeployment\<close>\<close>
  "effective_resources qcmp d kai =
     (let base = \<lparr>rq_Requests = [(''memory'', ''1Gi''), (''cpu'', ''100m'')],
                  rq_Limits = [(''memory'', ''2Gi''), (''cpu'', ''500m'')]\<rparr>;
          r = (case sp_Resources (k_Spec kai) of None \<Rightarrow> base | Some r \<Rightarrow> r)
      in if isSaaSEnrolled (Some kai) then ClampResources qcmp d (Some r) (sp_Tier (k_Spec kai)) else r)"

definition buildDeployment ::
  "qcmp \<Rightarrow> tier_table \<Rightarrow> kai \<Rightarrow> string \<Rightarrow> string \<Rightarrow> string \<Rightarrow> okey \<times> obj" where
  \<comment> \<open>the last argument is \<open>PooledOpenRouterSecret\<close>\<close>
  "buildDeployment qcmp d kai slug hash pooled =
     (let labels = commonLabelsFor (Some kai) slug;
          name = childName slug;
          replicas = (if sp_Suspended (k_Spec kai) then 0 else 1);
          model = effective_model d kai;
          openRouterSecret = (if pooled = [] then ''kai-'' @ slug @ ''-openrouter'' else pooled);
          env = [(''NODE_OPTIONS'', EnvText ''--max-old-space-size=1536''),
                 (''OPENCLAW_AGENT'', EnvText name),
                 (''OPENCLAW_PROVIDER'', EnvText ''openrouter''),
                 (''OPENCLAW_MODEL'', EnvText model),
                 (''OPENROUTER_API_KEY'', EnvSecret openRouterSecret ''api-key'')]
            @ (case sp_Telegram (k_Spec kai) of None \<Rightarrow> []
               | Some ref \<Rightarrow> if ref \<noteq> [] then [(''TELEGRAM_BOT_TOKEN'', EnvSecret ref ''bot-token'')] else []);
          resources = effective_resources qcmp d kai
      in ((DeploymentKind, k_Namespace kai, name),
          \<lparr>o_Labels = labels, o_Annotations = [], o_Owner = None,
           o_Body = DeploymentBody
             \<lparr>ds_Replicas = Some replicas,
              ds_Selector = [(''app.kubernetes.io/name'', ''kai-'' @ slug)],
              ds_PodLabels = labels,
              ds_PodAnnotations = [(''emai.io/config-hash'', hash)],
              ds_Automount = False,
              ds_InitContainers = [\<lparr>ct_Name = ''copy-identity'', ct_Image = ''busybox:latest'',
                ct_Command = [''sh'', ''-c'', initScript], ct_Env = [(''EXPECTED_HASH'', EnvText hash)],
                ct_Resources = None, ct_Ports = [], ct_Liveness = None, ct_Readiness = None,
                ct_Mounts = [(''state'', ''/state''), (''identity-files'', ''/identity'')]\<rparr>],
              ds_Containers = [\<lparr>ct_Name = ''agent'', ct_Image = agentImage, ct_Command = [], ct_Env = env,
                ct_Resources = Some resources, ct_Ports = [(''gateway'', gatewayPort, ''TCP'')],
                ct_Liveness = Some (healthz_probe 120 60), ct_Readiness = Some (healthz_probe 60 30),
                ct_Mounts = [(''state'', ''/home/node/.openclaw'')]\<rparr>],
              ds_Volumes = [VolumeClaim ''state'' (name @ ''-state''),
                VolumeConfigMap ''identity-files'' (name @ ''-identity'')]\<rparr> 0\<rparr>))"

definition buildService :: "kai \<Rightarrow> string \<Rightarrow> okey \<times> obj" where
  "buildService kai slug = ((ServiceKind, k_Namespace kai, childName slug),
     \<lparr>o_Labels = commonLabelsFor (Some kai) slug, o_Annotations = [], o_Owner = None,
      o_Body = ServiceBody \<lparr>sv_Type = ''ClusterIP'',
        sv_Selector = [(''app.kubernetes.io/name'', ''kai-'' @ slug)],
        sv_Ports = [(''gateway'', gatewayPort, gatewayPort, ''TCP'')], sv_ClusterIP = []\<rparr>\<rparr>)"

definition buildNetworkPolicy :: "kai \<Rightarrow> string \<Rightarrow> okey \<times> obj" where
  "buildNetworkPolicy kai slug = ((NetworkPolicyKind, k_Namespace kai, childName slug @ ''-isolation''),
     \<lparr>o_Labels = commonLabelsFor (Some kai) slug, o_Annotations = [], o_Owner = None,
      o_Body = NetworkPolicyBody \<lparr>np_PodSelector = [(''emai.io/customer'', slug)],
        np_PolicyTypes = [''Ingress'', ''Egress''],
        np_Ingress = [[(''emai.io/role'', ''central'')]],
        np_Egress = [[(''UDP'', 53), (''TCP'', 53)], [(''TCP'', 443)]]\<rparr>\<rparr>)"

definition gatewayURL :: "string \<Rightarrow> string \<Rightarrow> string" where
  "gatewayURL ns slug = childName slug @ ''.'' @ ns @ ''.svc:'' @ dec_int gatewayPort"

definition externalURL :: "string \<Rightarrow> string \<Rightarrow> bool \<Rightarrow> string" where
  \<comment> \<open>the last argument is \<open>PerSlugSubdomain\<close>\<close>
  "externalURL domain slug perSlug =
     (if perSlug then ''https://'' @ slug @ ''.'' @ domain @ ''/ws''
      else ''https://'' @ domain @ ''/ws/'' @ slug)"

definition buildIngress :: "kai \<Rightarrow> string \<Rightarrow> string \<Rightarrow> string \<Rightarrow> bool \<Rightarrow> okey \<times> obj" where
  "buildIngress kai slug domain tlsSecret perSlug =
     (let name = childName slug;
          host = (if perSlug then slug @ ''.'' @ domain else domain);
          path = (if perSlug then ''/ws'' else ''/ws/'' @ slug)
      in ((IngressKind, k_Namespace kai, name @ ''-ws''),
          \<lparr>o_Labels = commonLabelsFor (Some kai) slug,
           o_Annotations = [(''traefik.ingress.kubernetes.io/router.entrypoints'', ''web,websecure''),
             (''traefik.ingress.kubernetes.io/router.tls'', ''true''),
             (''cert-manager.io/cluster-issuer'', ''letsencrypt-prod'')],
           o_Owner = None,
           o_Body = IngressBody \<lparr>in_Class = ''traefik'', in_TLSHosts = [host], in_TLSSecret = tlsSecret,
             in_Rules = [\<lparr>ir_Host = host, ir_Path = path, ir_PathType = ''Prefix'', ir_Service = name,
               ir_Port = gatewayPort\<rparr>]\<rparr>\<rparr>))"

definition buildUsersSecret :: "kai \<Rightarrow> string \<Rightarrow> okey \<times> obj" where
  "buildUsersSecret kai slug = ((SecretKind, k_Namespace kai, usersSecretName slug),
     \<lparr>o_Labels = commonLabels slug, o_Annotations = [], o_Owner = None,
      o_Body = SecretBody [(''users.json'', ''[]'')]\<rparr>)"

record key_material =
  km_public :: string
  km_private :: string
  km_jwt :: string

definition buildChatBridgeSecret ::
  "(string \<Rightarrow> string) \<Rightarrow> key_material option \<Rightarrow> kai \<Rightarrow> string \<Rightarrow> (okey \<times> obj) option" where
  \<comment> \<open>the generated keys are an input; \<open>None\<close>: the random source failed\<close>
  "buildChatBridgeSecret sha256 km kai slug = (case km of None \<Rightarrow> None
     | Some m \<Rightarrow> Some ((SecretKind, k_Namespace kai, chatBridgeSecretName slug),
         \<lparr>o_Labels = commonLabels slug, o_Annotations = [], o_Owner = None,
          o_Body = SecretBody [(''device-id'', hex_encode (sha256 (km_public m))),
            (''device-public'', b64_encode True (km_public m)),
            (''device-private'', b64_encode True (km_private m)),
            (''jwt-secret'', hex_encode (km_jwt m))]\<rparr>))"

section \<open>Isolation\<close>

definition selects :: "labels \<Rightarrow> labels \<Rightarrow> bool" where
  \<comment> \<open>a \<open>matchLabels\<close> selector against the labels of a pod\<close>
  "selects sel l \<longleftrightarrow> list_all (\<lambda>(k, v). map_of l k = Some v) sel"

fun pod_labels :: "body \<Rightarrow> labels" where
  "pod_labels (DeploymentBody d _) = ds_PodLabels d"
| "pod_labels _ = []"

fun policy_of :: "body \<Rightarrow> policy_spec option" where
  "policy_of (NetworkPolicyBody p) = Some p"
| "policy_of _ = None"

fun service_of :: "body \<Rightarrow> service_spec option" where
  "service_of (ServiceBody s) = Some s"
| "service_of _ = None"

fun ingress_of :: "body \<Rightarrow> ingress_spec option" where
  "ingress_of (IngressBody i) = Some i"
| "ingress_of _ = None"

fun deployment_of :: "body \<Rightarrow> deployment_spec option" where
  "deployment_of (DeploymentBody d _) = Some d"
| "deployment_of _ = None"

lemma map_of_put_if: "map_of (put_if k v l) k' = (if k' = k \<and> v \<noteq> [] then Some v else map_of l k')"
  by (simp add: put_if_def)

lemma commonLabelsFor_core:
  assumes "k \<in> {''app.kubernetes.io/name'', ''emai.io/role'', ''emai.io/customer'', ''swarm.io/tenant''}"
  shows "map_of (commonLabelsFor ki slug) k = map_of (commonLabels slug) k"
  using assms by (auto simp: commonLabelsFor_def map_of_put_if split: option.splits)

lemma commonLabels_core:
  "map_of (commonLabels slug) ''app.kubernetes.io/name'' = Some (''kai-'' @ slug)"
  "map_of (commonLabels slug) ''emai.io/role'' = Some ''customer''"
  "map_of (commonLabels slug) ''emai.io/customer'' = Some slug"
  by (simp_all add: commonLabels_def)

text \<open>C38: workspaces are isolated by construction: the network policy of a workspace and its Service
  select the agent pods of that workspace and of no other, whatever optional labels the specs add; the
  policy covers both directions, admits no agent pod of any workspace as a peer, and lets traffic out
  only to DNS and HTTPS ports.\<close>

theorem network_isolation:
  "\<exists>p s pods. policy_of (o_Body (snd (buildNetworkPolicy kai slug))) = Some p
    \<and> service_of (o_Body (snd (buildService kai slug))) = Some s
    \<and> pods = pod_labels (o_Body (snd (buildDeployment qcmp d kai' slug' hash pooled)))
    \<and> (selects (np_PodSelector p) pods \<longleftrightarrow> slug' = slug)
    \<and> (selects (sv_Selector s) pods \<longleftrightarrow> slug' = slug)
    \<and> \<not> list_ex (\<lambda>peer. selects peer pods) (np_Ingress p)
    \<and> np_PolicyTypes p = [''Ingress'', ''Egress'']
    \<and> snd ` set (concat (np_Egress p)) = {443, 53}"
  by (simp add: buildNetworkPolicy_def buildService_def buildDeployment_def Let_def selects_def
      commonLabelsFor_core commonLabels_core)

text \<open>The public URL in the status is the route the Ingress serves: host and path of its only
  rule, on HTTPS, with the host covered by the certificate and the traffic sent to the workspace's own
  Service and port; and two different workspaces never share a route.\<close>

theorem external_url_matches_ingress:
  "\<exists>i r s. ingress_of (o_Body (snd (buildIngress kai slug domain tls perSlug))) = Some i \<and> in_Rules i = [r]
    \<and> externalURL domain slug perSlug = ''https://'' @ ir_Host r @ ir_Path r
    \<and> in_TLSHosts i = [ir_Host r]
    \<and> snd (snd (fst (buildService kai slug))) = ir_Service r
    \<and> service_of (o_Body (snd (buildService kai slug))) = Some s
    \<and> list_ex (\<lambda>(_, port, _). port = ir_Port r) (sv_Ports s)
    \<and> gatewayURL ns slug = ir_Service r @ ''.'' @ ns @ ''.svc:'' @ dec_int (ir_Port r)
    \<and> (externalURL domain slug' perSlug = externalURL domain slug perSlug \<longleftrightarrow> slug' = slug)"
  by (simp add: buildIngress_def buildService_def externalURL_def gatewayURL_def Let_def)

definition plain_requirements :: "requirements \<Rightarrow> bool" where
  \<comment> \<open>no resource is named twice, as in a Go map\<close>
  "plain_requirements r \<longleftrightarrow> distinct (map fst (rq_Requests r)) \<and> distinct (map fst (rq_Limits r))"

text \<open>The agent container of an enrolled workspace never gets a memory or CPU limit above its
  tier's ceiling, whatever its spec asks for, and runs the tier's default model unless the spec names
  one; a workspace that is managed internally or has no tier keeps exactly what its spec says, or the
  fixed defaults.\<close>

theorem deployment_within_tier:
  assumes "\<And>q. qcmp q q = 0" "\<And>r. sp_Resources (k_Spec kai) = Some r \<Longrightarrow> plain_requirements r"
    and "deployment_of (o_Body (snd (buildDeployment qcmp d kai slug hash pooled))) = Some ds"
    and "ds_Containers ds = [c]" "ct_Resources c = Some r" "l = For d (sp_Tier (k_Spec kai))"
  shows "if isSaaSEnrolled (Some kai)
    then (MemoryLimit l \<noteq> [] \<longrightarrow> (\<exists>q. map_of (rq_Limits r) ''memory'' = Some q \<and> qcmp q (MemoryLimit l) \<le> 0))
      \<and> (CPULimit l \<noteq> [] \<longrightarrow> (\<exists>q. map_of (rq_Limits r) ''cpu'' = Some q \<and> qcmp q (CPULimit l) \<le> 0))
      \<and> (sp_Model (k_Spec kai) = [] \<longrightarrow> DefaultModel l \<noteq> [] \<longrightarrow>
           map_of (ct_Env c) ''OPENCLAW_MODEL'' = Some (EnvText (DefaultModel l)))
    else (sp_Resources (k_Spec kai) = Some r \<or> sp_Resources (k_Spec kai) = None
           \<and> map_of (rq_Limits r) ''memory'' = Some ''2Gi'' \<and> map_of (rq_Limits r) ''cpu'' = Some ''500m'')"
proof -
  have c: "ct_Resources c = Some (effective_resources qcmp d kai)"
    "map_of (ct_Env c) ''OPENCLAW_MODEL'' = Some (EnvText (effective_model d kai))"
    using assms(3,4) by (auto simp: buildDeployment_def Let_def)
  then have r: "r = effective_resources qcmp d kai" using assms(5) by simp
  show ?thesis
  proof (cases "isSaaSEnrolled (Some kai)")
    case True
    obtain q where q: "r = ClampResources qcmp d (Some q) (sp_Tier (k_Spec kai))" "plain_requirements q"
    proof (cases "sp_Resources (k_Spec kai)")
      case None
      with True r that show ?thesis
        by (simp add: effective_resources_def Let_def plain_requirements_def)
    next
      case (Some u)
      with True r that assms(2) show ?thesis by (simp add: effective_resources_def Let_def)
    qed
    have e: "map_of (rq_Limits r) k = (if k = ''cpu'' then clamped qcmp (CPULimit l) (map_of (rq_Limits q) k)
       else if k = ''memory'' then clamped qcmp (MemoryLimit l) (map_of (rq_Limits q) k) else map_of (rq_Limits q) k)" for k
      unfolding q(1) assms(6)
      using ClampResources_entries(2)[of "Some q" qcmp d "sp_Tier (k_Spec kai)" k] q(2)
      by (simp add: plain_requirements_def)
    have cl: "ceiling \<noteq> [] \<Longrightarrow> \<exists>q. clamped qcmp ceiling v = Some q \<and> qcmp q ceiling \<le> 0" for ceiling v
      using assms(1) by (auto simp: clamped_def split: option.splits)
    show ?thesis using True c(2) cl e[of "''memory''"] e[of "''cpu''"] assms(6)
      by (auto simp: effective_model_def Let_def)
  next
    case False
    then show ?thesis unfolding r
      by (cases "sp_Resources (k_Spec kai)") (simp_all add: effective_resources_def Let_def)
  qed
qed

definition free_kai :: kai where
  "free_kai = \<lparr>k_Name = ''kai-ada'', k_Namespace = ''emai-swarm'', k_Generation = 1, k_Deleting = False,
     k_Finalizers = [KaiInstanceFinalizer], k_Labels = [], k_Annotations = [],
     k_Spec = empty_spec\<lparr>sp_CustomerName := ''Ada'', sp_ProjectName := ''P'', sp_Tier := ''free'',
       sp_Resources := Some \<lparr>rq_Requests = [], rq_Limits = [(''memory'', ''4096Mi'')]\<rparr>\<rparr>,
     k_Status = empty_status\<rparr>"

corollary deployment_within_tier_witness:
  "\<exists>ds c r q. deployment_of (o_Body (snd (buildDeployment demo_cmp defaults free_kai ''ada'' ''h'' []))) = Some ds
     \<and> ds_Containers ds = [c] \<and> ct_Resources c = Some r
     \<and> map_of (rq_Limits r) ''memory'' = Some q \<and> demo_cmp q ''768Mi'' \<le> 0"
proof -
  obtain ds c r where w: "deployment_of (o_Body (snd (buildDeployment demo_cmp defaults free_kai ''ada'' ''h'' []))) = Some ds"
    "ds_Containers ds = [c]" "ct_Resources c = Some r"
    by (simp add: buildDeployment_def Let_def)
  have p: "sp_Resources (k_Spec free_kai) = Some r \<Longrightarrow> plain_requirements r" for r
    by (auto simp: free_kai_def plain_requirements_def)
  have z: "demo_cmp q q = 0" for q by (simp add: demo_cmp_def)
  have t: "isSaaSEnrolled (Some free_kai)" by (simp add: isSaaSEnrolled_def free_kai_def empty_spec_def)
  have l: "MemoryLimit (For defaults (sp_Tier (k_Spec free_kai))) = ''768Mi''"
    unfolding free_kai_def empty_spec_def For_def defaults_def by code_simp
  from deployment_within_tier[OF z p w refl] t l w show ?thesis by auto
qed

end
