(* ===== verification/Controller.thy ===== *)
theory Controller
  imports Resources
begin

text \<open>
  The reconciler (\<open>operator/internal/controller/kaiinstance_controller.go\<close> and the reconcile steps of
  \<open>secrets.go\<close>).  The cluster is the stored custom resources and the stored child objects; each call
  to the API server takes the next entry of a list of faults, \<open>Some e\<close> meaning that it fails with
  \<open>e\<close> and changes nothing (the list may be any, so every call can fail in every way).  The
  reconciler's working copy \<open>kai\<close> is passed along as in the code; \<open>Status().Update\<close> writes only the
  status, \<open>Update\<close> everything else.
\<close>

section \<open>The cluster\<close>

record world =
  w_kais :: "(string \<times> string) \<Rightarrow> kai option"
  w_objs :: "okey \<Rightarrow> obj option"
  w_faults :: "kerr option list"

datatype op_err = OE_Api kerr | OE_Template | OE_Random

definition next_fault :: "world \<Rightarrow> kerr option \<times> world" where
  "next_fault w = (case w_faults w of [] \<Rightarrow> (None, w) | f # fs \<Rightarrow> (f, w\<lparr>w_faults := fs\<rparr>))"

definition api_get :: "okey \<Rightarrow> world \<Rightarrow> (kerr + obj) \<times> world" where
  "api_get key w = (case next_fault w of
     (Some e, w1) \<Rightarrow> (Inl e, w1)
   | (None, w1) \<Rightarrow> (case w_objs w1 key of None \<Rightarrow> (Inl KNotFound, w1) | Some ob \<Rightarrow> (Inr ob, w1)))"

definition api_create :: "okey \<Rightarrow> obj \<Rightarrow> world \<Rightarrow> op_err option \<times> world" where
  "api_create key ob w = (case next_fault w of
     (Some e, w1) \<Rightarrow> (Some (OE_Api e), w1)
   | (None, w1) \<Rightarrow> (case w_objs w1 key of Some _ \<Rightarrow> (Some (OE_Api KAlreadyExists), w1)
       | None \<Rightarrow> (None, w1\<lparr>w_objs := (w_objs w1)(key \<mapsto> ob)\<rparr>)))"

definition api_update :: "okey \<Rightarrow> obj \<Rightarrow> world \<Rightarrow> op_err option \<times> world" where
  "api_update key ob w = (case next_fault w of
     (Some e, w1) \<Rightarrow> (Some (OE_Api e), w1)
   | (None, w1) \<Rightarrow> (case w_objs w1 key of None \<Rightarrow> (Some (OE_Api KNotFound), w1)
       | Some _ \<Rightarrow> (None, w1\<lparr>w_objs := (w_objs w1)(key \<mapsto> ob)\<rparr>)))"

definition api_delete :: "okey \<Rightarrow> world \<Rightarrow> op_err option \<times> world" where
  "api_delete key w = (case next_fault w of
     (Some e, w1) \<Rightarrow> (Some (OE_Api e), w1)
   | (None, w1) \<Rightarrow> (case w_objs w1 key of None \<Rightarrow> (Some (OE_Api KNotFound), w1)
       | Some _ \<Rightarrow> (None, w1\<lparr>w_objs := (w_objs w1)(key := None)\<rparr>)))"

definition kai_get :: "string \<times> string \<Rightarrow> world \<Rightarrow> (kerr + kai) \<times> world" where
  "kai_get nn w = (case next_fault w of
     (Some e, w1) \<Rightarrow> (Inl e, w1)
   | (None, w1) \<Rightarrow> (case w_kais w1 nn of None \<Rightarrow> (Inl KNotFound, w1) | Some k \<Rightarrow> (Inr k, w1)))"

definition kai_key :: "kai \<Rightarrow> string \<times> string" where
  "kai_key k = (k_Namespace k, k_Name k)"

definition kai_update :: "kai \<Rightarrow> world \<Rightarrow> op_err option \<times> world" where
  \<comment> \<open>\<open>Update\<close> on the custom resource: the status stays; an object that is being deleted goes away
      with its last finalizer\<close>
  "kai_update k w = (case next_fault w of
     (Some e, w1) \<Rightarrow> (Some (OE_Api e), w1)
   | (None, w1) \<Rightarrow> (case w_kais w1 (kai_key k) of None \<Rightarrow> (Some (OE_Api KNotFound), w1)
       | Some old \<Rightarrow>
           (None, w1\<lparr>w_kais := (w_kais w1)(kai_key k :=
              (if k_Deleting k \<and> k_Finalizers k = [] then None else Some (k\<lparr>k_Status := k_Status old\<rparr>)))\<rparr>)))"

definition status_update :: "kai \<Rightarrow> world \<Rightarrow> op_err option \<times> world" where
  "status_update k w = (case next_fault w of
     (Some e, w1) \<Rightarrow> (Some (OE_Api e), w1)
   | (None, w1) \<Rightarrow> (case w_kais w1 (kai_key k) of None \<Rightarrow> (Some (OE_Api KNotFound), w1)
       | Some old \<Rightarrow> (None, w1\<lparr>w_kais := (w_kais w1)(kai_key k \<mapsto> old\<lparr>k_Status := k_Status k\<rparr>)\<rparr>)))"

section \<open>The reconciler's configuration and inputs\<close>

record reconciler =
  rc_IngressDomain :: string
  rc_IngressTLSSecret :: string
  rc_PooledOpenRouterSecret :: string
  rc_CatalogDir :: string
  rc_PerSlugSubdomain :: bool
  rc_fs :: "string \<Rightarrow> string option"
  rc_readfile :: "string \<Rightarrow> file_result"
  rc_sha256 :: "string \<Rightarrow> string"
  rc_qcmp :: qcmp
  rc_tiers :: tier_table
  rc_errtext :: "op_err \<Rightarrow> string"

record inputs =
  in_now :: gotime
  in_keys :: "key_material option"

fun set_cond :: "condition \<Rightarrow> condition list \<Rightarrow> condition list" where
  "set_cond c [] = [c]"
| "set_cond c (d # ds) =
     (if cd_Type d = cd_Type c then (if cd_Status d \<noteq> cd_Status c then c # ds else d # ds)
      else d # set_cond c ds)"

definition setCondition :: "gotime \<Rightarrow> string \<Rightarrow> cond_status \<Rightarrow> string \<Rightarrow> string \<Rightarrow> kai \<Rightarrow> kai" where
  "setCondition now t st reason message k =
     (let c = \<lparr>cd_Type = t, cd_Status = st, cd_Reason = reason, cd_Message = message,
               cd_LastTransitionTime = now\<rparr>
      in k\<lparr>k_Status := (k_Status k)\<lparr>ks_Conditions := set_cond c (ks_Conditions (k_Status k))\<rparr>\<rparr>)"

definition SetControllerReference :: "kai \<Rightarrow> obj \<Rightarrow> obj" where
  "SetControllerReference k ob = ob\<lparr>o_Owner := Some (k_Name k)\<rparr>"

type_synonym step_result = "op_err option \<times> kai \<times> world"

section \<open>The child steps\<close>

definition reconcileConfigMap :: "inputs \<Rightarrow> string \<Rightarrow> rendered \<Rightarrow> kai \<Rightarrow> world \<Rightarrow> step_result" where
  "reconcileConfigMap inp slug tmpl kai w =
     (let (key, built) = buildConfigMap kai slug tmpl; desired = SetControllerReference kai built
      in (case api_get key w of
            (Inl e, w1) \<Rightarrow>
              if e = KNotFound
              then (let kai1 = setCondition (in_now inp) ConditionConfigMapReady CondTrue ''Created'' ''ConfigMap created'' kai;
                        (r, w2) = api_create key desired w1
                    in (r, kai1, w2))
              else (Some (OE_Api e), kai, w1)
          | (Inr existing, w1) \<Rightarrow>
              (let kai1 = setCondition (in_now inp) ConditionConfigMapReady CondTrue ''Updated'' ''ConfigMap up to date'' kai;
                   (r, w2) = api_update key (existing\<lparr>o_Body := o_Body desired, o_Labels := o_Labels desired\<rparr>) w1
               in (r, kai1, w2))))"

definition reconcileUsersSecret :: "string \<Rightarrow> kai \<Rightarrow> world \<Rightarrow> step_result" where
  "reconcileUsersSecret slug kai w =
     (let (key, built) = buildUsersSecret kai slug; desired = SetControllerReference kai built
      in (case api_get key w of
            (Inl e, w1) \<Rightarrow>
              if e = KNotFound then (let (r, w2) = api_create key desired w1 in (r, kai, w2))
              else (Some (OE_Api e), kai, w1)
          | (Inr _, w1) \<Rightarrow> (None, kai, w1)))"

definition reconcileChatBridgeSecret :: "reconciler \<Rightarrow> inputs \<Rightarrow> string \<Rightarrow> kai \<Rightarrow> world \<Rightarrow> step_result" where
  "reconcileChatBridgeSecret rc inp slug kai w =
     (case api_get (SecretKind, k_Namespace kai, chatBridgeSecretName slug) w of
        (Inr _, w1) \<Rightarrow> (None, kai, w1)
      | (Inl e, w1) \<Rightarrow>
          if e \<noteq> KNotFound then (Some (OE_Api e), kai, w1)
          else (case buildChatBridgeSecret (rc_sha256 rc) (in_keys inp) kai slug of
                  None \<Rightarrow> (Some OE_Random, kai, w1)
                | Some (key, built) \<Rightarrow>
                    (let (r, w2) = api_create key (SetControllerReference kai built) w1 in (r, kai, w2))))"

definition pvc_bound :: "obj \<Rightarrow> bool" where
  "pvc_bound ob = (case o_Body ob of PVCBody _ _ b \<Rightarrow> b | _ \<Rightarrow> False)"

definition reconcilePVC :: "inputs \<Rightarrow> string \<Rightarrow> kai \<Rightarrow> world \<Rightarrow> step_result" where
  "reconcilePVC inp slug kai w =
     (let (key, built) = buildPVC kai slug; desired = SetControllerReference kai built
      in (case api_get key w of
            (Inl e, w1) \<Rightarrow>
              if e = KNotFound
              then (let kai1 = setCondition (in_now inp) ConditionPVCBound CondFalse ''Creating'' ''PVC created, waiting for bind'' kai;
                        (r, w2) = api_create key desired w1
                    in (r, kai1, w2))
              else (Some (OE_Api e), kai, w1)
          | (Inr existing, w1) \<Rightarrow>
              (None, if pvc_bound existing
                 then setCondition (in_now inp) ConditionPVCBound CondTrue ''Bound'' ''PVC is bound'' kai else kai, w1)))"

definition available_replicas :: "obj \<Rightarrow> int" where
  "available_replicas ob = (case o_Body ob of DeploymentBody _ a \<Rightarrow> a | _ \<Rightarrow> 0)"

definition with_deployment_spec :: "obj \<Rightarrow> obj \<Rightarrow> obj" where
  \<comment> \<open>\<open>existing.Spec = desired.Spec\<close>: the status of the existing object stays\<close>
  "with_deployment_spec existing desired = existing\<lparr>o_Body := (case o_Body desired of
     DeploymentBody d _ \<Rightarrow> DeploymentBody d (available_replicas existing) | b \<Rightarrow> b)\<rparr>"

definition reconcileDeployment :: "reconciler \<Rightarrow> inputs \<Rightarrow> string \<Rightarrow> string \<Rightarrow> kai \<Rightarrow> world \<Rightarrow> step_result" where
  "reconcileDeployment rc inp slug hash kai w =
     (let (key, built) = buildDeployment (rc_qcmp rc) (rc_tiers rc) kai slug hash (rc_PooledOpenRouterSecret rc);
          desired = SetControllerReference kai built
      in (case api_get key w of
            (Inl e, w1) \<Rightarrow>
              if e = KNotFound
              then (let kai1 = setCondition (in_now inp) ConditionDeploymentAvailable CondFalse ''Creating'' ''Deployment created'' kai;
                        (r, w2) = api_create key desired w1
                    in (r, kai1, w2))
              else (Some (OE_Api e), kai, w1)
          | (Inr existing, w1) \<Rightarrow>
              (let (r, w2) = api_update key ((with_deployment_spec existing desired)\<lparr>o_Labels := o_Labels desired\<rparr>) w1
               in (r, kai, w2))))"

definition cluster_ip :: "obj \<Rightarrow> string" where
  "cluster_ip ob = (case o_Body ob of ServiceBody s \<Rightarrow> sv_ClusterIP s | _ \<Rightarrow> [])"

definition with_cluster_ip :: "string \<Rightarrow> body \<Rightarrow> body" where
  "with_cluster_ip ip b = (case b of ServiceBody s \<Rightarrow> ServiceBody (s\<lparr>sv_ClusterIP := ip\<rparr>) | _ \<Rightarrow> b)"

definition reconcileService :: "string \<Rightarrow> kai \<Rightarrow> world \<Rightarrow> step_result" where
  "reconcileService slug kai w =
     (let (key, built) = buildService kai slug; desired = SetControllerReference kai built
      in (case api_get key w of
            (Inl e, w1) \<Rightarrow>
              if e = KNotFound then (let (r, w2) = api_create key desired w1 in (r, kai, w2))
              else (Some (OE_Api e), kai, w1)
          | (Inr existing, w1) \<Rightarrow>
              (let (r, w2) = api_update key (existing\<lparr>o_Body := with_cluster_ip (cluster_ip existing) (o_Body desired),
                     o_Labels := o_Labels desired\<rparr>) w1
               in (r, kai, w2))))"

definition external_off :: "kai \<Rightarrow> bool" where
  "external_off kai \<longleftrightarrow> sp_ExternalAccess (k_Spec kai) = Some False"

definition reconcileIngress :: "reconciler \<Rightarrow> inputs \<Rightarrow> string \<Rightarrow> kai \<Rightarrow> world \<Rightarrow> step_result" where
  "reconcileIngress rc inp slug kai w =
     (if external_off kai
      then (let key = (IngressKind, k_Namespace kai, childName slug @ ''-ws'')
            in (case api_get key w of
                  (Inl e, w1) \<Rightarrow> if e = KNotFound then (None, kai, w1) else (Some (OE_Api e), kai, w1)
                | (Inr _, w1) \<Rightarrow> (let (r, w2) = api_delete key w1 in (r, kai, w2))))
      else (let (key, built) = buildIngress kai slug (rc_IngressDomain rc) (rc_IngressTLSSecret rc) (rc_PerSlugSubdomain rc);
                desired = SetControllerReference kai built
            in (case api_get key w of
                  (Inl e, w1) \<Rightarrow>
                    if e = KNotFound
                    then (let kai1 = setCondition (in_now inp) ConditionIngressReady CondTrue ''Created'' ''Ingress created'' kai;
                              (r, w2) = api_create key desired w1
                          in (r, kai1, w2))
                    else (Some (OE_Api e), kai, w1)
                | (Inr existing, w1) \<Rightarrow>
                    (let kai1 = setCondition (in_now inp) ConditionIngressReady CondTrue ''Updated'' ''Ingress up to date'' kai;
                         (r, w2) = api_update key (existing\<lparr>o_Body := o_Body desired, o_Labels := o_Labels desired,
                            o_Annotations := o_Annotations desired\<rparr>) w1
                     in (r, kai1, w2)))))"

definition reconcileNetworkPolicy :: "inputs \<Rightarrow> string \<Rightarrow> kai \<Rightarrow> world \<Rightarrow> step_result" where
  "reconcileNetworkPolicy inp slug kai w =
     (let (key, built) = buildNetworkPolicy kai slug; desired = SetControllerReference kai built
      in (case api_get key w of
            (Inl e, w1) \<Rightarrow>
              if e = KNotFound
              then (let kai1 = setCondition (in_now inp) ConditionNetworkPolicyApplied CondTrue ''Created'' ''NetworkPolicy created'' kai;
                        (r, w2) = api_create key desired w1
                    in (r, kai1, w2))
              else (Some (OE_Api e), kai, w1)
          | (Inr existing, w1) \<Rightarrow>
              (let kai1 = setCondition (in_now inp) ConditionNetworkPolicyApplied CondTrue ''Updated'' ''NetworkPolicy up to date'' kai;
                   (r, w2) = api_update key (existing\<lparr>o_Body := o_Body desired, o_Labels := o_Labels desired\<rparr>) w1
               in (r, kai1, w2))))"

section \<open>Reconcile\<close>

definition setFailed :: "reconciler \<Rightarrow> inputs \<Rightarrow> string \<Rightarrow> op_err \<Rightarrow> kai \<Rightarrow> world \<Rightarrow> op_err option \<times> world" where
  "setFailed rc inp reason err kai w =
     (let kai1 = kai\<lparr>k_Status := (k_Status kai)\<lparr>ks_Phase := PhaseFailed, ks_Ready := False\<rparr>\<rparr>;
          kai2 = setCondition (in_now inp) ''Ready'' CondFalse reason (rc_errtext rc err) kai1
      in (Some err, snd (status_update kai2 w)))"

definition isDeploymentReady :: "string \<Rightarrow> string \<Rightarrow> world \<Rightarrow> bool \<times> world" where
  "isDeploymentReady ns slug w = (case api_get (DeploymentKind, ns, childName slug) w of
     (Inl _, w1) \<Rightarrow> (False, w1) | (Inr ob, w1) \<Rightarrow> (available_replicas ob > 0, w1))"

definition scaled_to_zero :: "obj \<Rightarrow> obj" where
  "scaled_to_zero ob = ob\<lparr>o_Body := (case o_Body ob of
     DeploymentBody d a \<Rightarrow> DeploymentBody (d\<lparr>ds_Replicas := Some 0\<rparr>) a | b \<Rightarrow> b)\<rparr>"

definition reconcileSuspended :: "string \<Rightarrow> kai \<Rightarrow> world \<Rightarrow> op_err option \<times> world" where
  "reconcileSuspended slug kai w =
     (let key = (DeploymentKind, k_Namespace kai, childName slug);
          kai1 = kai\<lparr>k_Status := (k_Status kai)\<lparr>ks_Phase := PhaseSuspended, ks_Ready := False\<rparr>\<rparr>
      in (case api_get key w of
            (Inr deploy, w1) \<Rightarrow>
              if scaled_to_zero deploy \<noteq> deploy
              then (case api_update key (scaled_to_zero deploy) w1 of
                      (Some e, w2) \<Rightarrow> (Some e, w2)
                    | (None, w2) \<Rightarrow> status_update kai1 w2)
              else status_update kai1 w1
          | (Inl _, w1) \<Rightarrow> status_update kai1 w1))"

definition finish :: "reconciler \<Rightarrow> string \<Rightarrow> kai \<Rightarrow> world \<Rightarrow> op_err option \<times> world" where
  \<comment> \<open>steps 7 to 9\<close>
  "finish rc slug kai w =
     (let (ready, w1) = isDeploymentReady (k_Namespace kai) slug w;
          st = (k_Status kai)\<lparr>ks_Ready := ready, ks_GatewayURL := gatewayURL (k_Namespace kai) slug,
            ks_ExternalURL := (if external_off kai then []
               else externalURL (rc_IngressDomain rc) slug (rc_PerSlugSubdomain rc)),
            ks_Phase := (if ready then PhaseRunning else ks_Phase (k_Status kai)),
            ks_ObservedGeneration := k_Generation kai\<rparr>
      in status_update (kai\<lparr>k_Status := st\<rparr>) w1)"

definition child_steps :: "reconciler \<Rightarrow> inputs \<Rightarrow> string \<Rightarrow> rendered \<Rightarrow> string \<Rightarrow> (string \<times> (kai \<Rightarrow> world \<Rightarrow> step_result)) list" where
  \<comment> \<open>step 6 in its order, each with the reason of its failure\<close>
  "child_steps rc inp slug tmpl hash =
     [(''ConfigMapError'', reconcileConfigMap inp slug tmpl),
      (''UsersSecretError'', reconcileUsersSecret slug),
      (''ChatBridgeSecretError'', reconcileChatBridgeSecret rc inp slug),
      (''PVCError'', reconcilePVC inp slug),
      (''DeploymentError'', reconcileDeployment rc inp slug hash),
      (''ServiceError'', reconcileService slug),
      (''NetworkPolicyError'', reconcileNetworkPolicy inp slug),
      (''IngressError'', reconcileIngress rc inp slug)]"

fun run_steps :: "reconciler \<Rightarrow> inputs \<Rightarrow> string \<Rightarrow> (string \<times> (kai \<Rightarrow> world \<Rightarrow> step_result)) list \<Rightarrow> kai \<Rightarrow> world
   \<Rightarrow> op_err option \<times> world" where
  "run_steps rc inp slug [] kai w = finish rc slug kai w"
| "run_steps rc inp slug ((reason, step) # steps) kai w =
     (case step kai w of
        (Some e, kai1, w1) \<Rightarrow> setFailed rc inp reason e kai1 w1
      | (None, kai1, w1) \<Rightarrow> run_steps rc inp slug steps kai1 w1)"

definition provision :: "reconciler \<Rightarrow> inputs \<Rightarrow> string \<Rightarrow> kai \<Rightarrow> world \<Rightarrow> op_err option \<times> world" where
  \<comment> \<open>steps 4 to 9 of \<open>Reconcile\<close> for an instance that is not suspended\<close>
  "provision rc inp slug kai w =
     (let ph = (if ks_Phase (k_Status kai) \<noteq> PhaseRunning then PhaseProvisioning else PhaseRunning);
          kai1 = kai\<lparr>k_Status := (k_Status kai)\<lparr>ks_Phase := ph\<rparr>\<rparr>;
          model = (if sp_Model (k_Spec kai) \<noteq> [] then sp_Model (k_Spec kai) else defaultModel);
          vars = \<lparr>tv_TenantName = EffectiveName (k_Spec kai), tv_TenantSlug = slug, tv_ProjectName = sp_ProjectName (k_Spec kai)\<rparr>;
          opts = \<lparr>to_CatalogDir = rc_CatalogDir rc, to_AppRef = sp_AppRef (k_Spec kai)\<rparr>
      in (case renderAllTemplates (rc_fs rc) (rc_readfile rc) vars opts of
            None \<Rightarrow> setFailed rc inp ''TemplateRenderError'' OE_Template kai1 w
          | Some tmpl \<Rightarrow>
              (let hash = configHash (rc_sha256 rc) tmpl model;
                   kai2 = kai1\<lparr>k_Status := (k_Status kai1)\<lparr>ks_ConfigHash := hash\<rparr>\<rparr>
               in run_steps rc inp slug (child_steps rc inp slug tmpl hash) kai2 w)))"

definition Reconcile :: "reconciler \<Rightarrow> inputs \<Rightarrow> string \<times> string \<Rightarrow> world \<Rightarrow> op_err option \<times> world" where
  "Reconcile rc inp nn w =
     (case kai_get nn w of
        (Inl e, w1) \<Rightarrow> if e = KNotFound then (None, w1) else (Some (OE_Api e), w1)
      | (Inr kai, w1) \<Rightarrow>
          if k_Deleting kai then
            (if KaiInstanceFinalizer \<in> set (k_Finalizers kai)
             then kai_update (kai\<lparr>k_Finalizers := filter (\<lambda>f. f \<noteq> KaiInstanceFinalizer) (k_Finalizers kai)\<rparr>) w1
             else (None, w1))
          else if KaiInstanceFinalizer \<notin> set (k_Finalizers kai) then
            kai_update (kai\<lparr>k_Finalizers := k_Finalizers kai @ [KaiInstanceFinalizer]\<rparr>) w1
          else
            (let slug = resolve_slug (k_Spec kai);
                 kai1 = kai\<lparr>k_Status := (k_Status kai)\<lparr>ks_CustomerSlug := slug\<rparr>\<rparr>
             in if sp_Suspended (k_Spec kai) then reconcileSuspended slug kai1 w1
                else provision rc inp slug kai1 w1))"

section \<open>What a step may touch\<close>

lemma next_fault_keeps [simp]: "w_objs (snd (next_fault w)) = w_objs w" "w_kais (snd (next_fault w)) = w_kais w"
  by (simp_all add: next_fault_def split: list.splits)

lemma api_get_keeps [simp]: "w_objs (snd (api_get key w)) = w_objs w" "w_kais (snd (api_get key w)) = w_kais w"
  by (simp_all add: api_get_def split_beta split: option.splits)

lemma api_get_Inr: "fst (api_get key w) = Inr ob \<Longrightarrow> w_objs w key = Some ob"
  by (auto simp: api_get_def split_beta split: option.splits)

lemma api_create_keeps [simp]:
  "w_kais (snd (api_create key ob w)) = w_kais w"
  "w_objs (snd (api_create key ob w)) = (if fst (api_create key ob w) = None then (w_objs w)(key \<mapsto> ob) else w_objs w)"
  by (auto simp: api_create_def split_beta split: option.splits)

lemma api_create_fresh: "fst (api_create key ob w) = None \<Longrightarrow> w_objs w key = None"
  by (auto simp: api_create_def split_beta split: option.splits)

lemma api_update_keeps [simp]:
  "w_kais (snd (api_update key ob w)) = w_kais w"
  "w_objs (snd (api_update key ob w)) = (if fst (api_update key ob w) = None then (w_objs w)(key \<mapsto> ob) else w_objs w)"
  by (auto simp: api_update_def split_beta split: option.splits)

lemma api_delete_keeps [simp]:
  "w_kais (snd (api_delete key w)) = w_kais w"
  "w_objs (snd (api_delete key w)) = (if fst (api_delete key w) = None then (w_objs w)(key := None) else w_objs w)"
  by (auto simp: api_delete_def split_beta split: option.splits)

definition conditions_only :: "kai \<Rightarrow> kai \<Rightarrow> bool" where
  \<comment> \<open>the working copy changed at most in its conditions\<close>
  "conditions_only k k' \<longleftrightarrow> k' = k\<lparr>k_Status := (k_Status k)\<lparr>ks_Conditions := ks_Conditions (k_Status k')\<rparr>\<rparr>"

lemma conditions_only_refl [simp]: "conditions_only k k"
  by (simp add: conditions_only_def)

lemma conditions_only_set [simp]: "conditions_only k (setCondition now t st r m k)"
  by (simp add: conditions_only_def setCondition_def Let_def)

lemma conditions_only_trans: "conditions_only k k' \<Longrightarrow> conditions_only k' k'' \<Longrightarrow> conditions_only k k''"
  unfolding conditions_only_def by (metis (no_types, lifting) kai.surjective kai.update_convs(9) kai_status.surjective kai_status.update_convs(8) kai.select_convs(9))

lemma conditions_only_fields:
  assumes "conditions_only k k'"
  shows "k_Name k' = k_Name k" "k_Namespace k' = k_Namespace k" "k_Spec k' = k_Spec k"
    "k_Generation k' = k_Generation k" "kai_key k' = kai_key k" "external_off k' = external_off k"
    "ks_Phase (k_Status k') = ks_Phase (k_Status k)"
    "ks_ObservedGeneration (k_Status k') = ks_ObservedGeneration (k_Status k)"
proof -
  obtain cs where "k' = k\<lparr>k_Status := (k_Status k)\<lparr>ks_Conditions := cs\<rparr>\<rparr>"
    using assms unfolding conditions_only_def by blast
  then show "k_Name k' = k_Name k" "k_Namespace k' = k_Namespace k" "k_Spec k' = k_Spec k"
    "k_Generation k' = k_Generation k" "kai_key k' = kai_key k" "external_off k' = external_off k"
    "ks_Phase (k_Status k') = ks_Phase (k_Status k)"
    "ks_ObservedGeneration (k_Status k') = ks_ObservedGeneration (k_Status k)"
    by (simp_all add: kai_key_def external_off_def)
qed

definition step_frame :: "okey \<Rightarrow> bool \<Rightarrow> bool \<Rightarrow> kai \<Rightarrow> world \<Rightarrow> step_result \<Rightarrow> bool" where
  \<comment> \<open>a step touches one key; \<open>upd\<close>: it may change an existing object, \<open>del\<close>: it may delete it\<close>
  "step_frame key upd del kai w res \<longleftrightarrow> (case res of (r, kai', w') \<Rightarrow>
     w_kais w' = w_kais w \<and> conditions_only kai kai'
     \<and> (\<forall>k. k \<noteq> key \<longrightarrow> w_objs w' k = w_objs w k)
     \<and> (\<not> upd \<longrightarrow> w_objs w key \<noteq> None \<longrightarrow> w_objs w' key = w_objs w key)
     \<and> (\<not> del \<longrightarrow> w_objs w key \<noteq> None \<longrightarrow> w_objs w' key \<noteq> None))"

named_theorems step_defs

lemmas [step_defs] = reconcileConfigMap_def reconcileUsersSecret_def reconcileChatBridgeSecret_def
  reconcilePVC_def reconcileDeployment_def reconcileService_def reconcileNetworkPolicy_def

lemma frame_ConfigMap:
  "step_frame (fst (buildConfigMap kai slug tmpl)) True False kai w (reconcileConfigMap inp slug tmpl kai w)"
  by (auto simp: step_frame_def step_defs split_beta Let_def split: sum.splits)

lemma frame_UsersSecret:
  "step_frame (fst (buildUsersSecret kai slug)) False False kai w (reconcileUsersSecret slug kai w)"
  by (auto simp: step_frame_def step_defs split_beta Let_def split: sum.splits dest: api_create_fresh)

lemma frame_ChatBridgeSecret:
  "step_frame (SecretKind, k_Namespace kai, chatBridgeSecretName slug) False False kai w
     (reconcileChatBridgeSecret rc inp slug kai w)"
  by (auto simp: step_frame_def step_defs buildChatBridgeSecret_def split_beta Let_def
      split: sum.splits option.splits dest: api_create_fresh)

lemma frame_PVC: "step_frame (fst (buildPVC kai slug)) False False kai w (reconcilePVC inp slug kai w)"
  by (auto simp: step_frame_def step_defs split_beta Let_def split: sum.splits dest: api_create_fresh)

lemma frame_Deployment:
  "step_frame (DeploymentKind, k_Namespace kai, childName slug) True False kai w (reconcileDeployment rc inp slug hash kai w)"
proof -
  have "fst (buildDeployment q d kai slug hash p) = (DeploymentKind, k_Namespace kai, childName slug)" for q d p
    by (simp add: buildDeployment_def Let_def)
  then show ?thesis
    by (auto simp: step_frame_def step_defs split_beta Let_def split: sum.splits)
qed

lemma frame_Service:
  "step_frame (fst (buildService kai slug)) True False kai w (reconcileService slug kai w)"
  by (auto simp: step_frame_def step_defs split_beta Let_def split: sum.splits)

lemma frame_NetworkPolicy:
  "step_frame (fst (buildNetworkPolicy kai slug)) True False kai w (reconcileNetworkPolicy inp slug kai w)"
  by (auto simp: step_frame_def step_defs split_beta Let_def split: sum.splits)

lemma frame_Ingress:
  "step_frame (IngressKind, k_Namespace kai, childName slug @ ''-ws'') True (external_off kai) kai w
     (reconcileIngress rc inp slug kai w)"
proof -
  have "fst (buildIngress kai slug dm tl ps) = (IngressKind, k_Namespace kai, childName slug @ ''-ws'')" for dm tl ps
    by (simp add: buildIngress_def Let_def)
  then show ?thesis
    by (auto simp: step_frame_def reconcileIngress_def split_beta Let_def split: sum.splits)
qed

section \<open>What a run may touch\<close>

definition child_keys :: "string \<Rightarrow> string \<Rightarrow> okey set" where
  "child_keys ns slug =
    {(ConfigMapKind, ns, childName slug @ ''-identity''), (SecretKind, ns, usersSecretName slug),
     (SecretKind, ns, chatBridgeSecretName slug), (PVCKind, ns, childName slug @ ''-state''),
     (DeploymentKind, ns, childName slug), (ServiceKind, ns, childName slug),
     (NetworkPolicyKind, ns, childName slug @ ''-isolation''), (IngressKind, ns, childName slug @ ''-ws'')}"

definition objs_frame :: "kai \<Rightarrow> string \<Rightarrow> world \<Rightarrow> world \<Rightarrow> bool" where
  "objs_frame kai slug w w' \<longleftrightarrow> (\<forall>key. w_objs w' key \<noteq> w_objs w key \<longrightarrow>
     key \<in> child_keys (k_Namespace kai) slug
     \<and> (w_objs w key \<noteq> None \<longrightarrow> fst key \<noteq> SecretKind \<and> fst key \<noteq> PVCKind)
     \<and> (w_objs w' key = None \<longrightarrow> fst key = IngressKind \<and> external_off kai))"

definition status_frame :: "string \<times> string \<Rightarrow> world \<Rightarrow> world \<Rightarrow> bool" where
  "status_frame nn w w' \<longleftrightarrow> (\<forall>nn'. nn' \<noteq> nn \<longrightarrow> w_kais w' nn' = w_kais w nn')
     \<and> (w_kais w' nn = w_kais w nn
        \<or> (\<exists>old st. w_kais w nn = Some old \<and> w_kais w' nn = Some (old\<lparr>k_Status := st\<rparr>)))"

lemma objs_frame_refl [simp]: "objs_frame kai slug w w"
  by (simp add: objs_frame_def)

lemma objs_frame_trans:
  assumes "objs_frame kai slug w w1" "objs_frame kai slug w1 w2"
  shows "objs_frame kai slug w w2"
  unfolding objs_frame_def
proof (intro allI impI)
  fix key
  assume d: "w_objs w2 key \<noteq> w_objs w key"
  show "key \<in> child_keys (k_Namespace kai) slug
     \<and> (w_objs w key \<noteq> None \<longrightarrow> fst key \<noteq> SecretKind \<and> fst key \<noteq> PVCKind)
     \<and> (w_objs w2 key = None \<longrightarrow> fst key = IngressKind \<and> external_off kai)"
  proof (cases "w_objs w1 key = w_objs w key")
    case True
    with d assms(2) show ?thesis unfolding objs_frame_def by metis
  next
    case False
    with assms(1) have f: "key \<in> child_keys (k_Namespace kai) slug
     \<and> (w_objs w key \<noteq> None \<longrightarrow> fst key \<noteq> SecretKind \<and> fst key \<noteq> PVCKind)
     \<and> (w_objs w1 key = None \<longrightarrow> fst key = IngressKind \<and> external_off kai)"
      unfolding objs_frame_def by blast
    show ?thesis
    proof (cases "w_objs w2 key = w_objs w1 key")
      case True
      with f show ?thesis by simp
    next
      case False
      with assms(2) f show ?thesis unfolding objs_frame_def by blast
    qed
  qed
qed

lemma objs_frame_same: "w_objs w' = w_objs w \<Longrightarrow> objs_frame kai slug w w'"
  by (simp add: objs_frame_def)

lemma objs_frame_kai:
  "k_Namespace k' = k_Namespace k \<Longrightarrow> external_off k' = external_off k \<Longrightarrow> objs_frame k' slug w w' = objs_frame k slug w w'"
  by (simp add: objs_frame_def)

definition good_step :: "string \<Rightarrow> (kai \<Rightarrow> world \<Rightarrow> step_result) \<Rightarrow> bool" where
  "good_step slug step \<longleftrightarrow> (\<forall>kai w. case step kai w of (r, kai', w') \<Rightarrow>
     w_kais w' = w_kais w \<and> conditions_only kai kai' \<and> objs_frame kai slug w w')"

lemma good_stepI:
  assumes "\<And>kai w. step_frame (key kai) upd (del kai) kai w (step kai w)"
    and "\<And>kai. key kai \<in> child_keys (k_Namespace kai) slug"
    and "\<And>kai. upd \<Longrightarrow> fst (key kai) \<noteq> SecretKind \<and> fst (key kai) \<noteq> PVCKind"
    and "\<And>kai. del kai \<Longrightarrow> upd \<and> fst (key kai) = IngressKind \<and> external_off kai"
  shows "good_step slug step"
  unfolding good_step_def
proof (intro allI)
  fix kai w
  obtain r kai' w' where s: "step kai w = (r, kai', w')" by (metis prod_cases3)
  with assms(1)[of kai w] have f: "w_kais w' = w_kais w" "conditions_only kai kai'"
    "\<And>k. k \<noteq> key kai \<Longrightarrow> w_objs w' k = w_objs w k"
    "\<not> upd \<Longrightarrow> w_objs w (key kai) \<noteq> None \<Longrightarrow> w_objs w' (key kai) = w_objs w (key kai)"
    "\<not> del kai \<Longrightarrow> w_objs w (key kai) \<noteq> None \<Longrightarrow> w_objs w' (key kai) \<noteq> None"
    by (auto simp: step_frame_def)
  have "objs_frame kai slug w w'"
    unfolding objs_frame_def
  proof (intro allI impI)
    fix k
    assume d: "w_objs w' k \<noteq> w_objs w k"
    with f(3) have k: "k = key kai" by blast
    show "k \<in> child_keys (k_Namespace kai) slug
       \<and> (w_objs w k \<noteq> None \<longrightarrow> fst k \<noteq> SecretKind \<and> fst k \<noteq> PVCKind)
       \<and> (w_objs w' k = None \<longrightarrow> fst k = IngressKind \<and> external_off kai)"
      using d f(4,5) assms(2,3,4)[of kai] unfolding k by (metis (full_types))
  qed
  with s f(1,2) show "case step kai w of (r, kai', w') \<Rightarrow>
     w_kais w' = w_kais w \<and> conditions_only kai kai' \<and> objs_frame kai slug w w'" by simp
qed

lemma good_child_steps: "list_all (\<lambda>(_, step). good_step slug step) (child_steps rc inp slug tmpl hash)"
proof -
  have "good_step slug (reconcileConfigMap inp slug tmpl)"
    by (rule good_stepI[OF frame_ConfigMap]) (simp_all add: buildConfigMap_def child_keys_def)
  moreover have "good_step slug (reconcileUsersSecret slug)"
    by (rule good_stepI[OF frame_UsersSecret]) (simp_all add: buildUsersSecret_def child_keys_def)
  moreover have "good_step slug (reconcileChatBridgeSecret rc inp slug)"
    by (rule good_stepI[OF frame_ChatBridgeSecret]) (simp_all add: child_keys_def)
  moreover have "good_step slug (reconcilePVC inp slug)"
    by (rule good_stepI[OF frame_PVC]) (simp_all add: buildPVC_def child_keys_def)
  moreover have "good_step slug (reconcileDeployment rc inp slug hash)"
    by (rule good_stepI[OF frame_Deployment]) (simp_all add: child_keys_def)
  moreover have "good_step slug (reconcileService slug)"
    by (rule good_stepI[OF frame_Service]) (simp_all add: buildService_def child_keys_def)
  moreover have "good_step slug (reconcileNetworkPolicy inp slug)"
    by (rule good_stepI[OF frame_NetworkPolicy]) (simp_all add: buildNetworkPolicy_def child_keys_def)
  moreover have "good_step slug (reconcileIngress rc inp slug)"
    by (rule good_stepI[OF frame_Ingress]) (simp_all add: child_keys_def)
  ultimately show ?thesis by (simp add: child_steps_def)
qed

lemma status_update_objs [simp]: "w_objs (snd (status_update k w)) = w_objs w"
  by (simp add: status_update_def split_beta split: option.splits)

lemma status_update_frame: "status_frame (kai_key k) w (snd (status_update k w))"
  by (auto simp: status_frame_def status_update_def split_beta split: option.splits)

lemma status_frame_kais: "status_frame nn w w' \<Longrightarrow> w_kais w = w_kais w0 \<Longrightarrow> status_frame nn w0 w'"
  by (simp add: status_frame_def)

lemma status_update_frame_at:
  "kai_key k = nn \<Longrightarrow> w_kais w1 = w_kais w \<Longrightarrow> status_frame nn w (snd (status_update k w1))"
  using status_update_frame[of k w1] status_frame_kais by blast

lemma kai_key_setCondition [simp]: "kai_key (setCondition n t s r m k) = kai_key k"
  by (simp add: setCondition_def kai_key_def Let_def)

lemma kai_key_status [simp]: "kai_key (k\<lparr>k_Status := st\<rparr>) = kai_key k"
  by (simp add: kai_key_def)

lemma setFailed_frame:
  "w_objs (snd (setFailed rc inp reason e kai w)) = w_objs w"
  "status_frame (kai_key kai) w (snd (setFailed rc inp reason e kai w))"
  by (simp_all add: setFailed_def Let_def status_update_frame_at)

lemma finish_frame:
  "w_objs (snd (finish rc slug kai w)) = w_objs w"
  "status_frame (kai_key kai) w (snd (finish rc slug kai w))"
proof -
  have g: "w_objs (snd (isDeploymentReady ns slug w)) = w_objs w" "w_kais (snd (isDeploymentReady ns slug w)) = w_kais w" for ns
    by (auto simp: isDeploymentReady_def split_beta split: sum.splits)
  then show "w_objs (snd (finish rc slug kai w)) = w_objs w" by (simp add: finish_def split_beta Let_def)
  show "status_frame (kai_key kai) w (snd (finish rc slug kai w))"
    unfolding finish_def split_beta Let_def by (rule status_update_frame_at) (simp_all add: g)
qed

lemma run_steps_frame:
  assumes "list_all (\<lambda>(_, step). good_step slug step) steps"
  shows "objs_frame kai slug w (snd (run_steps rc inp slug steps kai w))
    \<and> status_frame (kai_key kai) w (snd (run_steps rc inp slug steps kai w))"
  using assms
proof (induction steps arbitrary: kai w)
  case Nil
  then show ?case using finish_frame objs_frame_same by simp
next
  case (Cons rs steps)
  obtain reason step where rs: "rs = (reason, step)" by (cases rs)
  obtain r kai' w' where s: "step kai w = (r, kai', w')" by (metis prod_cases3)
  with Cons.prems rs have g: "w_kais w' = w_kais w" "conditions_only kai kai'" "objs_frame kai slug w w'"
    by (auto simp: good_step_def split: prod.splits)
  note k = conditions_only_fields[OF g(2)]
  show ?case
  proof (cases r)
    case None
    have "objs_frame kai' slug w' (snd (run_steps rc inp slug steps kai' w'))"
      "status_frame (kai_key kai') w' (snd (run_steps rc inp slug steps kai' w'))"
      using Cons.IH[of kai' w'] Cons.prems by simp_all
    with g(3) k objs_frame_kai[of kai' kai slug] objs_frame_trans status_frame_kais[OF _ g(1)] rs s None
    show ?thesis by (auto intro: objs_frame_trans)
  next
    case (Some e)
    have "objs_frame kai slug w (snd (setFailed rc inp reason e kai' w'))"
      using g(3) setFailed_frame(1) unfolding objs_frame_def by simp
    moreover have "status_frame (kai_key kai) w (snd (setFailed rc inp reason e kai' w'))"
      using status_frame_kais[OF setFailed_frame(2)[of kai'] g(1)] unfolding k(5) .
    ultimately show ?thesis using rs s Some by simp
  qed
qed

lemma kai_get_keeps [simp]: "w_objs (snd (kai_get nn w)) = w_objs w" "w_kais (snd (kai_get nn w)) = w_kais w"
  by (simp_all add: kai_get_def split_beta split: option.splits)

lemma kai_get_Inr: "fst (kai_get nn w) = Inr k \<Longrightarrow> w_kais w nn = Some k"
  by (auto simp: kai_get_def split_beta split: option.splits)

lemma kai_update_objs [simp]: "w_objs (snd (kai_update k w)) = w_objs w"
  by (simp add: kai_update_def split_beta split: option.splits)

definition started_phase :: "phase \<Rightarrow> phase" where
  "started_phase p = (if p \<noteq> PhaseRunning then PhaseProvisioning else PhaseRunning)"

definition rendered_for :: "reconciler \<Rightarrow> kai \<Rightarrow> string \<Rightarrow> rendered option" where
  "rendered_for rc kai slug = renderAllTemplates (rc_fs rc) (rc_readfile rc)
     \<lparr>tv_TenantName = EffectiveName (k_Spec kai), tv_TenantSlug = slug, tv_ProjectName = sp_ProjectName (k_Spec kai)\<rparr>
     \<lparr>to_CatalogDir = rc_CatalogDir rc, to_AppRef = sp_AppRef (k_Spec kai)\<rparr>"

definition hash_for :: "reconciler \<Rightarrow> kai \<Rightarrow> rendered \<Rightarrow> string" where
  "hash_for rc kai tmpl = configHash (rc_sha256 rc) tmpl
     (if sp_Model (k_Spec kai) \<noteq> [] then sp_Model (k_Spec kai) else defaultModel)"

lemma provision_eq:
  "provision rc inp slug kai w = (case rendered_for rc kai slug of
     None \<Rightarrow> setFailed rc inp ''TemplateRenderError'' OE_Template
       (kai\<lparr>k_Status := (k_Status kai)\<lparr>ks_Phase := started_phase (ks_Phase (k_Status kai))\<rparr>\<rparr>) w
   | Some tmpl \<Rightarrow> run_steps rc inp slug (child_steps rc inp slug tmpl (hash_for rc kai tmpl))
       (kai\<lparr>k_Status := (k_Status kai)\<lparr>ks_Phase := started_phase (ks_Phase (k_Status kai)),
          ks_ConfigHash := hash_for rc kai tmpl\<rparr>\<rparr>) w)"
  unfolding provision_def rendered_for_def started_phase_def hash_for_def Let_def
  by (simp split: option.split)

lemma provision_cases:
  obtains (failed) st where "provision rc inp slug kai w
      = setFailed rc inp ''TemplateRenderError'' OE_Template (kai\<lparr>k_Status := st\<rparr>) w"
  | (ran) st tmpl hash where "provision rc inp slug kai w
      = run_steps rc inp slug (child_steps rc inp slug tmpl hash) (kai\<lparr>k_Status := st\<rparr>) w"
  by (cases "rendered_for rc kai slug") (auto simp: provision_eq)

lemma provision_frame:
  "objs_frame kai slug w (snd (provision rc inp slug kai w))"
  "status_frame (kai_key kai) w (snd (provision rc inp slug kai w))"
proof -
  have f: "objs_frame (kai\<lparr>k_Status := st\<rparr>) slug w w' = objs_frame kai slug w w'" for st w'
    by (rule objs_frame_kai) (simp_all add: external_off_def)
  have "objs_frame kai slug w (snd (provision rc inp slug kai w))
    \<and> status_frame (kai_key kai) w (snd (provision rc inp slug kai w))"
  proof (cases rule: provision_cases[of rc inp slug kai w])
    case (failed st)
    then show ?thesis
      using setFailed_frame(2)[of "kai\<lparr>k_Status := st\<rparr>" w rc inp "''TemplateRenderError''" OE_Template]
      by (simp add: objs_frame_same setFailed_frame(1))
  next
    case (ran st tmpl hash)
    have "objs_frame (kai\<lparr>k_Status := st\<rparr>) slug w (snd (provision rc inp slug kai w))
      \<and> status_frame (kai_key (kai\<lparr>k_Status := st\<rparr>)) w (snd (provision rc inp slug kai w))"
      unfolding ran by (rule run_steps_frame[OF good_child_steps])
    then show ?thesis unfolding f kai_key_status .
  qed
  then show "objs_frame kai slug w (snd (provision rc inp slug kai w))"
    "status_frame (kai_key kai) w (snd (provision rc inp slug kai w))" by blast+
qed

definition suspend_frame :: "kai \<Rightarrow> string \<Rightarrow> world \<Rightarrow> world \<Rightarrow> bool" where
  "suspend_frame kai slug w w' \<longleftrightarrow> (let key = (DeploymentKind, k_Namespace kai, childName slug) in
     (\<forall>k. k \<noteq> key \<longrightarrow> w_objs w' k = w_objs w k)
     \<and> (w_objs w' key = w_objs w key \<or> w_objs w' key = map_option scaled_to_zero (w_objs w key)))"

lemma reconcileSuspended_frame:
  "suspend_frame kai slug w (snd (reconcileSuspended slug kai w))"
  "status_frame (kai_key kai) w (snd (reconcileSuspended slug kai w))"
proof -
  let ?key = "(DeploymentKind, k_Namespace kai, childName slug)"
  show "suspend_frame kai slug w (snd (reconcileSuspended slug kai w))"
    using api_get_Inr[of ?key w]
    by (auto simp: suspend_frame_def reconcileSuspended_def Let_def split_beta split: sum.splits option.splits)
  have refl: "status_frame nn w w'" if "w_kais w' = w_kais w" for nn w'
    using that by (simp add: status_frame_def)
  show "status_frame (kai_key kai) w (snd (reconcileSuspended slug kai w))"
    by (auto simp: reconcileSuspended_def Let_def split_beta split: sum.splits option.splits
        intro!: status_update_frame_at intro: refl)
qed

definition wf_world :: "world \<Rightarrow> bool" where
  \<comment> \<open>every custom resource is stored under its own namespace and name\<close>
  "wf_world w \<longleftrightarrow> (\<forall>nn k. w_kais w nn = Some k \<longrightarrow> kai_key k = nn)"

definition live :: "kai \<Rightarrow> bool" where
  "live k \<longleftrightarrow> \<not> k_Deleting k \<and> KaiInstanceFinalizer \<in> set (k_Finalizers k)"

definition with_slug :: "kai \<Rightarrow> kai" where
  "with_slug k = k\<lparr>k_Status := (k_Status k)\<lparr>ks_CustomerSlug := resolve_slug (k_Spec k)\<rparr>\<rparr>"

lemma Reconcile_cases:
  obtains (absent) e w1 where "kai_get nn w = (Inl e, w1)" "snd (Reconcile rc inp nn w) = w1"
  | (meta) kai fin w1 where "kai_get nn w = (Inr kai, w1)" "\<not> live kai"
      "snd (Reconcile rc inp nn w) = w1 \<or> Reconcile rc inp nn w = kai_update (kai\<lparr>k_Finalizers := fin\<rparr>) w1"
  | (suspended) kai w1 where "kai_get nn w = (Inr kai, w1)" "live kai" "sp_Suspended (k_Spec kai)"
      "Reconcile rc inp nn w = reconcileSuspended (resolve_slug (k_Spec kai)) (with_slug kai) w1"
  | (running) kai w1 where "kai_get nn w = (Inr kai, w1)" "live kai" "\<not> sp_Suspended (k_Spec kai)"
      "Reconcile rc inp nn w = provision rc inp (resolve_slug (k_Spec kai)) (with_slug kai) w1"
proof (cases "kai_get nn w")
  case (Pair r w1)
  show ?thesis
  proof (cases r)
    case (Inl e)
    with Pair show ?thesis by (intro absent) (simp_all add: Reconcile_def)
  next
    case (Inr kai)
    show ?thesis
    proof (cases "live kai")
      case True
      with Pair Inr show ?thesis
        by (cases "sp_Suspended (k_Spec kai)")
          (auto intro: suspended running simp: Reconcile_def live_def with_slug_def Let_def)
    next
      case False
      show ?thesis
      proof (cases "k_Deleting kai")
        case True
        show ?thesis
          by (rule meta[of kai w1 "filter (\<lambda>f. f \<noteq> KaiInstanceFinalizer) (k_Finalizers kai)"])
            (use Pair Inr False True in \<open>auto simp: Reconcile_def live_def\<close>)
      next
        case nd: False
        show ?thesis
          by (rule meta[of kai w1 "k_Finalizers kai @ [KaiInstanceFinalizer]"])
            (use Pair Inr False nd in \<open>auto simp: Reconcile_def live_def\<close>)
      qed
    qed
  qed
qed

lemma wf_worldD: "wf_world w \<Longrightarrow> w_kais w nn = Some k \<Longrightarrow> k_Namespace k = fst nn \<and> kai_key k = nn"
  unfolding wf_world_def kai_key_def by fastforce

lemma with_slug_fields [simp]:
  "k_Namespace (with_slug k) = k_Namespace k" "k_Spec (with_slug k) = k_Spec k" "kai_key (with_slug k) = kai_key k"
  "external_off (with_slug k) = external_off k" "k_Generation (with_slug k) = k_Generation k"
  by (simp_all add: with_slug_def external_off_def)

lemma kai_get_world: "kai_get nn w = (x, w1) \<Longrightarrow> w_kais w1 = w_kais w \<and> w_objs w1 = w_objs w"
  using kai_get_keeps[of nn w] by simp

text \<open>No reconcile makes a custom resource or changes the specification of one.\<close>

lemma Reconcile_specs:
  assumes "wf_world w" "Reconcile rc inp nn w = (r, w')" "w_kais w' nn' = Some k'"
  shows "\<exists>k. w_kais w nn' = Some k \<and> k_Spec k' = k_Spec k \<and> kai_key k' = kai_key k"
proof -
  have framed: ?thesis if "status_frame n w1 w'" "w_kais w1 = w_kais w" for n w1
  proof -
    have "w_kais w' nn' = w_kais w nn' \<or> (\<exists>old st. w_kais w nn' = Some old \<and> w_kais w' nn' = Some (old\<lparr>k_Status := st\<rparr>))"
      using that(1) unfolding status_frame_def that(2) by (metis (no_types))
    then consider "w_kais w nn' = Some k'" | old st where "w_kais w nn' = Some old" "k' = old\<lparr>k_Status := st\<rparr>"
      using assms(3) by fastforce
    then show ?thesis by cases (simp_all add: kai_key_def)
  qed
  show ?thesis
  proof (cases rule: Reconcile_cases[of nn w rc inp])
    case (absent e w1)
    then show ?thesis using assms(2,3) kai_get_world[OF absent(1)] by simp
  next
    case (meta kai fin w1)
    note g = kai_get_world[OF meta(1)]
    have k: "w_kais w nn = Some kai" using kai_get_Inr[of nn w kai] meta(1) by simp
    have "kai_key kai = nn" using wf_worldD[OF assms(1) k] by simp
    then show ?thesis
      using meta(3) assms(2,3) g k
      by (auto simp: kai_update_def next_fault_def kai_key_def split: prod.splits list.splits option.splits if_splits)
  next
    case (suspended kai w1)
    have "status_frame (kai_key kai) w1 w'"
      using reconcileSuspended_frame(2)[of "with_slug kai" w1 "resolve_slug (k_Spec kai)"] unfolding suspended(4)[symmetric] assms(2) by simp
    then show ?thesis by (rule framed) (use kai_get_world[OF suspended(1)] in simp)
  next
    case (running kai w1)
    have "status_frame (kai_key kai) w1 w'"
      using provision_frame(2)[of "with_slug kai" w1 rc inp "resolve_slug (k_Spec kai)"] unfolding running(4)[symmetric] assms(2) by simp
    then show ?thesis by (rule framed) (use kai_get_world[OF running(1)] in simp)
  qed
qed

lemma reconcile_touches:
  assumes "wf_world w" "Reconcile rc inp nn w = (r, w')" "w_objs w' key \<noteq> w_objs w key"
  shows "\<exists>kai. w_kais w nn = Some kai \<and> live kai \<and> key \<in> child_keys (fst nn) (resolve_slug (k_Spec kai))
    \<and> (w_objs w key \<noteq> None \<longrightarrow> fst key \<noteq> SecretKind \<and> fst key \<noteq> PVCKind)
    \<and> (w_objs w' key = None \<longrightarrow> fst key = IngressKind \<and> external_off kai)
    \<and> (sp_Suspended (k_Spec kai) \<longrightarrow> fst key = DeploymentKind
        \<and> w_objs w' key = map_option scaled_to_zero (w_objs w key))"
proof (cases rule: Reconcile_cases[of nn w rc inp])
  case (absent e w1)
  have "w_objs w1 = w_objs w" using kai_get_keeps(1)[of nn w] by (simp add: absent(1))
  with absent assms(2,3) show ?thesis by simp
next
  case (meta kai fin w1)
  have "w_objs w1 = w_objs w" using kai_get_keeps(1)[of nn w] by (simp add: meta(1))
  moreover have "w_objs w' = w_objs w1"
    using meta(3) assms(2) kai_update_objs[of "kai\<lparr>k_Finalizers := fin\<rparr>" w1] by (metis snd_conv)
  ultimately show ?thesis using assms(3) by simp
next
  case (suspended kai w1)
  have o: "w_objs w1 = w_objs w" using kai_get_keeps(1)[of nn w] by (simp add: suspended(1))
  have k: "w_kais w nn = Some kai" using kai_get_Inr[of nn w kai] suspended(1) by simp
  then have ns: "k_Namespace kai = fst nn" using wf_worldD[OF assms(1)] by simp
  have "suspend_frame (with_slug kai) (resolve_slug (k_Spec kai)) w1 w'"
    using reconcileSuspended_frame(1)[of "with_slug kai" "resolve_slug (k_Spec kai)" w1]
    unfolding suspended(4)[symmetric] assms(2) by simp
  then have others: "\<And>k. k \<noteq> (DeploymentKind, fst nn, childName (resolve_slug (k_Spec kai))) \<Longrightarrow> w_objs w' k = w_objs w k"
    and own: "w_objs w' (DeploymentKind, fst nn, childName (resolve_slug (k_Spec kai)))
        = w_objs w (DeploymentKind, fst nn, childName (resolve_slug (k_Spec kai)))
      \<or> w_objs w' (DeploymentKind, fst nn, childName (resolve_slug (k_Spec kai)))
        = map_option scaled_to_zero (w_objs w (DeploymentKind, fst nn, childName (resolve_slug (k_Spec kai))))"
    unfolding suspend_frame_def Let_def o with_slug_fields ns by blast+
  have d1: "key = (DeploymentKind, fst nn, childName (resolve_slug (k_Spec kai)))"
    using others assms(3) by blast
  have d2: "w_objs w' key = map_option scaled_to_zero (w_objs w key)"
    using own assms(3) unfolding d1 by blast
  have "w_objs w key \<noteq> None" using d2 assms(3) by (cases "w_objs w key") simp_all
  moreover have "key \<in> child_keys (fst nn) (resolve_slug (k_Spec kai))" "fst key = DeploymentKind"
    unfolding d1 by (simp_all add: child_keys_def)
  ultimately show ?thesis using d2 k suspended(2)
    by (intro exI[of _ kai]) simp
next
  case (running kai w1)
  have o: "w_objs w1 = w_objs w" using kai_get_keeps(1)[of nn w] by (simp add: running(1))
  have k: "w_kais w nn = Some kai" using kai_get_Inr[of nn w kai] running(1) by simp
  then have ns: "k_Namespace kai = fst nn" using wf_worldD[OF assms(1)] by simp
  have "objs_frame (with_slug kai) (resolve_slug (k_Spec kai)) w1 w'"
    using provision_frame(1)[of "with_slug kai" "resolve_slug (k_Spec kai)" w1 rc inp]
    unfolding running(4)[symmetric] assms(2) by simp
  then have "key \<in> child_keys (fst nn) (resolve_slug (k_Spec kai))
    \<and> (w_objs w key \<noteq> None \<longrightarrow> fst key \<noteq> SecretKind \<and> fst key \<noteq> PVCKind)
    \<and> (w_objs w' key = None \<longrightarrow> fst key = IngressKind \<and> external_off kai)"
    using assms(3) unfolding objs_frame_def o with_slug_fields ns by blast
  with k running(2,3) show ?thesis by (intro exI[of _ kai]) simp
qed

text \<open>C27: a reconcile stays in its lane whatever fails on the way: it changes child objects only for an
  instance that exists, is not being deleted and carries the finalizer, and then only the eight objects
  named after its slug; Secrets and the volume claim, once there, are never changed or deleted (users,
  keys and state are safe); nothing is deleted but the Ingress of an instance with external access
  off; a suspended instance has at most its Deployment scaled to zero.\<close>

theorem reconcile_frame:
  assumes "wf_world w" "Reconcile rc inp nn w = (r, w')" "w_objs w' key \<noteq> w_objs w key"
  shows "\<exists>kai. w_kais w nn = Some kai \<and> live kai \<and> key \<in> child_keys (fst nn) (resolve_slug (k_Spec kai))
    \<and> (w_objs w key \<noteq> None \<longrightarrow> fst key \<noteq> SecretKind \<and> fst key \<noteq> PVCKind)
    \<and> (w_objs w' key = None \<longrightarrow> fst key = IngressKind \<and> external_off kai)
    \<and> (sp_Suspended (k_Spec kai) \<longrightarrow> fst key = DeploymentKind
        \<and> w_objs w' key = map_option scaled_to_zero (w_objs w key))"
  by (rule reconcile_touches[OF assms])

definition demo_rc :: reconciler where
  "demo_rc = \<lparr>rc_IngressDomain = ''swarm.io'', rc_IngressTLSSecret = ''tls'', rc_PooledOpenRouterSecret = [],
     rc_CatalogDir = [], rc_PerSlugSubdomain = True, rc_fs = (\<lambda>_. Some ''Hi {{CUSTOMER_NAME}}''),
     rc_readfile = (\<lambda>_. FileMissing), rc_sha256 = (\<lambda>s. take 8 s), rc_qcmp = demo_cmp, rc_tiers = defaults,
     rc_errtext = (\<lambda>_. ''failed'')\<rparr>"

definition demo_in :: inputs where
  "demo_in = \<lparr>in_now = 1000, in_keys = Some \<lparr>km_public = ''pub'', km_private = ''priv'', km_jwt = ''jwt''\<rparr>\<rparr>"

definition ada_key :: "string \<times> string" where
  "ada_key = (''emai-swarm'', ''kai-ada'')"

definition ada_world :: "kai \<Rightarrow> world" where
  "ada_world k = \<lparr>w_kais = [ada_key \<mapsto> k], w_objs = Map.empty, w_faults = []\<rparr>"

definition ada_suspended :: kai where
  "ada_suspended = free_kai\<lparr>k_Spec := (k_Spec free_kai)\<lparr>sp_CustomerSlug := ''ada'', sp_Suspended := True\<rparr>\<rparr>"

definition ada_pod :: "okey \<times> obj" where
  "ada_pod = buildDeployment demo_cmp defaults free_kai ''ada'' ''h'' []"

corollary reconcile_frame_witness:
  "let w = (ada_world ada_suspended)\<lparr>w_objs := [fst ada_pod \<mapsto> snd ada_pod]\<rparr>
   in w_objs (snd (Reconcile demo_rc demo_in ada_key w)) (fst ada_pod) = Some (scaled_to_zero (snd ada_pod))"
proof -
  let ?w = "(ada_world ada_suspended)\<lparr>w_objs := [fst ada_pod \<mapsto> snd ada_pod]\<rparr>"
  have k: "fst ada_pod = (DeploymentKind, ''emai-swarm'', ''kai-ada'')"
    by (simp add: ada_pod_def buildDeployment_def Let_def free_kai_def childName_def)
  have s: "resolve_slug (k_Spec ada_suspended) = ''ada''" "k_Namespace ada_suspended = ''emai-swarm''"
    "k_Deleting ada_suspended = False" "KaiInstanceFinalizer \<in> set (k_Finalizers ada_suspended)"
    "sp_Suspended (k_Spec ada_suspended)"
    by (simp_all add: ada_suspended_def resolve_slug_def EffectiveSlug_def free_kai_def empty_spec_def)
  have wf: "wf_world ?w"
    by (simp add: wf_world_def ada_world_def ada_key_def ada_suspended_def free_kai_def kai_key_def)
  have d: "scaled_to_zero (snd ada_pod) \<noteq> snd ada_pod"
    by (simp add: scaled_to_zero_def ada_pod_def buildDeployment_def Let_def free_kai_def empty_spec_def)
  have "w_objs (snd (Reconcile demo_rc demo_in ada_key ?w)) (fst ada_pod) \<noteq> w_objs ?w (fst ada_pod)"
    using d s by (simp add: Reconcile_def kai_get_def next_fault_def ada_world_def reconcileSuspended_def
        api_get_def api_update_def status_update_def kai_key_def ada_key_def childName_def k Let_def split: option.splits)
  from reconcile_frame[OF wf surjective_pairing this] s(5) show ?thesis
    by (auto simp: ada_world_def Let_def)
qed

end
