(* ===== verification/Convergence.thy ===== *)
theory Convergence
  imports Controller
begin

text \<open>
  What a successful reconcile achieves, and that it achieves it.  Every child step has a contract: the
  object it is responsible for satisfies its specification when the step reports success, nothing else
  changes, and a step whose specification already holds changes nothing at all, whatever faults it
  meets.  The contracts compose along the order of the steps because their keys are distinct.  A list
  of faults is \<open>honest\<close> when no call answers \<open>NotFound\<close> for an object that exists.
\<close>

section \<open>Contracts of the child steps\<close>

definition honest :: "world \<Rightarrow> bool" where
  "honest w \<longleftrightarrow> Some KNotFound \<notin> set (w_faults w)"

lemma honest_next [simp]: "honest w \<Longrightarrow> honest (snd (next_fault w))"
  by (auto simp: honest_def next_fault_def split: list.splits)

lemma honest_objs [simp]: "honest (w\<lparr>w_objs := f\<rparr>) = honest w" "honest (w\<lparr>w_kais := g\<rparr>) = honest w"
  by (simp_all add: honest_def)

lemma honest_api [simp]:
  assumes "honest w"
  shows "honest (snd (api_get key w))" "honest (snd (api_create key ob w))" "honest (snd (api_update key ob w))"
    "honest (snd (api_delete key w))" "honest (snd (kai_get nn w))"
  using assms
  by (simp_all add: api_get_def api_create_def api_update_def api_delete_def kai_get_def split_beta split: option.splits)

lemma api_get_NotFound: "honest w \<Longrightarrow> fst (api_get key w) = Inl KNotFound \<Longrightarrow> w_objs w key = None"
  by (auto simp: honest_def api_get_def next_fault_def split: option.splits list.splits prod.splits)

lemma kai_get_NotFound: "honest w \<Longrightarrow> fst (kai_get nn w) = Inl KNotFound \<Longrightarrow> w_kais w nn = None"
  by (auto simp: honest_def kai_get_def next_fault_def split: option.splits list.splits prod.splits)

definition as_built :: "obj \<Rightarrow> obj \<Rightarrow> bool" where
  "as_built d ob \<longleftrightarrow> o_Body ob = o_Body d \<and> o_Labels ob = o_Labels d"

definition there :: "(obj \<Rightarrow> bool) \<Rightarrow> obj option \<Rightarrow> bool" where
  "there P ob \<longleftrightarrow> (case ob of None \<Rightarrow> False | Some x \<Rightarrow> P x)"

lemma there_simps [simp]: "there P None = False" "there P (Some x) = P x"
  by (simp_all add: there_def)

definition deployment_as_built :: "obj \<Rightarrow> obj \<Rightarrow> bool" where
  "deployment_as_built d ob \<longleftrightarrow> deployment_of (o_Body ob) = deployment_of (o_Body d) \<and> o_Labels ob = o_Labels d"

definition service_as_built :: "obj \<Rightarrow> obj \<Rightarrow> bool" where
  "service_as_built d ob \<longleftrightarrow> o_Body ob = with_cluster_ip (cluster_ip ob) (o_Body d) \<and> o_Labels ob = o_Labels d"

definition ingress_as_built :: "bool \<Rightarrow> obj \<Rightarrow> obj option \<Rightarrow> bool" where
  "ingress_as_built off d ob \<longleftrightarrow> (if off then ob = None
     else there (\<lambda>x. as_built d x \<and> o_Annotations x = o_Annotations d) ob)"

text \<open>The specification of each child of an instance, in the order of the steps.\<close>

definition child_specs :: "reconciler \<Rightarrow> string \<Rightarrow> rendered \<Rightarrow> string \<Rightarrow> kai \<Rightarrow> (okey \<times> (obj option \<Rightarrow> bool)) list" where
  "child_specs rc slug tmpl hash kai =
     [((ConfigMapKind, k_Namespace kai, childName slug @ ''-identity''), there (as_built (snd (buildConfigMap kai slug tmpl)))),
      ((SecretKind, k_Namespace kai, usersSecretName slug), there (\<lambda>_. True)),
      ((SecretKind, k_Namespace kai, chatBridgeSecretName slug), there (\<lambda>_. True)),
      ((PVCKind, k_Namespace kai, childName slug @ ''-state''), there (\<lambda>_. True)),
      ((DeploymentKind, k_Namespace kai, childName slug), there (deployment_as_built
         (snd (buildDeployment (rc_qcmp rc) (rc_tiers rc) kai slug hash (rc_PooledOpenRouterSecret rc))))),
      ((ServiceKind, k_Namespace kai, childName slug), there (service_as_built (snd (buildService kai slug)))),
      ((NetworkPolicyKind, k_Namespace kai, childName slug @ ''-isolation''), there (as_built (snd (buildNetworkPolicy kai slug)))),
      ((IngressKind, k_Namespace kai, childName slug @ ''-ws''), ingress_as_built (external_off kai)
         (snd (buildIngress kai slug (rc_IngressDomain rc) (rc_IngressTLSSecret rc) (rc_PerSlugSubdomain rc))))]"

definition children_match :: "reconciler \<Rightarrow> string \<Rightarrow> rendered \<Rightarrow> string \<Rightarrow> kai \<Rightarrow> world \<Rightarrow> bool" where
  "children_match rc slug tmpl hash kai w \<longleftrightarrow>
     list_all (\<lambda>(key, Q). Q (w_objs w key)) (child_specs rc slug tmpl hash kai)"

definition establishes :: "kai \<Rightarrow> okey \<Rightarrow> (obj option \<Rightarrow> bool) \<Rightarrow> (kai \<Rightarrow> world \<Rightarrow> step_result) \<Rightarrow> bool" where
  "establishes base key Q step \<longleftrightarrow> (\<forall>kai w. conditions_only base kai \<longrightarrow> honest w \<longrightarrow>
     (case step kai w of (r, kai', w') \<Rightarrow>
        honest w' \<and> conditions_only base kai' \<and> w_kais w' = w_kais w
        \<and> (\<forall>k. k \<noteq> key \<longrightarrow> w_objs w' k = w_objs w k)
        \<and> (r = None \<longrightarrow> Q (w_objs w' key))
        \<and> (Q (w_objs w key) \<longrightarrow> w_objs w' = w_objs w)))"

lemma readers_status [simp]:
  "commonLabelsFor (Some (k\<lparr>k_Status := st\<rparr>)) slug = commonLabelsFor (Some k) slug"
  "isSaaSEnrolled (Some (k\<lparr>k_Status := st\<rparr>)) = isSaaSEnrolled (Some k)"
  "effective_model d (k\<lparr>k_Status := st\<rparr>) = effective_model d k"
  "external_off (k\<lparr>k_Status := st\<rparr>) = external_off k"
  by (simp_all add: commonLabelsFor_def isSaaSEnrolled_def effective_model_def external_off_def Let_def)

lemma effective_resources_status [simp]:
  "effective_resources q d (k\<lparr>k_Status := st\<rparr>) = effective_resources q d k"
  by (simp add: effective_resources_def Let_def)

lemma builders_status [simp]:
  "buildConfigMap (k\<lparr>k_Status := st\<rparr>) slug tmpl = buildConfigMap k slug tmpl"
  "buildUsersSecret (k\<lparr>k_Status := st\<rparr>) slug = buildUsersSecret k slug"
  "buildPVC (k\<lparr>k_Status := st\<rparr>) slug = buildPVC k slug"
  "buildService (k\<lparr>k_Status := st\<rparr>) slug = buildService k slug"
  "buildNetworkPolicy (k\<lparr>k_Status := st\<rparr>) slug = buildNetworkPolicy k slug"
  "buildIngress (k\<lparr>k_Status := st\<rparr>) slug dm ts ps = buildIngress k slug dm ts ps"
  by (simp_all add: buildConfigMap_def buildUsersSecret_def buildPVC_def buildService_def
      buildNetworkPolicy_def buildIngress_def)

lemma buildDeployment_status [simp]:
  "buildDeployment q d (k\<lparr>k_Status := st\<rparr>) slug hash pooled = buildDeployment q d k slug hash pooled"
  unfolding buildDeployment_def Let_def by (simp split del: if_split)

lemma child_specs_status [simp]: "child_specs rc slug tmpl hash (k\<lparr>k_Status := st\<rparr>) = child_specs rc slug tmpl hash k"
  by (simp add: child_specs_def)

lemma same_object: "w_objs w key = Some ob \<Longrightarrow> (w_objs w)(key \<mapsto> ob) = w_objs w"
  by (rule fun_upd_idem)

text \<open>All child steps but the Ingress one are an instance of one pattern.\<close>

definition ensure :: "okey \<Rightarrow> obj \<Rightarrow> (obj \<Rightarrow> obj option) \<Rightarrow> world \<Rightarrow> op_err option \<times> world" where
  "ensure key desired upd w = (case api_get key w of
     (Inl e, w1) \<Rightarrow> if e = KNotFound then api_create key desired w1 else (Some (OE_Api e), w1)
   | (Inr ex, w1) \<Rightarrow> (case upd ex of None \<Rightarrow> (None, w1) | Some ob \<Rightarrow> api_update key ob w1))"

lemma ensure_spec:
  assumes "honest w" "P desired" "\<And>ex. case upd ex of None \<Rightarrow> P ex | Some ob \<Rightarrow> P ob"
    and "\<And>ex. P ex \<Longrightarrow> upd ex = None \<or> upd ex = Some ex"
  shows "honest (snd (ensure key desired upd w))"
    and "fst (ensure key desired upd w) = None \<Longrightarrow> there P (w_objs (snd (ensure key desired upd w)) key)"
    and "there P (w_objs w key) \<Longrightarrow> w_objs (snd (ensure key desired upd w)) = w_objs w"
proof -
  obtain g w1 where g: "api_get key w = (g, w1)" by (cases "api_get key w")
  have w1: "w_objs w1 = w_objs w" "honest w1"
    using api_get_keeps(1)[of key w] honest_api(1)[OF assms(1), of key] by (simp_all add: g)
  have "honest (snd (ensure key desired upd w))
    \<and> (fst (ensure key desired upd w) = None \<longrightarrow> there P (w_objs (snd (ensure key desired upd w)) key))
    \<and> (there P (w_objs w key) \<longrightarrow> w_objs (snd (ensure key desired upd w)) = w_objs w)"
  proof (cases g)
    case (Inl e)
    have "fst (api_create key desired w1) = None \<Longrightarrow> w_objs w key = None" using api_create_fresh w1(1) by metis
    then show ?thesis using assms(2) w1 by (auto simp: ensure_def g Inl)
  next
    case (Inr ex)
    then have ex: "w_objs w key = Some ex" using api_get_Inr[of key w ex] by (simp add: g)
    show ?thesis
    proof (cases "upd ex")
      case None
      then show ?thesis using assms(3)[of ex] w1 by (simp add: ensure_def g Inr ex)
    next
      case (Some ob)
      then show ?thesis using assms(3)[of ex] assms(4)[of ex] w1 same_object[OF ex]
        by (auto simp: ensure_def g Inr ex)
    qed
  qed
  then show "honest (snd (ensure key desired upd w))"
    "fst (ensure key desired upd w) = None \<Longrightarrow> there P (w_objs (snd (ensure key desired upd w)) key)"
    "there P (w_objs w key) \<Longrightarrow> w_objs (snd (ensure key desired upd w)) = w_objs w" by blast+
qed

definition ensures :: "okey \<Rightarrow> (kai \<Rightarrow> obj) \<Rightarrow> (kai \<Rightarrow> obj \<Rightarrow> obj option) \<Rightarrow> kai \<Rightarrow> (kai \<Rightarrow> world \<Rightarrow> step_result) \<Rightarrow> bool" where
  "ensures key desired upd base step \<longleftrightarrow> (\<forall>kai w. conditions_only base kai \<longrightarrow>
     fst (step kai w) = fst (ensure key (desired kai) (upd kai) w)
     \<and> snd (snd (step kai w)) = snd (ensure key (desired kai) (upd kai) w)
     \<and> conditions_only base (fst (snd (step kai w))))"

lemma ensure_frame:
  "w_kais (snd (ensure key desired upd w)) = w_kais w"
  "k \<noteq> key \<Longrightarrow> w_objs (snd (ensure key desired upd w)) k = w_objs w k"
  by (simp_all add: ensure_def split_beta split: sum.splits option.splits)

lemma establishesI:
  assumes "ensures key desired upd base step"
    and "\<And>kai. conditions_only base kai \<Longrightarrow> P (desired kai)"
    and "\<And>kai ex. conditions_only base kai \<Longrightarrow> (case upd kai ex of None \<Rightarrow> P ex | Some ob \<Rightarrow> P ob)"
    and "\<And>kai ex. conditions_only base kai \<Longrightarrow> P ex \<Longrightarrow> upd kai ex = None \<or> upd kai ex = Some ex"
  shows "establishes base key (there P) step"
  unfolding establishes_def
proof (intro allI impI)
  fix kai w assume c: "conditions_only base kai" and h: "honest w"
  obtain r kai' w' where s: "step kai w = (r, kai', w')" by (metis prod_cases3)
  have e: "r = fst (ensure key (desired kai) (upd kai) w)" "w' = snd (ensure key (desired kai) (upd kai) w)"
    "conditions_only base kai'"
    using assms(1) c unfolding ensures_def by (metis s fst_conv snd_conv)+
  note sp = ensure_spec[of w P "desired kai" "upd kai" key, OF h assms(2)[OF c] assms(3)[OF c] assms(4)[OF c]]
  show "case step kai w of (r, kai', w') \<Rightarrow> honest w' \<and> conditions_only base kai' \<and> w_kais w' = w_kais w
        \<and> (\<forall>k. k \<noteq> key \<longrightarrow> w_objs w' k = w_objs w k) \<and> (r = None \<longrightarrow> there P (w_objs w' key))
        \<and> (there P (w_objs w key) \<longrightarrow> w_objs w' = w_objs w)"
    using sp e(3) ensure_frame(2) unfolding s prod.case e(1,2) by (simp add: ensure_frame(1))
qed

lemma conditions_onlyE:
  assumes "conditions_only base kai"
  obtains st where "kai = base\<lparr>k_Status := st\<rparr>"
  using assms unfolding conditions_only_def by blast

lemma conditions_only_step [simp]: "conditions_only base kai \<Longrightarrow> conditions_only base (setCondition n t s r m kai)"
  using conditions_only_trans conditions_only_set by blast

lemma builder_keys [simp]:
  "fst (buildConfigMap kai slug tmpl) = (ConfigMapKind, k_Namespace kai, childName slug @ ''-identity'')"
  "fst (buildUsersSecret kai slug) = (SecretKind, k_Namespace kai, usersSecretName slug)"
  "fst (buildPVC kai slug) = (PVCKind, k_Namespace kai, childName slug @ ''-state'')"
  "fst (buildDeployment q d kai slug hash pooled) = (DeploymentKind, k_Namespace kai, childName slug)"
  "fst (buildService kai slug) = (ServiceKind, k_Namespace kai, childName slug)"
  "fst (buildNetworkPolicy kai slug) = (NetworkPolicyKind, k_Namespace kai, childName slug @ ''-isolation'')"
  "fst (buildIngress kai slug dm ts ps) = (IngressKind, k_Namespace kai, childName slug @ ''-ws'')"
  by (simp_all add: buildConfigMap_def buildUsersSecret_def buildPVC_def buildDeployment_def buildService_def
      buildNetworkPolicy_def buildIngress_def Let_def)

lemma SetControllerReference_simps [simp]:
  "o_Body (SetControllerReference k ob) = o_Body ob" "o_Labels (SetControllerReference k ob) = o_Labels ob"
  "o_Annotations (SetControllerReference k ob) = o_Annotations ob"
  by (simp_all add: SetControllerReference_def)

lemma ensuresI:
  assumes "\<And>st w. conditions_only base (base\<lparr>k_Status := st\<rparr>) \<Longrightarrow>
     fst (step (base\<lparr>k_Status := st\<rparr>) w) = fst (ensure key (desired (base\<lparr>k_Status := st\<rparr>)) (upd (base\<lparr>k_Status := st\<rparr>)) w)
     \<and> snd (snd (step (base\<lparr>k_Status := st\<rparr>) w)) = snd (ensure key (desired (base\<lparr>k_Status := st\<rparr>)) (upd (base\<lparr>k_Status := st\<rparr>)) w)
     \<and> conditions_only base (fst (snd (step (base\<lparr>k_Status := st\<rparr>) w)))"
  shows "ensures key desired upd base step"
  unfolding ensures_def
proof (intro allI impI)
  fix kai w assume c: "conditions_only base kai"
  then obtain st where "kai = base\<lparr>k_Status := st\<rparr>" by (rule conditions_onlyE)
  with assms[of st w] c show "fst (step kai w) = fst (ensure key (desired kai) (upd kai) w)
     \<and> snd (snd (step kai w)) = snd (ensure key (desired kai) (upd kai) w)
     \<and> conditions_only base (fst (snd (step kai w)))" by simp
qed

lemma ensures_ConfigMap:
  "ensures (ConfigMapKind, k_Namespace base, childName slug @ ''-identity'')
     (\<lambda>kai. SetControllerReference kai (snd (buildConfigMap base slug tmpl)))
     (\<lambda>kai ex. Some (ex\<lparr>o_Body := o_Body (snd (buildConfigMap base slug tmpl)), o_Labels := o_Labels (snd (buildConfigMap base slug tmpl))\<rparr>))
     base (reconcileConfigMap inp slug tmpl)"
  by (rule ensuresI) (simp add: reconcileConfigMap_def ensure_def split_beta Let_def split: sum.splits)

lemma ensures_UsersSecret:
  "ensures (SecretKind, k_Namespace base, usersSecretName slug)
     (\<lambda>kai. SetControllerReference kai (snd (buildUsersSecret base slug))) (\<lambda>_ _. None)
     base (reconcileUsersSecret slug)"
  by (rule ensuresI) (simp add: reconcileUsersSecret_def ensure_def split_beta Let_def split: sum.splits)

lemma ensures_PVC:
  "ensures (PVCKind, k_Namespace base, childName slug @ ''-state'')
     (\<lambda>kai. SetControllerReference kai (snd (buildPVC base slug))) (\<lambda>_ _. None)
     base (reconcilePVC inp slug)"
  by (rule ensuresI) (simp add: reconcilePVC_def ensure_def split_beta Let_def split: sum.splits)

lemma ensures_Deployment:
  "ensures (DeploymentKind, k_Namespace base, childName slug)
     (\<lambda>kai. SetControllerReference kai (snd (buildDeployment (rc_qcmp rc) (rc_tiers rc) base slug hash (rc_PooledOpenRouterSecret rc))))
     (\<lambda>kai ex. Some ((with_deployment_spec ex (SetControllerReference kai (snd (buildDeployment (rc_qcmp rc) (rc_tiers rc) base slug hash (rc_PooledOpenRouterSecret rc)))))
        \<lparr>o_Labels := o_Labels (snd (buildDeployment (rc_qcmp rc) (rc_tiers rc) base slug hash (rc_PooledOpenRouterSecret rc)))\<rparr>))
     base (reconcileDeployment rc inp slug hash)"
  by (rule ensuresI) (simp add: reconcileDeployment_def ensure_def split_beta Let_def split: sum.splits)

lemma ensures_Service:
  "ensures (ServiceKind, k_Namespace base, childName slug)
     (\<lambda>kai. SetControllerReference kai (snd (buildService base slug)))
     (\<lambda>kai ex. Some (ex\<lparr>o_Body := with_cluster_ip (cluster_ip ex) (o_Body (snd (buildService base slug))),
        o_Labels := o_Labels (snd (buildService base slug))\<rparr>))
     base (reconcileService slug)"
  by (rule ensuresI) (simp add: reconcileService_def ensure_def split_beta Let_def split: sum.splits)

lemma ensures_NetworkPolicy:
  "ensures (NetworkPolicyKind, k_Namespace base, childName slug @ ''-isolation'')
     (\<lambda>kai. SetControllerReference kai (snd (buildNetworkPolicy base slug)))
     (\<lambda>kai ex. Some (ex\<lparr>o_Body := o_Body (snd (buildNetworkPolicy base slug)), o_Labels := o_Labels (snd (buildNetworkPolicy base slug))\<rparr>))
     base (reconcileNetworkPolicy inp slug)"
  by (rule ensuresI) (simp add: reconcileNetworkPolicy_def ensure_def split_beta Let_def split: sum.splits)

lemma est_simple:
  "establishes base (ConfigMapKind, k_Namespace base, childName slug @ ''-identity'')
     (there (as_built (snd (buildConfigMap base slug tmpl)))) (reconcileConfigMap inp slug tmpl)"
  "establishes base (SecretKind, k_Namespace base, usersSecretName slug) (there (\<lambda>_. True)) (reconcileUsersSecret slug)"
  "establishes base (PVCKind, k_Namespace base, childName slug @ ''-state'') (there (\<lambda>_. True)) (reconcilePVC inp slug)"
  "establishes base (NetworkPolicyKind, k_Namespace base, childName slug @ ''-isolation'')
     (there (as_built (snd (buildNetworkPolicy base slug)))) (reconcileNetworkPolicy inp slug)"
  by (rule establishesI[OF ensures_ConfigMap] establishesI[OF ensures_UsersSecret] establishesI[OF ensures_PVC]
        establishesI[OF ensures_NetworkPolicy]; simp add: as_built_def)+

lemma est_Deployment:
  "establishes base (DeploymentKind, k_Namespace base, childName slug)
     (there (deployment_as_built (snd (buildDeployment (rc_qcmp rc) (rc_tiers rc) base slug hash (rc_PooledOpenRouterSecret rc)))))
     (reconcileDeployment rc inp slug hash)"
proof -
  obtain d a where d: "o_Body (snd (buildDeployment (rc_qcmp rc) (rc_tiers rc) base slug hash (rc_PooledOpenRouterSecret rc)))
      = DeploymentBody d a"
    by (simp add: buildDeployment_def Let_def)
  have same: "deployment_of b = Some d \<Longrightarrow> \<exists>a. b = DeploymentBody d a" for b by (cases b) simp_all
  show ?thesis
  proof (rule establishesI[OF ensures_Deployment], goal_cases)
    case 3
    then show ?case using same
      by (fastforce simp: deployment_as_built_def with_deployment_spec_def available_replicas_def d)
  qed (simp_all add: deployment_as_built_def with_deployment_spec_def d)
qed

lemma obj_idem: "o_Body x = b \<Longrightarrow> o_Labels x = l \<Longrightarrow> x\<lparr>o_Body := b, o_Labels := l\<rparr> = x"
  by (cases x) simp

lemma est_Service:
  "establishes base (ServiceKind, k_Namespace base, childName slug)
     (there (service_as_built (snd (buildService base slug)))) (reconcileService slug)"
proof -
  obtain s where s: "o_Body (snd (buildService base slug)) = ServiceBody s" "sv_ClusterIP s = []"
    by (simp add: buildService_def)
  then have e: "s\<lparr>sv_ClusterIP := []\<rparr> = s" by (metis service_spec.surjective service_spec.update_convs(4) service_spec.select_convs(4))
  show ?thesis
  proof (rule establishesI[OF ensures_Service], goal_cases)
    case 3
    then show ?case using obj_idem unfolding service_as_built_def by metis
  qed (simp_all add: service_as_built_def with_cluster_ip_def cluster_ip_def s e)
qed

lemma est_ChatBridge:
  "establishes base (SecretKind, k_Namespace base, chatBridgeSecretName slug) (there (\<lambda>_. True))
     (reconcileChatBridgeSecret rc inp slug)"
  unfolding establishes_def
  by (auto simp: reconcileChatBridgeSecret_def buildChatBridgeSecret_def split_beta Let_def there_def
      conditions_only_fields(2) split: sum.splits option.splits dest: api_create_fresh api_get_Inr)

lemma est_Ingress:
  "establishes base (IngressKind, k_Namespace base, childName slug @ ''-ws'')
     (ingress_as_built (external_off base)
        (snd (buildIngress base slug (rc_IngressDomain rc) (rc_IngressTLSSecret rc) (rc_PerSlugSubdomain rc))))
     (reconcileIngress rc inp slug)"
proof (cases "external_off base")
  case True
  then show ?thesis unfolding establishes_def
    by (auto simp: reconcileIngress_def ingress_as_built_def split_beta Let_def
      conditions_only_fields split: sum.splits dest: api_get_NotFound api_get_Inr)
next
  case False
  let ?d = "snd (buildIngress base slug (rc_IngressDomain rc) (rc_IngressTLSSecret rc) (rc_PerSlugSubdomain rc))"
  have "ensures (IngressKind, k_Namespace base, childName slug @ ''-ws'') (\<lambda>kai. SetControllerReference kai ?d)
      (\<lambda>_ ex. Some (ex\<lparr>o_Body := o_Body ?d, o_Labels := o_Labels ?d, o_Annotations := o_Annotations ?d\<rparr>))
      base (reconcileIngress rc inp slug)"
    using False by (intro ensuresI) (simp add: reconcileIngress_def ensure_def split_beta Let_def split: sum.splits)
  note est = establishesI[OF this, of "\<lambda>x. as_built ?d x \<and> o_Annotations x = o_Annotations ?d"]
  have "establishes base (IngressKind, k_Namespace base, childName slug @ ''-ws'')
      (there (\<lambda>x. as_built ?d x \<and> o_Annotations x = o_Annotations ?d)) (reconcileIngress rc inp slug)"
    by (rule est) (simp_all add: as_built_def)
  moreover have "ingress_as_built False ?d = there (\<lambda>x. as_built ?d x \<and> o_Annotations x = o_Annotations ?d)"
    by (simp add: fun_eq_iff ingress_as_built_def)
  ultimately show ?thesis using False by simp
qed

section \<open>The run of the steps\<close>

lemma est_all:
  "list_all2 (\<lambda>(_, step) (key, Q). establishes base key Q step)
     (child_steps rc inp slug tmpl hash) (child_specs rc slug tmpl hash base)"
  unfolding child_steps_def child_specs_def
  using est_simple est_Deployment est_Service est_ChatBridge est_Ingress by simp

lemma child_keys_distinct: "distinct (map fst (child_specs rc slug tmpl hash base))"
  by (simp add: child_specs_def usersSecretName_def chatBridgeSecretName_def childName_def)

lemma run_steps_success:
  assumes "list_all2 (\<lambda>(_, step) (key, Q). establishes base key Q step) steps specs" "distinct (map fst specs)"
    and "run_steps rc inp slug steps kai w = (None, w')" "conditions_only base kai" "honest w"
  obtains kai1 w1 where "finish rc slug kai1 w1 = (None, w')" "conditions_only base kai1" "honest w1"
    "w_kais w1 = w_kais w" "list_all (\<lambda>(key, Q). Q (w_objs w1 key)) specs"
    "\<And>key. key \<notin> fst ` set specs \<Longrightarrow> w_objs w1 key = w_objs w key"
  using assms
proof (induction steps specs arbitrary: kai w thesis rule: list_all2_induct)
  case Nil
  then show ?case by simp
next
  case (Cons rs steps kq specs)
  obtain reason step where rs: "rs = (reason, step)" by (cases rs)
  obtain key Q where kq: "kq = (key, Q)" by (cases kq)
  obtain r kai' w2 where s: "step kai w = (r, kai', w2)" by (metis prod_cases3)
  have e: "honest w2" "conditions_only base kai'" "w_kais w2 = w_kais w" "\<And>k. k \<noteq> key \<Longrightarrow> w_objs w2 k = w_objs w k"
    "r = None \<Longrightarrow> Q (w_objs w2 key)"
    using Cons(1)[unfolded rs kq prod.case establishes_def, rule_format, OF Cons.prems(4,5)]
    unfolding s prod.case by blast+
  have r: "r = None" using Cons.prems(3) by (cases r) (simp_all add: rs s setFailed_def Let_def)
  have go: "run_steps rc inp slug steps kai' w2 = (None, w')" using Cons.prems(3) by (simp add: rs s r)
  obtain kai1 w1 where f: "finish rc slug kai1 w1 = (None, w')" "conditions_only base kai1" "honest w1"
    "w_kais w1 = w_kais w2" "list_all (\<lambda>(key, Q). Q (w_objs w1 key)) specs"
    "\<And>key. key \<notin> fst ` set specs \<Longrightarrow> w_objs w1 key = w_objs w2 key"
    using Cons.IH[OF _ _ go e(2) e(1)] Cons.prems(2) by auto
  have "key \<notin> fst ` set specs" using Cons.prems(2) by (simp add: kq)
  with f(6) e(5) r have q: "Q (w_objs w1 key)" by simp
  show ?case
  proof (rule Cons.prems(1)[OF f(1-3)])
    show "w_kais w1 = w_kais w" using f(4) e(3) by simp
    show "list_all (\<lambda>(key, Q). Q (w_objs w1 key)) (kq # specs)" using f(5) q by (simp add: kq)
    show "k \<notin> fst ` set (kq # specs) \<Longrightarrow> w_objs w1 k = w_objs w k" for k using f(6) e(4) by (simp add: kq)
  qed
qed

lemma run_steps_noop:
  assumes "list_all2 (\<lambda>(_, step) (key, Q). establishes base key Q step) steps specs"
    and "conditions_only base kai" "honest w" "list_all (\<lambda>(key, Q). Q (w_objs w key)) specs"
  shows "w_objs (snd (run_steps rc inp slug steps kai w)) = w_objs w"
  using assms
proof (induction steps specs arbitrary: kai w rule: list_all2_induct)
  case Nil
  then show ?case by (simp add: finish_frame)
next
  case (Cons rs steps kq specs)
  obtain reason step where rs: "rs = (reason, step)" by (cases rs)
  obtain key Q where kq: "kq = (key, Q)" by (cases kq)
  obtain r kai' w2 where s: "step kai w = (r, kai', w2)" by (metis prod_cases3)
  have "Q (w_objs w key)" using Cons.prems(3) by (simp add: kq)
  then have e: "honest w2" "conditions_only base kai'" "w_objs w2 = w_objs w"
    using Cons(1)[unfolded rs kq prod.case establishes_def, rule_format, OF Cons.prems(1,2)]
    unfolding s prod.case by blast+
  have "list_all (\<lambda>(key, Q). Q (w_objs w2 key)) specs" using Cons.prems(3) by (simp add: kq e(3))
  from Cons.IH[OF e(2,1) this] e(3) show ?case
    by (cases r) (simp_all add: rs s setFailed_frame)
qed

definition unfailing :: "(kai \<Rightarrow> world \<Rightarrow> step_result) \<Rightarrow> bool" where
  "unfailing step \<longleftrightarrow> (\<forall>kai w. w_faults w = [] \<longrightarrow>
     fst (step kai w) = None \<and> w_faults (snd (snd (step kai w))) = [])"

lemma next_fault_Nil [simp]: "w_faults w = [] \<Longrightarrow> next_fault w = (None, w)"
  by (simp add: next_fault_def)

lemma unfailing_steps:
  assumes "in_keys inp \<noteq> None"
  shows "list_all (\<lambda>(_, step). unfailing step) (child_steps rc inp slug tmpl hash)"
proof -
  obtain m where "in_keys inp = Some m" using assms by blast
  then show ?thesis
    by (simp add: child_steps_def unfailing_def step_defs reconcileIngress_def api_get_def api_create_def
      api_update_def api_delete_def buildChatBridgeSecret_def split_beta Let_def split: option.splits)
qed

lemma run_steps_unfailing:
  assumes "list_all (\<lambda>(_, step). unfailing step) steps" "list_all (\<lambda>(_, step). good_step slug step) steps"
    and "w_faults w = []" "w_kais w (kai_key kai) \<noteq> None"
  shows "fst (run_steps rc inp slug steps kai w) = None \<and> w_faults (snd (run_steps rc inp slug steps kai w)) = []"
  using assms
proof (induction steps arbitrary: kai w)
  case Nil
  then show ?case
    by (auto simp: finish_def isDeploymentReady_def api_get_def status_update_def split_beta Let_def split: option.splits)
next
  case (Cons rs steps)
  obtain reason step where rs: "rs = (reason, step)" by (cases rs)
  obtain r kai' w2 where s: "step kai w = (r, kai', w2)" by (metis prod_cases3)
  have us: "unfailing step" and gs: "good_step slug step" using Cons.prems(1,2) by (simp_all add: rs)
  have "fst (step kai w) = None \<and> w_faults (snd (snd (step kai w))) = []"
    using us Cons.prems(3) unfolding unfailing_def by blast
  then have u: "r = None" "w_faults w2 = []" by (simp_all add: s)
  have "case step kai w of (r, kai', w') \<Rightarrow> w_kais w' = w_kais w \<and> conditions_only kai kai' \<and> objs_frame kai slug w w'"
    by (rule spec[OF spec[OF gs[unfolded good_step_def]]])
  then have g: "w_kais w2 = w_kais w" "conditions_only kai kai'" by (simp_all add: s)
  have "w_kais w2 (kai_key kai') \<noteq> None" using Cons.prems(4) g conditions_only_fields(5)[OF g(2)] by simp
  from Cons.IH[OF _ _ u(2) this] Cons.prems(1,2) show ?case by (simp add: rs s u(1))
qed

section \<open>Reconcile converges\<close>

lemma conditions_only_status:
  assumes "conditions_only k k'"
  shows "ks_CustomerSlug (k_Status k') = ks_CustomerSlug (k_Status k)" "ks_ConfigHash (k_Status k') = ks_ConfigHash (k_Status k)"
proof -
  obtain cs where "k' = k\<lparr>k_Status := (k_Status k)\<lparr>ks_Conditions := cs\<rparr>\<rparr>"
    using assms unfolding conditions_only_def by blast
  then show "ks_CustomerSlug (k_Status k') = ks_CustomerSlug (k_Status k)" "ks_ConfigHash (k_Status k') = ks_ConfigHash (k_Status k)"
    by simp_all
qed

lemma rendered_for_status [simp]: "rendered_for rc (k\<lparr>k_Status := st\<rparr>) slug = rendered_for rc k slug"
  "hash_for rc (k\<lparr>k_Status := st\<rparr>) tmpl = hash_for rc k tmpl"
  by (simp_all add: rendered_for_def hash_for_def)

lemma Reconcile_running:
  assumes "kai_get nn w = (Inr kai, w1)" "live kai" "\<not> sp_Suspended (k_Spec kai)"
  shows "Reconcile rc inp nn w = provision rc inp (resolve_slug (k_Spec kai)) (with_slug kai) w1"
  using assms by (simp add: Reconcile_def live_def with_slug_def Let_def)

definition provisioned_status :: "reconciler \<Rightarrow> kai \<Rightarrow> string \<Rightarrow> kai_status \<Rightarrow> bool" where
  "provisioned_status rc kai hash st \<longleftrightarrow>
     ks_CustomerSlug st = resolve_slug (k_Spec kai) \<and> ks_ConfigHash st = hash
     \<and> ks_ObservedGeneration st = k_Generation kai
     \<and> ks_GatewayURL st = gatewayURL (k_Namespace kai) (resolve_slug (k_Spec kai))
     \<and> ks_ExternalURL st = (if external_off kai then [] else externalURL (rc_IngressDomain rc) (resolve_slug (k_Spec kai)) (rc_PerSlugSubdomain rc))
     \<and> (if ks_Ready st then ks_Phase st = PhaseRunning else ks_Phase st = started_phase (ks_Phase (k_Status kai)))"

lemma finish_success:
  assumes "finish rc slug kai1 w1 = (None, w')" "w_kais w1 (kai_key kai1) = Some old"
  obtains st where "w_kais w' (kai_key kai1) = Some (old\<lparr>k_Status := st\<rparr>)" "w_objs w' = w_objs w1"
    "ks_CustomerSlug st = ks_CustomerSlug (k_Status kai1)" "ks_ConfigHash st = ks_ConfigHash (k_Status kai1)"
    "ks_ObservedGeneration st = k_Generation kai1" "ks_GatewayURL st = gatewayURL (k_Namespace kai1) slug"
    "ks_ExternalURL st = (if external_off kai1 then [] else externalURL (rc_IngressDomain rc) slug (rc_PerSlugSubdomain rc))"
    "ks_Phase st = (if ks_Ready st then PhaseRunning else ks_Phase (k_Status kai1))"
    "ks_Conditions st = ks_Conditions (k_Status kai1)"
proof -
  obtain ready w2 where g: "isDeploymentReady (k_Namespace kai1) slug w1 = (ready, w2)" by fastforce
  have k2: "w_kais w2 = w_kais w1"
    using g by (auto simp: isDeploymentReady_def split: sum.splits prod.splits dest!: arg_cong[of _ _ "\<lambda>p. w_kais (snd p)"])
  define st where "st = (k_Status kai1)\<lparr>ks_Ready := ready, ks_GatewayURL := gatewayURL (k_Namespace kai1) slug,
            ks_ExternalURL := (if external_off kai1 then []
               else externalURL (rc_IngressDomain rc) slug (rc_PerSlugSubdomain rc)),
            ks_Phase := (if ready then PhaseRunning else ks_Phase (k_Status kai1)),
            ks_ObservedGeneration := k_Generation kai1\<rparr>"
  have su: "status_update (kai1\<lparr>k_Status := st\<rparr>) w2 = (None, w')"
    using assms(1) by (simp add: finish_def g Let_def st_def)
  then have "w_kais w' = (w_kais w2)(kai_key kai1 \<mapsto> old\<lparr>k_Status := st\<rparr>)"
    using assms(2) k2 by (auto simp: status_update_def split_beta split: option.splits)
  moreover have "w_objs w' = w_objs w1" using finish_frame(1)[of rc slug kai1 w1] assms(1) by simp
  ultimately show ?thesis using that[of st] by (simp add: st_def)
qed

lemma success_state:
  assumes "wf_world w" "honest w" "w_kais w nn = Some kai" "live kai" "\<not> sp_Suspended (k_Spec kai)"
    and "Reconcile rc inp nn w = (None, w')"
  shows "\<exists>tmpl st. rendered_for rc kai (resolve_slug (k_Spec kai)) = Some tmpl
    \<and> children_match rc (resolve_slug (k_Spec kai)) tmpl (hash_for rc kai tmpl) kai w'
    \<and> w_kais w' nn = Some (kai\<lparr>k_Status := st\<rparr>) \<and> provisioned_status rc kai (hash_for rc kai tmpl) st"
proof -
  obtain g w1 where g: "kai_get nn w = (g, w1)" by (cases "kai_get nn w")
  have w1: "honest w1" "w_kais w1 = w_kais w" using honest_api(5)[OF assms(2), of nn] kai_get_keeps(2)[of nn w] by (simp_all add: g)
  have gi: "g = Inr kai"
  proof (cases g)
    case (Inl e)
    then have "e = KNotFound" using assms(6) by (auto simp: Reconcile_def g split: if_splits)
    with kai_get_NotFound[OF assms(2), of nn] Inl assms(3) show ?thesis by (simp add: g)
  next
    case (Inr k)
    with kai_get_Inr[of nn w k] assms(3) show ?thesis by (simp add: g)
  qed
  let ?slug = "resolve_slug (k_Spec kai)"
  have key: "kai_key kai = nn" using wf_worldD[OF assms(1,3)] by simp
  have p: "provision rc inp ?slug (with_slug kai) w1 = (None, w')"
    using Reconcile_running[OF g[unfolded gi] assms(4,5), of rc inp] assms(6) by simp
  obtain tmpl where tmpl: "rendered_for rc kai ?slug = Some tmpl"
    using p by (cases "rendered_for rc kai ?slug") (simp_all add: provision_eq with_slug_def setFailed_def Let_def)
  let ?h = "hash_for rc kai tmpl"
  define st0 where "st0 = (k_Status (with_slug kai))\<lparr>ks_Phase := started_phase (ks_Phase (k_Status kai)), ks_ConfigHash := ?h\<rparr>"
  have run: "run_steps rc inp ?slug (child_steps rc inp ?slug tmpl ?h) (kai\<lparr>k_Status := st0\<rparr>) w1 = (None, w')"
    using p by (simp add: provision_eq with_slug_def tmpl st0_def)
  obtain kai1 w2 where f: "finish rc ?slug kai1 w2 = (None, w')" "conditions_only (kai\<lparr>k_Status := st0\<rparr>) kai1"
    "w_kais w2 = w_kais w1" "list_all (\<lambda>(key, Q). Q (w_objs w2 key)) (child_specs rc ?slug tmpl ?h kai)"
    by (rule run_steps_success[OF est_all child_keys_distinct run conditions_only_refl w1(1)]) simp
  note c = conditions_only_fields[OF f(2)]
  have c2: "ks_CustomerSlug (k_Status kai1) = ks_CustomerSlug st0" "ks_ConfigHash (k_Status kai1) = ks_ConfigHash st0"
    using conditions_only_status[OF f(2)] by simp_all
  have "w_kais w2 (kai_key kai1) = Some kai" using f(3) w1(2) assms(3) key by (simp add: c(5))
  then obtain st where st: "w_kais w' (kai_key kai1) = Some (kai\<lparr>k_Status := st\<rparr>)" "w_objs w' = w_objs w2"
    "ks_CustomerSlug st = ks_CustomerSlug (k_Status kai1)" "ks_ConfigHash st = ks_ConfigHash (k_Status kai1)"
    "ks_ObservedGeneration st = k_Generation kai1" "ks_GatewayURL st = gatewayURL (k_Namespace kai1) ?slug"
    "ks_ExternalURL st = (if external_off kai1 then [] else externalURL (rc_IngressDomain rc) ?slug (rc_PerSlugSubdomain rc))"
    "ks_Phase st = (if ks_Ready st then PhaseRunning else ks_Phase (k_Status kai1))"
    by (rule finish_success[OF f(1)])
  have s: "provisioned_status rc kai ?h st"
    unfolding provisioned_status_def st(3-8) c c2 by (simp add: st0_def with_slug_def)
  have nn': "w_kais w' nn = Some (kai\<lparr>k_Status := st\<rparr>)" using st(1) unfolding c(5) kai_key_status key .
  have "children_match rc ?slug tmpl ?h kai w'" using f(4) unfolding children_match_def st(2) .
  with tmpl nn' s show ?thesis by blast
qed

lemma finish_failure: "finish rc slug kai1 w1 = (Some e, w') \<Longrightarrow> w_kais w' = w_kais w1"
proof -
  assume a: "finish rc slug kai1 w1 = (Some e, w')"
  have s: "fst (status_update k w) = Some e \<Longrightarrow> w_kais (snd (status_update k w)) = w_kais w" for k w
    by (simp add: status_update_def split_beta split: option.splits)
  have g: "w_kais (snd (isDeploymentReady ns slug w1)) = w_kais w1" for ns
    by (simp add: isDeploymentReady_def split_beta split: sum.splits)
  have "fst (finish rc slug kai1 w1) = Some e \<Longrightarrow> w_kais (snd (finish rc slug kai1 w1)) = w_kais w1"
    unfolding finish_def split_beta Let_def using s g by simp
  with a show ?thesis by simp
qed


lemma Reconcile_no_faults:
  assumes "w_faults w = []" "wf_world w" "w_kais w nn = Some kai" "live kai" "\<not> sp_Suspended (k_Spec kai)"
    and "in_keys inp \<noteq> None" "rendered_for rc kai (resolve_slug (k_Spec kai)) \<noteq> None"
  shows "fst (Reconcile rc inp nn w) = None" "w_faults (snd (Reconcile rc inp nn w)) = []"
proof -
  let ?slug = "resolve_slug (k_Spec kai)"
  obtain tmpl where tmpl: "rendered_for rc kai ?slug = Some tmpl" using assms(7) by blast
  let ?st = "(k_Status (with_slug kai))\<lparr>ks_Phase := started_phase (ks_Phase (k_Status kai)), ks_ConfigHash := hash_for rc kai tmpl\<rparr>"
  have g: "kai_get nn w = (Inr kai, w)" using assms(1,3) by (simp add: kai_get_def)
  have r: "Reconcile rc inp nn w
      = run_steps rc inp ?slug (child_steps rc inp ?slug tmpl (hash_for rc kai tmpl)) (kai\<lparr>k_Status := ?st\<rparr>) w"
    using tmpl by (simp add: Reconcile_running[OF g assms(4,5)] provision_eq with_slug_def)
  have "w_kais w (kai_key (kai\<lparr>k_Status := ?st\<rparr>)) \<noteq> None" using wf_worldD[OF assms(2,3)] assms(3) by simp
  from run_steps_unfailing[OF unfailing_steps[OF assms(6)] good_child_steps assms(1) this]
  show "fst (Reconcile rc inp nn w) = None" "w_faults (snd (Reconcile rc inp nn w)) = []"
    unfolding r by blast+
qed

definition finalized :: "kai \<Rightarrow> kai" where
  "finalized kai = (if live kai then kai else kai\<lparr>k_Finalizers := k_Finalizers kai @ [KaiInstanceFinalizer]\<rparr>)"

lemma finalized_simps [simp]:
  "k_Spec (finalized kai) = k_Spec kai" "kai_key (finalized kai) = kai_key kai"
  "k_Namespace (finalized kai) = k_Namespace kai" "k_Deleting (finalized kai) = k_Deleting kai"
  by (simp_all add: finalized_def kai_key_def)

lemma live_finalized: "\<not> k_Deleting kai \<Longrightarrow> live (finalized kai)"
  by (simp add: finalized_def live_def)

lemma finalizing_step:
  assumes "w_faults w = []" "wf_world w" "w_kais w nn = Some kai" "\<not> k_Deleting kai" "\<not> live kai"
  shows "Reconcile rc inp nn w = (None, w\<lparr>w_kais := (w_kais w)(nn \<mapsto> finalized kai)\<rparr>)"
proof -
  have k: "kai_key kai = nn" using wf_worldD[OF assms(2,3)] by simp
  have f: "kai_key (kai\<lparr>k_Finalizers := k_Finalizers kai @ [KaiInstanceFinalizer]\<rparr>) = nn"
    using k by (simp add: kai_key_def)
  have s: "kai\<lparr>k_Finalizers := fs, k_Status := k_Status kai\<rparr> = kai\<lparr>k_Finalizers := fs\<rparr>" for fs by simp
  show ?thesis using assms(1,3,4,5)
    by (simp add: Reconcile_def kai_get_def live_def kai_update_def f finalized_def split_beta)
qed

lemma reads_spec:
  assumes "k_Spec k' = k_Spec k" "k_Namespace k' = k_Namespace k"
  shows "rendered_for rc k' slug = rendered_for rc k slug" "hash_for rc k' tmpl = hash_for rc k tmpl"
    "child_specs rc slug tmpl hash k' = child_specs rc slug tmpl hash k"
proof -
  show "rendered_for rc k' slug = rendered_for rc k slug" "hash_for rc k' tmpl = hash_for rc k tmpl"
    by (simp_all add: rendered_for_def hash_for_def assms)
  have l: "commonLabelsFor (Some k') slug = commonLabelsFor (Some k) slug" "isSaaSEnrolled (Some k') = isSaaSEnrolled (Some k)"
    "external_off k' = external_off k"
    by (simp_all add: commonLabelsFor_def isSaaSEnrolled_def external_off_def assms)
  have "effective_model d k' = effective_model d k" "effective_resources q d k' = effective_resources q d k" for d q
    by (simp_all add: effective_model_def effective_resources_def Let_def assms l)
  then show "child_specs rc slug tmpl hash k' = child_specs rc slug tmpl hash k"
    unfolding child_specs_def buildConfigMap_def buildDeployment_def buildService_def buildNetworkPolicy_def buildIngress_def
    by (simp add: assms l)
qed

lemma kai_spec_status: "k_Spec (k\<lparr>k_Status := st\<rparr>) = k_Spec k" "k_Deleting (k\<lparr>k_Status := st\<rparr>) = k_Deleting k"
  by simp_all

lemma Reconcile_wf:
  assumes "wf_world w"
  shows "wf_world (snd (Reconcile rc inp nn w))"
proof -
  have st: "wf_world w'" if "wf_world w0" "status_frame n w0 w'" for n w0 w'
    unfolding wf_world_def
  proof (intro allI impI)
    fix m k assume k: "w_kais w' m = Some k"
    show "kai_key k = m"
    proof (cases "w_kais w' m = w_kais w0 m")
      case True
      with k have "w_kais w0 m = Some k" by simp
      with wf_worldD[OF that(1)] show ?thesis by blast
    next
      case False
      with that(2) have "m = n" unfolding status_frame_def by blast
      with False that(2) k obtain old s where "w_kais w0 m = Some old" "k = old\<lparr>k_Status := s\<rparr>"
        unfolding status_frame_def by (metis option.inject)
      then show ?thesis using wf_worldD[OF that(1), of m old] by simp
    qed
  qed
  have w1: "wf_world w1" if "kai_get nn w = (g, w1)" for g w1
    using kai_get_keeps(2)[of nn w] assms by (simp add: that wf_world_def)
  show ?thesis
  proof (cases rule: Reconcile_cases[of nn w rc inp])
    case (absent e w1)
    then show ?thesis using w1 by simp
  next
    case (meta kai fin w1)
    have "wf_world (snd (kai_update k w1))" for k
      using w1[OF meta(1)] by (auto simp: wf_world_def kai_update_def kai_key_def split_beta split: option.splits)
    then show ?thesis using meta(3) w1[OF meta(1)] by metis
  next
    case (suspended kai w1)
    show ?thesis unfolding suspended(4) by (rule st[OF w1[OF suspended(1)] reconcileSuspended_frame(2)])
  next
    case (running kai w1)
    show ?thesis unfolding running(4) by (rule st[OF w1[OF running(1)] provision_frame(2)])
  qed
qed

definition ada :: kai where
  "ada = free_kai\<lparr>k_Spec := (k_Spec free_kai)\<lparr>sp_CustomerSlug := ''ada''\<rparr>\<rparr>"

lemma ada_facts:
  "w_faults (ada_world ada) = []" "wf_world (ada_world ada)" "honest (ada_world ada)"
  "w_kais (ada_world ada) ada_key = Some ada" "live ada" "\<not> k_Deleting ada" "\<not> sp_Suspended (k_Spec ada)"
  "in_keys demo_in \<noteq> None" "resolve_slug (k_Spec ada) = ''ada''" "k_Namespace ada = ''emai-swarm''"
  "rendered_for demo_rc ada (resolve_slug (k_Spec ada)) \<noteq> None"
  by (simp_all add: ada_world_def ada_def wf_world_def honest_def ada_key_def kai_key_def live_def free_kai_def
      empty_spec_def demo_in_def resolve_slug_def EffectiveSlug_def rendered_for_def demo_rc_def
      renderAllTemplates_def renderSoul_def renderTemplate_def)


text \<open>C5: reconciling gets there: from any cluster state, however wrong its child objects, two
  reconciles of an unsuspended instance without API errors (one to add the finalizer, one to
  provision) succeed and leave every child as the spec demands.\<close>

theorem reconcile_converges:
  assumes "w_faults w = []" "wf_world w" "w_kais w nn = Some kai" "\<not> k_Deleting kai"
    and "\<not> sp_Suspended (k_Spec kai)" "in_keys inp \<noteq> None" "rendered_for rc kai (resolve_slug (k_Spec kai)) \<noteq> None"
  shows "\<exists>tmpl w1 w2. Reconcile rc inp nn w = (None, w1) \<and> Reconcile rc inp nn w1 = (None, w2)
    \<and> rendered_for rc kai (resolve_slug (k_Spec kai)) = Some tmpl
    \<and> children_match rc (resolve_slug (k_Spec kai)) tmpl (hash_for rc kai tmpl) kai w2"
proof -
  let ?slug = "resolve_slug (k_Spec kai)"
  have readers: "rendered_for rc (finalized kai) ?slug = rendered_for rc kai ?slug"
    "hash_for rc (finalized kai) tm = hash_for rc kai tm"
    "child_specs rc ?slug tm h (finalized kai) = child_specs rc ?slug tm h kai" for tm h
    by (rule reads_spec; simp)+
  have first: "\<exists>w1 st. Reconcile rc inp nn w = (None, w1) \<and> w_faults w1 = [] \<and> wf_world w1
      \<and> w_kais w1 nn = Some ((finalized kai)\<lparr>k_Status := st\<rparr>)"
  proof (cases "live kai")
    case True
    obtain w1 where w1: "Reconcile rc inp nn w = (None, w1)" "w_faults w1 = []"
      using Reconcile_no_faults[OF assms(1-3) True assms(5-7)] by (metis prod.collapse)
    have h: "honest w" using assms(1) by (simp add: honest_def)
    obtain st where st: "w_kais w1 nn = Some (kai\<lparr>k_Status := st\<rparr>)"
      using success_state[OF assms(2) h assms(3) True assms(5) w1(1)] by blast
    have "wf_world w1" using Reconcile_wf[OF assms(2), of rc inp nn] by (simp add: w1)
    with w1 st True show ?thesis by (auto simp: finalized_def)
  next
    case False
    from finalizing_step[OF assms(1-4) False, of rc inp] Reconcile_wf[OF assms(2), of rc inp nn] assms(1)
    show ?thesis by (intro exI[of _ "w\<lparr>w_kais := (w_kais w)(nn \<mapsto> finalized kai)\<rparr>"] exI[of _ "k_Status (finalized kai)"]) simp
  qed
  then obtain w1 st where f: "Reconcile rc inp nn w = (None, w1)" "w_faults w1 = []" "wf_world w1"
    "w_kais w1 nn = Some ((finalized kai)\<lparr>k_Status := st\<rparr>)" by blast
  have l: "live ((finalized kai)\<lparr>k_Status := st\<rparr>)" using live_finalized[OF assms(4)] by (simp add: live_def)
  obtain w2 where w2: "Reconcile rc inp nn w1 = (None, w2)"
    using Reconcile_no_faults(1)[OF f(2-4) l, of inp rc] assms(5-7) readers by (metis finalized_simps(1) kai.select_convs(8) rendered_for_status(1) kai_spec_status prod.collapse)
  have h: "honest w1" using f(2) by (simp add: honest_def)
  show ?thesis
    using success_state[OF f(3) h f(4) l _ w2] assms(5) f(1) w2 readers by (auto simp: children_match_def)
qed

corollary reconcile_converges_witness:
  "\<exists>w1 w2. Reconcile demo_rc demo_in ada_key (ada_world ada) = (None, w1) \<and> Reconcile demo_rc demo_in ada_key w1 = (None, w2)
    \<and> w_objs w2 (SecretKind, ''emai-swarm'', ''kai-ada-users'') \<noteq> None"
proof -
  note f = ada_facts
  obtain tmpl w1 w2 where w: "Reconcile demo_rc demo_in ada_key (ada_world ada) = (None, w1)" "Reconcile demo_rc demo_in ada_key w1 = (None, w2)"
    "children_match demo_rc ''ada'' tmpl (hash_for demo_rc ada tmpl) ada w2"
    using reconcile_converges[OF f(1,2,4,6,7,8,11)] unfolding f(9) by blast
  have "w_objs w2 (SecretKind, ''emai-swarm'', ''kai-ada-users'') \<noteq> None"
    using w(3) by (simp add: children_match_def child_specs_def f(10) usersSecretName_def childName_def there_def split: option.splits)
  with w show ?thesis by blast
qed



section \<open>What the status tells\<close>

text \<open>C40: a suspension can be reported without happening: if the read of the Deployment fails with any
  error, the error is dropped, the stored status says Suspended and not ready, the reconcile reports
  success (so it is not retried), and the Deployment keeps the replicas it had.\<close>

theorem suspend_swallows_errors:
  assumes "w_kais w nn = Some kai" "kai_key kai = nn" "live kai" "sp_Suspended (k_Spec kai)"
    and "w_faults w = None # Some e # fs" "fs = [] \<or> hd fs = None"
  shows "\<exists>w' st. Reconcile rc inp nn w = (None, w') \<and> w_objs w' = w_objs w
    \<and> w_kais w' nn = Some (kai\<lparr>k_Status := st\<rparr>) \<and> ks_Phase st = PhaseSuspended \<and> \<not> ks_Ready st"
proof -
  have k: "kai_key (with_slug kai) = nn" "kai_key (kai\<lparr>k_Status := st\<rparr>) = nn" for st using assms(2) by simp_all
  let ?st = "(k_Status kai)\<lparr>ks_CustomerSlug := resolve_slug (k_Spec kai), ks_Phase := PhaseSuspended, ks_Ready := False\<rparr>"
  have "Reconcile rc inp nn w = (None, w\<lparr>w_kais := (w_kais w)(nn \<mapsto> kai\<lparr>k_Status := ?st\<rparr>), w_faults := tl fs\<rparr>)"
    using assms(1,3-6) k by (cases fs) (simp_all add: Reconcile_def kai_get_def next_fault_def live_def
      reconcileSuspended_def Let_def api_get_def status_update_def)
  then show ?thesis by (intro exI[of _ "w\<lparr>w_kais := (w_kais w)(nn \<mapsto> kai\<lparr>k_Status := ?st\<rparr>), w_faults := tl fs\<rparr>"] exI[of _ ?st]) simp
qed

corollary suspend_swallows_errors_witness:
  "let w = (ada_world ada_suspended)\<lparr>w_objs := [fst ada_pod \<mapsto> snd ada_pod], w_faults := [None, Some (KOther 500)]\<rparr>
   in \<exists>w' k. Reconcile demo_rc demo_in ada_key w = (None, w') \<and> w_kais w' ada_key = Some k
     \<and> ks_Phase (k_Status k) = PhaseSuspended \<and> w_objs w' (fst ada_pod) = Some (snd ada_pod)"
proof -
  let ?w = "(ada_world ada_suspended)\<lparr>w_objs := [fst ada_pod \<mapsto> snd ada_pod], w_faults := [None, Some (KOther 500)]\<rparr>"
  have "w_kais ?w ada_key = Some ada_suspended" "kai_key ada_suspended = ada_key" "live ada_suspended" "sp_Suspended (k_Spec ada_suspended)"
    "w_faults ?w = None # Some (KOther 500) # []" "[] = [] \<or> hd [] = None"
    by (simp_all add: ada_world_def ada_suspended_def kai_key_def ada_key_def free_kai_def empty_spec_def live_def)
  from suspend_swallows_errors[OF this, of demo_rc demo_in] obtain w' st where
    "Reconcile demo_rc demo_in ada_key ?w = (None, w')" "w_objs w' = w_objs ?w"
    "w_kais w' ada_key = Some (ada_suspended\<lparr>k_Status := st\<rparr>)" "ks_Phase st = PhaseSuspended" by blast
  then show ?thesis by (auto simp: Let_def)
qed

definition cond_of :: "string \<Rightarrow> kai \<Rightarrow> condition option" where
  "cond_of t k = find (\<lambda>c. cd_Type c = t) (ks_Conditions (k_Status k))"

lemma find_set_cond:
  "find (\<lambda>c. cd_Type c = t) (set_cond c cs) = (if cd_Type c \<noteq> t then find (\<lambda>c. cd_Type c = t) cs
     else case find (\<lambda>c. cd_Type c = t) cs of None \<Rightarrow> Some c
       | Some d \<Rightarrow> if cd_Status d \<noteq> cd_Status c then Some c else Some d)"
  by (induction cs) auto

lemma cond_of_setCondition:
  "cond_of t (setCondition now u s r m k) = (if u \<noteq> t then cond_of t k
     else case cond_of t k of Some d \<Rightarrow> if cd_Status d = s then Some d
         else Some \<lparr>cd_Type = u, cd_Status = s, cd_Reason = r, cd_Message = m, cd_LastTransitionTime = now\<rparr>
       | None \<Rightarrow> Some \<lparr>cd_Type = u, cd_Status = s, cd_Reason = r, cd_Message = m, cd_LastTransitionTime = now\<rparr>)"
  by (auto simp: cond_of_def setCondition_def Let_def find_set_cond split: option.splits)

lemma cond_of_fields [simp]:
  "ks_Conditions st = ks_Conditions (k_Status k) \<Longrightarrow> cond_of t (k\<lparr>k_Status := st\<rparr>) = cond_of t k"
  by (simp add: cond_of_def)

definition keeps_ready :: "(kai \<Rightarrow> world \<Rightarrow> step_result) \<Rightarrow> bool" where
  "keeps_ready step \<longleftrightarrow> (\<forall>kai w. cond_of ''Ready'' (fst (snd (step kai w))) = cond_of ''Ready'' kai)"

lemma keeps_ready_steps: "list_all (\<lambda>(_, step). keeps_ready step) (child_steps rc inp slug tmpl hash)"
  by (simp add: child_steps_def keeps_ready_def step_defs reconcileIngress_def split_beta Let_def cond_of_setCondition
      ConditionConfigMapReady_def ConditionDeploymentAvailable_def ConditionNetworkPolicyApplied_def ConditionPVCBound_def
      ConditionIngressReady_def split: sum.splits option.splits)

lemma status_update_stored:
  assumes "status_update k w = (r, w')" "w_kais w (kai_key k) = Some old"
  shows "w_kais w' (kai_key k) = (if r = None then Some (old\<lparr>k_Status := k_Status k\<rparr>) else Some old)"
proof -
  have "w_kais (snd (status_update k w)) (kai_key k)
      = (if fst (status_update k w) = None then Some (old\<lparr>k_Status := k_Status k\<rparr>) else Some old)"
    using assms(2) by (simp add: status_update_def split_beta split: option.splits)
  with assms(1) show ?thesis by simp
qed

text \<open>What a run of the steps stores: nothing, or a status whose Ready condition is what \<open>setFailed\<close>
  makes of the old one, with a new observed generation only if the run succeeds.\<close>

lemma setFailed_stored:
  assumes "setFailed rc inp reason e kai w = (r, w')" "w_kais w (kai_key kai) = Some old" "cond_of ''Ready'' kai = Some c" "cd_Status c = CondFalse"
  shows "w_kais w' (kai_key kai) = Some old \<or> (\<exists>st. w_kais w' (kai_key kai) = Some (old\<lparr>k_Status := st\<rparr>)
     \<and> cond_of ''Ready'' (old\<lparr>k_Status := st\<rparr>) = Some c)"
proof -
  define k2 where "k2 = setCondition (in_now inp) ''Ready'' CondFalse reason (rc_errtext rc e)
      (kai\<lparr>k_Status := (k_Status kai)\<lparr>ks_Phase := PhaseFailed, ks_Ready := False\<rparr>\<rparr>)"
  obtain r' w2 where su: "status_update k2 w = (r', w2)" by fastforce
  have w2: "w2 = w'" using assms(1) su by (simp add: setFailed_def k2_def Let_def)
  have c: "cond_of ''Ready'' (old\<lparr>k_Status := k_Status k2\<rparr>) = Some c"
    using assms(3,4) cond_of_setCondition[of "''Ready''" "in_now inp" "''Ready''" CondFalse reason "rc_errtext rc e"
      "kai\<lparr>k_Status := (k_Status kai)\<lparr>ks_Phase := PhaseFailed, ks_Ready := False\<rparr>\<rparr>"]
    unfolding k2_def by (simp add: cond_of_def)
  have key: "kai_key k2 = kai_key kai" by (simp add: k2_def)
  have u: "w_kais w' (kai_key kai) = (if r' = None then Some (old\<lparr>k_Status := k_Status k2\<rparr>) else Some old)"
    using status_update_stored[OF su, of old] assms(2) unfolding key w2 by blast
  show ?thesis
  proof (cases "r' = None")
    case True
    with u c show ?thesis by auto
  next
    case False
    with u show ?thesis by simp
  qed
qed

lemma run_steps_ready:
  assumes "list_all (\<lambda>(_, step). keeps_ready step) steps" "list_all (\<lambda>(_, step). good_step slug step) steps"
    and "run_steps rc inp slug steps kai w = (r, w')" "w_kais w (kai_key kai) = Some old"
    and "cond_of ''Ready'' kai = Some c" "cd_Status c = CondFalse"
  shows "w_kais w' (kai_key kai) = Some old \<or> (\<exists>st. w_kais w' (kai_key kai) = Some (old\<lparr>k_Status := st\<rparr>)
     \<and> cond_of ''Ready'' (old\<lparr>k_Status := st\<rparr>) = Some c)"
  using assms
proof (induction steps arbitrary: kai w)
  case Nil
  show ?case
  proof (cases r)
    case None
    have f: "finish rc slug kai w = (None, w')" using Nil(3) None by simp
    obtain st where st: "w_kais w' (kai_key kai) = Some (old\<lparr>k_Status := st\<rparr>)" "ks_Conditions st = ks_Conditions (k_Status kai)"
      by (rule finish_success[OF f Nil(4)])
    have "cond_of ''Ready'' (old\<lparr>k_Status := st\<rparr>) = Some c" using Nil(5) st(2) by (simp add: cond_of_def)
    with st(1) show ?thesis by blast
  next
    case (Some e)
    then have "finish rc slug kai w = (Some e, w')" using Nil(3) by simp
    from finish_failure[OF this] Nil(4) show ?thesis by simp
  qed
next
  case (Cons rs steps)
  obtain reason step where rs: "rs = (reason, step)" by (cases rs)
  obtain r1 kai' w2 where s: "step kai w = (r1, kai', w2)" by (metis prod_cases3)
  have gs: "good_step slug step" and ks: "keeps_ready step" using Cons.prems(1,2) by (simp_all add: rs)
  have "case step kai w of (r, kai', w') \<Rightarrow> w_kais w' = w_kais w \<and> conditions_only kai kai' \<and> objs_frame kai slug w w'"
    by (rule spec[OF spec[OF gs[unfolded good_step_def]]])
  then have g: "w_kais w2 = w_kais w" "kai_key kai' = kai_key kai" using conditions_only_fields(5) by (auto simp: s)
  have c: "cond_of ''Ready'' kai' = Some c" using ks Cons.prems(5) s unfolding keeps_ready_def by (metis fst_conv snd_conv)
  show ?case
  proof (cases r1)
    case None
    have "run_steps rc inp slug steps kai' w2 = (r, w')" "w_kais w2 (kai_key kai') = Some old"
      "list_all (\<lambda>(_, step). keeps_ready step) steps" "list_all (\<lambda>(_, step). good_step slug step) steps"
      using Cons.prems(1-4) None g by (simp_all add: rs s)
    from Cons.IH[OF this(3,4,1,2) c Cons.prems(6)] show ?thesis unfolding g(2) .
  next
    case (Some e)
    have "setFailed rc inp reason e kai' w2 = (r, w')" "w_kais w2 (kai_key kai') = Some old"
      using Cons.prems(3,4) Some g by (simp_all add: rs s)
    from setFailed_stored[OF this c Cons.prems(6)] show ?thesis unfolding g(2) .
  qed
qed

lemma provision_ready:
  assumes "w_kais w (kai_key kai) = Some old" "cond_of ''Ready'' kai = Some c" "cd_Status c = CondFalse"
  shows "w_kais (snd (provision rc inp slug kai w)) (kai_key kai) = Some old
    \<or> (\<exists>st. w_kais (snd (provision rc inp slug kai w)) (kai_key kai) = Some (old\<lparr>k_Status := st\<rparr>)
       \<and> cond_of ''Ready'' (old\<lparr>k_Status := st\<rparr>) = Some c)"
proof (cases "rendered_for rc kai slug")
  case None
  let ?k = "kai\<lparr>k_Status := (k_Status kai)\<lparr>ks_Phase := started_phase (ks_Phase (k_Status kai))\<rparr>\<rparr>"
  obtain r w' where s: "setFailed rc inp ''TemplateRenderError'' OE_Template ?k w = (r, w')" by fastforce
  from setFailed_stored[OF s, of old c] assms None s show ?thesis by (simp add: provision_eq cond_of_def)
next
  case (Some tmpl)
  let ?k = "kai\<lparr>k_Status := (k_Status kai)\<lparr>ks_Phase := started_phase (ks_Phase (k_Status kai)), ks_ConfigHash := hash_for rc kai tmpl\<rparr>\<rparr>"
  obtain r w' where s: "run_steps rc inp slug (child_steps rc inp slug tmpl (hash_for rc kai tmpl)) ?k w = (r, w')" by fastforce
  from run_steps_ready[OF keeps_ready_steps good_child_steps s, of old c] assms Some s show ?thesis
    by (simp add: provision_eq cond_of_def)
qed

lemma suspended_stored:
  assumes "kai_key kai = nn"
  shows "w_kais (snd (reconcileSuspended slug kai w)) nn = w_kais w nn
    \<or> (\<exists>old. w_kais w nn = Some old \<and> w_kais (snd (reconcileSuspended slug kai w)) nn
        = Some (old\<lparr>k_Status := (k_Status kai)\<lparr>ks_Phase := PhaseSuspended, ks_Ready := False\<rparr>\<rparr>))"
proof -
  have u: "w_kais (snd (status_update k w1)) nn = w_kais w nn
      \<or> (\<exists>old. w_kais w nn = Some old \<and> w_kais (snd (status_update k w1)) nn = Some (old\<lparr>k_Status := k_Status k\<rparr>))"
    if "kai_key k = nn" "w_kais w1 = w_kais w" for k w1
    using that by (auto simp: status_update_def split_beta split: option.splits)
  let ?k = "kai\<lparr>k_Status := (k_Status kai)\<lparr>ks_Phase := PhaseSuspended, ks_Ready := False\<rparr>\<rparr>"
  note u2 = u[of ?k, unfolded kai_key_status kai.select_convs kai.update_convs, OF assms]
  show ?thesis unfolding reconcileSuspended_def Let_def
    using u2 by (simp add: split_beta split: sum.splits option.splits)
qed

text \<open>A failure marks an instance for good: once its Ready condition says False with the reason of
  some failure, every later reconcile, successful or not, leaves that very entry (reason, message and
  time) in the status, because no step ever sets it True and a False entry is never overwritten by a
  later failure.\<close>

theorem ready_condition_sticks:
  assumes "wf_world w" "w_kais w nn = Some kai" "cond_of ''Ready'' kai = Some c" "cd_Status c = CondFalse"
    and "w_kais (snd (Reconcile rc inp nn w)) nn = Some kai'"
  shows "cond_of ''Ready'' kai' = Some c"
proof (cases rule: Reconcile_cases[of nn w rc inp])
  case (absent e w1)
  then show ?thesis using assms kai_get_keeps(2)[of nn w] by simp
next
  case (meta k fin w1)
  have k: "k = kai" "w_kais w1 = w_kais w" using kai_get_Inr[of nn w k] kai_get_keeps(2)[of nn w] meta(1) assms(2) by simp_all
  have "kai_key (kai\<lparr>k_Finalizers := fin\<rparr>) = kai_key kai" by (simp add: kai_key_def)
  then have key: "kai_key (kai\<lparr>k_Finalizers := fin\<rparr>) = nn" using wf_worldD[OF assms(1,2)] by simp
  have same: "k_Status kai'' = k_Status kai \<Longrightarrow> cond_of ''Ready'' kai'' = Some c" for kai''
    using assms(3) by (simp add: cond_of_def)
  have "w_kais (snd (kai_update (kai\<lparr>k_Finalizers := fin\<rparr>) w1)) nn = Some kai' \<Longrightarrow> k_Status kai' = k_Status kai"
    using assms(2) k(2) by (auto simp: kai_update_def key split_beta split: option.splits if_splits)
  then show ?thesis using meta(3) assms(2,5) k same by auto
next
  case (suspended k w1)
  have k: "k = kai" "w_kais w1 = w_kais w" using kai_get_Inr[of nn w k] kai_get_keeps(2)[of nn w] suspended(1) assms(2) by simp_all
  have key: "kai_key (with_slug kai) = nn" using wf_worldD[OF assms(1,2)] by simp
  from suspended_stored[OF key, of "resolve_slug (k_Spec kai)" w1] assms(2,5) k(2)
  have "k_Status kai' = k_Status kai \<or> ks_Conditions (k_Status kai') = ks_Conditions (k_Status (with_slug kai))"
    unfolding suspended(4) k(1) by auto
  with assms(3) show ?thesis by (auto simp: cond_of_def with_slug_def)
next
  case (running k w1)
  have k: "k = kai" "w_kais w1 = w_kais w" using kai_get_Inr[of nn w k] kai_get_keeps(2)[of nn w] running(1) assms(2) by simp_all
  have key: "kai_key kai = nn" using wf_worldD[OF assms(1,2)] by simp
  have ws: "with_slug kai = kai\<lparr>k_Status := (k_Status kai)\<lparr>ks_CustomerSlug := resolve_slug (k_Spec kai)\<rparr>\<rparr>" by (simp add: with_slug_def)
  have "w_kais w1 (kai_key (with_slug kai)) = Some kai" "cond_of ''Ready'' (with_slug kai) = Some c"
    using assms(2,3) k(2) key by (simp_all add: ws cond_of_def)
  from provision_ready[OF this assms(4), of rc inp "resolve_slug (k_Spec kai)"]
  have "w_kais (snd (Reconcile rc inp nn w)) nn = Some kai \<or> (\<exists>st. w_kais (snd (Reconcile rc inp nn w)) nn = Some (kai\<lparr>k_Status := st\<rparr>)
     \<and> cond_of ''Ready'' (kai\<lparr>k_Status := st\<rparr>) = Some c)"
    unfolding running(4) k(1) with_slug_fields key .
  with assms(3,5) show ?thesis by auto
qed

corollary ready_condition_sticks_witness:
  "let c = \<lparr>cd_Type = ''Ready'', cd_Status = CondFalse, cd_Reason = ''PVCError'', cd_Message = ''x'', cd_LastTransitionTime = 5\<rparr>;
       k = ada\<lparr>k_Status := (k_Status ada)\<lparr>ks_Conditions := [c]\<rparr>\<rparr>
   in \<exists>w' k'. Reconcile demo_rc demo_in ada_key (ada_world k) = (None, w') \<and> w_kais w' ada_key = Some k'
        \<and> cond_of ''Ready'' k' = Some c"
proof -
  define c where "c = \<lparr>cd_Type = ''Ready'', cd_Status = CondFalse, cd_Reason = ''PVCError'', cd_Message = ''x'', cd_LastTransitionTime = 5::int\<rparr>"
  define k where "k = ada\<lparr>k_Status := (k_Status ada)\<lparr>ks_Conditions := [c]\<rparr>\<rparr>"
  have f: "w_faults (ada_world k) = []" "wf_world (ada_world k)" "w_kais (ada_world k) ada_key = Some k" "live k"
    "\<not> sp_Suspended (k_Spec k)" "in_keys demo_in \<noteq> None" "rendered_for demo_rc k (resolve_slug (k_Spec k)) \<noteq> None" "honest (ada_world k)"
    using ada_facts by (simp_all add: ada_world_def k_def wf_world_def live_def honest_def)
  have c: "cond_of ''Ready'' k = Some c" "cd_Status c = CondFalse" by (simp_all add: cond_of_def k_def c_def)
  obtain w' where w': "Reconcile demo_rc demo_in ada_key (ada_world k) = (None, w')"
    using Reconcile_no_faults(1)[OF f(1-7)] by (metis prod.collapse)
  obtain k' where k': "w_kais w' ada_key = Some k'" using success_state[OF f(2,8,3,4,5) w'] by blast
  have "cond_of ''Ready'' k' = Some c" using ready_condition_sticks[OF f(2,3) c, of demo_rc demo_in k'] w' k' by simp
  with w' k' show ?thesis unfolding Let_def k_def c_def by blast
qed

lemma setFailed_gen:
  assumes "setFailed rc inp reason e kai w = (r, w')" "w_kais w (kai_key kai) = Some old"
  shows "\<exists>st. w_kais w' (kai_key kai) = Some (old\<lparr>k_Status := st\<rparr>)
    \<and> ks_ObservedGeneration st \<in> {ks_ObservedGeneration (k_Status old), ks_ObservedGeneration (k_Status kai)}"
proof -
  define k2 where "k2 = setCondition (in_now inp) ''Ready'' CondFalse reason (rc_errtext rc e)
      (kai\<lparr>k_Status := (k_Status kai)\<lparr>ks_Phase := PhaseFailed, ks_Ready := False\<rparr>\<rparr>)"
  obtain r' w2 where su: "status_update k2 w = (r', w2)" by fastforce
  have w2: "w2 = w'" using assms(1) su by (simp add: setFailed_def k2_def Let_def)
  have key: "kai_key k2 = kai_key kai" and g: "ks_ObservedGeneration (k_Status k2) = ks_ObservedGeneration (k_Status kai)"
    by (simp_all add: k2_def setCondition_def Let_def kai_key_def)
  have u: "w_kais w' (kai_key kai) = (if r' = None then Some (old\<lparr>k_Status := k_Status k2\<rparr>) else Some old)"
    using status_update_stored[OF su, of old] assms(2) unfolding key w2 by blast
  show ?thesis
  proof (cases "r' = None")
    case True
    with u g show ?thesis by (intro exI[of _ "k_Status k2"]) simp
  next
    case False
    with u show ?thesis by (intro exI[of _ "k_Status old"]) simp
  qed
qed

lemma run_steps_failed:
  assumes "list_all (\<lambda>(_, step). good_step slug step) steps"
    and "run_steps rc inp slug steps kai w = (Some e, w')" "w_kais w (kai_key kai) = Some old"
  shows "\<exists>st. w_kais w' (kai_key kai) = Some (old\<lparr>k_Status := st\<rparr>)
    \<and> ks_ObservedGeneration st \<in> {ks_ObservedGeneration (k_Status old), ks_ObservedGeneration (k_Status kai)}"
  using assms
proof (induction steps arbitrary: kai w)
  case Nil
  have "finish rc slug kai w = (Some e, w')" using Nil(2) by simp
  from finish_failure[OF this] Nil(3) show ?case by (intro exI[of _ "k_Status old"]) simp
next
  case (Cons rs steps)
  obtain reason step where rs: "rs = (reason, step)" by (cases rs)
  obtain r1 kai' w2 where s: "step kai w = (r1, kai', w2)" by (metis prod_cases3)
  have gs: "good_step slug step" using Cons.prems(1) by (simp add: rs)
  have "case step kai w of (r, kai', w') \<Rightarrow> w_kais w' = w_kais w \<and> conditions_only kai kai' \<and> objs_frame kai slug w w'"
    by (rule spec[OF spec[OF gs[unfolded good_step_def]]])
  then have g: "w_kais w2 = w_kais w" "kai_key kai' = kai_key kai"
    "ks_ObservedGeneration (k_Status kai') = ks_ObservedGeneration (k_Status kai)"
    using conditions_only_fields(5,8) by (auto simp: s)
  have old: "w_kais w2 (kai_key kai') = Some old" using Cons.prems(3) g by simp
  show ?case
  proof (cases r1)
    case None
    have "run_steps rc inp slug steps kai' w2 = (Some e, w')" "list_all (\<lambda>(_, step). good_step slug step) steps"
      using Cons.prems(1,2) None by (simp_all add: rs s)
    from Cons.IH[OF this(2,1) old] show ?thesis unfolding g .
  next
    case (Some e1)
    have "setFailed rc inp reason e1 kai' w2 = (Some e, w')" using Cons.prems(2) Some by (simp add: rs s)
    from setFailed_gen[OF this old] show ?thesis unfolding g .
  qed
qed

lemma provision_failed:
  assumes "provision rc inp slug kai w = (Some e, w')" "w_kais w (kai_key kai) = Some old"
  shows "\<exists>st. w_kais w' (kai_key kai) = Some (old\<lparr>k_Status := st\<rparr>)
    \<and> ks_ObservedGeneration st \<in> {ks_ObservedGeneration (k_Status old), ks_ObservedGeneration (k_Status kai)}"
proof (cases "rendered_for rc kai slug")
  case None
  let ?k = "kai\<lparr>k_Status := (k_Status kai)\<lparr>ks_Phase := started_phase (ks_Phase (k_Status kai))\<rparr>\<rparr>"
  have s: "setFailed rc inp ''TemplateRenderError'' OE_Template ?k w = (Some e, w')"
    using assms(1) None by (simp add: provision_eq)
  from setFailed_gen[OF s, of old] assms(2) show ?thesis by simp
next
  case (Some tmpl)
  let ?k = "kai\<lparr>k_Status := (k_Status kai)\<lparr>ks_Phase := started_phase (ks_Phase (k_Status kai)), ks_ConfigHash := hash_for rc kai tmpl\<rparr>\<rparr>"
  have s: "run_steps rc inp slug (child_steps rc inp slug tmpl (hash_for rc kai tmpl)) ?k w = (Some e, w')"
    using assms(1) Some by (simp add: provision_eq)
  from run_steps_failed[OF good_child_steps s, of old] assms(2) show ?thesis by simp
qed

text \<open>The observed generation can be trusted: a reconcile changes it only when it succeeds, sets it to
  the generation it worked on, and then every child object is as that generation demands; no failure
  and no suspension ever moves it.\<close>

theorem observed_generation_honest:
  assumes "wf_world w" "honest w" "w_kais w nn = Some kai" "Reconcile rc inp nn w = (r, w')" "w_kais w' nn = Some kai'"
    and "ks_ObservedGeneration (k_Status kai') \<noteq> ks_ObservedGeneration (k_Status kai)"
  shows "r = None \<and> \<not> sp_Suspended (k_Spec kai) \<and> ks_ObservedGeneration (k_Status kai') = k_Generation kai
    \<and> (\<exists>tmpl. children_match rc (resolve_slug (k_Spec kai)) tmpl (hash_for rc kai tmpl) kai w')"
proof (cases rule: Reconcile_cases[of nn w rc inp])
  case (absent e w1)
  then show ?thesis using assms kai_get_keeps(2)[of nn w] by simp
next
  case (meta k fin w1)
  have k: "k = kai" "w_kais w1 = w_kais w" using kai_get_Inr[of nn w k] kai_get_keeps(2)[of nn w] meta(1) assms(3) by simp_all
  have "kai_key (kai\<lparr>k_Finalizers := fin\<rparr>) = kai_key kai" by (simp add: kai_key_def)
  then have key: "kai_key (kai\<lparr>k_Finalizers := fin\<rparr>) = nn" using wf_worldD[OF assms(1,3)] by simp
  have "w_kais (snd (kai_update (kai\<lparr>k_Finalizers := fin\<rparr>) w1)) nn = Some kai' \<Longrightarrow> k_Status kai' = k_Status kai"
    using assms(3) k(2) by (auto simp: kai_update_def key split_beta split: option.splits if_splits)
  moreover have "w' = w1 \<or> w' = snd (kai_update (kai\<lparr>k_Finalizers := fin\<rparr>) w1)"
    using meta(3) assms(4) k(1) by (metis snd_conv)
  ultimately have "k_Status kai' = k_Status kai" using assms(3,5) k(2) by fastforce
  with assms(6) show ?thesis by simp
next
  case (suspended k w1)
  have k: "k = kai" "w_kais w1 = w_kais w" using kai_get_Inr[of nn w k] kai_get_keeps(2)[of nn w] suspended(1) assms(3) by simp_all
  have key: "kai_key (with_slug kai) = nn" using wf_worldD[OF assms(1,3)] by simp
  have ws: "w' = snd (reconcileSuspended (resolve_slug (k_Spec kai)) (with_slug kai) w1)"
    using suspended(4) assms(4) unfolding k(1) by (metis snd_conv)
  have "w_kais w' nn = w_kais w1 nn \<or> (\<exists>old. w_kais w1 nn = Some old \<and> w_kais w' nn
        = Some (old\<lparr>k_Status := (k_Status (with_slug kai))\<lparr>ks_Phase := PhaseSuspended, ks_Ready := False\<rparr>\<rparr>))"
    unfolding ws by (rule suspended_stored[OF key])
  then have "ks_ObservedGeneration (k_Status kai') = ks_ObservedGeneration (k_Status kai)"
    using assms(3,5) k(2) by (auto simp: with_slug_def)
  with assms(6) show ?thesis by simp
next
  case (running k w1)
  have k: "k = kai" "w_kais w1 = w_kais w" using kai_get_Inr[of nn w k] kai_get_keeps(2)[of nn w] running(1) assms(3) by simp_all
  have key: "kai_key kai = nn" using wf_worldD[OF assms(1,3)] by simp
  show ?thesis
  proof (cases r)
    case None
    have "Reconcile rc inp nn w = (None, w')" using assms(4) None by simp
    from success_state[OF assms(1,2,3) running(2,3)[unfolded k(1)] this] obtain tmpl st where
      s: "children_match rc (resolve_slug (k_Spec kai)) tmpl (hash_for rc kai tmpl) kai w'"
      "w_kais w' nn = Some (kai\<lparr>k_Status := st\<rparr>)" "ks_ObservedGeneration st = k_Generation kai"
      unfolding provisioned_status_def by blast
    have "ks_ObservedGeneration (k_Status kai') = k_Generation kai" using s(2,3) assms(5) by auto
    with None running(3) k(1) s(1) show ?thesis by blast
  next
    case (Some e)
    have p: "provision rc inp (resolve_slug (k_Spec kai)) (with_slug kai) w1 = (Some e, w')"
      using running(4) assms(4) Some k(1) by simp
    have "w_kais w1 (kai_key (with_slug kai)) = Some kai" using assms(3) k(2) key by simp
    from provision_failed[OF p this] key assms(5,6) show ?thesis by (auto simp: with_slug_def)
  qed
qed

corollary observed_generation_honest_witness:
  "\<exists>w' k'. Reconcile demo_rc demo_in ada_key (ada_world ada) = (None, w') \<and> w_kais w' ada_key = Some k'
     \<and> ks_ObservedGeneration (k_Status ada) = 0 \<and> ks_ObservedGeneration (k_Status k') = k_Generation ada"
proof -
  note f = ada_facts
  obtain w' where w': "Reconcile demo_rc demo_in ada_key (ada_world ada) = (None, w')"
    using Reconcile_no_faults(1)[OF f(1,2,4,5,7,8,11)] by (metis prod.collapse)
  obtain st where st: "w_kais w' ada_key = Some (ada\<lparr>k_Status := st\<rparr>)" "ks_ObservedGeneration st = 1"
    using success_state[OF f(2,3,4,5,7) w'] unfolding provisioned_status_def
    by (auto simp: ada_def free_kai_def)
  have z: "ks_ObservedGeneration (k_Status ada) = 0" by (simp add: ada_def free_kai_def empty_status_def)
  have "ks_ObservedGeneration (k_Status (ada\<lparr>k_Status := st\<rparr>)) \<noteq> ks_ObservedGeneration (k_Status ada)" using st(2) z by simp
  from observed_generation_honest[OF f(2,3,4) w' st(1) this] w' st(1) z show ?thesis by blast
qed

end
