(* ===== verification/StatusPage.thy ===== *)
theory StatusPage
  imports Cluster Http
begin

text \<open>
  The public status page (\<open>web/status-page/server/main.go\<close>): one read-only handler guarded by the gateway token of the
  instance.  Parameters: how the API server prints a time and the creation time of an object.
\<close>

record status_server =
  ss_dyn :: bool  \<comment> \<open>the client is wired\<close>
  ss_namespace :: string
  ss_stamp :: "gotime \<Rightarrow> string"
  ss_created :: "kai \<Rightarrow> string"

record status_request =
  sq_slug :: string
  sq_Authorization :: string
  sq_token :: string  \<comment> \<open>the query parameter\<close>

record public_status =
  pb_CustomerName :: string
  pb_ProjectName :: string
  pb_Slug :: string
  pb_Status :: string
  pb_Ready :: bool
  pb_Message :: string
  pb_LastUpdate :: string
  pb_GatewayURL :: string

definition status_json :: "public_status \<Rightarrow> json" where
  "status_json p = JObj ([(''customerName'', JStr (pb_CustomerName p)), (''projectName'', JStr (pb_ProjectName p)),
     (''slug'', JStr (pb_Slug p)), (''status'', JStr (pb_Status p)), (''ready'', JBool (pb_Ready p)),
     (''message'', JStr (pb_Message p)), (''lastUpdate'', JStr (pb_LastUpdate p))] @ omit_empty ''gatewayURL'' (pb_GatewayURL p))"

definition translatePhase :: "phase \<Rightarrow> bool \<Rightarrow> bool \<Rightarrow> string \<times> string" where
  "translatePhase ph ready suspended =
     (if suspended then (''maintenance'', ''Your assistant is paused. Contact your EmAI team to resume.'')
      else (case ph of
          PhaseRunning \<Rightarrow> if ready then (''online'', ''All systems operational.'')
            else (''setting-up'', ''Starting up '' @ [CHR 0xE2, CHR 0x80, CHR 0x94] @ '' almost ready.'')
        | PhaseProvisioning \<Rightarrow> (''setting-up'', ''Setting up your assistant for the first time.'')
        | PhaseSuspended \<Rightarrow> (''maintenance'', ''Your assistant is paused.'')
        | PhaseFailed \<Rightarrow> (''issue'', ''We'' @ [CHR 0x27] @ ''re investigating an issue. Your EmAI team has been notified.'')
        | PhaseUnset \<Rightarrow> (''unknown'', ''Status unavailable.'')))"

fun latest_time :: "string \<Rightarrow> string list \<Rightarrow> string" where
  \<comment> \<open>the loop of \<open>lastConditionTime\<close>\<close>
  "latest_time cur [] = cur"
| "latest_time cur (t # ts) = latest_time (if t > cur then t else cur) ts"

definition lastConditionTime :: "status_server \<Rightarrow> kai \<Rightarrow> string" where
  "lastConditionTime c k = latest_time [] (map (\<lambda>d. ss_stamp c (cd_LastTransitionTime d)) (ks_Conditions (k_Status k)))"

definition summarize :: "status_server \<Rightarrow> kai \<Rightarrow> string \<Rightarrow> public_status" where
  "summarize c k slug =
     (let st = k_Status k; sp = k_Spec k;
          (status, message) = translatePhase (ks_Phase st) (ks_Ready st) (sp_Suspended sp);
          lastUpdate = (if lastConditionTime c k = [] then ss_created c k else lastConditionTime c k)
      in \<lparr>pb_CustomerName = sp_CustomerName sp, pb_ProjectName = sp_ProjectName sp, pb_Slug = slug, pb_Status = status,
          pb_Ready = ks_Ready st, pb_Message = message, pb_LastUpdate = lastUpdate, pb_GatewayURL = ks_ExternalURL st\<rparr>)"

definition tokenFromRequest :: "status_request \<Rightarrow> string" where
  "tokenFromRequest r = (if has_prefix ''Bearer '' (sq_Authorization r) then trim_prefix ''Bearer '' (sq_Authorization r) else sq_token r)"

definition gateway_token :: "kai \<Rightarrow> string" where
  "gateway_token k = (case sp_GatewayAuth (k_Spec k) of None \<Rightarrow> [] | Some (_, t) \<Rightarrow> t)"

definition getStatus :: "status_server \<Rightarrow> status_request \<Rightarrow> kube \<Rightarrow> resp \<times> kube" where
  "getStatus c r w =
     (let slug = sq_slug r; token = tokenFromRequest r in
      if token = [] then (writeUnauthorized, w)
      else if slug_rejected slug then (writeUnauthorized, w)
      else if \<not> ss_dyn c then (writeErr 503 ''status backend unavailable'', w)
      else (case kc_get (ss_namespace c, ''kai-'' @ slug) w of
          (Inl e, w1) \<Rightarrow> (if e = KNotFound then writeUnauthorized else writeErr 500 ''lookup failed'', w1)
        | (Inr k, w1) \<Rightarrow>
            (let expected = gateway_token k in
             if expected = [] \<or> expected \<noteq> token then (writeUnauthorized, w1)
             else (writeJSON 200 (status_json (summarize c k slug)), w1))))"

section \<open>What the page tells\<close>

lemma latest_time_max: "latest_time cur ts = Max (set (cur # ts))"
proof (induction cur ts rule: latest_time.induct)
  case (2 cur t ts)
  have "Max (set (cur # t # ts)) = max (max cur t) (Max (insert (max cur t) (set ts)))"
    by (cases "ts = []") (simp_all add: max.assoc max.left_commute Max_insert)
  then show ?case using 2 by (simp add: max_def insert_commute split: if_splits)
qed simp

lemma getStatus_reads: "same_objects w (snd (getStatus c r w))"
  using reads_keep(1)[of w "(ss_namespace c, ''kai-'' @ sq_slug r)"]
  by (auto simp: getStatus_def Let_def split: prod.split sum.split)

text \<open>C35: probing the status page reveals nothing: whatever the cluster holds, a request that does not carry the gateway token of
  the instance it names is answered exactly as it is by a cluster without any instance, under the same
  failures of the API server, and changes nothing.\<close>

theorem status_reveals_nothing:
  assumes "kb_faults w = kb_faults v" "kb_kais v = []"
    and "\<forall>k. map_of (kb_kais w) (ss_namespace c, ''kai-'' @ sq_slug r) = Some k \<longrightarrow> gateway_token k = [] \<or> gateway_token k \<noteq> tokenFromRequest r"
  shows "fst (getStatus c r w) = fst (getStatus c r v) \<and> same_objects w (snd (getStatus c r w))"
proof -
  have n: "fst (kb_next w) = fst (kb_next v)" using assms(1) by (simp add: kb_next_def split: list.split)
  have "fst (getStatus c r w) = fst (getStatus c r v)"
  proof (cases "fst (kb_next w)")
    case None
    show ?thesis
    proof (cases "map_of (kb_kais w) (ss_namespace c, ''kai-'' @ sq_slug r)")
      case (Some k)
      then have "gateway_token k = [] \<or> gateway_token k \<noteq> tokenFromRequest r" using assms(3) by blast
      then show ?thesis unfolding getStatus_def Let_def reads_alt None n[symmetric] Some assms(2) by (auto simp: None)
    qed (simp add: getStatus_def Let_def reads_alt None n[symmetric] assms(2))
  qed (simp add: getStatus_def Let_def reads_alt n[symmetric])
  then show ?thesis by (simp add: getStatus_reads)
qed

definition demo_status :: status_server where
  "demo_status = \<lparr>ss_dyn = True, ss_namespace = ''emai-swarm'', ss_stamp = (\<lambda>_. []), ss_created = (\<lambda>_. ''2026-01-01T00:00:00Z'')\<rparr>"

corollary status_reveals_nothing_witness:
  "let r = \<lparr>sq_slug = ''acme'', sq_Authorization = [], sq_token = ''guess''\<rparr>
   in fst (getStatus demo_status r idle_kube) = fst (getStatus demo_status r (idle_kube\<lparr>kb_kais := []\<rparr>))"
  unfolding Let_def
  by (rule status_reveals_nothing[THEN conjunct1])
    (simp_all add: idle_kube_def demo_status_def idle_kai_def gateway_token_def tokenFromRequest_def has_prefix_def)

lemma status_shown:
  assumes "ss_dyn c" "kb_faults w = []" "\<not> slug_rejected (sq_slug r)" "tokenFromRequest r \<noteq> []"
    and "map_of (kb_kais w) (ss_namespace c, ''kai-'' @ sq_slug r) = Some k" "gateway_token k = tokenFromRequest r"
  shows "getStatus c r w = (writeJSON 200 (status_json (summarize c k (sq_slug r))), w)"
  unfolding getStatus_def Let_def kc_get_def kb_next_quiet[OF assms(2)] prod.case assms(5)
  using assms(1,3,4,6) by simp

end
