(* ===== verification/AdminConsole.thy ===== *)
theory AdminConsole
  imports Cluster Http
begin

text \<open>
  The admin console (\<open>web/admin-console/server/main.go\<close>): list, show, suspend and resume instances, behind one bearer
  token.  Parameters: the text of an API error, an object as the API server prints it, its creation time.
\<close>

record admin_server =
  ad_dyn :: bool  \<comment> \<open>the client is wired\<close>
  ad_namespace :: string
  ad_token :: string
  ad_kerr :: "kerr \<Rightarrow> string"
  ad_object :: "kai \<Rightarrow> json"
  ad_created :: "kai \<Rightarrow> string"

record admin_request =
  aq_name :: string  \<comment> \<open>the path value\<close>
  aq_Authorization :: string

datatype admin_resp = PlainUnauthorized  \<comment> \<open>\<open>http.Error\<close>\<close> | AdminResp resp

definition admin_main :: "bool \<Rightarrow> string \<Rightarrow> string \<Rightarrow> (kerr \<Rightarrow> string) \<Rightarrow> (kai \<Rightarrow> json) \<Rightarrow> (kai \<Rightarrow> string) \<Rightarrow> admin_server option" where
  \<comment> \<open>the server that \<open>main\<close> starts, of \<open>SWARM_NAMESPACE\<close> and \<open>ADMIN_TOKEN\<close>; \<open>None\<close>: it refuses\<close>
  "admin_main dyn ns token txt pr cr =
     (if token = [] then None
      else Some \<lparr>ad_dyn = dyn, ad_namespace = envDefault ns ''emai-swarm'', ad_token = token, ad_kerr = txt, ad_object = pr, ad_created = cr\<rparr>)"

definition admin_requireAuth :: "admin_server \<Rightarrow> admin_request \<Rightarrow> bool" where
  "admin_requireAuth c r \<longleftrightarrow> trim_prefix ''Bearer '' (aq_Authorization r) = ad_token c"

definition statusForK8sErr :: "kerr \<Rightarrow> int" where
  "statusForK8sErr e = (case e of KNotFound \<Rightarrow> 404 | KAlreadyExists \<Rightarrow> 409 | KConflict \<Rightarrow> 409
     | KOther n \<Rightarrow> if n \<noteq> 0 then n else 500)"

definition firstNonEmpty :: "string \<Rightarrow> string \<Rightarrow> string" where
  "firstNonEmpty a b = (if a \<noteq> [] then a else b)"

definition phase_text :: "phase \<Rightarrow> string" where
  "phase_text p = (case p of PhaseUnset \<Rightarrow> [] | PhaseProvisioning \<Rightarrow> ''Provisioning'' | PhaseRunning \<Rightarrow> ''Running''
     | PhaseSuspended \<Rightarrow> ''Suspended'' | PhaseFailed \<Rightarrow> ''Failed'')"

definition instance_summary :: "admin_server \<Rightarrow> kai \<Rightarrow> json" where
  "instance_summary c k = (let sp = k_Spec k; st = k_Status k in JObj
     ([(''name'', JStr (k_Name k)), (''customerName'', JStr (sp_CustomerName sp)), (''projectName'', JStr (sp_ProjectName sp)),
       (''customerSlug'', JStr (firstNonEmpty (ks_CustomerSlug st) (sp_CustomerSlug sp)))]
      @ omit_empty ''model'' (sp_Model sp)
      @ [(''phase'', JStr (phase_text (ks_Phase st))), (''ready'', JBool (ks_Ready st)), (''suspended'', JBool (sp_Suspended sp))]
      @ omit_empty ''gatewayURL'' (ks_GatewayURL st) @ omit_empty ''externalURL'' (ks_ExternalURL st)
      @ [(''creationTimestamp'', JStr (ad_created c k))]))"

definition set_suspended :: "bool \<Rightarrow> kai \<Rightarrow> kai" where
  \<comment> \<open>the merge of \<open>spec.suspended\<close>; a change of the spec is a new generation\<close>
  "set_suspended b k = k\<lparr>k_Spec := (k_Spec k)\<lparr>sp_Suspended := b\<rparr>,
     k_Generation := (if sp_Suspended (k_Spec k) = b then k_Generation k else k_Generation k + 1)\<rparr>"

definition kc_patch_suspended :: "string \<times> string \<Rightarrow> bool \<Rightarrow> kube \<Rightarrow> kerr option \<times> kube" where
  "kc_patch_suspended nn b w = (case kb_next w of (Some e, w1) \<Rightarrow> (Some e, w1)
   | (None, w1) \<Rightarrow> (case map_of (kb_kais w1) nn of None \<Rightarrow> (Some KNotFound, w1)
       | Some k \<Rightarrow> (None, w1\<lparr>kb_kais := al_put nn (set_suspended b k) (kb_kais w1)\<rparr>)))"

definition guarded :: "admin_server \<Rightarrow> admin_request \<Rightarrow> (kube \<Rightarrow> resp \<times> kube) \<Rightarrow> kube \<Rightarrow> admin_resp \<times> kube" where
  \<comment> \<open>\<open>requireAuth(h)\<close>\<close>
  "guarded c r h w = (if \<not> admin_requireAuth c r then (PlainUnauthorized, w) else apfst AdminResp (h w))"

definition listInstances :: "admin_server \<Rightarrow> kube \<Rightarrow> resp \<times> kube" where
  "listInstances c w =
     (if \<not> ad_dyn c then (writeErr 503 ''kubernetes client not configured'', w)
      else (case kc_list_all (ad_namespace c) w of
          (Inl e, w1) \<Rightarrow> (writeErr 500 (ad_kerr c e), w1)
        | (Inr ks, w1) \<Rightarrow> (writeJSON 200 (JArr (map (instance_summary c) ks)), w1)))"

definition getInstance :: "admin_server \<Rightarrow> admin_request \<Rightarrow> kube \<Rightarrow> resp \<times> kube" where
  "getInstance c r w =
     (if \<not> ad_dyn c then (writeErr 503 ''kubernetes client not configured'', w)
      else (case kc_get (ad_namespace c, aq_name r) w of
          (Inl e, w1) \<Rightarrow> (writeErr (statusForK8sErr e) (ad_kerr c e), w1)
        | (Inr k, w1) \<Rightarrow> (writeJSON 200 (ad_object c k), w1)))"

definition patchSuspended :: "admin_server \<Rightarrow> admin_request \<Rightarrow> bool \<Rightarrow> kube \<Rightarrow> resp \<times> kube" where
  "patchSuspended c r suspended w =
     (if \<not> ad_dyn c then (writeErr 503 ''kubernetes client not configured'', w)
      else (case kc_patch_suspended (ad_namespace c, aq_name r) suspended w of
          (Some e, w1) \<Rightarrow> (writeErr (statusForK8sErr e) (ad_kerr c e), w1)
        | (None, w1) \<Rightarrow> (writeJSON 200 (JObj [(''name'', JStr (aq_name r)), (''suspended'', JBool suspended)]), w1)))"

datatype admin_call = CallList | CallGet | CallSuspend | CallResume

definition admin_handle :: "admin_server \<Rightarrow> admin_call \<Rightarrow> admin_request \<Rightarrow> kube \<Rightarrow> admin_resp \<times> kube" where
  \<comment> \<open>the routes of \<open>main\<close>\<close>
  "admin_handle c call r w = (case call of
     CallList \<Rightarrow> guarded c r (listInstances c) w
   | CallGet \<Rightarrow> guarded c r (getInstance c r) w
   | CallSuspend \<Rightarrow> guarded c r (patchSuspended c r True) w
   | CallResume \<Rightarrow> guarded c r (patchSuspended c r False) w)"

section \<open>What an admin can change\<close>

lemma patchSuspended_effect:
  assumes "patchSuspended c r b w = (rs, w')"
  shows "same_objects w w' \<or> rs_status rs = 200 \<and> kb_secrets w' = kb_secrets w \<and> kb_cms w' = kb_cms w
      \<and> (\<exists>k. map_of (kb_kais w) (ad_namespace c, aq_name r) = Some k
          \<and> kb_kais w' = al_put (ad_namespace c, aq_name r) (set_suspended b k) (kb_kais w))"
  using assms
  by (auto simp: patchSuspended_def kc_patch_suspended_def same_objects_def split: if_splits prod.splits option.splits dest!: kb_next_eq)

lemma admin_reads: "same_objects w (snd (listInstances c w))" "same_objects w (snd (getInstance c r w))"
  using reads_keep(3)[of w "ad_namespace c"] reads_keep(1)[of w "(ad_namespace c, aq_name r)"]
  by (auto simp: listInstances_def getInstance_def split: prod.split sum.split)

text \<open>C34: the admin console does what its token holder asks and nothing else: started by \<open>main\<close>, a call changes the cluster only with
  the configured, non-empty token in its header, only if it is suspend or resume, and then it sets exactly that flag of
  exactly the instance it names, in the server's namespace, and answers 200; without the token every call gets the same refusal.\<close>

theorem admin_changes_exactly:
  assumes "admin_main dyn ns tok txt pr cr = Some c" "admin_handle c call r w = (rs, w')"
  shows "tok \<noteq> [] \<and> (trim_prefix ''Bearer '' (aq_Authorization r) \<noteq> tok \<longrightarrow> rs = PlainUnauthorized \<and> w' = w)
    \<and> (\<not> same_objects w w' \<longrightarrow> (\<exists>b k. (call = CallSuspend \<and> b \<or> call = CallResume \<and> \<not> b)
        \<and> map_of (kb_kais w) (ad_namespace c, aq_name r) = Some k
        \<and> kb_kais w' = al_put (ad_namespace c, aq_name r) (set_suspended b k) (kb_kais w)
        \<and> kb_secrets w' = kb_secrets w \<and> kb_cms w' = kb_cms w \<and> (\<exists>ok. rs = AdminResp ok \<and> rs_status ok = 200)))"
proof -
  have c: "tok \<noteq> []" "ad_token c = tok" using assms(1) by (auto simp: admin_main_def split: if_splits)
  have g: "rs = PlainUnauthorized \<and> w' = w \<and> \<not> admin_requireAuth c r
      \<or> admin_requireAuth c r \<and> (\<exists>ok. rs = AdminResp ok \<and> h w = (ok, w'))" if "guarded c r h w = (rs, w')" for h
    using that by (auto simp: guarded_def apfst_def map_prod_def split: if_splits prod.splits)
  show ?thesis
  proof (cases "admin_requireAuth c r")
    case False
    have "\<exists>h. guarded c r h w = (rs, w')" using assms(2) by (auto simp: admin_handle_def split: admin_call.splits)
    then have "rs = PlainUnauthorized \<and> w' = w" using g False by blast
    then show ?thesis using c by simp
  next
    case True
    have e: "\<exists>ok. rs = AdminResp ok \<and> (case call of CallList \<Rightarrow> listInstances c w | CallGet \<Rightarrow> getInstance c r w
        | CallSuspend \<Rightarrow> patchSuspended c r True w | CallResume \<Rightarrow> patchSuspended c r False w) = (ok, w')"
      using assms(2) True g by (auto simp: admin_handle_def split: admin_call.splits)
    have "listInstances c w = (x, w') \<or> getInstance c r w = (x, w') \<Longrightarrow> same_objects w w'" for x
      using admin_reads[of w c] by (metis snd_conv)
    then show ?thesis
      using e True c patchSuspended_effect[of c r _ w _ w'] by (cases call) (auto simp: admin_requireAuth_def)
  qed
qed

definition demo_admin :: admin_server where
  "demo_admin = \<lparr>ad_dyn = True, ad_namespace = ''emai-swarm'', ad_token = ''root'', ad_kerr = (\<lambda>_. ''error''), ad_object = (\<lambda>_. JNull),
     ad_created = (\<lambda>_. [])\<rparr>"

corollary admin_changes_exactly_witness:
  "let r = \<lparr>aq_name = ''kai-acme'', aq_Authorization = ''Bearer root''\<rparr>; (rs, w') = admin_handle demo_admin CallSuspend r idle_kube
   in \<exists>ok. rs = AdminResp ok \<and> rs_status ok = 200"
proof -
  let ?r = "\<lparr>aq_name = ''kai-acme'', aq_Authorization = ''Bearer root''\<rparr>"
  have m: "admin_main True [] ''root'' (\<lambda>_. ''error'') (\<lambda>_. JNull) (\<lambda>_. []) = Some demo_admin"
    by (simp add: admin_main_def demo_admin_def envDefault_def)
  obtain rs w' where h: "admin_handle demo_admin CallSuspend ?r idle_kube = (rs, w')" by fastforce
  have "trim_prefix ''Bearer '' ''Bearer root'' = ''root''" by code_simp
  then have "\<not> same_objects idle_kube w'"
    using h by (auto simp: admin_handle_def guarded_def admin_requireAuth_def patchSuspended_def kc_patch_suspended_def kb_next_def
        demo_admin_def idle_kube_def same_objects_def set_suspended_def idle_kai_def empty_spec_def)
  with admin_changes_exactly[OF m h] show ?thesis by (auto simp: h)
qed

end
