(* ===== verification/Email.thy ===== *)
theory Email
  imports Http
begin

text \<open>
  \<open>pkg/email\<close>: rendering and dispatch of a transactional mail, the \<open>DiskSender\<close> and the
  \<open>ResendSender\<close>.  The embedded template files and the execution of \<open>text/template\<close> and
  \<open>html/template\<close> are parameters; the data of a template is its list of fields.  The disk is the list of
  files written; each write may fail.  The HTTP exchange with Resend is a function of the request.
\<close>

section \<open>Messages, rendering, dispatch\<close>

record message =
  m_To :: string
  m_From :: string
  m_ReplyTo :: string
  m_Subject :: string
  m_HTML :: string
  m_Text :: string

datatype email_err = ErrUnknownTemplate | ErrInvalidMessage | ErrNoSender
| ErrRender  \<comment> \<open>a template does not parse or execute\<close>
| ErrTransport string

record send_options =
  so_Template :: string
  so_Lang :: string
  so_To :: string
  so_From :: string
  so_ReplyTo :: string

type_synonym tmpl_data = "(string \<times> string) list"

record tmpl_lib =
  tl_file :: "string \<Rightarrow> string option"
  tl_text :: "string \<Rightarrow> tmpl_data \<Rightarrow> string option"
  tl_html :: "string \<Rightarrow> tmpl_data \<Rightarrow> string option"

definition mail_LangDE :: string where "mail_LangDE = ''de''"
definition mail_LangEN :: string where "mail_LangEN = ''en''"
definition TemplateVerify :: string where "TemplateVerify = ''verify''"
definition TemplateWelcome :: string where "TemplateWelcome = ''welcome''"

definition knownLang :: "string \<Rightarrow> bool" where
  "knownLang l \<longleftrightarrow> l = mail_LangDE \<or> l = mail_LangEN"

definition Render :: "tmpl_lib \<Rightarrow> string \<Rightarrow> string \<Rightarrow> tmpl_data \<Rightarrow> email_err + (string \<times> string \<times> string)" where
  "Render te name lang data =
     (if \<not> knownLang lang then Inl ErrUnknownTemplate
      else (let prefix = ''templates/'' @ name @ ''/'' @ lang in
        case tl_file te (prefix @ ''.subject.tmpl'') of None \<Rightarrow> Inl ErrUnknownTemplate | Some subjRaw \<Rightarrow>
        (case tl_file te (prefix @ ''.html.tmpl'') of None \<Rightarrow> Inl ErrUnknownTemplate | Some htmlRaw \<Rightarrow>
        (case tl_file te (prefix @ ''.txt.tmpl'') of None \<Rightarrow> Inl ErrUnknownTemplate | Some textRaw \<Rightarrow>
        (case tl_text te subjRaw data of None \<Rightarrow> Inl ErrRender | Some subject \<Rightarrow>
        (case tl_html te htmlRaw data of None \<Rightarrow> Inl ErrRender | Some html \<Rightarrow>
        (case tl_text te textRaw data of None \<Rightarrow> Inl ErrRender | Some txt \<Rightarrow> Inr (subject, html, txt))))))))"

definition defaultFrom :: string where
  "defaultFrom = ''Kai <noreply@kai.example.org>''"

type_synonym 'w sender = "message \<Rightarrow> 'w \<Rightarrow> email_err option \<times> 'w"

definition Dispatch :: "tmpl_lib \<Rightarrow> 'w sender option \<Rightarrow> send_options \<Rightarrow> tmpl_data \<Rightarrow> 'w \<Rightarrow> email_err option \<times> 'w" where
  "Dispatch te s opts data w = (case s of None \<Rightarrow> (Some ErrNoSender, w)
   | Some send \<Rightarrow>
       if so_To opts = [] then (Some ErrInvalidMessage, w)
       else (case Render te (so_Template opts) (so_Lang opts) data of
           Inl e \<Rightarrow> (Some e, w)
         | Inr (subject, html, txt) \<Rightarrow>
             (let from_addr = (if so_From opts = [] then defaultFrom else so_From opts)
              in send \<lparr>m_To = so_To opts, m_From = from_addr, m_ReplyTo = so_ReplyTo opts,
                   m_Subject = trim_space subject, m_HTML = html, m_Text = txt\<rparr> w)))"

section \<open>DiskSender\<close>

record disk =
  dk_dir :: string
  dk_seq :: nat
  dk_files :: "(string \<times> string) list"
  dk_faults :: "bool list"  \<comment> \<open>\<open>True\<close>: the next write fails\<close>

definition NewDiskSender :: "(string \<Rightarrow> bool) \<Rightarrow> string \<Rightarrow> email_err + disk" where
  \<comment> \<open>the parameter: \<open>os.MkdirAll\<close> succeeds\<close>
  "NewDiskSender mkdir dir = (if dir = [] then Inl ErrInvalidMessage else if \<not> mkdir dir then Inl (ErrTransport dir)
     else Inr \<lparr>dk_dir = dir, dk_seq = 0, dk_files = [], dk_faults = []\<rparr>)"

fun safe_char :: "char \<Rightarrow> string" where
  "safe_char c = (if c = CHR ''@'' then ''_at_''
     else if c = CHR ''+'' \<or> c = CHR ''/'' \<or> c = CHR '' '' then ''_'' else [c])"

definition safeAddr :: "string \<Rightarrow> string" where
  "safeAddr addr = concat (map safe_char addr)"

definition pad4 :: "nat \<Rightarrow> string" where
  \<comment> \<open>\<open>%04d\<close>\<close>
  "pad4 n = replicate (4 - length (dec_nat n)) (CHR ''0'') @ dec_nat n"

fun write_files :: "(string \<times> string) list \<Rightarrow> disk \<Rightarrow> email_err option \<times> disk" where
  "write_files [] d = (None, d)"
| "write_files ((path, content) # fs) d =
     (case dk_faults d of
        True # bs \<Rightarrow> (Some (ErrTransport path), d\<lparr>dk_faults := bs\<rparr>)
      | _ \<Rightarrow> write_files fs (d\<lparr>dk_faults := tl (dk_faults d), dk_files := al_put path content (dk_files d)\<rparr>))"

definition LF :: string where "LF = [CHR 0x0A]"

definition disk_stem :: "string \<Rightarrow> nat \<Rightarrow> message \<Rightarrow> string" where
  "disk_stem stamp n m = stamp @ ''-'' @ pad4 n @ ''-'' @ safeAddr (m_To m)"

definition disk_parts :: "string \<Rightarrow> string \<Rightarrow> message \<Rightarrow> (string \<times> string) list" where
  "disk_parts dir stem m =
     (let envelope = ''From: '' @ m_From m @ LF @ ''To: '' @ m_To m @ LF @ ''Reply-To: '' @ m_ReplyTo m @ LF
            @ ''Subject: '' @ m_Subject m @ LF @ LF @ ''--- HTML ---'' @ LF
      in [(dir @ ''/'' @ stem @ ''.eml'', envelope @ m_HTML m @ LF @ LF @ ''--- TEXT ---'' @ LF @ m_Text m @ LF),
          (dir @ ''/'' @ stem @ ''.html'', m_HTML m), (dir @ ''/'' @ stem @ ''.txt'', m_Text m)])"

definition disk_Send :: "string \<Rightarrow> message \<Rightarrow> disk \<Rightarrow> email_err option \<times> disk" where
  \<comment> \<open>the first argument is the formatted time\<close>
  "disk_Send stamp m d =
     (if m_To m = [] \<or> m_From m = [] then (Some ErrInvalidMessage, d)
      else (let n = Suc (dk_seq d); d1 = d\<lparr>dk_seq := n\<rparr>
            in write_files (disk_parts (dk_dir d) (disk_stem stamp n m) m) d1))"

section \<open>ResendSender\<close>

record resend =
  re_APIKey :: string
  re_BaseURL :: string

record http_request =
  hr_URL :: string
  hr_Authorization :: string
  hr_Body :: string

definition NewResendSender :: "string \<Rightarrow> email_err + resend" where
  "NewResendSender apiKey = (if apiKey = [] then Inl ErrInvalidMessage else Inr \<lparr>re_APIKey = apiKey, re_BaseURL = []\<rparr>)"

definition baseURL :: "resend \<Rightarrow> string" where
  "baseURL r = (if re_BaseURL r \<noteq> [] then re_BaseURL r else ''https://api.resend.com'')"

definition resend_request :: "resend \<Rightarrow> message \<Rightarrow> http_request" where
  "resend_request r m = \<lparr>hr_URL = baseURL r @ ''/emails'', hr_Authorization = ''Bearer '' @ re_APIKey r,
     hr_Body = print_json (JObj ([(''from'', JStr (m_From m)), (''to'', JArr [JStr (m_To m)]), (''subject'', JStr (m_Subject m))]
       @ omit_empty ''html'' (m_HTML m) @ omit_empty ''text'' (m_Text m) @ omit_empty ''reply_to'' (m_ReplyTo m)))\<rparr>"

definition resend_Send :: "(http_request \<Rightarrow> (int \<times> string) option) \<Rightarrow> resend \<Rightarrow> message \<Rightarrow> email_err option \<times> http_request list" where
  \<comment> \<open>the exchange: \<open>None\<close> when it fails, else status and (at most 4096 bytes of) body; with the requests made\<close>
  "resend_Send exch r m =
     (if m_To m = [] \<or> m_From m = [] \<or> m_Subject m = [] then (Some ErrInvalidMessage, [])
      else (let req = resend_request r m in
        case exch req of None \<Rightarrow> (Some (ErrTransport ''resend''), [req])
        | Some (st, body) \<Rightarrow>
            (if st div 100 \<noteq> 2 then (Some (ErrTransport (''resend '' @ dec_int st @ '': '' @ take 4096 body)), [req])
             else (None, [req]))))"

section \<open>Files stay apart and in the directory\<close>

lemma safeAddr_no_slash: "CHR ''/'' \<notin> set (safeAddr a)"
  by (auto simp: safeAddr_def split: if_splits)

lemma pad4_digits: "list_all is_digit (pad4 n)"
  using dec_nat_digits[of n] by (auto simp: pad4_def list_all_iff is_digit_def code_def)

lemma digits_val_replicate [simp]: "digits_val (replicate k (CHR ''0'') @ ds) = digits_val ds"
  by (induction k) (simp_all add: digits_val_def code_def)

lemma pad4_inject: "pad4 m = pad4 n \<longleftrightarrow> m = n"
proof
  assume "pad4 m = pad4 n"
  then have "digits_val (pad4 m) = digits_val (pad4 n)" by simp
  then show "m = n" by (simp add: pad4_def)
qed simp

lemma disk_stem_inject:
  assumes "length a = length b" "disk_stem a m x @ e = disk_stem b n y @ e'"
  shows "m = n"
proof -
  have no: "CHR ''-'' \<notin> set (pad4 k)" for k
    using pad4_digits[of k] by (auto simp: list_all_iff is_digit_def code_def)
  have "a @ CHR ''-'' # pad4 m @ CHR ''-'' # safeAddr (m_To x) @ e = b @ CHR ''-'' # pad4 n @ CHR ''-'' # safeAddr (m_To y) @ e'"
    using assms(2) by (simp add: disk_stem_def)
  with assms(1) have e: "pad4 m @ CHR ''-'' # safeAddr (m_To x) @ e = pad4 n @ CHR ''-'' # safeAddr (m_To y) @ e'" by simp
  have "pad4 m = pad4 n"
    using arg_cong[OF e, of "\<lambda>s. fst (cut_at (CHR ''-'') s)"] no[of m] no[of n] by simp
  then show ?thesis by (simp add: pad4_inject)
qed

definition disk_ok :: "disk \<Rightarrow> bool" where
  \<comment> \<open>every file was written by one of the sends so far, directly in the directory\<close>
  "disk_ok d \<longleftrightarrow> (\<forall>p \<in> fst ` set (dk_files d). \<exists>stamp n m e. length stamp = 15 \<and> CHR ''/'' \<notin> set (stamp @ e)
     \<and> n \<le> dk_seq d \<and> p = dk_dir d @ ''/'' @ disk_stem stamp n m @ e)"

lemma write_files_keep:
  "write_files fs d = (r, d') \<Longrightarrow> dk_dir d' = dk_dir d \<and> dk_seq d' = dk_seq d
    \<and> fst ` set (dk_files d') \<subseteq> fst ` set (dk_files d) \<union> fst ` set fs
    \<and> (\<forall>p. p \<notin> fst ` set fs \<longrightarrow> map_of (dk_files d') p = map_of (dk_files d) p)"
proof (induction fs arbitrary: d)
  case (Cons f fs)
  obtain path content where f: "f = (path, content)" by (cases f)
  show ?case
  proof (cases "\<exists>bs. dk_faults d = True # bs")
    case True
    then obtain bs where "dk_faults d = True # bs" by blast
    with Cons.prems have "d' = d\<lparr>dk_faults := bs\<rparr>" by (simp add: f)
    then show ?thesis by simp blast
  next
    case False
    let ?d = "d\<lparr>dk_faults := tl (dk_faults d), dk_files := al_put path content (dk_files d)\<rparr>"
    have w: "write_files fs ?d = (r, d')" using Cons.prems False by (auto simp: f split: list.splits bool.splits)
    from Cons.IH[OF w] show ?thesis by (auto simp: f)
  qed
qed auto

lemma disk_stem_no_slash: "CHR ''/'' \<notin> set stamp \<Longrightarrow> CHR ''/'' \<notin> set (disk_stem stamp n m)"
  using pad4_digits[of n] safeAddr_no_slash[of "m_To m"] by (auto simp: disk_stem_def list_all_iff is_digit_def code_def)

text \<open>Mails on disk stay in the directory and apart: whatever the recipient address holds, a send
  writes only files directly in the sender's directory, and no send ever changes or overwrites a file
  of an earlier one, failing writes included.\<close>

theorem disk_send_confined:
  assumes "disk_ok d" "length stamp = 15" "CHR ''/'' \<notin> set stamp" "disk_Send stamp m d = (r, d')"
    and "map_of (dk_files d') p \<noteq> map_of (dk_files d) p"
  shows "disk_ok d' \<and> map_of (dk_files d) p = None
    \<and> (\<exists>name. p = dk_dir d @ ''/'' @ name \<and> CHR ''/'' \<notin> set name)"
proof -
  let ?stem = "disk_stem stamp (Suc (dk_seq d)) m"
  have ok: "m_To m \<noteq> [] \<and> m_From m \<noteq> []" using assms(4,5) by (auto simp: disk_Send_def split: if_splits)
  have w: "write_files (disk_parts (dk_dir d) ?stem m) (d\<lparr>dk_seq := Suc (dk_seq d)\<rparr>) = (r, d')"
    using assms(4) ok by (simp add: disk_Send_def Let_def)
  note k = write_files_keep[OF w]
  have parts: "q \<in> fst ` set (disk_parts (dk_dir d) ?stem m) \<longleftrightarrow> (\<exists>e \<in> {''.eml'', ''.html'', ''.txt''}. q = dk_dir d @ ''/'' @ ?stem @ e)" for q
    by (auto simp: disk_parts_def Let_def)
  have "p \<in> fst ` set (disk_parts (dk_dir d) ?stem m)" using k assms(5) by auto
  then obtain e where p: "p = dk_dir d @ ''/'' @ ?stem @ e" "CHR ''/'' \<notin> set e" unfolding parts by fastforce
  have "p \<notin> fst ` set (dk_files d)"
  proof
    assume "p \<in> fst ` set (dk_files d)"
    with assms(1) obtain st n x f where "length st = 15" "n \<le> dk_seq d" "p = dk_dir d @ ''/'' @ disk_stem st n x @ f"
      unfolding disk_ok_def by blast
    with p(1) have q: "disk_stem stamp (Suc (dk_seq d)) m @ e = disk_stem st n x @ f" "length stamp = length st"
      using assms(2) by simp_all
    from disk_stem_inject[OF q(2,1)] \<open>n \<le> dk_seq d\<close> show False by simp
  qed
  then have new: "map_of (dk_files d) p = None" by (simp add: map_of_eq_None_iff)
  have "disk_ok d'"
    unfolding disk_ok_def
  proof
    fix q assume "q \<in> fst ` set (dk_files d')"
    with k consider "q \<in> fst ` set (dk_files d)" | "q \<in> fst ` set (disk_parts (dk_dir d) ?stem m)" by auto
    then show "\<exists>stamp n m e. length stamp = 15 \<and> CHR ''/'' \<notin> set (stamp @ e) \<and> n \<le> dk_seq d' \<and> q = dk_dir d' @ ''/'' @ disk_stem stamp n m @ e"
    proof cases
      case 1
      with assms(1) obtain st n x f where "length st = 15" "CHR ''/'' \<notin> set (st @ f)" "n \<le> dk_seq d"
        "q = dk_dir d @ ''/'' @ disk_stem st n x @ f" unfolding disk_ok_def by blast
      with k show ?thesis by (intro exI[of _ st] exI[of _ n] exI[of _ x] exI[of _ f]) simp
    next
      case 2
      then obtain f where "q = dk_dir d @ ''/'' @ ?stem @ f" "CHR ''/'' \<notin> set f" unfolding parts by fastforce
      with k assms(2,3) show ?thesis by (intro exI[of _ stamp] exI[of _ "Suc (dk_seq d)"] exI[of _ m] exI[of _ f]) simp
    qed
  qed
  with new p disk_stem_no_slash[OF assms(3)] show ?thesis by simp
qed

corollary disk_send_confined_witness:
  "let d = \<lparr>dk_dir = ''/tmp/mails'', dk_seq = 0, dk_files = [], dk_faults = []\<rparr>;
       m = \<lparr>m_To = ''../x@y.org'', m_From = ''k@e.org'', m_ReplyTo = [], m_Subject = ''Hi'', m_HTML = ''h'', m_Text = ''t''\<rparr>
   in disk_ok (snd (disk_Send ''20260101T000000'' m d))
      \<and> map_of (dk_files (snd (disk_Send ''20260101T000000'' m d))) ''/tmp/mails/20260101T000000-0001-.._x_at_y.org.txt'' = Some ''t''"
proof -
  define d where "d = \<lparr>dk_dir = ''/tmp/mails'', dk_seq = 0, dk_files = [], dk_faults = []\<rparr>"
  define m where "m = \<lparr>m_To = ''../x@y.org'', m_From = ''k@e.org'', m_ReplyTo = [], m_Subject = ''Hi'', m_HTML = ''h'', m_Text = ''t''\<rparr>"
  have f: "map_of (dk_files (snd (disk_Send ''20260101T000000'' m d))) ''/tmp/mails/20260101T000000-0001-.._x_at_y.org.txt'' = Some ''t''"
    unfolding d_def m_def by code_simp
  have "disk_ok d" "length ''20260101T000000'' = 15" "CHR ''/'' \<notin> set ''20260101T000000''" by (simp_all add: disk_ok_def d_def)
  from disk_send_confined[OF this surjective_pairing, of m "''/tmp/mails/20260101T000000-0001-.._x_at_y.org.txt''"] f
  show ?thesis unfolding d_def m_def by (simp add: Let_def)
qed

end
