(* ===== verification/Onboarding.thy ===== *)
theory Onboarding
  imports Complex_Main Users Email Cluster
begin

text \<open>
  The onboarding server: public signup (\<open>web/onboarding/server/signup.go\<close>) and operator-side creation
  of instances (\<open>main.go\<close>).  The user store is any \<open>users.Store\<close>, the mail sender any \<open>email.Sender\<close>.
  Parameters: HMAC, argon2id, \<open>mail.ParseAddress\<close>, whether \<open>net.ParseIP\<close> reads a loopback address, the
  error texts of libraries.  The clock, the random bytes and the faults of the API server are inputs.
  Tokens of the rate limiter are rationals where the code has \<open>float64\<close>.
\<close>

section \<open>Configuration, state, requests\<close>

record signup_config =
  su_Enabled :: bool
  su_Secret :: string
  su_VerifyBaseURL :: string
  su_VerifyTTL :: goduration
  su_From :: string
  su_IPLimitPerHr :: int
  su_Captcha :: "string \<Rightarrow> string \<Rightarrow> string option"  \<comment> \<open>an error text, given token and address\<close>

record rl_bucket =
  rb_tokens :: rat
  rb_lastSeen :: gotime

record ('s, 'w) onb =
  on_namespace :: string
  on_token :: string
  on_store :: "'s users_store"
  on_email :: "'w sender option"
  on_tmpl :: tmpl_lib
  on_signup :: signup_config
  on_dyn :: bool  \<comment> \<open>a cluster client is wired\<close>
  on_tiers :: tier_table
  on_hmac :: hmac_fun
  on_argon :: argon2_fun
  on_version :: nat
  on_parse :: "string \<Rightarrow> bool"
  on_loopback :: "string \<Rightarrow> bool"
  on_jsonerr :: "string \<Rightarrow> string"
  on_usererr :: "users_error \<Rightarrow> string"
  on_kerr :: "kerr \<Rightarrow> string"

record ('s, 'w) onb_state =
  os_users :: 's
  os_rl :: "(string \<times> rl_bucket) list"
  os_kube :: kube
  os_mail :: 'w

record request =
  rq_Remote :: string
  rq_XFF :: string
  rq_Authorization :: string
  rq_Body :: string
  rq_id :: string
  rq_token :: string

record entropy =
  en_now :: gotime
  en_salt :: "string option"
  en_id :: "string option"
  en_token :: "string option"  \<comment> \<open>the 24 bytes of \<open>generateToken\<close>\<close>

section \<open>The rate limiter\<close>

definition rl_allow :: "int \<Rightarrow> string \<Rightarrow> gotime \<Rightarrow> (string \<times> rl_bucket) list \<Rightarrow> bool \<times> (string \<times> rl_bucket) list" where
  "rl_allow capacity ip now bs =
     (if capacity \<le> 0 then (True, bs)
      else (let b = (case map_of bs ip of
                 None \<Rightarrow> \<lparr>rb_tokens = of_int capacity, rb_lastSeen = now\<rparr>
               | Some b \<Rightarrow>
                   (let t = rb_tokens b + of_int (now - rb_lastSeen b) / 1000000000 * of_int capacity / 3600;
                        t' = (if t > of_int capacity then of_int capacity else t)
                    in \<lparr>rb_tokens = t', rb_lastSeen = now\<rparr>))
            in if rb_tokens b < 1 then (False, al_put ip b bs)
               else (True, al_put ip (b\<lparr>rb_tokens := rb_tokens b - 1\<rparr>) bs)))"

definition clientIP :: "(string \<Rightarrow> bool) \<Rightarrow> request \<Rightarrow> string" where
  "clientIP is_loopback r =
     (let host = (case SplitHostPort (rq_Remote r) of None \<Rightarrow> rq_Remote r | Some h \<Rightarrow> h);
          xf = trim_space (fst (cut_at (CHR '','') (rq_XFF r)))
      in if is_loopback host \<and> xf \<noteq> [] then xf else host)"

section \<open>Email addresses\<close>

definition parseableEmail :: "(string \<Rightarrow> bool) \<Rightarrow> string \<Rightarrow> bool" where
  "parseableEmail parse s = (if s = [] \<or> 254 < length s \<or> CHR ''@'' \<notin> set s then False else parse s)"

definition disposableDomains :: "string list" where
  "disposableDomains = [''mailinator.com'', ''guerrillamail.com'', ''10minutemail.com'', ''tempmail.com'',
     ''throwawaymail.com'', ''yopmail.com'', ''fakeinbox.com'', ''trashmail.com'', ''sharklasers.com'',
     ''getairmail.com'', ''mintemail.com'', ''mohmal.com'', ''discard.email'', ''discardmail.de'',
     ''emailondeck.com'', ''maildrop.cc'', ''mailnesia.com'', ''spambog.com'']"

definition isDisposableEmail :: "string \<Rightarrow> bool" where
  "isDisposableEmail addr = (case last_cut (CHR ''@'') addr of None \<Rightarrow> False
     | Some (_, d) \<Rightarrow> to_lower d \<in> set disposableDomains)"

section \<open>Verification links\<close>

definition verify_message :: "string \<Rightarrow> int \<Rightarrow> string" where
  "verify_message userID expSec = userID @ ''|'' @ dec_int expSec"

definition verify_token :: "hmac_fun \<Rightarrow> string \<Rightarrow> string \<Rightarrow> gotime \<Rightarrow> string" where
  \<comment> \<open>the token part of \<open>buildVerifyLink\<close>\<close>
  "verify_token hmac secret userID expiry =
     (let expSec = unix_sec expiry in b64_encode True (hmac secret (verify_message userID expSec)) @ ''.'' @ dec_int expSec)"

definition buildVerifyLink :: "hmac_fun \<Rightarrow> signup_config \<Rightarrow> string \<Rightarrow> gotime \<Rightarrow> string option" where
  "buildVerifyLink hmac cfg userID expiry =
     (if su_Secret cfg = [] then None
      else Some (trim_right (CHR ''/'') (su_VerifyBaseURL cfg) @ ''/verify?id='' @ userID @ ''&token=''
             @ verify_token hmac (su_Secret cfg) userID expiry))"

datatype token_err = MalformedToken | BadTokenEncoding | BadTokenExpiry | TokenExpired | SignatureMismatch

definition token_err_text :: "token_err \<Rightarrow> string" where
  "token_err_text e = (case e of MalformedToken \<Rightarrow> ''malformed token'' | BadTokenEncoding \<Rightarrow> ''bad token encoding''
     | BadTokenExpiry \<Rightarrow> ''bad token expiry'' | TokenExpired \<Rightarrow> ''token expired'' | SignatureMismatch \<Rightarrow> ''signature mismatch'')"

definition checkVerifyToken :: "hmac_fun \<Rightarrow> string \<Rightarrow> string \<Rightarrow> string \<Rightarrow> gotime \<Rightarrow> token_err option" where
  "checkVerifyToken hmac secret userID token now =
     (case cut_at (CHR ''.'') token of (_, None) \<Rightarrow> Some MalformedToken
      | (p0, Some p1) \<Rightarrow> (case b64_decode True p0 of None \<Rightarrow> Some BadTokenEncoding
        | Some wantMac \<Rightarrow> (case scan_int p1 of None \<Rightarrow> Some BadTokenExpiry
          | Some expSec \<Rightarrow>
              if unix_sec now \<ge> expSec then Some TokenExpired
              else if hmac secret (verify_message userID expSec) \<noteq> wantMac then Some SignatureMismatch
              else None)))"

definition sendVerifyEmail :: "('s, 'w) onb \<Rightarrow> user \<Rightarrow> string \<Rightarrow> string \<Rightarrow> 'w \<Rightarrow> email_err option \<times> 'w" where
  "sendVerifyEmail c u link lang w =
     (let mailLang = (if lang = LangEN then mail_LangEN else mail_LangDE)
      in Dispatch (on_tmpl c) (on_email c)
           \<lparr>so_Template = TemplateVerify, so_Lang = mailLang, so_To = u_Email u, so_From = su_From (on_signup c), so_ReplyTo = []\<rparr>
           [(''Name'', fst (cut_at (CHR ''@'') (u_Email u))), (''VerifyURL'', link),
            (''ExpiresInHours'', dec_int (su_VerifyTTL (on_signup c) div hours 1))] w)"

section \<open>Signup\<close>

definition accepted :: resp where
  "accepted = writeJSON 202 (str_obj [(''status'', ''verification_sent'')])"

definition app_message :: string where
  "app_message = ''app must be a DNS-safe slug (lowercase, digits, hyphens; '' @ [CHR 0xE2, CHR 0x89, CHR 0xA4] @ ''63 chars)''"

definition signup_create :: "('s, 'w) onb \<Rightarrow> string \<Rightarrow> string \<Rightarrow> string \<Rightarrow> string \<Rightarrow> entropy \<Rightarrow> ('s, 'w) onb_state
   \<Rightarrow> resp \<times> ('s, 'w) onb_state" where
  \<comment> \<open>steps 6 to 9 of \<open>handleSignup\<close>\<close>
  "signup_create c email hash lang app en st =
     (case st_Create (on_store c) \<lparr>p_Email = email, p_PasswordHash = hash, p_Tier = TierFree,
          p_Language = lang, p_App = app\<rparr> (en_id en) (en_now en) (os_users st) of
        (Inl _, us) \<Rightarrow> (accepted, st\<lparr>os_users := us\<rparr>)
      | (Inr u, us) \<Rightarrow>
         (let st = st\<lparr>os_users := us\<rparr>; cfg = on_signup c in
          case buildVerifyLink (on_hmac c) cfg (u_ID u) (en_now en + su_VerifyTTL cfg) of
            None \<Rightarrow> (writeErr 500 ''verify link: signup secret not configured'', st)
          | Some link \<Rightarrow>
              (accepted, st\<lparr>os_mail := snd (sendVerifyEmail c u link lang (os_mail st))\<rparr>)))"

definition handleSignup :: "('s, 'w) onb \<Rightarrow> request \<Rightarrow> entropy \<Rightarrow> ('s, 'w) onb_state \<Rightarrow> resp \<times> ('s, 'w) onb_state" where
  "handleSignup c r en st =
     (let cfg = on_signup c in
      if \<not> su_Enabled cfg then (writeErr 404 ''signup disabled'', st)
      else
      (let ip = clientIP (on_loopback c) r; (allowed, bs) = rl_allow (su_IPLimitPerHr cfg) ip (en_now en) (os_rl st);
           st = st\<lparr>os_rl := bs\<rparr> in
       if \<not> allowed then (writeErr 429 (''rate limit exceeded for '' @ ip), st)
       else
       (case decode_fields [''email'', ''password'', ''language'', ''app'', ''captchaToken''] (rq_Body r) of
          Some [email0, password, language, app, captcha] \<Rightarrow>
           (let email = NormalizeEmail email0 in
            if \<not> parseableEmail (on_parse c) email then (writeErr 400 ''invalid email'', st)
            else if isDisposableEmail email then (writeErr 400 ''disposable email addresses are not allowed'', st)
            else if length password < 8 \<or> length password > 1024 then (writeErr 400 ''password must be 8-1024 characters'', st)
            else (case su_Captcha cfg captcha ip of Some e \<Rightarrow> (writeErr 400 (''captcha: '' @ e), st)
             | None \<Rightarrow>
               (let lang = (if language = LangEN then LangEN else LangDE) in
                if app \<noteq> [] \<and> \<not> ValidApp app then (writeErr 400 app_message, st)
                else (case HashPassword (on_argon c) (on_version c) password (en_salt en) of
                    None \<Rightarrow> (writeErr 500 ''hash: random source failed'', st)
                  | Some hash \<Rightarrow> signup_create c email hash lang app en st))))
        | _ \<Rightarrow> (writeErr 400 (''invalid JSON: '' @ on_jsonerr c (rq_Body r)), st))))"

section \<open>Start-up\<close>

definition noopCaptcha :: "string \<Rightarrow> string \<Rightarrow> string option" where
  "noopCaptcha _ _ = None"

definition newRateLimiter :: "(string \<times> rl_bucket) list" where
  "newRateLimiter = []"

definition setupSignup :: "(string \<Rightarrow> string) \<Rightarrow> (string \<Rightarrow> bool) \<Rightarrow> string option
   \<Rightarrow> string + signup_config \<times> (mem_store \<times> disk \<times> (string \<times> rl_bucket) list) option" where
  \<comment> \<open>the environment (an unset variable is empty), whether a directory can be made, 32 random bytes;
      gives the configuration and, when signup is enabled, the fresh user store, disk sender and limiter\<close>
  "setupSignup env mkdir rnd =
     (let off = \<lparr>su_Enabled = False, su_Secret = [], su_VerifyBaseURL = [], su_VerifyTTL = 0, su_From = [],
          su_IPLimitPerHr = 0, su_Captcha = noopCaptcha\<rparr>
      in if \<not> envTrue (env ''KAI_SIGNUP_ENABLED'') then Inr (off, None)
         else (case NewDiskSender mkdir (envDefault (env ''EMAIL_DISK_DIR'') ''/tmp/emai-onboarding-emails'') of
             Inl e \<Rightarrow> Inl ''disk email sender''
           | Inr d \<Rightarrow>
              (case (if env ''KAI_SIGNUP_SECRET'' \<noteq> [] then Some (env ''KAI_SIGNUP_SECRET'') else rnd) of
                 None \<Rightarrow> Inl ''signup secret''
               | Some secret \<Rightarrow>
                   Inr (\<lparr>su_Enabled = True, su_Secret = secret,
                      su_VerifyBaseURL = envDefault (env ''KAI_VERIFY_BASE_URL'') ''http://localhost:8080/api/signup'',
                      su_VerifyTTL = hours 24, su_From = env ''EMAIL_FROM'', su_IPLimitPerHr = 5, su_Captcha = noopCaptcha\<rparr>,
                    Some ([], d, newRateLimiter)))))"

text \<open>What the handlers rely on: an enabled server has a signing secret (32 random bytes when none is set)
  and a positive rate limit, so the guards of the handlers against their absence never fire.\<close>

lemma setupSignup_enabled:
  "setupSignup env mkdir rnd = Inr (cfg, parts) \<Longrightarrow> su_Enabled cfg \<Longrightarrow> (\<And>b. rnd = Some b \<Longrightarrow> b \<noteq> []) \<Longrightarrow>
   su_Secret cfg \<noteq> [] \<and> 0 < su_IPLimitPerHr cfg \<and> (\<exists>d. parts = Some ([], d, []) \<and> dk_dir d \<noteq> [])"
  by (auto simp: setupSignup_def Let_def NewDiskSender_def newRateLimiter_def split: if_splits option.splits sum.splits)

section \<open>Verification and provisioning\<close>

definition countWorkspacesForUser :: "('s, 'w) onb \<Rightarrow> string \<Rightarrow> kube \<Rightarrow> (kerr + int) \<times> kube" where
  "countWorkspacesForUser c userID w =
     (if \<not> on_dyn c then (Inr 0, w)
      else (case kc_list (on_namespace c) ''swarm.io/user-id'' userID w of
          (Inl e, w1) \<Rightarrow> (Inl e, w1) | (Inr ks, w1) \<Rightarrow> (Inr (int (length ks)), w1)))"

definition defaultSignupApp :: string where
  "defaultSignupApp = DefaultApp"

definition buildSaaSKaiInstance :: "string \<Rightarrow> string \<Rightarrow> user \<Rightarrow> string \<Rightarrow> kai" where
  \<comment> \<open>with what the API server adds on creation: generation 1, no finalizers, no status\<close>
  "buildSaaSKaiInstance ns slug u gatewayToken =
     (let tier = (if u_Tier u = [] then TierFree else u_Tier u);
          app = (if u_App u = [] then defaultSignupApp else u_App u)
      in \<lparr>k_Name = ''kai-'' @ slug, k_Namespace = ns, k_Generation = 1, k_Deleting = False, k_Finalizers = [],
          k_Labels = [(''swarm.io/tenant'', slug), (''swarm.io/user-id'', u_ID u), (''swarm.io/tier'', tier),
            (''swarm.io/managed'', ''saas''), (''swarm.io/app'', app)],
          k_Annotations = [(''swarm.io/created-by'', ''onboarding-signup'')],
          k_Spec = empty_spec\<lparr>sp_CustomerName := u_Email u, sp_CustomerSlug := slug, sp_ProjectName := ''Workspace'',
            sp_Tier := tier, sp_UserRef := u_ID u, sp_Managed := ''saas'', sp_AppRef := app,
            sp_GatewayAuth := Some (''token'', gatewayToken)\<rparr>,
          k_Status = empty_status\<rparr>)"

definition generateToken :: "string option \<Rightarrow> string option" where
  "generateToken b = map_option hex_encode b"

definition verified :: "string option \<Rightarrow> resp" where
  "verified ws = writeJSON 200 (str_obj ([(''status'', ''verified'')] @ (case ws of None \<Rightarrow> [] | Some s \<Rightarrow> [(''workspace'', s)])))"

definition provision_workspace :: "('s, 'w) onb \<Rightarrow> user \<Rightarrow> entropy \<Rightarrow> kube \<Rightarrow> resp \<times> kube" where
  \<comment> \<open>the part of \<open>handleVerify\<close> behind \<open>if s.dyn != nil\<close>\<close>
  "provision_workspace c u en w =
     (let slug = slugFromUserID (u_ID u) in
      case kc_get (on_namespace c, ''kai-'' @ slug) w of
        (Inr _, w1) \<Rightarrow> (verified (Some slug), w1)
      | (Inl e, w1) \<Rightarrow>
          if e \<noteq> KNotFound then (writeErr 502 (''verified but workspace lookup failed: '' @ on_kerr c e), w1)
          else
          (case countWorkspacesForUser c (u_ID u) w1 of
             (Inl e, w2) \<Rightarrow> (writeErr 502 (''verified but workspace count failed: '' @ on_kerr c e), w2)
           | (Inr count, w2) \<Rightarrow>
               if MaxInstancesReached (on_tiers c) (u_Tier u) count
               then (writeJSON 402 (str_obj [(''error'', ''tier_limit_reached''),
                       (''message'', ''you have '' @ dec_int count @ '' workspaces on the '' @ u_Tier u
                          @ '' tier; upgrade at /pricing to add more''), (''tier'', u_Tier u)]), w2)
               else (case generateToken (en_token en) of
                   None \<Rightarrow> (writeErr 500 ''token gen: random source failed'', w2)
                 | Some tok \<Rightarrow>
                     (case kc_create (buildSaaSKaiInstance (on_namespace c) slug u tok) w2 of
                        (None, w3) \<Rightarrow> (verified (Some slug), w3)
                      | (Some e, w3) \<Rightarrow>
                          if e = KAlreadyExists then (verified (Some slug), w3)
                          else (writeErr 502 (''verified but workspace provisioning failed: '' @ on_kerr c e), w3)))))"

definition handleVerify :: "('s, 'w) onb \<Rightarrow> request \<Rightarrow> entropy \<Rightarrow> ('s, 'w) onb_state \<Rightarrow> resp \<times> ('s, 'w) onb_state" where
  "handleVerify c r en st =
     (let cfg = on_signup c in
      if \<not> su_Enabled cfg then (writeErr 404 ''signup disabled'', st)
      else if rq_id r = [] \<or> rq_token r = [] then (writeErr 400 ''missing id or token'', st)
      else (case checkVerifyToken (on_hmac c) (su_Secret cfg) (rq_id r) (rq_token r) (en_now en) of
         Some e \<Rightarrow> (writeErr 400 (''invalid token: '' @ token_err_text e), st)
       | None \<Rightarrow>
         (case st_GetByID (on_store c) (rq_id r) (os_users st) of
            Inl e \<Rightarrow> (if e = ErrNotFound then writeErr 404 (on_usererr c e) else writeErr 500 (on_usererr c e), st)
          | Inr u \<Rightarrow>
            (case st_MarkEmailVerified (on_store c) (rq_id r) (en_now en) (os_users st) of
               (Some e, us) \<Rightarrow> (writeErr 500 (on_usererr c e), st\<lparr>os_users := us\<rparr>)
             | (None, us) \<Rightarrow>
               (let st = st\<lparr>os_users := us\<rparr> in
                if on_dyn c
                then (let (rs, w) = provision_workspace c u en (os_kube st) in (rs, st\<lparr>os_kube := w\<rparr>))
                else (verified None, st))))))"

section \<open>Operator-side creation\<close>

definition requireAuth :: "('s, 'w) onb \<Rightarrow> request \<Rightarrow> bool" where
  "requireAuth c r \<longleftrightarrow> trim_prefix ''Bearer '' (rq_Authorization r) = on_token c"

record provision_request =
  pq_CustomerName :: string
  pq_ProjectName :: string
  pq_CustomerSlug :: string
  pq_Model :: string
  pq_TelegramSecretRef :: string
  pq_ExternalAccess :: "bool option"

fun set_bool_ptr :: "json list \<Rightarrow> bool option \<Rightarrow> bool option option" where
  \<comment> \<open>a \<open>*bool\<close> field: \<open>null\<close> makes it nil\<close>
  "set_bool_ptr [] cur = Some cur"
| "set_bool_ptr (JNull # js) cur = set_bool_ptr js None"
| "set_bool_ptr (JBool b # js) cur = set_bool_ptr js (Some b)"
| "set_bool_ptr (_ # js) cur = None"

definition decode_provision :: "string \<Rightarrow> provision_request option" where
  "decode_provision body = (case json_decode body of None \<Rightarrow> None
     | Some j \<Rightarrow> (case fields_of [''customerName'', ''projectName'', ''customerSlug'', ''model'', ''telegramSecretRef''] j of
         Some [cn, pn, cs, md, tg] \<Rightarrow>
           (case set_bool_ptr (case j of JObj ms \<Rightarrow> members_for ''externalAccess'' ms | _ \<Rightarrow> []) None of None \<Rightarrow> None
            | Some ea \<Rightarrow> Some \<lparr>pq_CustomerName = cn, pq_ProjectName = pn, pq_CustomerSlug = cs, pq_Model = md,
                 pq_TelegramSecretRef = tg, pq_ExternalAccess = ea\<rparr>)
       | _ \<Rightarrow> None))"

definition trimmed :: "provision_request \<Rightarrow> provision_request" where
  "trimmed q = q\<lparr>pq_CustomerName := trim_space (pq_CustomerName q), pq_ProjectName := trim_space (pq_ProjectName q),
     pq_CustomerSlug := trim_space (pq_CustomerSlug q), pq_Model := trim_space (pq_Model q),
     pq_TelegramSecretRef := trim_space (pq_TelegramSecretRef q)\<rparr>"

definition validateProvision :: "provision_request \<Rightarrow> string option" where
  "validateProvision r =
     (if pq_CustomerName r = [] then Some ''customerName is required''
      else if length (pq_CustomerName r) > 100 then Some ''customerName must be 100 characters or fewer''
      else if pq_ProjectName r = [] then Some ''projectName is required''
      else if length (pq_ProjectName r) > 200 then Some ''projectName must be 200 characters or fewer''
      else if pq_CustomerSlug r = [] then Some ''customerSlug is required''
      else if length (pq_CustomerSlug r) > 63 then Some ''customerSlug must be 63 characters or fewer''
      else if \<not> match_string slugRegex (pq_CustomerSlug r)
        then Some ''customerSlug must be DNS-safe (lowercase letters, digits, and hyphens; must start and end with letter or digit)''
      else None)"

definition provision_object :: "string \<Rightarrow> provision_request \<Rightarrow> string \<Rightarrow> kai" where
  "provision_object ns q tok = \<lparr>k_Name = ''kai-'' @ pq_CustomerSlug q, k_Namespace = ns, k_Generation = 1, k_Deleting = False,
     k_Finalizers = [], k_Labels = [], k_Annotations = [],
     k_Spec = empty_spec\<lparr>sp_CustomerName := pq_CustomerName q, sp_ProjectName := pq_ProjectName q,
       sp_CustomerSlug := pq_CustomerSlug q, sp_GatewayAuth := Some (''token'', tok), sp_Model := pq_Model q,
       sp_Telegram := (if pq_TelegramSecretRef q \<noteq> [] then Some (pq_TelegramSecretRef q) else None),
       sp_ExternalAccess := pq_ExternalAccess q\<rparr>,
     k_Status = empty_status\<rparr>"

definition statusForK8sErr :: "kerr \<Rightarrow> int" where
  \<comment> \<open>the status code the API error carries; 500 for an error without one\<close>
  "statusForK8sErr e = (case e of KNotFound \<Rightarrow> 404 | KAlreadyExists \<Rightarrow> 409 | KConflict \<Rightarrow> 409
     | KOther n \<Rightarrow> if n \<noteq> 0 then n else 500)"

definition createInstance :: "('s, 'w) onb \<Rightarrow> request \<Rightarrow> entropy \<Rightarrow> kube \<Rightarrow> resp \<times> kube" where
  \<comment> \<open>behind \<open>requireAuth\<close>\<close>
  "createInstance c r en w =
     (if \<not> requireAuth c r then (writeStatus 401, w)
      else (case decode_provision (rq_Body r) of
          None \<Rightarrow> (writeErr 400 (''invalid JSON: '' @ on_jsonerr c (rq_Body r)), w)
        | Some q0 \<Rightarrow>
          (let q = trimmed q0 in
           case validateProvision q of Some e \<Rightarrow> (writeErr 400 e, w)
           | None \<Rightarrow>
             if \<not> on_dyn c then (writeErr 503 ''kubernetes client not configured'', w)
             else (case generateToken (en_token en) of
                 None \<Rightarrow> (writeErr 500 ''token gen: random source failed'', w)
               | Some tok \<Rightarrow>
                  (case kc_create (provision_object (on_namespace c) q tok) w of
                     (None, w1) \<Rightarrow> (writeJSON 201 (str_obj [(''name'', ''kai-'' @ pq_CustomerSlug q), (''namespace'', on_namespace c),
                        (''customerSlug'', pq_CustomerSlug q), (''gatewayToken'', tok)]), w1)
                   | (Some e, w1) \<Rightarrow>
                       if e = KAlreadyExists
                       then (writeErr 409 (''instance '' @ [CHR 0x22] @ ''kai-'' @ pq_CustomerSlug q @ [CHR 0x22] @ '' already exists''), w1)
                       else (writeErr (statusForK8sErr e) (on_kerr c e), w1))))))"

section \<open>Verification links are bound to their user\<close>

lemma verify_message_inject [simp]: "verify_message i e = verify_message j f \<longleftrightarrow> i = j \<and> e = f"
proof
  assume a: "verify_message i e = verify_message j f"
  have no: "CHR ''|'' \<notin> set (dec_int k)" for k
    using dec_nat_digits[of "nat \<bar>k\<bar>"] dec_nat_digits[of "nat (- k)"] dec_nat_digits[of "nat k"]
    by (auto simp: dec_int_def list_all_iff is_digit_def code_def)
  have l: "last_cut (CHR ''|'') (verify_message k n) = Some (k, dec_int n)" for k n
    using last_cut_append[OF no] by (simp add: verify_message_def)
  have "Some (i, dec_int e) = Some (j, dec_int f)" using l[of i e] l[of j f] a by metis
  then show "i = j \<and> e = f" by simp
qed simp

text \<open>C31: a verification link works exactly until it expires: the token that \<open>buildVerifyLink\<close> mints for a
  user is accepted for that user at every moment before the expiry second and at none from it on, for
  every secret and MAC function.\<close>

theorem verify_link_exact:
  assumes "0 \<le> unix_sec expiry" "unix_sec expiry \<le> int64_max"
  shows "checkVerifyToken hmac secret userID (verify_token hmac secret userID expiry) now = None
    \<longleftrightarrow> unix_sec now < unix_sec expiry"
proof -
  have "cut_at (CHR ''.'') (verify_token hmac secret userID expiry)
      = (b64_encode True (hmac secret (verify_message userID (unix_sec expiry))), Some (dec_int (unix_sec expiry)))"
    using cut_at_append[OF b64_encode_no_dot] by (simp add: verify_token_def Let_def)
  then show ?thesis by (simp add: checkVerifyToken_def scan_int_dec_int[OF assms])
qed

corollary verify_link_exact_witness:
  "checkVerifyToken (\<lambda>k m. k @ m) ''s3cret'' ''u_1'' (verify_token (\<lambda>k m. k @ m) ''s3cret'' ''u_1'' (seconds 100)) (seconds 99) = None
   \<and> checkVerifyToken (\<lambda>k m. k @ m) ''s3cret'' ''u_1'' (verify_token (\<lambda>k m. k @ m) ''s3cret'' ''u_1'' (seconds 100)) (seconds 100) \<noteq> None"
proof -
  have u: "unix_sec (seconds 100) = 100" "unix_sec (seconds 99) = 99" by (simp_all add: unix_sec_def seconds_def)
  have "0 \<le> unix_sec (seconds 100)" "unix_sec (seconds 100) \<le> int64_max" by (simp_all add: u int64_max_def)
  note v = verify_link_exact[OF this, of "\<lambda>k m. k @ m" "''s3cret''" "''u_1''"]
  have "\<not> unix_sec (seconds 100) < unix_sec (seconds 100)" "unix_sec (seconds 99) < unix_sec (seconds 100)"
    by (simp_all add: u)
  then show ?thesis using v by blast
qed

text \<open>A link cannot be turned into another: a token that carries the MAC minted for one user and
  expiry is, however the rest of it is altered, accepted for that user only and before that expiry
  only, when no other message has the same MAC.\<close>

theorem verify_token_bound:
  assumes "checkVerifyToken hmac secret userID token now = None"
    and "b64_decode True (fst (cut_at (CHR ''.'') token)) = Some (hmac secret (verify_message user0 exp0))"
    and "\<And>m. hmac secret m = hmac secret (verify_message user0 exp0) \<Longrightarrow> m = verify_message user0 exp0"
  shows "userID = user0 \<and> unix_sec now < exp0"
proof -
  obtain p0 p1 e where t: "cut_at (CHR ''.'') token = (p0, Some p1)" "scan_int p1 = Some e" "unix_sec now < e"
    "hmac secret (verify_message userID e) = hmac secret (verify_message user0 exp0)"
    using assms(1,2) by (auto simp: checkVerifyToken_def split: prod.splits option.splits if_splits)
  from assms(3)[OF t(4)] t(3) show ?thesis by simp
qed

corollary verify_token_bound_witness:
  "\<forall>now. checkVerifyToken (\<lambda>k m. k @ m) ''k'' ''u_2'' (b64_encode True (''k'' @ verify_message ''u_1'' 100) @ ''.100'') now \<noteq> None"
proof
  fix now
  let ?t = "b64_encode True (''k'' @ verify_message ''u_1'' 100) @ CHR ''.'' # ''100''"
  have d: "b64_decode True (fst (cut_at (CHR ''.'') ?t)) = Some ((\<lambda>k m. k @ m) ''k'' (verify_message ''u_1'' 100))"
    using cut_at_append[OF b64_encode_no_dot] by simp
  have "checkVerifyToken (\<lambda>k m. k @ m) ''k'' ''u_2'' ?t now \<noteq> None"
  proof
    assume "checkVerifyToken (\<lambda>k m. k @ m) ''k'' ''u_2'' ?t now = None"
    from verify_token_bound[OF this d] show False by simp
  qed
  then show "checkVerifyToken (\<lambda>k m. k @ m) ''k'' ''u_2'' (b64_encode True (''k'' @ verify_message ''u_1'' 100) @ ''.100'') now \<noteq> None" by simp
qed

end
