(* ===== verification/SignupSafety.thy ===== *)
theory SignupSafety
  imports Onboarding
begin

text \<open>
  What the public endpoints of the onboarding server guarantee: the rate limit holds over every
  interleaving of clients, signup answers the same whatever accounts exist, verification creates at
  most one workspace within the tier limit, and operator-side creation writes only valid new instances.
\<close>

section \<open>The rate limit\<close>

fun rl_run :: "int \<Rightarrow> (string \<times> gotime) list \<Rightarrow> (string \<times> rl_bucket) list \<Rightarrow> (string \<times> bool) list" where
  \<comment> \<open>the verdicts of a sequence of requests\<close>
  "rl_run cap [] bs = []"
| "rl_run cap ((ip, t) # evs) bs = (case rl_allow cap ip t bs of (ok, bs') \<Rightarrow> (ip, ok) # rl_run cap evs bs')"

definition grants :: "string \<Rightarrow> (string \<times> bool) list \<Rightarrow> nat" where
  "grants ip vs = length (filter (\<lambda>v. v = (ip, True)) vs)"

definition times_of :: "string \<Rightarrow> (string \<times> gotime) list \<Rightarrow> gotime list" where
  "times_of ip evs = map snd (filter (\<lambda>e. fst e = ip) evs)"

definition refill :: "int \<Rightarrow> gotime \<Rightarrow> rat" where
  "refill cap d = of_int d / 1000000000 * of_int cap / 3600"

lemma refill_add: "refill cap (a - b) + refill cap (b - c) = refill cap (a - c)"
  by (simp add: refill_def field_simps)

lemma refill_nonneg: "0 < cap \<Longrightarrow> 0 \<le> d \<Longrightarrow> 0 \<le> refill cap d"
  by (simp add: refill_def)

lemma rl_allow_other: "ip \<noteq> j \<Longrightarrow> map_of (snd (rl_allow cap j t bs)) ip = map_of bs ip"
  by (simp add: rl_allow_def Let_def)

lemma rl_allow_bucket:
  assumes "0 < cap" "map_of bs ip = Some b" "0 \<le> rb_tokens b" "rb_lastSeen b \<le> t" "rl_allow cap ip t bs = (ok, bs')"
  obtains b' where "map_of bs' ip = Some b'" "0 \<le> rb_tokens b'" "rb_lastSeen b' = t"
    "rb_tokens b' + (if ok then 1 else 0) \<le> rb_tokens b + refill cap (t - rb_lastSeen b)"
proof -
  define u where "u = (if rb_tokens b + refill cap (t - rb_lastSeen b) > of_int cap then of_int cap
      else rb_tokens b + refill cap (t - rb_lastSeen b))"
  have u: "0 \<le> u" "u \<le> rb_tokens b + refill cap (t - rb_lastSeen b)"
    using refill_nonneg[OF assms(1), of "t - rb_lastSeen b"] assms(1,3,4) by (auto simp: u_def)
  have "rl_allow cap ip t bs = (if u < 1 then (False, al_put ip \<lparr>rb_tokens = u, rb_lastSeen = t\<rparr> bs)
      else (True, al_put ip \<lparr>rb_tokens = u - 1, rb_lastSeen = t\<rparr> bs))"
    using assms(1,2) by (simp add: rl_allow_def Let_def u_def refill_def)
  with assms(5) u that show ?thesis by (auto split: if_splits)
qed

lemma grants_bound:
  assumes "0 < cap" "map_of bs ip = Some b" "0 \<le> rb_tokens b" "sorted (rb_lastSeen b # times_of ip evs)"
  shows "of_nat (grants ip (rl_run cap evs bs)) \<le> rb_tokens b + refill cap (last (rb_lastSeen b # times_of ip evs) - rb_lastSeen b)"
  using assms(2-4)
proof (induction evs arbitrary: bs b)
  case Nil
  then show ?case by (simp add: grants_def times_of_def refill_def)
next
  case (Cons e evs)
  obtain j t where e: "e = (j, t)" by (cases e)
  obtain ok bs' where a: "rl_allow cap j t bs = (ok, bs')" by fastforce
  show ?case
  proof (cases "j = ip")
    case True
    have le: "rb_lastSeen b \<le> t" and so: "sorted (t # times_of ip evs)" using Cons.prems(3) by (auto simp: times_of_def e True)
    obtain b' where b': "map_of bs' ip = Some b'" "0 \<le> rb_tokens b'" "rb_lastSeen b' = t"
      "rb_tokens b' + (if ok then 1 else 0) \<le> rb_tokens b + refill cap (t - rb_lastSeen b)"
      using rl_allow_bucket[OF assms(1) Cons.prems(1,2) le] a True by blast
    have IH: "of_nat (grants ip (rl_run cap evs bs')) \<le> rb_tokens b' + refill cap (last (t # times_of ip evs) - t)"
      using Cons.IH[OF b'(1,2)] so b'(3) by simp
    have g: "grants ip (rl_run cap (e # evs) bs) = (if ok then 1 else 0) + grants ip (rl_run cap evs bs')"
      using a by (simp add: e True grants_def)
    have l: "last (rb_lastSeen b # times_of ip (e # evs)) = last (t # times_of ip evs)" by (simp add: times_of_def e True)
    show ?thesis unfolding l g using IH b'(4) refill_add[of cap "last (t # times_of ip evs)" t "rb_lastSeen b"]
      by (cases ok) auto
  next
    case False
    then have "map_of bs' ip = Some b" using rl_allow_other[of ip j cap t bs] Cons.prems(1) a by simp
    moreover have "times_of ip (e # evs) = times_of ip evs" using False by (simp add: times_of_def e)
    moreover have "grants ip (rl_run cap (e # evs) bs) = grants ip (rl_run cap evs bs')" using False by (simp add: e a grants_def)
    ultimately show ?thesis using Cons.IH[of bs' b] Cons.prems(2,3) by simp
  qed
qed

text \<open>C32: the signup rate limit holds: starting from a fresh limiter, whatever other clients do in
  between, the requests let through for one address never exceed the hourly capacity plus the share of
  it that the time between its first and last request refills.\<close>

theorem rate_limit_holds:
  assumes "0 < cap" "times_of ip evs = t0 # ts" "sorted (t0 # ts)"
  shows "of_nat (grants ip (rl_run cap evs [])) \<le> (of_int cap :: rat) + refill cap (last (t0 # ts) - t0)"
proof -
  have "map_of bs ip = None \<Longrightarrow> of_nat (grants ip (rl_run cap evs bs)) \<le> (of_int cap :: rat) + refill cap (last (t0 # ts) - t0)" for bs
    using assms(2,3)
  proof (induction evs arbitrary: bs)
    case (Cons e evs)
    obtain j t where e: "e = (j, t)" by (cases e)
    obtain ok bs' where a: "rl_allow cap j t bs = (ok, bs')" by fastforce
    show ?case
    proof (cases "j = ip")
      case True
      have t: "t = t0" "times_of ip evs = ts" using Cons.prems(2) by (simp_all add: times_of_def e True)
      have b: "rl_allow cap ip t0 bs = (True, al_put ip \<lparr>rb_tokens = of_int cap - 1, rb_lastSeen = t0\<rparr> bs)"
        using Cons.prems(1) assms(1) by (simp add: rl_allow_def)
      have g: "grants ip (rl_run cap (e # evs) bs) = Suc (grants ip (rl_run cap evs bs'))" "map_of bs' ip = Some \<lparr>rb_tokens = of_int cap - 1, rb_lastSeen = t0\<rparr>"
        using a b by (auto simp: e True t(1) grants_def)
      have "of_nat (grants ip (rl_run cap evs bs')) \<le> of_int cap - 1 + refill cap (last (t0 # ts) - t0)"
        using grants_bound[OF assms(1) g(2), of evs] assms(1) Cons.prems(3) t(2) by simp
      then show ?thesis by (simp add: g(1))
    next
      case False
      then have "map_of bs' ip = None" using rl_allow_other[of ip j cap t bs] Cons.prems(1) a by simp
      moreover have "times_of ip evs = t0 # ts" using Cons.prems(2) False by (simp add: times_of_def e)
      ultimately have "of_nat (grants ip (rl_run cap evs bs')) \<le> (of_int cap :: rat) + refill cap (last (t0 # ts) - t0)"
        using Cons.IH Cons.prems(3) by blast
      moreover have "grants ip (rl_run cap (e # evs) bs) = grants ip (rl_run cap evs bs')" using False by (simp add: e a grants_def)
      ultimately show ?thesis by simp
    qed
  qed (simp add: times_of_def)
  from this[of "[]"] show ?thesis by simp
qed

corollary rate_limit_holds_witness:
  "grants ''1.2.3.4'' (rl_run 2 [(''1.2.3.4'', 0), (''5.6.7.8'', 1), (''1.2.3.4'', 2), (''1.2.3.4'', hours 1)] []) \<le> 4"
proof -
  let ?evs = "[(''1.2.3.4'', 0), (''5.6.7.8'', 1), (''1.2.3.4'', 2), (''1.2.3.4'', hours 1)]"
  have "times_of ''1.2.3.4'' ?evs = 0 # [2, hours 1]" "sorted (0 # [2, hours 1])"
    by (simp_all add: times_of_def hours_def seconds_def)
  from rate_limit_holds[OF _ this, of 2]
  have "(of_nat (grants ''1.2.3.4'' (rl_run 2 ?evs [])) :: rat) \<le> of_nat 4"
    by (simp add: refill_def hours_def seconds_def)
  then show ?thesis using of_nat_le_iff by blast
qed

section \<open>Signup\<close>

text \<open>C33: signup does not reveal accounts: with a signup secret configured, the response to a request
  is the same whatever the user store holds and whatever it answers (a taken address, a database
  error), and whether or not the mail goes out.\<close>

theorem signup_no_enumeration:
  assumes "su_Secret (on_signup c) \<noteq> []" "os_rl st1 = os_rl st2"
  shows "fst (handleSignup c r en st1) = fst (handleSignup (c\<lparr>on_store := other, on_email := sender\<rparr>) r en st2)"
proof -
  have tail: "fst (signup_create c' em h l a en st) = accepted" if "on_signup c' = on_signup c" for c' em h l a st
    using assms(1) that by (simp add: signup_create_def buildVerifyLink_def Let_def split: sum.split prod.split)
  show ?thesis
    by (simp add: handleSignup_def Let_def split_beta assms(2) tail if_distrib[of fst] option.case_distrib[of fst]
        list.case_distrib[of fst] cong: if_cong option.case_cong list.case_cong)
qed

definition demo_tmpl :: tmpl_lib where
  "demo_tmpl = \<lparr>tl_file = (\<lambda>p. Some p), tl_text = (\<lambda>b d. Some (b @ concat (map snd d))), tl_html = (\<lambda>b d. Some (b @ concat (map snd d)))\<rparr>"

definition outbox :: "message list sender" where
  "outbox m w = (None, w @ [m])"

definition demo_onb :: "(mem_store, message list) onb" where
  "demo_onb = \<lparr>on_namespace = ''emai-swarm'', on_token = ''admin'', on_store = MemoryStore (\<lambda>s. CHR ''@'' \<in> set s),
     on_email = Some outbox, on_tmpl = demo_tmpl,
     on_signup = \<lparr>su_Enabled = True, su_Secret = ''k'', su_VerifyBaseURL = ''https://kai.example.org/'', su_VerifyTTL = hours 24,
       su_From = [], su_IPLimitPerHr = 5, su_Captcha = (\<lambda>_ _. None)\<rparr>,
     on_dyn = True, on_tiers = defaults, on_hmac = (\<lambda>k m. k @ m), on_argon = (\<lambda>p s _ _ _ _. p @ s), on_version = 19,
     on_parse = (\<lambda>s. CHR ''@'' \<in> set s), on_loopback = (\<lambda>h. h = ''127.0.0.1''), on_jsonerr = (\<lambda>_. ''bad JSON''),
     on_usererr = (\<lambda>_. ''user store''), on_kerr = (\<lambda>_. ''cluster'')\<rparr>"

definition no_kube :: kube where
  "no_kube = \<lparr>kb_kais = [], kb_secrets = [], kb_cms = [], kb_faults = []\<rparr>"

definition eve :: user where
  "eve = \<lparr>u_ID = ''u_01HZZZZZZZAB'', u_Email = ''eve@e.org'', u_PasswordHash = ''h'', u_Tier = ''free'', u_StripeCustomerID = [],
     u_Language = ''de'', u_App = ''personal-assistant'', u_CreatedAt = 0, u_EmailVerifiedAt = None, u_DeletedAt = None, u_LastLoginAt = None\<rparr>"

definition onb_start :: "mem_store \<Rightarrow> (mem_store, message list) onb_state" where
  "onb_start s = \<lparr>os_users = s, os_rl = [], os_kube = no_kube, os_mail = []\<rparr>"

definition eve_signup :: request where
  "eve_signup = \<lparr>rq_Remote = ''1.2.3.4:555'', rq_XFF = [], rq_Authorization = [],
     rq_Body = print_json (str_obj [(''email'', ''Eve@e.org''), (''password'', ''correct horse'')]), rq_id = [], rq_token = []\<rparr>"

definition demo_entropy :: entropy where
  "demo_entropy = \<lparr>en_now = hours 1, en_salt = Some ''0123456789abcdef'', en_id = Some ''u_01HZZZZZZZCD'', en_token = Some ''tok''\<rparr>"

corollary signup_no_enumeration_witness:
  "fst (handleSignup demo_onb eve_signup demo_entropy (onb_start []))
    = fst (handleSignup demo_onb eve_signup demo_entropy (onb_start [(u_ID eve, eve)]))
   \<and> mem_GetByEmail ''eve@e.org'' [] = Inl ErrNotFound \<and> mem_GetByEmail ''eve@e.org'' [(u_ID eve, eve)] = Inr eve"
proof -
  have s: "su_Secret (on_signup demo_onb) \<noteq> []" by (simp add: demo_onb_def)
  have r: "os_rl (onb_start []) = os_rl (onb_start [(u_ID eve, eve)])" by (simp add: onb_start_def)
  have "demo_onb\<lparr>on_store := on_store demo_onb, on_email := on_email demo_onb\<rparr> = demo_onb" by simp
  with signup_no_enumeration[OF s r, where r = eve_signup and en = demo_entropy and other = "on_store demo_onb" and sender = "on_email demo_onb"]
  have e: "fst (handleSignup demo_onb eve_signup demo_entropy (onb_start []))
    = fst (handleSignup demo_onb eve_signup demo_entropy (onb_start [(u_ID eve, eve)]))" by simp
  have "mem_GetByEmail ''eve@e.org'' [] = Inl ErrNotFound" "mem_GetByEmail ''eve@e.org'' [(u_ID eve, eve)] = Inr eve"
    by code_simp+
  with e show ?thesis by simp
qed

section \<open>Disposable addresses\<close>

text \<open>C27: the blocklist of disposable domains is escaped by angle brackets: an address of a listed domain
  is refused when written plainly, and not recognised when written in brackets, a form that the RFC 5322
  parser behind \<open>parseableEmail\<close> accepts.\<close>

theorem disposable_bypass:
  assumes "dmn \<in> set disposableDomains"
  shows "isDisposableEmail (local @ ''@'' @ dmn) \<and> \<not> isDisposableEmail (''<'' @ local @ ''@'' @ dmn @ ''>'')"
proof -
  have d: "CHR ''@'' \<notin> set dmn" "to_lower dmn = dmn" "dmn @ ''>'' \<notin> set disposableDomains"
    using assms unfolding disposableDomains_def by (auto simp: to_lower_def lower_char_def is_upper_def code_def)
  have e: "to_lower (dmn @ ''>'') = dmn @ ''>''" using d(2) by (simp add: to_lower_def lower_char_def is_upper_def code_def)
  have "last_cut (CHR ''@'') (local @ ''@'' @ dmn) = Some (local, dmn)" using last_cut_append[OF d(1)] by simp
  moreover have "CHR ''@'' \<notin> set (dmn @ ''>'')" using d(1) by simp
  then have "last_cut (CHR ''@'') ((''<'' @ local) @ CHR ''@'' # (dmn @ ''>'')) = Some (''<'' @ local, dmn @ ''>'')"
    by (rule last_cut_append)
  ultimately show ?thesis using assms d e by (simp add: isDisposableEmail_def)
qed

corollary disposable_bypass_witness:
  "isDisposableEmail ''x@mailinator.com'' \<and> \<not> isDisposableEmail ''<x@mailinator.com>''"
  using disposable_bypass[of "''mailinator.com''" "''x''"] by (simp add: disposableDomains_def)

section \<open>Verification provisions within the tier\<close>

lemma verified_inject [simp]: "verified (Some s) = verified (Some s') \<longleftrightarrow> s = s'"
  by (simp add: verified_def writeJSON_def str_obj_def)

lemma count_exact:
  "countWorkspacesForUser c i w = (Inr n, w') \<Longrightarrow> on_dyn c \<Longrightarrow>
   n = int (length (filter (labelled (on_namespace c) ''swarm.io/user-id'' i) (kb_kais w))) \<and> same_objects w w'"
  by (auto simp: countWorkspacesForUser_def kc_list_def same_objects_def split: prod.splits sum.splits option.splits dest!: kb_next_eq)

lemma handleSignup_kube: "os_kube (snd (handleSignup c r en st)) = os_kube st"
proof -
  have "os_kube (snd (signup_create c e h l a en s)) = os_kube s" for e h l a s
    by (simp add: signup_create_def Let_def split: prod.split sum.split option.split)
  then show ?thesis by (simp add: handleSignup_def Let_def split_beta split: option.split list.split)
qed

lemma provision_workspace_effect:
  assumes "provision_workspace c u en w = (rs, w')" "on_dyn c" "kb_kais w' \<noteq> kb_kais w"
  obtains tok where "kb_kais w' = kb_kais w @ [((on_namespace c, ''kai-'' @ slugFromUserID (u_ID u)),
      buildSaaSKaiInstance (on_namespace c) (slugFromUserID (u_ID u)) u tok)]"
    "rs = verified (Some (slugFromUserID (u_ID u)))" "map_of (kb_kais w) (on_namespace c, ''kai-'' @ slugFromUserID (u_ID u)) = None"
    "\<not> MaxInstancesReached (on_tiers c) (u_Tier u)
        (int (length (filter (labelled (on_namespace c) ''swarm.io/user-id'' (u_ID u)) (kb_kais w))))"
    "generateToken (en_token en) = Some tok"
proof -
  let ?slug = "slugFromUserID (u_ID u)"
  obtain g w1 where g: "kc_get (on_namespace c, ''kai-'' @ ?slug) w = (g, w1)" by fastforce
  have w1: "same_objects w w1" using reads_keep(1)[of w "(on_namespace c, ''kai-'' @ ?slug)"] unfolding g by simp
  note p0 = assms(1)[unfolded provision_workspace_def Let_def g prod.case]
  have gi: "g = Inl KNotFound"
    using p0 assms(3) w1 by (cases g) (auto simp: same_objects_def split: if_splits)
  obtain n w2 where n: "countWorkspacesForUser c (u_ID u) w1 = (n, w2)" by fastforce
  have w2: "same_objects w1 w2"
    using n reads_keep(2) by (auto simp: countWorkspacesForUser_def split: if_splits prod.splits sum.splits dest!: arg_cong[of _ _ snd])
  obtain count where c: "n = Inr count"
    using p0 assms(3) w1 w2 by (cases n) (auto simp: gi n same_objects_def)
  have m: "\<not> MaxInstancesReached (on_tiers c) (u_Tier u) count"
    using p0 assms(3) w1 w2 by (auto simp: gi n c same_objects_def)
  obtain tok where t: "generateToken (en_token en) = Some tok"
    using p0 assms(3) w1 w2 m by (cases "generateToken (en_token en)") (auto simp: gi n c same_objects_def)
  obtain e w3 where k: "kc_create (buildSaaSKaiInstance (on_namespace c) ?slug u tok) w2 = (e, w3)" by fastforce
  have r: "w' = w3" "e = None \<Longrightarrow> rs = verified (Some ?slug)"
    using p0 m by (auto simp: gi n c t k split: option.splits if_splits)
  note kc = kc_create_cases[OF k]
  have e: "e = None" using kc assms(3) r(1) w1 w2 by (auto simp: same_objects_def)
  have b: "k_Namespace (buildSaaSKaiInstance (on_namespace c) ?slug u tok) = on_namespace c"
    "k_Name (buildSaaSKaiInstance (on_namespace c) ?slug u tok) = ''kai-'' @ ?slug"
    by (simp_all add: buildSaaSKaiInstance_def Let_def)
  have cnt: "count = int (length (filter (labelled (on_namespace c) ''swarm.io/user-id'' (u_ID u)) (kb_kais w)))"
    using count_exact[OF n[unfolded c] assms(2)] w1 by (simp add: same_objects_def)
  show ?thesis using that[of tok] kc e r w1 w2 m cnt t unfolding b by (simp add: same_objects_def)
qed

lemma verify_provisions:
  assumes "handleVerify c r en st = (rs, st')" "kb_kais (os_kube st') \<noteq> kb_kais (os_kube st)"
  shows "\<exists>u tok slug k. checkVerifyToken (on_hmac c) (su_Secret (on_signup c)) (rq_id r) (rq_token r) (en_now en) = None
    \<and> st_GetByID (on_store c) (rq_id r) (os_users st) = Inr u \<and> slug = slugFromUserID (u_ID u)
    \<and> generateToken (en_token en) = Some tok \<and> k = buildSaaSKaiInstance (on_namespace c) slug u tok
    \<and> map_of (kb_kais (os_kube st)) (on_namespace c, ''kai-'' @ slug) = None
    \<and> kb_kais (os_kube st') = kb_kais (os_kube st) @ [((on_namespace c, ''kai-'' @ slug), k)]
    \<and> rs = verified (Some slug) \<and> resolve_slug (k_Spec k) = slug \<and> sp_UserRef (k_Spec k) = u_ID u
    \<and> \<not> MaxInstancesReached (on_tiers c) (u_Tier u)
        (int (length (filter (labelled (on_namespace c) ''swarm.io/user-id'' (u_ID u)) (kb_kais (os_kube st)))))"
proof -
  have en: "su_Enabled (on_signup c)" "rq_id r \<noteq> []" "rq_token r \<noteq> []"
    using assms by (auto simp: handleVerify_def Let_def split: if_splits)
  have tk: "checkVerifyToken (on_hmac c) (su_Secret (on_signup c)) (rq_id r) (rq_token r) (en_now en) = None"
    using assms en by (auto simp: handleVerify_def Let_def split: option.splits)
  obtain u where u: "st_GetByID (on_store c) (rq_id r) (os_users st) = Inr u"
    using assms en tk by (cases "st_GetByID (on_store c) (rq_id r) (os_users st)") (auto simp: handleVerify_def Let_def)
  obtain e us where m: "st_MarkEmailVerified (on_store c) (rq_id r) (en_now en) (os_users st) = (e, us)" by fastforce
  have e: "e = None" and d: "on_dyn c"
    using assms en tk u m by (auto simp: handleVerify_def Let_def split: option.splits if_splits)
  obtain rs' w where p: "provision_workspace c u en (os_kube st) = (rs', w)" by fastforce
  have r: "rs = rs'" "os_kube st' = w" using assms(1) en tk u m e d p by (auto simp: handleVerify_def Let_def)
  obtain tok where t: "kb_kais w = kb_kais (os_kube st) @ [((on_namespace c, ''kai-'' @ slugFromUserID (u_ID u)),
      buildSaaSKaiInstance (on_namespace c) (slugFromUserID (u_ID u)) u tok)]"
    "rs' = verified (Some (slugFromUserID (u_ID u)))" "map_of (kb_kais (os_kube st)) (on_namespace c, ''kai-'' @ slugFromUserID (u_ID u)) = None"
    "\<not> MaxInstancesReached (on_tiers c) (u_Tier u)
        (int (length (filter (labelled (on_namespace c) ''swarm.io/user-id'' (u_ID u)) (kb_kais (os_kube st)))))"
    "generateToken (en_token en) = Some tok"
    using provision_workspace_effect[OF p d] assms(2) r(2) by blast
  have "resolve_slug (k_Spec (buildSaaSKaiInstance ns (slugFromUserID i) u tok)) = slugFromUserID i"
    "sp_UserRef (k_Spec (buildSaaSKaiInstance ns s u tok)) = u_ID u" for ns i s
    by (simp_all add: buildSaaSKaiInstance_def resolve_slug_def EffectiveSlug_def empty_spec_def slugFromUserID_def Let_def)
  with tk u t r show ?thesis by blast
qed

text \<open>C11: verification provisions once and within the tier: a verify request changes the set of workspaces
  only with a valid token for an existing user, then adds exactly one, free of any earlier object of its
  name, owned by that user, with the slug it reports, and only while the user has fewer workspaces than
  the tier allows.\<close>

theorem verify_provisions_within_tier:
  assumes "handleVerify c r en st = (rs, st')" "kb_kais (os_kube st') \<noteq> kb_kais (os_kube st)"
  shows "\<exists>u tok slug k. checkVerifyToken (on_hmac c) (su_Secret (on_signup c)) (rq_id r) (rq_token r) (en_now en) = None
    \<and> st_GetByID (on_store c) (rq_id r) (os_users st) = Inr u \<and> slug = slugFromUserID (u_ID u)
    \<and> generateToken (en_token en) = Some tok \<and> k = buildSaaSKaiInstance (on_namespace c) slug u tok
    \<and> map_of (kb_kais (os_kube st)) (on_namespace c, ''kai-'' @ slug) = None
    \<and> kb_kais (os_kube st') = kb_kais (os_kube st) @ [((on_namespace c, ''kai-'' @ slug), k)]
    \<and> rs = verified (Some slug) \<and> resolve_slug (k_Spec k) = slug \<and> sp_UserRef (k_Spec k) = u_ID u
    \<and> \<not> MaxInstancesReached (on_tiers c) (u_Tier u)
        (int (length (filter (labelled (on_namespace c) ''swarm.io/user-id'' (u_ID u)) (kb_kais (os_kube st)))))"
  by (rule verify_provisions[OF assms])

definition demo_tok :: string where
  "demo_tok = b64_encode True (''k'' @ verify_message (u_ID eve) 9) @ CHR ''.'' # dec_int 9"

definition verify_request :: "string \<Rightarrow> string \<Rightarrow> request" where
  "verify_request i tok = \<lparr>rq_Remote = [], rq_XFF = [], rq_Authorization = [], rq_Body = [], rq_id = i, rq_token = tok\<rparr>"

definition eve_verify :: request where
  "eve_verify = verify_request (u_ID eve) demo_tok"

definition verify_entropy :: entropy where
  "verify_entropy = demo_entropy\<lparr>en_now := seconds 5\<rparr>"

lemma demo_tok_ok: "checkVerifyToken (on_hmac demo_onb) (su_Secret (on_signup demo_onb)) (u_ID eve) demo_tok (en_now verify_entropy) = None"
proof -
  have c: "cut_at (CHR ''.'') demo_tok = (b64_encode True (''k'' @ verify_message (u_ID eve) 9), Some (dec_int 9))"
    unfolding demo_tok_def by (rule cut_at_append[OF b64_encode_no_dot])
  have "scan_int (dec_int 9) = Some 9" by (rule scan_int_dec_int) (simp_all add: int64_max_def)
  then show ?thesis
    by (simp add: checkVerifyToken_def c) (simp add: demo_onb_def verify_entropy_def unix_sec_def seconds_def)
qed

lemma eve_verified:
  "st_GetByID (on_store demo_onb) (u_ID eve) [(u_ID eve, eve)] = Inr eve"
  "fst (st_MarkEmailVerified (on_store demo_onb) (u_ID eve) t [(u_ID eve, eve)]) = None"
  by (simp_all add: demo_onb_def MemoryStore_def mem_GetByID_def mem_MarkEmailVerified_def update_active_def eve_def)

lemma handleVerify_reached:
  assumes "su_Enabled (on_signup c)" "rq_id r \<noteq> []" "rq_token r \<noteq> []"
    and "checkVerifyToken (on_hmac c) (su_Secret (on_signup c)) (rq_id r) (rq_token r) (en_now en) = None"
    and "st_GetByID (on_store c) (rq_id r) (os_users st) = Inr u"
    and "fst (st_MarkEmailVerified (on_store c) (rq_id r) (en_now en) (os_users st)) = None" "on_dyn c"
  shows "fst (handleVerify c r en st) = fst (provision_workspace c u en (os_kube st))
    \<and> os_kube (snd (handleVerify c r en st)) = snd (provision_workspace c u en (os_kube st))"
  using assms by (simp add: handleVerify_def Let_def split_beta split: prod.splits)

lemma eve_provisioned:
  "kb_kais (os_kube (snd (handleVerify demo_onb eve_verify verify_entropy (onb_start [(u_ID eve, eve)])))) \<noteq> []"
proof -
  have b: "su_Enabled (on_signup demo_onb)" "rq_id eve_verify = u_ID eve" "u_ID eve \<noteq> []" "rq_token eve_verify = demo_tok"
    "demo_tok \<noteq> []" "on_dyn demo_onb" "os_users (onb_start s) = s" "os_kube (onb_start s) = no_kube" for s
    by (simp_all add: demo_onb_def eve_verify_def verify_request_def eve_def demo_tok_def onb_start_def)
  have m: "\<not> MaxInstancesReached (on_tiers demo_onb) (u_Tier eve) 0" by code_simp
  have t: "generateToken (en_token verify_entropy) \<noteq> None" by (simp add: generateToken_def verify_entropy_def demo_entropy_def)
  have "kb_kais (snd (provision_workspace demo_onb eve verify_entropy no_kube)) \<noteq> []"
    using b(6) m t by (auto simp: provision_workspace_def Let_def kc_get_def no_kube_def countWorkspacesForUser_def kc_list_def
        kc_create_def split: option.splits)
  with handleVerify_reached[where c = demo_onb and r = eve_verify and en = verify_entropy and st = "onb_start [(u_ID eve, eve)]" and u = eve]
    show ?thesis by (simp add: b demo_tok_ok eve_verified)
qed

corollary verify_provisions_within_tier_witness:
  "map (\<lambda>(nn, k). sp_UserRef (k_Spec k))
     (kb_kais (os_kube (snd (handleVerify demo_onb eve_verify verify_entropy (onb_start [(u_ID eve, eve)]))))) = [u_ID eve]"
proof -
  obtain rs st' where h: "handleVerify demo_onb eve_verify verify_entropy (onb_start [(u_ID eve, eve)]) = (rs, st')" by fastforce
  have s: "kb_kais (os_kube (onb_start [(u_ID eve, eve)])) = []" "st_GetByID (on_store demo_onb) (rq_id eve_verify) (os_users (onb_start [(u_ID eve, eve)])) = Inr eve"
    using eve_verified by (simp_all add: onb_start_def no_kube_def eve_verify_def verify_request_def)
  have n: "kb_kais (os_kube st') \<noteq> kb_kais (os_kube (onb_start [(u_ID eve, eve)]))" using eve_provisioned h s by simp
  show ?thesis using verify_provisions_within_tier[OF h n] s by (auto simp: h)
qed

text \<open>Verification never looks at the owner of the workspace it finds: whenever an object of the derived
  name exists, a valid verify request answers 200 and reports that workspace, creating nothing, whoever
  owns it.\<close>

theorem verify_adopts_any_workspace:
  assumes "su_Enabled (on_signup c)" "rq_id r \<noteq> []" "rq_token r \<noteq> []" "on_dyn c" "kb_faults (os_kube st) = []"
    and "checkVerifyToken (on_hmac c) (su_Secret (on_signup c)) (rq_id r) (rq_token r) (en_now en) = None"
    and "st_GetByID (on_store c) (rq_id r) (os_users st) = Inr u"
    and "fst (st_MarkEmailVerified (on_store c) (rq_id r) (en_now en) (os_users st)) = None"
    and "map_of (kb_kais (os_kube st)) (on_namespace c, ''kai-'' @ slugFromUserID (u_ID u)) = Some k"
  shows "fst (handleVerify c r en st) = verified (Some (slugFromUserID (u_ID u))) \<and> os_kube (snd (handleVerify c r en st)) = os_kube st"
proof -
  have "provision_workspace c u en (os_kube st) = (verified (Some (slugFromUserID (u_ID u))), os_kube st)"
    unfolding provision_workspace_def Let_def kc_get_def kb_next_quiet[OF assms(5)] prod.case assms(9) option.case sum.case ..
  with handleVerify_reached[OF assms(1-3,6-8,4)] show ?thesis by simp
qed

definition mallory_kai :: kai where
  "mallory_kai = buildSaaSKaiInstance ''emai-swarm'' (slugFromUserID (u_ID eve)) (eve\<lparr>u_ID := ''u_01HZZZZZZZABMALLORY''\<rparr>) ''tok''"

corollary verify_adopts_any_workspace_witness:
  "fst (handleVerify demo_onb eve_verify verify_entropy ((onb_start [(u_ID eve, eve)])\<lparr>os_kube := no_kube\<lparr>kb_kais := [((''emai-swarm'', k_Name mallory_kai), mallory_kai)]\<rparr>\<rparr>))
     = verified (Some (slugFromUserID (u_ID eve)))
   \<and> sp_UserRef (k_Spec mallory_kai) \<noteq> u_ID eve \<and> slugFromUserID (sp_UserRef (k_Spec mallory_kai)) = slugFromUserID (u_ID eve)"
proof
  let ?st = "(onb_start [(u_ID eve, eve)])\<lparr>os_kube := no_kube\<lparr>kb_kais := [((''emai-swarm'', k_Name mallory_kai), mallory_kai)]\<rparr>\<rparr>"
  have b: "su_Enabled (on_signup demo_onb)" "rq_id eve_verify \<noteq> []" "rq_token eve_verify \<noteq> []" "on_dyn demo_onb" "kb_faults (os_kube ?st) = []"
    by (simp_all add: demo_onb_def eve_verify_def verify_request_def eve_def demo_tok_def no_kube_def)
  have g: "st_GetByID (on_store demo_onb) (rq_id eve_verify) (os_users ?st) = Inr eve"
    "fst (st_MarkEmailVerified (on_store demo_onb) (rq_id eve_verify) (en_now verify_entropy) (os_users ?st)) = None"
    "checkVerifyToken (on_hmac demo_onb) (su_Secret (on_signup demo_onb)) (rq_id eve_verify) (rq_token eve_verify) (en_now verify_entropy) = None"
    using eve_verified demo_tok_ok by (simp_all add: onb_start_def eve_verify_def verify_request_def)
  have k: "map_of (kb_kais (os_kube ?st)) (on_namespace demo_onb, ''kai-'' @ slugFromUserID (u_ID eve)) = Some mallory_kai"
    by (simp add: mallory_kai_def buildSaaSKaiInstance_def Let_def demo_onb_def)
  show "fst (handleVerify demo_onb eve_verify verify_entropy ?st) = verified (Some (slugFromUserID (u_ID eve)))"
    using verify_adopts_any_workspace[OF b g(3,1,2) k] by simp
  show "sp_UserRef (k_Spec mallory_kai) \<noteq> u_ID eve \<and> slugFromUserID (sp_UserRef (k_Spec mallory_kai)) = slugFromUserID (u_ID eve)"
    by code_simp
qed

section \<open>Operator-side creation\<close>

lemma createInstance_effect:
  assumes "createInstance c r en w = (rs, w')" "kb_kais w' \<noteq> kb_kais w"
  shows "requireAuth c r \<and> rs_status rs = 201 \<and> kb_secrets w' = kb_secrets w
    \<and> (\<exists>q0 tok. decode_provision (rq_Body r) = Some q0 \<and> generateToken (en_token en) = Some tok \<and>
        (let q = trimmed q0; k = provision_object (on_namespace c) q tok in
         validateProvision q = None \<and> \<not> slug_rejected (pq_CustomerSlug q) \<and> resolve_slug (k_Spec k) = pq_CustomerSlug q
         \<and> map_of (kb_kais w) (on_namespace c, ''kai-'' @ pq_CustomerSlug q) = None
         \<and> kb_kais w' = kb_kais w @ [((on_namespace c, ''kai-'' @ pq_CustomerSlug q), k)]))"
proof -
  have a: "requireAuth c r" using assms by (auto simp: createInstance_def split: if_splits)
  obtain q0 where q0: "decode_provision (rq_Body r) = Some q0"
    using assms a by (cases "decode_provision (rq_Body r)") (auto simp: createInstance_def)
  let ?q = "trimmed q0"
  have v: "validateProvision ?q = None"
    using assms a q0 by (cases "validateProvision ?q") (auto simp: createInstance_def Let_def)
  have d: "on_dyn c" using assms a q0 v by (auto simp: createInstance_def Let_def split: if_splits)
  obtain tok where t: "generateToken (en_token en) = Some tok"
    using assms a q0 v d by (cases "generateToken (en_token en)") (auto simp: createInstance_def Let_def)
  let ?k = "provision_object (on_namespace c) ?q tok"
  obtain e w1 where k: "kc_create ?k w = (e, w1)" by fastforce
  have n: "k_Namespace ?k = on_namespace c" "k_Name ?k = ''kai-'' @ pq_CustomerSlug ?q" by (simp_all add: provision_object_def)
  note kc = kc_create_cases[OF k, unfolded n]
  note c0 = assms(1)[unfolded createInstance_def q0 option.case Let_def v t k prod.case]
  have r: "w' = w1" "e = None \<Longrightarrow> rs_status rs = 201" using c0 a d by (auto split: option.splits if_splits)
  have "e = None" using kc assms(2) r(1) by auto
  moreover have s: "\<not> slug_rejected (pq_CustomerSlug ?q)" "pq_CustomerSlug ?q \<noteq> []"
    using v by (auto simp: validateProvision_def slug_rejected_def split: if_splits)
  moreover have "resolve_slug (k_Spec ?k) = pq_CustomerSlug ?q"
    using s(2) by (simp add: provision_object_def resolve_slug_def EffectiveSlug_def empty_spec_def Let_def)
  ultimately show ?thesis using a q0 v t r kc by (auto simp: Let_def)
qed

text \<open>Operator-side creation writes only what it validated: it changes the cluster only for a request
  with the admin token whose trimmed fields pass every check, and then adds exactly one object under a
  name that was free, answering 201; its slug is one every other server accepts, and the operator
  resolves the same slug from the object.\<close>

theorem createInstance_writes_valid:
  assumes "createInstance c r en w = (rs, w')" "kb_kais w' \<noteq> kb_kais w"
  shows "requireAuth c r \<and> rs_status rs = 201 \<and> kb_secrets w' = kb_secrets w
    \<and> (\<exists>q0 tok. decode_provision (rq_Body r) = Some q0 \<and> generateToken (en_token en) = Some tok \<and>
        (let q = trimmed q0; k = provision_object (on_namespace c) q tok in
         validateProvision q = None \<and> \<not> slug_rejected (pq_CustomerSlug q) \<and> resolve_slug (k_Spec k) = pq_CustomerSlug q
         \<and> map_of (kb_kais w) (on_namespace c, ''kai-'' @ pq_CustomerSlug q) = None
         \<and> kb_kais w' = kb_kais w @ [((on_namespace c, ''kai-'' @ pq_CustomerSlug q), k)]))"
  by (rule createInstance_effect[OF assms])

definition acme_request :: request where
  "acme_request = \<lparr>rq_Remote = [], rq_XFF = [], rq_Authorization = ''Bearer admin'',
     rq_Body = print_json (str_obj [(''customerName'', ''Acme''), (''projectName'', ''Ops''), (''customerSlug'', '' acme'')]),
     rq_id = [], rq_token = []\<rparr>"

lemma acme_admitted: "requireAuth demo_onb acme_request"
  by code_simp

lemma acme_creates:
  assumes "en_token en = Some b"
  shows "map (k_Name \<circ> snd) (kb_kais (snd (createInstance demo_onb acme_request en no_kube))) = [''kai-acme'']"
proof -
  have "wf_json (str_obj [(''customerName'', ''Acme''), (''projectName'', ''Ops''), (''customerSlug'', '' acme'')])" by (simp add: str_obj_def)
  note jd = json_decode_print[OF this]
  have d: "decode_provision (rq_Body acme_request) = Some \<lparr>pq_CustomerName = ''Acme'', pq_ProjectName = ''Ops'',
      pq_CustomerSlug = '' acme'', pq_Model = [], pq_TelegramSecretRef = [], pq_ExternalAccess = None\<rparr>"
    unfolding decode_provision_def acme_request_def request.simps jd by code_simp
  have tr: "trim_space ''Acme'' = ''Acme''" "trim_space ''Ops'' = ''Ops''" "trim_space '' acme'' = ''acme''" "trim_space [] = []" by code_simp+
  have v: "match_string slugRegex ''acme''" by code_simp
  have t: "generateToken (en_token en) = Some (hex_encode b)" by (simp add: generateToken_def assms)
  have "on_dyn demo_onb" by (simp add: demo_onb_def)
  then show ?thesis
    by (simp add: createInstance_def acme_admitted d t Let_def trimmed_def tr validateProvision_def v kc_create_def no_kube_def provision_object_def)
qed

corollary createInstance_writes_valid_witness:
  "rs_status (fst (createInstance demo_onb acme_request demo_entropy no_kube)) = 201
   \<and> (\<exists>k. kb_kais (snd (createInstance demo_onb acme_request demo_entropy no_kube)) = [((''emai-swarm'', ''kai-acme''), k)])"
proof -
  obtain rs w' where c: "createInstance demo_onb acme_request demo_entropy no_kube = (rs, w')" by fastforce
  have e: "kb_kais no_kube = []" "on_namespace demo_onb = ''emai-swarm''" by (simp_all add: no_kube_def demo_onb_def)
  have n: "map (k_Name \<circ> snd) (kb_kais w') = [''kai-acme'']" using acme_creates[of demo_entropy] c by (simp add: demo_entropy_def)
  then have "kb_kais w' \<noteq> kb_kais no_kube" using e by auto
  from createInstance_writes_valid[OF c this] n e show ?thesis
    by (auto simp: c Let_def provision_object_def)
qed

end
