(* ===== verification/Composition.thy ===== *)
theory Composition
  imports Convergence StatusPage AdminConsole SignupSafety ChatSafety
begin

text \<open>
  Properties that need several programs: the admin console, the operator and the status page; signup, verification, the
  operator's Secrets and the login at the workspace server.
\<close>

section \<open>Suspension\<close>

text \<open>C2: suspension takes effect across the programs: when an admin suspends an instance in a working cluster, its status page says
  maintenance at once, and the operator's next reconcile succeeds, sets its Deployment to zero replicas,
  touches no other child object and records the phase Suspended, not ready.\<close>

theorem suspend_takes_effect:
  assumes "admin_requireAuth c r" "ad_dyn c" "kb_faults w = []" "nn = (ad_namespace c, ''kai-'' @ sq_slug q)" "aq_name r = ''kai-'' @ sq_slug q"
    and "map_of (kb_kais w) nn = Some k" "kai_key k = nn" "live k" "dk = (DeploymentKind, k_Namespace k, childName (resolve_slug (k_Spec k)))"
    and "ss_namespace d = ad_namespace c" "ss_dyn d" "\<not> slug_rejected (sq_slug q)" "tokenFromRequest q \<noteq> []" "gateway_token k = tokenFromRequest q"
    and "admin_handle c CallSuspend r w = (rs, w')"
    and "Reconcile rc inp nn \<lparr>w_kais = map_of (kb_kais w'), w_objs = objs, w_faults = []\<rparr> = (res, x)"
  shows "(\<exists>p. fst (getStatus d q w') = writeJSON 200 (status_json p) \<and> pb_Status p = ''maintenance'')
    \<and> res = None \<and> w_objs x = objs(dk := map_option scaled_to_zero (objs dk))
    \<and> (\<exists>k'. w_kais x nn = Some k' \<and> k_Spec k' = (k_Spec k)\<lparr>sp_Suspended := True\<rparr>
        \<and> ks_Phase (k_Status k') = PhaseSuspended \<and> \<not> ks_Ready (k_Status k'))"
proof -
  let ?k = "set_suspended True k"
  have w': "w' = w\<lparr>kb_kais := al_put nn ?k (kb_kais w)\<rparr>"
    using assms(1-6,15) by (auto simp: admin_handle_def guarded_def patchSuspended_def kc_patch_suspended_def)
  have m: "map_of (kb_kais w') nn = Some ?k" by (simp add: w')
  have "gateway_token ?k = gateway_token k" by (simp add: gateway_token_def set_suspended_def)
  then have st: "getStatus d q w' = (writeJSON 200 (status_json (summarize d ?k (sq_slug q))), w')"
    using status_shown[of d w' q ?k] assms(3,4,10-14) m by (simp add: w')
  have mt: "pb_Status (summarize d ?k (sq_slug q)) = ''maintenance''"
    by (simp add: summarize_def set_suspended_def translatePhase_def Let_def)
  have lv: "live ?k" "resolve_slug (k_Spec ?k) = resolve_slug (k_Spec k)" "k_Namespace ?k = k_Namespace k" "kai_key ?k = nn" "sp_Suspended (k_Spec ?k)"
    using assms(7,8) by (simp_all add: live_def set_suspended_def resolve_slug_def EffectiveSlug_def EffectiveName_def kai_key_def Let_def)
  let ?x = "\<lparr>w_kais = map_of (kb_kais w'), w_objs = objs, w_faults = []\<rparr>"
  have r: "Reconcile rc inp nn ?x = reconcileSuspended (resolve_slug (k_Spec k)) (with_slug ?k) ?x"
    using m lv by (simp add: Reconcile_def kai_get_def next_fault_def live_def with_slug_def Let_def)
  have kk: "kai_key ((with_slug ?k)\<lparr>k_Status := s\<rparr>) = nn" "k_Namespace (with_slug ?k) = k_Namespace k" for s
    using lv(3,4) by (simp_all add: kai_key_def with_slug_def)
  have "res = None \<and> w_objs x = objs(dk := map_option scaled_to_zero (objs dk))
    \<and> w_kais x nn = Some (?k\<lparr>k_Status := (k_Status (with_slug ?k))\<lparr>ks_Phase := PhaseSuspended, ks_Ready := False\<rparr>\<rparr>)"
    using assms(16) unfolding r reconcileSuspended_def Let_def kk(2) assms(9)[symmetric]
    by (auto simp: api_get_def api_update_def status_update_def next_fault_def kk(1) lv(4) m fun_eq_iff split: option.splits if_splits)
  then show ?thesis using st mt by (auto simp: set_suspended_def)
qed

corollary suspend_takes_effect_witness:
  "let r = \<lparr>aq_name = ''kai-acme'', aq_Authorization = ''Bearer root''\<rparr>; w' = snd (admin_handle demo_admin CallSuspend r idle_kube)
   in \<exists>k. w_kais (snd (Reconcile demo_rc demo_in (''emai-swarm'', ''kai-acme'') \<lparr>w_kais = map_of (kb_kais w'), w_objs = Map.empty, w_faults = []\<rparr>))
       (''emai-swarm'', ''kai-acme'') = Some k \<and> ks_Phase (k_Status k) = PhaseSuspended"
proof -
  let ?r = "\<lparr>aq_name = ''kai-acme'', aq_Authorization = ''Bearer root''\<rparr>" and ?q = "\<lparr>sq_slug = ''acme'', sq_Authorization = [], sq_token = ''tok''\<rparr>"
  have a: "admin_requireAuth demo_admin ?r" unfolding admin_requireAuth_def demo_admin_def by code_simp
  have b: "ad_dyn demo_admin" "kb_faults idle_kube = []" "(''emai-swarm'', ''kai-acme'') = (ad_namespace demo_admin, ''kai-'' @ sq_slug ?q)"
    "aq_name ?r = ''kai-'' @ sq_slug ?q" "map_of (kb_kais idle_kube) (''emai-swarm'', ''kai-acme'') = Some idle_kai"
    "kai_key idle_kai = (''emai-swarm'', ''kai-acme'')" "live idle_kai"
    by (simp_all add: demo_admin_def idle_kube_def idle_kai_def kai_key_def live_def)
  have c: "ss_namespace demo_status = ad_namespace demo_admin" "ss_dyn demo_status" "\<not> slug_rejected (sq_slug ?q)" "tokenFromRequest ?q \<noteq> []"
    "gateway_token idle_kai = tokenFromRequest ?q"
    by (simp_all add: demo_status_def demo_admin_def acme_slug tokenFromRequest_def has_prefix_def gateway_token_def idle_kai_def)
  show ?thesis unfolding Let_def
    using suspend_takes_effect[OF a b refl c surjective_pairing surjective_pairing, of demo_rc demo_in Map.empty] by blast
qed

section \<open>From signup to login\<close>

lemma NormalizeEmail_norm: "NormalizeEmail (norm a) = NormalizeEmail a" "norm a = NormalizeEmail a"
  by (simp_all add: norm_def NormalizeEmail_def trim_space_to_lower)

lemma NormalizeEmail_again: "NormalizeEmail (NormalizeEmail a) = NormalizeEmail a"
  by (metis NormalizeEmail_norm)

lemma signup_create_users:
  "on_store c = MemoryStore p \<Longrightarrow> os_users (snd (signup_create c email h lang a en st))
     = snd (mem_Create p \<lparr>p_Email = email, p_PasswordHash = h, p_Tier = TierFree, p_Language = lang, p_App = a\<rparr> (en_id en) (en_now en) (os_users st))"
  by (auto simp: signup_create_def MemoryStore_def Let_def split: prod.splits sum.splits option.splits)

lemma handleSignup_reaches:
  assumes "handleSignup c r en st = (rs, st')" "os_users st' \<noteq> os_users st"
    and "decode_fields [''email'', ''password'', ''language'', ''app'', ''captchaToken''] (rq_Body r) = Some [em, pw, l, a, cp]"
  obtains h lang st0 where "os_users st0 = os_users st" "HashPassword (on_argon c) (on_version c) pw (en_salt en) = Some h" "8 \<le> length pw"
    "parseableEmail (on_parse c) (NormalizeEmail em)" "(rs, st') = signup_create c (NormalizeEmail em) h lang a en st0"
proof -
  obtain al bs where rl: "rl_allow (su_IPLimitPerHr (on_signup c)) (clientIP (on_loopback c) r) (en_now en) (os_rl st) = (al, bs)" by fastforce
  let ?st = "st\<lparr>os_rl := bs\<rparr>" and ?lang = "if l = LangEN then LangEN else LangDE"
  have "\<exists>h. HashPassword (on_argon c) (on_version c) pw (en_salt en) = Some h \<and> 8 \<le> length pw
      \<and> parseableEmail (on_parse c) (NormalizeEmail em) \<and> (rs, st') = signup_create c (NormalizeEmail em) h ?lang a en ?st"
    using assms(1,2) unfolding handleSignup_def Let_def rl assms(3) prod.case option.case list.case
    by (auto split: if_splits option.splits)
  then show thesis using that[of ?st] by auto
qed

lemma handleSignup_new:
  assumes "handleSignup c r en st = (rs, st')" "on_store c = MemoryStore p" "map_of (os_users st) i = None" "map_of (os_users st') i = Some u"
    and "decode_fields [''email'', ''password'', ''language'', ''app'', ''captchaToken''] (rq_Body r) = Some [em, pw, l, a, cp]"
  shows "u_ID u = i \<and> active u \<and> u_Email u = NormalizeEmail em \<and> u_Tier u = TierFree \<and> 8 \<le> length pw
    \<and> HashPassword (on_argon c) (on_version c) pw (en_salt en) = Some (u_PasswordHash u)
    \<and> NormalizeEmail em \<noteq> [] \<and> (store_inv (os_users st) \<longrightarrow> store_inv (os_users st'))"
proof -
  have ne: "os_users st' \<noteq> os_users st" using assms(3,4) by auto
  obtain h lang st0 where s: "os_users st0 = os_users st" "HashPassword (on_argon c) (on_version c) pw (en_salt en) = Some h" "8 \<le> length pw"
    "parseableEmail (on_parse c) (NormalizeEmail em)" "(rs, st') = signup_create c (NormalizeEmail em) h lang a en st0"
    by (rule handleSignup_reaches[OF assms(1) ne assms(5)])
  let ?p = "\<lparr>p_Email = NormalizeEmail em, p_PasswordHash = h, p_Tier = TierFree, p_Language = lang, p_App = a\<rparr>"
  obtain x us where m: "mem_Create p ?p (en_id en) (en_now en) (os_users st) = (x, us)" by fastforce
  have us: "os_users st' = us"
    using signup_create_users[OF assms(2), of "NormalizeEmail em" h lang a en st0] s(1,5) m by (metis snd_conv)
  have e: "NormalizeEmail em \<noteq> []" using s(4) by (auto simp: parseableEmail_def)
  show ?thesis
    using m
  proof (cases rule: mem_Create_cases)
    case (fails er)
    then show ?thesis using us ne by simp
  next
    case (made j v)
    then have "j = i \<and> v = u" using us assms(3,4) by (auto split: if_splits)
    then show ?thesis using made s e us store_inv_Create[OF _ m] NormalizeEmail_norm
      by (auto simp: row_ok_def)
  qed
qed

lemma handleVerify_users:
  assumes "handleVerify c r en st = (rs, st')" "kb_kais (os_kube st') \<noteq> kb_kais (os_kube st)" "on_store c = MemoryStore p"
  shows "os_users st' = snd (mem_MarkEmailVerified (rq_id r) (en_now en) (os_users st))"
  using assms by (auto simp: handleVerify_def MemoryStore_def Let_def split: if_splits option.splits sum.splits prod.splits)

text \<open>C1: who signs up can log in: when a signup has created an account, the link in the mail has provisioned a workspace for it, and the operator
  has made the workspace's signing key, then in a working cluster the address, in any spelling, and the password of the
  signup open the workspace server at the slug the verification reported: the login answers with one session
  of that slug for that account.\<close>

theorem signup_to_login:
  assumes "on_store c = MemoryStore p" "ws_store s = Some (MemoryStore p')" "on_namespace c = ws_namespace s" "on_argon c = ws_argon s" "on_version c = ws_version s"
    and "\<And>p s t m th k. length (on_argon c p s t m th k) = k" "int (on_version c) \<le> int64_max" "store_inv (os_users st0)"
    and "handleSignup c r1 en1 st0 = (rs1, st1)" "map_of (os_users st0) i = None" "map_of (os_users st1) i = Some u"
    and "decode_fields [''email'', ''password'', ''language'', ''app'', ''captchaToken''] (rq_Body r1) = Some [em, pw, l, a, cp]"
    and "handleVerify c r2 en2 st1 = (rs2, st2)" "rq_id r2 = i" "kb_kais (os_kube st2) \<noteq> kb_kais (os_kube st1)"
    and "wt_users st3 = os_users st2" "kb_kais (wt_kube st3) = kb_kais (os_kube st2)" "kb_faults (wt_kube st3) = []"
    and "\<not> ws_demoMode s" "ws_core s" "ws_dyn s" "wq_slug r3 = slug" "slug = slugFromUserID i" "\<not> slug_rejected slug"
    and "map_of (kb_secrets (wt_kube st3)) (ws_namespace s, ''kai-'' @ slug @ ''-chat-bridge'') = Some sec" "data_of sec ''jwt-secret'' \<noteq> []"
    and "decode_fields [''email'', ''password''] (wq_Body r3) = Some [em', pw]" "NormalizeEmail em' = NormalizeEmail em" "we_jti en3 = Some jti"
  shows "rs2 = verified (Some slug) \<and> session_for s (wt_kube st3) slug (NormalizeEmail em) i en3 (fst (handleLogin s r3 en3 st3))"
proof -
  note n = handleSignup_new[OF assms(9,1,10,11,12)]
  obtain v tok k where v: "st_GetByID (on_store c) (rq_id r2) (os_users st1) = Inr v" "k = buildSaaSKaiInstance (on_namespace c) (slugFromUserID (u_ID v)) v tok"
    "map_of (kb_kais (os_kube st1)) (on_namespace c, ''kai-'' @ slugFromUserID (u_ID v)) = None"
    "kb_kais (os_kube st2) = kb_kais (os_kube st1) @ [((on_namespace c, ''kai-'' @ slugFromUserID (u_ID v)), k)]"
    "rs2 = verified (Some (slugFromUserID (u_ID v)))" "sp_UserRef (k_Spec k) = u_ID v"
    using verify_provisions[OF assms(13,15)] by blast
  have "v = u" using v(1) assms(11,14) n by (simp add: assms(1) MemoryStore_def mem_GetByID_def active_def)
  then have vi: "u_ID v = i" "v = u" using n by simp_all
  let ?u = "u\<lparr>u_EmailVerifiedAt := Some (en_now en2)\<rparr>"
  have us: "os_users st2 = al_put i ?u (os_users st1)"
    using handleVerify_users[OF assms(13,15,1)] assms(11,14) n
    by (simp add: mem_MarkEmailVerified_def update_active_def active_def)
  have "store_inv (snd (mem_MarkEmailVerified i (en_now en2) (os_users st1)))"
    using store_inv_step[of "os_users st1" p "OpMarkVerified i (en_now en2)"] n assms(8) by simp
  then have inv: "store_inv (os_users st2)" using handleVerify_users[OF assms(13,15,1)] assms(14) by simp
  have row: "map_of (os_users st2) (u_ID ?u) = Some ?u" using n by (simp add: us)
  have ue: "u_Email ?u = NormalizeEmail (norm em')" using n assms(28) by (simp add: NormalizeEmail_norm(1))
  then have "mem_GetByEmail (norm em') (os_users st2) = Inr ?u"
    using mem_GetByEmail_iff[OF inv, of "norm em'" ?u] row n by (simp add: active_def)
  have g': "mem_GetByEmail (NormalizeEmail (norm em')) (os_users st2) = Inr ?u"
    using mem_GetByEmail_iff[OF inv, of "NormalizeEmail (norm em')" ?u] row n ue by (simp add: active_def NormalizeEmail_again)
  obtain salt where salt: "en_salt en1 = Some salt" using n by (cases "en_salt en1") (auto simp: HashPassword_def)
  have pw: "VerifyArgon2id (ws_argon s) (ws_version s) pw (u_PasswordHash u)"
    using verify_hashed[of "on_argon c" "on_version c" pw salt "u_PasswordHash u"] n salt assms(4-7) by simp
  have k: "map_of (kb_kais (wt_kube st3)) (ws_namespace s, ''kai-'' @ wq_slug r3) = Some k"
    using v(3,4) assms(3,17,22,23) vi by (simp add: map_add_def map_of_append)
  have sk: "sp_Managed (k_Spec k) = ''saas''" "sp_UserRef (k_Spec k) = i" "i \<noteq> []"
    using v(2,6) vi assms(13,14,15) by (auto simp: buildSaaSKaiInstance_def Let_def handleVerify_def split: if_splits)
  have own: "owns s (norm em') pw k (wt_users st3) ?u"
    using assms(2) g' pw n sk(2) by (simp add: owns_def MemoryStore_def assms(16) active_def)
  have ne: "norm em' \<noteq> []" "pw \<noteq> []" using n assms(28) by (auto simp: NormalizeEmail_norm(2))
  have sec: "map_of (kb_secrets (wt_kube st3)) (ws_namespace s, ''kai-'' @ wq_slug r3 @ ''-chat-bridge'') = Some sec" using assms(22,25) by simp
  have "\<not> slug_rejected (wq_slug r3)" "saas_managed k" using assms(22,24) sk by simp_all
  from saas_login[OF assms(19,20,21,18) this(1) k this(2) sec assms(26,27) ne assms(29)] own
  have "session_for s (wt_kube st3) (wq_slug r3) (u_Email ?u) (u_ID ?u) en3 (fst (handleLogin s r3 en3 st3))" by blast
  then show ?thesis using n v(5) vi assms(22,23) by simp
qed

definition padded :: argon2_fun where
  "padded p sl t m th k = take k (p @ replicate k (CHR ''x''))"

definition e2e_onb :: "(mem_store, message list) onb" where
  "e2e_onb = demo_onb\<lparr>on_argon := padded\<rparr>"

definition e2e_ws :: "(mem_store, revocation_lists) ws" where
  "e2e_ws = sws\<lparr>ws_argon := padded\<rparr>"

abbreviation new_id :: string where
  "new_id \<equiv> ''u_01HZZZZZZZCD''"

lemma e2e_signup: "map_of (os_users (snd (handleSignup e2e_onb eve_signup demo_entropy (onb_start [])))) new_id \<noteq> None"
proof -
  have d: "decode_fields [''email'', ''password'', ''language'', ''app'', ''captchaToken''] (rq_Body eve_signup)
      = Some [''Eve@e.org'', ''correct horse'', [], [], []]"
    unfolding eve_signup_def request.simps decode_fields_print by code_simp
  have n: "NormalizeEmail ''Eve@e.org'' = ''eve@e.org''" "\<not> isDisposableEmail ''eve@e.org''" by code_simp+
  obtain al bs where rl: "rl_allow (su_IPLimitPerHr (on_signup e2e_onb)) (clientIP (on_loopback e2e_onb) eve_signup) (en_now demo_entropy) (os_rl (onb_start [])) = (al, bs)"
    by fastforce
  have al: "al" using rl by (simp add: rl_allow_def e2e_onb_def demo_onb_def onb_start_def)
  obtain h where h: "HashPassword (on_argon e2e_onb) (on_version e2e_onb) ''correct horse'' (en_salt demo_entropy) = Some h" "h \<noteq> []"
    by (auto simp: HashPassword_def demo_entropy_def)
  have p: "parseableEmail (on_parse e2e_onb) ''eve@e.org''" by (simp add: parseableEmail_def e2e_onb_def demo_onb_def)
  let ?st = "(onb_start [])\<lparr>os_rl := bs\<rparr>"
  have "handleSignup e2e_onb eve_signup demo_entropy (onb_start []) = signup_create e2e_onb ''eve@e.org'' h LangDE [] demo_entropy ?st"
    unfolding handleSignup_def Let_def rl d prod.case list.case option.case n(1) h(1)
    using al p n(2) by (simp add: e2e_onb_def demo_onb_def LangEN_def)
  then have "os_users (snd (handleSignup e2e_onb eve_signup demo_entropy (onb_start [])))
      = snd (mem_Create (\<lambda>s. CHR ''@'' \<in> set s) \<lparr>p_Email = ''eve@e.org'', p_PasswordHash = h, p_Tier = TierFree, p_Language = LangDE, p_App = []\<rparr>
          (Some new_id) (hours 1) [])"
    using signup_create_users[of e2e_onb "\<lambda>s. CHR ''@'' \<in> set s" "''eve@e.org''" h LangDE "[]" demo_entropy ?st]
    by (simp add: e2e_onb_def demo_onb_def demo_entropy_def onb_start_def)
  moreover have "NormalizeEmail ''eve@e.org'' = ''eve@e.org''" "ValidTier TierFree" "ValidLang LangDE" "ValidApp DefaultApp" by code_simp+
  ultimately show ?thesis using h(2) by (simp add: mem_Create_def Users.validEmail_def Let_def)
qed

definition e2e_tok :: string where
  "e2e_tok = b64_encode True (''k'' @ verify_message new_id 90000) @ CHR ''.'' # dec_int 90000"

definition e2e_verify :: request where
  "e2e_verify = verify_request new_id e2e_tok"

lemma e2e_tok_ok: "checkVerifyToken (on_hmac e2e_onb) (su_Secret (on_signup e2e_onb)) new_id e2e_tok (en_now demo_entropy) = None"
proof -
  have c: "cut_at (CHR ''.'') e2e_tok = (b64_encode True (''k'' @ verify_message new_id 90000), Some (dec_int 90000))"
    unfolding e2e_tok_def by (rule cut_at_append[OF b64_encode_no_dot])
  have "scan_int (dec_int 90000) = Some 90000" by (rule scan_int_dec_int) (simp_all add: int64_max_def)
  then show ?thesis
    by (simp add: checkVerifyToken_def c) (simp add: e2e_onb_def demo_onb_def demo_entropy_def unix_sec_def hours_def seconds_def)
qed

lemma e2e_provisioned:
  assumes "os_kube st = no_kube" "map_of (os_users st) new_id = Some u" "u_ID u = new_id" "active u" "u_Tier u = TierFree"
  shows "kb_kais (os_kube (snd (handleVerify e2e_onb e2e_verify demo_entropy st))) \<noteq> kb_kais (os_kube st)"
proof -
  have b: "su_Enabled (on_signup e2e_onb)" "rq_id e2e_verify = new_id" "rq_token e2e_verify = e2e_tok" "e2e_tok \<noteq> []" "on_dyn e2e_onb" "on_store e2e_onb = MemoryStore (\<lambda>s. CHR ''@'' \<in> set s)"
    by (simp_all add: e2e_onb_def demo_onb_def e2e_verify_def verify_request_def e2e_tok_def)
  have m: "\<not> MaxInstancesReached (on_tiers e2e_onb) TierFree 0" unfolding e2e_onb_def demo_onb_def onb.simps by code_simp
  have t: "generateToken (en_token demo_entropy) \<noteq> None" by (simp add: generateToken_def demo_entropy_def)
  have "kb_kais (snd (provision_workspace e2e_onb u demo_entropy no_kube)) \<noteq> []"
    using b(5) m t assms(3,5) by (auto simp: provision_workspace_def Let_def kc_get_def no_kube_def countWorkspacesForUser_def kc_list_def
        kc_create_def split: option.splits)
  moreover have "st_GetByID (on_store e2e_onb) (rq_id e2e_verify) (os_users st) = Inr u"
    "fst (st_MarkEmailVerified (on_store e2e_onb) (rq_id e2e_verify) (en_now demo_entropy) (os_users st)) = None"
    using assms(2-4) by (simp_all add: b(2,6) MemoryStore_def mem_GetByID_def mem_MarkEmailVerified_def update_active_def active_def)
  ultimately show ?thesis
    using handleVerify_reached[of e2e_onb e2e_verify demo_entropy st u] e2e_tok_ok by (simp add: b assms(1)) (simp add: no_kube_def)
qed

corollary signup_to_login_witness:
  "\<exists>st1 st2 sec. st1 = snd (handleSignup e2e_onb eve_signup demo_entropy (onb_start []))
    \<and> st2 = snd (handleVerify e2e_onb e2e_verify demo_entropy st1)
    \<and> session_for e2e_ws ((os_kube st2)\<lparr>kb_secrets := sec, kb_faults := []\<rparr>) (slugFromUserID new_id) ''eve@e.org'' new_id calm_env
        (fst (handleLogin e2e_ws (mal_login\<lparr>wq_slug := slugFromUserID new_id,
               wq_Body := print_json (str_obj [(''email'', ''EVE@e.org''), (''password'', ''correct horse'')])\<rparr>) calm_env
           \<lparr>wt_users = os_users st2, wt_kube = (os_kube st2)\<lparr>kb_secrets := sec, kb_faults := []\<rparr>, wt_rev = (\<lambda>_. [])\<rparr>))"
proof -
  obtain rs1 st1 where h1: "handleSignup e2e_onb eve_signup demo_entropy (onb_start []) = (rs1, st1)" by fastforce
  obtain rs2 st2 where h2: "handleVerify e2e_onb e2e_verify demo_entropy st1 = (rs2, st2)" by fastforce
  obtain u where u: "map_of (os_users st1) new_id = Some u" using e2e_signup h1 by auto
  have d: "decode_fields [''email'', ''password'', ''language'', ''app'', ''captchaToken''] (rq_Body eve_signup)
      = Some [''Eve@e.org'', ''correct horse'', [], [], []]"
    unfolding eve_signup_def request.simps decode_fields_print by code_simp
  have st: "on_store e2e_onb = MemoryStore (\<lambda>s. CHR ''@'' \<in> set s)" "map_of (os_users (onb_start [])) new_id = None" "store_inv (os_users (onb_start []))"
    using store_inv_new by (simp_all add: e2e_onb_def demo_onb_def onb_start_def NewMemoryStore_def)
  note n = handleSignup_new[OF h1 st(1,2) u d]
  have "os_kube st1 = no_kube" using handleSignup_kube[of e2e_onb eve_signup demo_entropy "onb_start []"] unfolding h1 by (simp add: onb_start_def)
  then have p: "kb_kais (os_kube st2) \<noteq> kb_kais (os_kube st1)" using e2e_provisioned[of st1 u] u n by (simp add: h2)
  let ?slug = "slugFromUserID new_id"
  let ?sec = "[((''emai-swarm'', ''kai-'' @ ?slug @ ''-chat-bridge''), \<lparr>sc_data = [(''jwt-secret'', ''key'')], sc_version = 1\<rparr>)]"
  let ?r = "mal_login\<lparr>wq_slug := ?slug, wq_Body := print_json (str_obj [(''email'', ''EVE@e.org''), (''password'', ''correct horse'')])\<rparr>"
  let ?st3 = "\<lparr>wt_users = os_users st2, wt_kube = (os_kube st2)\<lparr>kb_secrets := ?sec, kb_faults := []\<rparr>, wt_rev = (\<lambda>_. [])\<rparr> :: (mem_store, revocation_lists) ws_state"
  have w: "ws_store e2e_ws = Some (MemoryStore (\<lambda>s. CHR ''@'' \<in> set s))" "on_namespace e2e_onb = ws_namespace e2e_ws" "on_argon e2e_onb = ws_argon e2e_ws"
    "on_version e2e_onb = ws_version e2e_ws" "\<not> ws_demoMode e2e_ws" "ws_core e2e_ws" "ws_dyn e2e_ws"
    by (simp_all add: e2e_onb_def demo_onb_def e2e_ws_def sws_def demo_ws_def)
  have l: "length (on_argon e2e_onb p s t m th k) = k" for p s t m th k by (simp add: e2e_onb_def padded_def)
  have v: "int (on_version e2e_onb) \<le> int64_max" by (simp add: e2e_onb_def demo_onb_def int64_max_def)
  have q: "rq_id e2e_verify = new_id" "wq_slug ?r = ?slug" "wt_users ?st3 = os_users st2" "kb_kais (wt_kube ?st3) = kb_kais (os_kube st2)"
     "kb_faults (wt_kube ?st3) = []" "we_jti calm_env = Some ''12345678''"
    by (simp_all add: e2e_verify_def verify_request_def calm_env_def)
  have sl: "\<not> slug_rejected ?slug" unfolding slug_rejected_def slugRegex_iff by code_simp
  have k: "map_of (kb_secrets (wt_kube ?st3)) (ws_namespace e2e_ws, ''kai-'' @ ?slug @ ''-chat-bridge'') = Some \<lparr>sc_data = [(''jwt-secret'', ''key'')], sc_version = 1\<rparr>"
    "data_of \<lparr>sc_data = [(''jwt-secret'', ''key'')], sc_version = 1\<rparr> ''jwt-secret'' \<noteq> []"
    by (simp_all add: e2e_ws_def sws_def demo_ws_def data_of_def)
  have b: "decode_fields [''email'', ''password''] (wq_Body ?r) = Some [''EVE@e.org'', ''correct horse'']"
    unfolding ws_request.simps decode_fields_print by code_simp
  have e: "NormalizeEmail ''EVE@e.org'' = NormalizeEmail ''Eve@e.org''" "NormalizeEmail ''Eve@e.org'' = ''eve@e.org''" by code_simp+
  have "session_for e2e_ws (wt_kube ?st3) ?slug (NormalizeEmail ''Eve@e.org'') new_id calm_env (fst (handleLogin e2e_ws ?r calm_env ?st3))"
    by (rule signup_to_login[OF st(1) w(1-4) l v st(3) h1 st(2) u d h2 q(1) p q(3-5) w(5-7) q(2) refl sl k b e(1) q(6), THEN conjunct2])
  then show ?thesis unfolding e(2) by (intro exI[of _ st1] exI[of _ st2] exI[of _ ?sec]) (simp add: h1 h2)
qed

end
