(* ===== verification/Static.thy ===== *)
theory Static
  imports Http
begin

text \<open>
  The static files of the web servers: \<open>brandingHandler\<close> and \<open>spaHandler\<close>, which every \<open>main.go\<close> under \<open>web\<close> repeats,
  on \<open>path/filepath\<close>, \<open>io/fs\<close> and the file server of \<open>net/http\<close>.  The embedded tree and the disk say what is
  found under a name; links on the disk are followed by them.  A response is the file it carries; conditional
  and range requests, which only shorten it, and content types are left out.
\<close>

section \<open>Paths\<close>

fun clean_segs :: "bool \<Rightarrow> string list \<Rightarrow> string list \<Rightarrow> string list" where
  \<comment> \<open>\<open>filepath.Clean\<close> on the segments; the second argument is what is written so far, backwards\<close>
  "clean_segs rooted out [] = rev out"
| "clean_segs rooted out (s # ss) =
     (if s = [] \<or> s = ''.'' then clean_segs rooted out ss
      else if s = ''..'' then
        (case out of
           [] \<Rightarrow> clean_segs rooted (if rooted then [] else [''..'']) ss
         | t # out' \<Rightarrow> if t = ''..'' then clean_segs rooted (''..'' # out) ss else clean_segs rooted out' ss)
      else clean_segs rooted (s # out) ss)"

definition is_rooted :: "string \<Rightarrow> bool" where
  "is_rooted path = has_prefix ''/'' path"

definition path_of :: "bool \<Rightarrow> string list \<Rightarrow> string" where
  "path_of rooted segs = (if rooted then ''/'' @ join_with ''/'' segs else if segs = [] then ''.'' else join_with ''/'' segs)"

definition Clean :: "string \<Rightarrow> string" where
  "Clean path = path_of (is_rooted path) (clean_segs (is_rooted path) [] (split_on (CHR ''/'') path))"

definition Join :: "string \<Rightarrow> string \<Rightarrow> string" where
  \<comment> \<open>of two elements\<close>
  "Join a b = (if a \<noteq> [] then Clean (a @ ''/'' @ b) else if b \<noteq> [] then Clean b else [])"

definition ValidPath :: "string \<Rightarrow> bool" where
  \<comment> \<open>\<open>fs.ValidPath\<close>\<close>
  "ValidPath name \<longleftrightarrow> name = ''.'' \<or> (\<forall>s \<in> set (split_on (CHR ''/'') name). s \<noteq> [] \<and> s \<noteq> ''.'' \<and> s \<noteq> ''..'')"

definition split_slashes :: "string \<Rightarrow> string list" where
  \<comment> \<open>\<open>strings.FieldsFunc(v, isSlashRune)\<close>, with the empty fields\<close>
  "split_slashes v = concat (map (split_on (CHR 0x5C)) (split_on (CHR ''/'') v))"

definition containsDotDot :: "string \<Rightarrow> bool" where
  "containsDotDot v \<longleftrightarrow> ''..'' \<in> set (split_slashes v)"

definition path_base :: "string \<Rightarrow> string" where
  \<comment> \<open>\<open>path.Base\<close>\<close>
  "path_base p = (if p = [] then ''.'' else let q = trim_right (CHR ''/'') p in
     if q = [] then ''/'' else last (split_on (CHR ''/'') q))"

section \<open>Trees and the file server\<close>

datatype node = FileNode string | DirNode

type_synonym tree = "string \<Rightarrow> node option"

definition fs_Stat :: "tree \<Rightarrow> string \<Rightarrow> node option" where
  \<comment> \<open>of an embedded tree\<close>
  "fs_Stat t name = (if ValidPath name then t name else None)"

datatype served =
  Sent string string  \<comment> \<open>the name and the content of a file\<close>
| Listed  \<comment> \<open>the listing of a directory\<close>
| MovedTo string
| Refused int

record static_request =
  sr_path :: string  \<comment> \<open>\<open>r.URL.Path\<close>\<close>
  sr_query :: string

definition localRedirect :: "static_request \<Rightarrow> string \<Rightarrow> served" where
  "localRedirect r newPath = MovedTo (if sr_query r \<noteq> [] then newPath @ ''?'' @ sr_query r else newPath)"

definition indexPage :: string where
  "indexPage = ''/index.html''"

definition serveFile :: "tree \<Rightarrow> static_request \<Rightarrow> string \<Rightarrow> served" where
  \<comment> \<open>without the redirects to canonical paths\<close>
  "serveFile open_name r name =
     (if has_suffix indexPage (sr_path r) then localRedirect r ''./''
      else (case open_name name of
          None \<Rightarrow> Refused 404
        | Some (FileNode content) \<Rightarrow> Sent name content
        | Some DirNode \<Rightarrow>
            if sr_path r = [] \<or> last (sr_path r) \<noteq> CHR ''/'' then localRedirect r (path_base (sr_path r) @ ''/'')
            else (case open_name (trim_suffix ''/'' name @ indexPage) of
                Some (FileNode content) \<Rightarrow> Sent (trim_suffix ''/'' name @ indexPage) content
              | _ \<Rightarrow> Listed)))"

definition ServeFileFS :: "tree \<Rightarrow> static_request \<Rightarrow> string \<Rightarrow> served" where
  "ServeFileFS t r name = (if containsDotDot (sr_path r) then Refused 400 else serveFile (fs_Stat t) r name)"

definition ServeFile :: "tree \<Rightarrow> static_request \<Rightarrow> string \<Rightarrow> served" where
  "ServeFile disk r name = (if containsDotDot (sr_path r) then Refused 400 else serveFile disk r name)"

section \<open>The handlers\<close>

record brandingHandler =
  overrideDir :: string
  defaults :: tree

definition branding_path :: "brandingHandler \<Rightarrow> string \<Rightarrow> string" where
  "branding_path h name = Join (overrideDir h) (Clean (''/'' @ name))"

definition serve_branding :: "brandingHandler \<Rightarrow> tree \<Rightarrow> static_request \<Rightarrow> string option \<times> served" where
  \<comment> \<open>\<open>brandingHandler.ServeHTTP\<close> on a disk; the first result is the \<open>Cache-Control\<close> it sets\<close>
  "serve_branding h disk r =
     (let name = trim_prefix ''/'' (sr_path r);
          p = branding_path h name;
          fallback = (if fs_Stat (defaults h) name \<noteq> None then (Some ''no-cache'', ServeFileFS (defaults h) r name) else (None, Refused 404))
      in if overrideDir h \<noteq> []
         then (case disk p of Some (FileNode _) \<Rightarrow> (Some ''no-cache'', ServeFile disk r p) | _ \<Rightarrow> fallback)
         else fallback)"

definition spa_file :: "tree \<Rightarrow> string \<Rightarrow> string" where
  "spa_file root path =
     (let p = trim_prefix ''/'' path; p = (if p = [] then ''index.html'' else p)
      in if fs_Stat root p = None then ''index.html'' else p)"

definition serve_spa :: "tree \<Rightarrow> static_request \<Rightarrow> string option \<times> served" where
  "serve_spa root r =
     (let p = spa_file root (sr_path r)
      in (if has_prefix ''assets/'' p then Some ''public, max-age=31536000, immutable'' else None, ServeFileFS root r p))"

definition StripPrefix :: "string \<Rightarrow> (static_request \<Rightarrow> string option \<times> served) \<Rightarrow> static_request \<Rightarrow> string option \<times> served" where
  \<comment> \<open>\<open>http.StripPrefix\<close> of a non-empty prefix\<close>
  "StripPrefix prefix h r = (if has_prefix prefix (sr_path r) then h (r\<lparr>sr_path := trim_prefix prefix (sr_path r)\<rparr>) else (None, Refused 404))"

definition serve_static :: "brandingHandler \<Rightarrow> tree \<Rightarrow> tree \<Rightarrow> bool \<Rightarrow> static_request \<Rightarrow> string option \<times> served" where
  \<comment> \<open>the last two routes of every \<open>main\<close>; the flag: the method is \<open>GET\<close> or \<open>HEAD\<close>\<close>
  "serve_static h root disk get r =
     (if get \<and> has_prefix ''/branding/'' (sr_path r) then StripPrefix ''/branding/'' (serve_branding h disk) r else serve_spa root r)"

section \<open>Confinement\<close>

definition plain :: "string \<Rightarrow> bool" where
  \<comment> \<open>the name of an entry of a directory\<close>
  "plain s \<longleftrightarrow> s \<noteq> [] \<and> s \<noteq> ''.'' \<and> s \<noteq> ''..'' \<and> CHR ''/'' \<notin> set s"

lemma clean_segs_append: "clean_segs rt out (xs @ ys) = clean_segs rt (rev (clean_segs rt out xs)) ys"
  by (induction rt out xs rule: clean_segs.induct) (auto split: list.split)

lemma clean_segs_plain: "\<forall>s \<in> set xs. plain s \<Longrightarrow> clean_segs rt out xs = rev out @ xs"
  by (induction xs arbitrary: out) (auto simp: plain_def)

lemma clean_segs_rooted:
  "list_all plain out \<Longrightarrow> list_all (\<lambda>s. CHR ''/'' \<notin> set s) xs \<Longrightarrow> list_all plain (clean_segs True out xs)"
proof (induction xs arbitrary: out)
  case (Cons s ss)
  have ss: "list_all (\<lambda>s. CHR ''/'' \<notin> set s) ss" using Cons.prems(2) by simp
  note IH = Cons.IH[OF _ ss]
  have s: "CHR ''/'' \<notin> set s" using Cons.prems(2) by simp
  show ?case
  proof (cases out)
    case Nil
    have "list_all plain [s]" if "s \<noteq> []" "s \<noteq> ''.''" "s \<noteq> ''..''" using that s by (simp add: plain_def)
    then show ?thesis using IH[of "[]"] IH[of "[s]"] by (simp add: Nil)
  next
    case (Cons t out')
    have "list_all plain (s # out)" if "s \<noteq> []" "s \<noteq> ''.''" "s \<noteq> ''..''" using that s Cons.prems by (simp add: plain_def[of s])
    moreover have "t \<noteq> ''..''" "list_all plain out'" using Cons.prems Cons by (simp_all add: plain_def[of t])
    ultimately show ?thesis using IH[of out] IH[of out'] IH[of "s # out"] Cons.prems by (simp add: Cons)
  qed
qed (simp add: list_all_iff)

lemma split_on_parts: "s \<in> set (split_on c v) \<Longrightarrow> c \<notin> set s"
  by (induction c v arbitrary: s rule: split_on.induct) (auto split: list.splits if_splits)

lemma split_on_join:
  "\<forall>s \<in> set segs. CHR ''/'' \<notin> set s \<Longrightarrow> segs \<noteq> [] \<Longrightarrow> split_on (CHR ''/'') (join_with ''/'' segs) = segs"
proof (induction segs)
  case (Cons s ss)
  then show ?case by (cases ss) (simp_all add: split_on_append)
qed simp

lemma split_on_cut: "split_on c (s @ c # t) = split_on c s @ split_on c t"
  by (induction s) (auto split: list.split)

lemma split_path:
  assumes "\<forall>s \<in> set segs. CHR ''/'' \<notin> set s"
  shows "clean_segs rt out (split_on (CHR ''/'') (path_of True segs)) = clean_segs rt out segs"
  using assms by (cases segs) (simp_all add: path_of_def split_on_join)

text \<open>Joining a directory with a cleaned absolute path appends its segments to those of the directory.\<close>

lemma Join_Clean:
  fixes d name :: string
  assumes "d \<noteq> []"
  defines "out \<equiv> clean_segs (is_rooted d) [] (split_on (CHR ''/'') d)"
    and "below \<equiv> clean_segs True [] (split_on (CHR ''/'') (''/'' @ name))"
  shows "Join d (Clean (''/'' @ name)) = path_of (is_rooted d) (out @ below)" "\<forall>s \<in> set below. plain s"
proof -
  have b: "\<forall>s \<in> set below. plain s"
    using clean_segs_rooted[of "[]" "split_on (CHR ''/'') (''/'' @ name)"] by (auto simp: below_def list_all_iff dest: split_on_parts)
  then have ns: "\<forall>s \<in> set below. CHR ''/'' \<notin> set s" by (simp add: plain_def)
  have c: "Clean (''/'' @ name) = path_of True below" by (simp add: Clean_def below_def is_rooted_def has_prefix_def)
  have r: "is_rooted (d @ ''/'' @ x) = is_rooted d" for x using assms(1) by (cases d) (simp_all add: is_rooted_def has_prefix_def)
  show "Join d (Clean (''/'' @ name)) = path_of (is_rooted d) (out @ below)"
    using assms(1) b by (simp add: Join_def c[simplified] Clean_def[of "d @ _"] r[simplified] split_on_cut clean_segs_append split_path[OF ns] clean_segs_plain out_def)
  show "\<forall>s \<in> set below. plain s" by (rule b)
qed

definition below_dir :: "string \<Rightarrow> string \<Rightarrow> bool" where
  \<comment> \<open>\<open>p\<close> is the directory \<open>d\<close> with a path of plain names after it\<close>
  "below_dir d p \<longleftrightarrow> (\<exists>names. list_all plain names
     \<and> p = path_of (is_rooted d) (clean_segs (is_rooted d) [] (split_on (CHR ''/'') d) @ names))"

lemma branding_path_below: "overrideDir h \<noteq> [] \<Longrightarrow> below_dir (overrideDir h) (branding_path h name)"
  unfolding below_dir_def branding_path_def using Join_Clean[of "overrideDir h" name] by (metis list_all_iff)

lemma ValidPath_last: "ValidPath (s @ [CHR ''/'']) \<Longrightarrow> False"
  using split_on_cut[of "CHR ''/''" s "[]"] by (auto simp: ValidPath_def)

lemma trim_slash_last:
  assumes "ValidPath (trim_prefix ''/'' path)" "path \<noteq> []"
  shows "last path \<noteq> CHR ''/''"
proof
  assume l: "last path = CHR ''/''"
  obtain q where q: "path = q @ [CHR ''/'']" using assms(2) l by (metis append_butlast_last_id)
  have "trim_prefix ''/'' path = [] \<or> (\<exists>q'. trim_prefix ''/'' path = q' @ [CHR ''/''])"
    unfolding q by (cases q) (auto simp: trim_prefix_def has_prefix_def)
  then show False using assms(1) ValidPath_last by (auto simp: ValidPath_def)
qed

lemma serveFile_sent: "serveFile t r name = Sent p content \<Longrightarrow> t p = Some (FileNode content) \<and> (t name = Some DirNode \<or> p = name)"
  by (auto simp: serveFile_def localRedirect_def split: if_splits option.splits node.splits)

lemma serveFile_dir: "serveFile t r name = Listed \<Longrightarrow> t name = Some DirNode \<and> sr_path r \<noteq> [] \<and> last (sr_path r) = CHR ''/''"
  by (auto simp: serveFile_def localRedirect_def split: if_splits option.splits node.splits)

lemma ServeFileFS_sent: "ServeFileFS t r name = Sent p content \<Longrightarrow> ValidPath p \<and> t p = Some (FileNode content)"
  by (auto simp: ServeFileFS_def fs_Stat_def dest!: serveFile_sent split: if_splits)

lemma ServeFileFS_listed: "ServeFileFS t r name = Listed \<Longrightarrow> fs_Stat t name = Some DirNode \<and> sr_path r \<noteq> [] \<and> last (sr_path r) = CHR ''/''"
  by (auto simp: ServeFileFS_def split: if_splits dest: serveFile_dir[of "fs_Stat t"])

lemma branding_result:
  assumes "snd (serve_branding h disk r) = res"
  shows "res = Refused 404
    \<or> overrideDir h \<noteq> [] \<and> (\<exists>c. disk (branding_path h (trim_prefix ''/'' (sr_path r))) = Some (FileNode c))
        \<and> res = ServeFile disk r (branding_path h (trim_prefix ''/'' (sr_path r)))
    \<or> fs_Stat (defaults h) (trim_prefix ''/'' (sr_path r)) \<noteq> None \<and> res = ServeFileFS (defaults h) r (trim_prefix ''/'' (sr_path r))"
  using assms by (auto simp: serve_branding_def Let_def split: if_splits option.splits node.splits)

lemma branding_safe:
  assumes "snd (serve_branding h disk r) = res"
  shows "res \<noteq> Listed \<and> (\<forall>p content. res = Sent p content \<longrightarrow>
      overrideDir h \<noteq> [] \<and> below_dir (overrideDir h) p \<and> disk p = Some (FileNode content) \<or> ValidPath p \<and> defaults h p = Some (FileNode content))"
proof -
  let ?n = "trim_prefix ''/'' (sr_path r)" let ?p = "branding_path h ?n"
  consider "res = Refused 404" | c where "overrideDir h \<noteq> []" "disk ?p = Some (FileNode c)" "res = ServeFile disk r ?p"
    | "fs_Stat (defaults h) ?n \<noteq> None" "res = ServeFileFS (defaults h) r ?n"
    using branding_result[OF assms] by blast
  then show ?thesis
  proof cases
    case 2
    have "res = Sent p content \<Longrightarrow> p = ?p \<and> disk ?p = Some (FileNode content)" for p content
      using 2 serveFile_sent[of disk r ?p p content] by (auto simp: ServeFile_def split: if_splits)
    moreover have "res \<noteq> Listed" using 2 serveFile_dir[of disk r ?p] by (auto simp: ServeFile_def)
    ultimately show ?thesis using branding_path_below[OF 2(1)] 2(1) by blast
  next
    case 3
    have "ValidPath ?n" using 3(1) by (auto simp: fs_Stat_def split: if_splits)
    then have "res \<noteq> Listed" using 3(2) ServeFileFS_listed[of "defaults h" r ?n] trim_slash_last[of "sr_path r"] by auto
    then show ?thesis using 3(2) ServeFileFS_sent by metis
  qed simp
qed

lemma spa_safe:
  assumes "root ''index.html'' = Some (FileNode c)" "snd (serve_spa root r) = res"
  shows "res = Refused 400 \<or> (\<exists>to. res = MovedTo to) \<or> (\<exists>p content. res = Sent p content \<and> ValidPath p \<and> root p = Some (FileNode content))"
proof -
  let ?p = "spa_file root (sr_path r)"
  have v: "ValidPath ''index.html''" by code_simp
  have s: "fs_Stat root ?p \<noteq> None" using assms(1) v by (auto simp: spa_file_def Let_def fs_Stat_def)
  have r: "res = ServeFileFS root r ?p" using assms(2) by (simp add: serve_spa_def Let_def)
  have "res \<noteq> Listed"
  proof
    assume "res = Listed"
    then have l: "fs_Stat root ?p = Some DirNode" "sr_path r \<noteq> []" "last (sr_path r) = CHR ''/''"
      using ServeFileFS_listed[of root r ?p] r by simp_all
    have "?p \<noteq> ''index.html''" using l(1) assms(1) v by (auto simp: fs_Stat_def)
    then have "?p = trim_prefix ''/'' (sr_path r)" by (auto simp: spa_file_def Let_def split: if_splits)
    then have "ValidPath (trim_prefix ''/'' (sr_path r))" using l(1) by (auto simp: fs_Stat_def split: if_splits)
    then show False using trim_slash_last l by blast
  qed
  moreover have "res \<noteq> Refused 404"
    using s r by (auto simp: ServeFileFS_def serveFile_def localRedirect_def split: if_splits option.splits node.splits)
  moreover have "res = Refused n \<Longrightarrow> n = 400 \<or> n = 404" for n
    using r by (auto simp: ServeFileFS_def serveFile_def localRedirect_def split: if_splits option.splits node.splits)
  moreover have "res = Sent p content \<Longrightarrow> ValidPath p \<and> root p = Some (FileNode content)" for p content
    using r ServeFileFS_sent[of root r ?p] by simp
  ultimately show ?thesis by (cases res) blast+
qed

text \<open>C16: the static routes of the servers leak nothing: whatever the path of a request, and whatever the disk holds, no
  directory is listed and a file that is sent is one of the embedded tree, or one the disk has at a path that continues
  the branding directory by plain names, never through \<open>..\<close>; outside \<open>/branding/\<close> only embedded files
  are sent and no request is answered 404, the page of the application standing in for what does not exist.\<close>

theorem static_confined:
  assumes "root ''index.html'' = Some (FileNode c)" "serve_static h root disk get r = (cc, res)"
  shows "res \<noteq> Listed
    \<and> (\<forall>p content. res = Sent p content \<longrightarrow> ValidPath p \<and> (root p = Some (FileNode content) \<or> defaults h p = Some (FileNode content))
        \<or> overrideDir h \<noteq> [] \<and> below_dir (overrideDir h) p \<and> disk p = Some (FileNode content))
    \<and> (\<not> has_prefix ''/branding/'' (sr_path r) \<longrightarrow> res \<noteq> Refused 404 \<and> (\<forall>p content. res = Sent p content \<longrightarrow> root p = Some (FileNode content)))"
proof (cases "get \<and> has_prefix ''/branding/'' (sr_path r)")
  case True
  let ?r = "r\<lparr>sr_path := trim_prefix ''/branding/'' (sr_path r)\<rparr>"
  have "snd (serve_branding h disk ?r) = res" using assms(2) True by (simp add: serve_static_def StripPrefix_def)
  from branding_safe[OF this] True show ?thesis by blast
next
  case False
  then have "serve_static h root disk get r = serve_spa root r" unfolding serve_static_def by (rule if_not_P)
  then have "snd (serve_spa root r) = res" using assms(2) by (metis snd_conv)
  from spa_safe[OF assms(1) this] show ?thesis by auto
qed

definition demo_branding :: brandingHandler where
  "demo_branding = \<lparr>overrideDir = ''/etc/branding'', defaults = [''logo.svg'' \<mapsto> FileNode ''default'']\<rparr>"

corollary static_confined_witness:
  "let root = [''index.html'' \<mapsto> FileNode ''app'', ''assets'' \<mapsto> DirNode];
       disk = [''/etc/branding/logo.svg'' \<mapsto> FileNode ''ours'', ''/etc/passwd'' \<mapsto> FileNode ''secret'']
   in snd (serve_static demo_branding root disk True \<lparr>sr_path = ''/branding/logo.svg'', sr_query = []\<rparr>) = Sent ''/etc/branding/logo.svg'' ''ours''
    \<and> below_dir ''/etc/branding'' ''/etc/branding/logo.svg''
    \<and> snd (serve_static demo_branding root disk True \<lparr>sr_path = ''/branding/../../etc/passwd'', sr_query = []\<rparr>) = Refused 404
    \<and> snd (serve_static demo_branding root disk True \<lparr>sr_path = ''/assets/'', sr_query = []\<rparr>) = Sent ''index.html'' ''app''"
proof -
  let ?root = "[''index.html'' \<mapsto> FileNode ''app'', ''assets'' \<mapsto> DirNode]"
  let ?disk = "[''/etc/branding/logo.svg'' \<mapsto> FileNode ''ours'', ''/etc/passwd'' \<mapsto> FileNode ''secret'']"
  have a: "serve_static demo_branding ?root ?disk True \<lparr>sr_path = ''/branding/logo.svg'', sr_query = []\<rparr>
      = (Some ''no-cache'', Sent ''/etc/branding/logo.svg'' ''ours'')" by code_simp
  have "snd (serve_static demo_branding ?root ?disk True \<lparr>sr_path = ''/branding/../../etc/passwd'', sr_query = []\<rparr>) = Refused 404"
    "snd (serve_static demo_branding ?root ?disk True \<lparr>sr_path = ''/assets/'', sr_query = []\<rparr>) = Sent ''index.html'' ''app''"
    by code_simp+
  moreover have "below_dir ''/etc/branding'' ''/etc/branding/logo.svg''"
    using static_confined[OF _ a, of "''app''"] by (auto simp: demo_branding_def)
  ultimately show ?thesis by (simp add: a)
qed

end
