(* ===== verification/Servers.thy ===== *)
theory Servers
  imports WorkspacePages Chat Onboarding StatusPage AdminConsole Controller Static
begin

text \<open>
  How the programs start and what they serve: the \<open>main\<close> of each web server and of the operator, as a function of the
  environment (an unset variable is empty), and the routes each registers.  A request comes with its path as the
  multiplexer sees it, cleaned, and with the segments of the path, unescaped.  \<open>None\<close> is \<open>log.Fatal\<close>; which
  Kubernetes configurations can be read and which clients made of them are inputs.
\<close>

section \<open>Start\<close>

record process =
  pr_env :: "string \<Rightarrow> string"
  pr_loopback :: "string \<Rightarrow> bool"  \<comment> \<open>\<open>net.ParseIP\<close> reads a loopback address\<close>
  pr_random :: "string option"  \<comment> \<open>32 random bytes\<close>
  pr_dyn :: bool
  pr_core :: bool

record 'r libs =
  lb_hmac :: hmac_fun
  lb_argon :: argon2_fun
  lb_version :: nat
  lb_parse :: "string \<Rightarrow> bool"
  lb_stamp :: "gotime \<Rightarrow> string"
  lb_memory :: "'r revoker_api"  \<comment> \<open>\<open>auth.NewMemoryRevoker()\<close>\<close>
  lb_secret :: "string \<Rightarrow> 'r revoker_api"  \<comment> \<open>\<open>SecretRevoker\<close> of a namespace\<close>

definition dev_secret :: "process \<Rightarrow> string option" where
  \<comment> \<open>the secret of the development mode, nil outside it; \<open>None\<close>: the start is refused\<close>
  "dev_secret p =
     (if \<not> envTrue (pr_env p ''KAI_INSECURE_DEV_AUTH'') then Some []
      else if \<not> requireLoopback (pr_loopback p) (envDefault (pr_env p ''ADDR'') '':8080'') then None
      else pr_random p)"

definition chosen_revoker :: "'r libs \<Rightarrow> process \<Rightarrow> string \<Rightarrow> 'r revoker_api option" where
  "chosen_revoker l p namespace =
     (if envTrue (pr_env p ''KAI_INSECURE_DEV_AUTH'') then Some (lb_memory l)
      else if pr_core p then Some (lb_secret l namespace) else None)"

definition ws_main :: "'r libs \<Rightarrow> process \<Rightarrow> (string \<times> (mem_store, 'r) ws \<times> mem_store) option" where
  \<comment> \<open>the address, the workspace server and the accounts it starts with\<close>
  "ws_main l p =
     (let namespace = envDefault (pr_env p ''SWARM_NAMESPACE'') ''emai-swarm'' in
      case dev_secret p of None \<Rightarrow> None
      | Some secret \<Rightarrow>
          Some (envDefault (pr_env p ''ADDR'') '':8080'',
            \<lparr>ws_namespace = namespace, ws_chatBase = pr_env p ''CHAT_BASE_URL'', ws_statusBase = pr_env p ''STATUS_BASE_URL'',
             ws_demoMode = envTrue (pr_env p ''KAI_INSECURE_DEV_AUTH''), ws_devSecret = secret, ws_revoker = chosen_revoker l p namespace,
             ws_store = Some (MemoryStore (lb_parse l)), ws_core = pr_core p, ws_dyn = pr_dyn p, ws_hmac = lb_hmac l, ws_argon = lb_argon l,
             ws_version = lb_version l, ws_parse = lb_parse l, ws_stamp = lb_stamp l\<rparr>, []))"

definition chat_main :: "'r libs \<Rightarrow> process \<Rightarrow> (string \<times> 'r chat) option" where
  "chat_main l p =
     (let namespace = envDefault (pr_env p ''SWARM_NAMESPACE'') ''emai-swarm'' in
      case dev_secret p of None \<Rightarrow> None
      | Some secret \<Rightarrow>
          Some (envDefault (pr_env p ''ADDR'') '':8080'',
            \<lparr>ch_namespace = namespace, ch_demoMode = envTrue (pr_env p ''KAI_INSECURE_DEV_AUTH''), ch_devSecret = secret,
             ch_dyn = pr_dyn p, ch_core = pr_core p, ch_revoker = chosen_revoker l p namespace, ch_hmac = lb_hmac l, ch_argon = lb_argon l,
             ch_version = lb_version l\<rparr>))"

definition status_main :: "process \<Rightarrow> (gotime \<Rightarrow> string) \<Rightarrow> (kai \<Rightarrow> string) \<Rightarrow> string \<times> status_server" where
  "status_main p stamp created = (envDefault (pr_env p ''ADDR'') '':8080'',
     \<lparr>ss_dyn = pr_dyn p, ss_namespace = envDefault (pr_env p ''SWARM_NAMESPACE'') ''emai-swarm'', ss_stamp = stamp, ss_created = created\<rparr>)"

definition configured_reconciler :: "(string \<Rightarrow> string) \<Rightarrow> reconciler \<Rightarrow> reconciler" where
  \<comment> \<open>the operator's \<open>main\<close>: what it reads from the environment\<close>
  "configured_reconciler env rc = rc\<lparr>
     rc_IngressDomain := envDefault (env ''INGRESS_DOMAIN'') ''kai.emai.dev'',
     rc_IngressTLSSecret := envDefault (env ''INGRESS_TLS_SECRET'') ''kai-emai-dev-tls'',
     rc_PooledOpenRouterSecret := env ''SWARM_POOLED_OPENROUTER_SECRET'',
     rc_CatalogDir := envDefault (env ''KAI_CATALOG_DIR'') ''/etc/swarm/catalog'',
     rc_PerSlugSubdomain := (env ''KAI_PER_SLUG_INGRESS'' = ''1'' \<or> env ''KAI_PER_SLUG_INGRESS'' = ''true'')\<rparr>"

subsection \<open>Kubernetes clients\<close>

definition loadKubeConfig :: "'cfg option \<Rightarrow> (string \<Rightarrow> string) \<Rightarrow> string \<Rightarrow> (string \<Rightarrow> 'e + 'cfg) \<Rightarrow> 'e + 'cfg" where
  \<comment> \<open>the configuration inside a cluster, the environment, the home directory, and \<open>clientcmd.BuildConfigFromFlags\<close> on a file\<close>
  "loadKubeConfig incluster env home build = (case incluster of Some cfg \<Rightarrow> Inr cfg
     | None \<Rightarrow> (let kubeconfig = env ''KUBECONFIG'';
                 kubeconfig = (if kubeconfig = [] \<and> home \<noteq> [] then home @ ''/.kube/config'' else kubeconfig)
               in build kubeconfig))"

definition with_clients :: "'e + 'cfg \<Rightarrow> ('cfg \<Rightarrow> bool) \<Rightarrow> ('cfg \<Rightarrow> bool) \<Rightarrow> process \<Rightarrow> process" where
  \<comment> \<open>the dynamic and the core client, each left out with a warning when it cannot be made\<close>
  "with_clients cfg dynamic core p = (case cfg of Inl _ \<Rightarrow> p\<lparr>pr_dyn := False, pr_core := False\<rparr>
     | Inr c \<Rightarrow> p\<lparr>pr_dyn := dynamic c, pr_core := core c\<rparr>)"

text \<open>A workspace server that starts in production mode without a core client has no revoker.\<close>

lemma no_client_no_revoker:
  assumes "ws_main l (with_clients cfg dynamic core p) = Some (addr, c, us)" "\<not> ws_demoMode c" "\<And>k. cfg = Inr k \<Longrightarrow> \<not> core k"
  shows "ws_revoker c = None \<and> \<not> ws_core c"
  using assms by (auto simp: ws_main_def with_clients_def chosen_revoker_def dev_secret_def Let_def split: option.splits if_splits sum.splits)

section \<open>Routes\<close>

record web_request =
  hr_Method :: string
  hr_segments :: "string list"
  hr_Path :: string
  hr_Query :: string
  hr_cookie :: "string option"
  hr_Body :: string

definition is_get :: "string \<Rightarrow> bool" where
  \<comment> \<open>a route for \<open>GET\<close> also takes \<open>HEAD\<close>\<close>
  "is_get m \<longleftrightarrow> m = ''GET'' \<or> m = ''HEAD''"

subsection \<open>The workspace server\<close>

datatype ws_call = CallCenter | CallAuth | CallLogin | CallLogout | CallUsers | CallAddUser | CallRemoveUser
  | CallResetPassword | CallAgents | CallOwner | CallOwned

definition ws_route :: "string \<Rightarrow> string list \<Rightarrow> (ws_call \<times> string \<times> string) option" where
  \<comment> \<open>the call with the path values \<open>slug\<close> and \<open>email\<close>\<close>
  "ws_route m path = (case path of
     [a, b, slug] \<Rightarrow> if a = ''api'' \<and> b = ''workspace'' \<and> is_get m then Some (CallCenter, slug, []) else None
   | [a, b, slug, op] \<Rightarrow>
       if \<not> (a = ''api'' \<and> b = ''workspace'') then None
       else if op = ''auth'' \<and> is_get m then Some (CallAuth, slug, [])
       else if op = ''login'' \<and> m = ''POST'' then Some (CallLogin, slug, [])
       else if op = ''logout'' \<and> m = ''POST'' then Some (CallLogout, slug, [])
       else if op = ''users'' \<and> is_get m then Some (CallUsers, slug, [])
       else if op = ''users'' \<and> m = ''POST'' then Some (CallAddUser, slug, [])
       else if op = ''agents'' \<and> is_get m then Some (CallAgents, slug, [])
       else if op = ''owner'' \<and> is_get m then Some (CallOwner, slug, [])
       else if op = ''owned-workspaces'' \<and> is_get m then Some (CallOwned, slug, [])
       else None
   | [a, b, slug, u, email] \<Rightarrow>
       if a = ''api'' \<and> b = ''workspace'' \<and> u = ''users'' \<and> m = ''DELETE'' then Some (CallRemoveUser, slug, email) else None
   | [a, b, slug, u, email, p] \<Rightarrow>
       if a = ''api'' \<and> b = ''workspace'' \<and> u = ''users'' \<and> p = ''password'' \<and> m = ''POST'' then Some (CallResetPassword, slug, email) else None
   | _ \<Rightarrow> None)"

definition ws_handle :: "('s, 'r) ws \<Rightarrow> ws_call \<Rightarrow> ws_request \<Rightarrow> ws_env \<Rightarrow> ('s, 'r) ws_state \<Rightarrow> resp \<times> ('s, 'r) ws_state" where
  "ws_handle c call = (case call of
     CallCenter \<Rightarrow> getCenter c | CallAuth \<Rightarrow> handleAuthInfo c | CallLogin \<Rightarrow> handleLogin c | CallLogout \<Rightarrow> handleLogout c
   | CallUsers \<Rightarrow> listUsers c | CallAddUser \<Rightarrow> addUser c | CallRemoveUser \<Rightarrow> removeUser c | CallResetPassword \<Rightarrow> resetPassword c
   | CallAgents \<Rightarrow> listAgents c | CallOwner \<Rightarrow> handleOwner c | CallOwned \<Rightarrow> handleOwnedWorkspaces c)"

definition legacy_target :: "string \<Rightarrow> string \<Rightarrow> web_request \<Rightarrow> string" where
  \<comment> \<open>\<open>legacyRedirect\<close>: where it points\<close>
  "legacy_target oldPrefix newPrefix r = (let newPath = newPrefix @ trim_prefix oldPrefix (hr_Path r)
     in if hr_Query r \<noteq> [] then newPath @ ''?'' @ hr_Query r else newPath)"

datatype reply = ApiReply resp | Health | LegacyMoved string | StaticReply "string option \<times> served"

record sites =
  st_branding :: brandingHandler
  st_root :: tree
  st_disk :: tree

definition static_reply :: "sites \<Rightarrow> web_request \<Rightarrow> reply" where
  "static_reply s r = StaticReply (serve_static (st_branding s) (st_root s) (st_disk s) (is_get (hr_Method r))
     \<lparr>sr_path = hr_Path r, sr_query = hr_Query r\<rparr>)"

definition ws_request_of :: "web_request \<Rightarrow> string \<Rightarrow> string \<Rightarrow> ws_request" where
  "ws_request_of r slug email = \<lparr>wq_slug = slug, wq_email = email, wq_cookie = hr_cookie r, wq_Body = hr_Body r\<rparr>"

definition ws_serve :: "('s, 'r) ws \<Rightarrow> sites \<Rightarrow> web_request \<Rightarrow> ws_env \<Rightarrow> ('s, 'r) ws_state \<Rightarrow> reply \<times> ('s, 'r) ws_state" where
  "ws_serve c s r en st = (case ws_route (hr_Method r) (hr_segments r) of
     Some (call, slug, email) \<Rightarrow> apfst ApiReply (ws_handle c call (ws_request_of r slug email) en st)
   | None \<Rightarrow>
       if hr_segments r = [''healthz''] \<and> is_get (hr_Method r) then (Health, st)
       else if has_prefix ''/api/center/'' (hr_Path r) then (LegacyMoved (legacy_target ''/api/center/'' ''/api/workspace/'' r), st)
       else if has_prefix ''/center/'' (hr_Path r) then (LegacyMoved (legacy_target ''/center/'' ''/workspace/'' r), st)
       else if has_prefix ''/center-assets/'' (hr_Path r) then (LegacyMoved (legacy_target ''/center-assets/'' ''/workspace-assets/'' r), st)
       else (static_reply s r, st))"

subsection \<open>The other servers\<close>

datatype chat_call = ChatLogin | ChatLogout | ChatMe | ChatWS

definition chat_route :: "string \<Rightarrow> string list \<Rightarrow> (chat_call \<times> string) option" where
  "chat_route m path = (case path of
     [a, b, slug, op] \<Rightarrow>
       if \<not> (a = ''api'' \<and> b = ''chat'') then None
       else if op = ''login'' \<and> m = ''POST'' then Some (ChatLogin, slug)
       else if op = ''logout'' \<and> m = ''POST'' then Some (ChatLogout, slug)
       else if op = ''me'' \<and> is_get m then Some (ChatMe, slug) else None
   | [a, slug, op] \<Rightarrow> if a = ''chat'' \<and> op = ''ws'' \<and> is_get m then Some (ChatWS, slug) else None
   | _ \<Rightarrow> None)"

definition status_route :: "string \<Rightarrow> string list \<Rightarrow> string option" where
  \<comment> \<open>the slug for \<open>getStatus\<close>\<close>
  "status_route m path = (case path of
     [a, b, slug] \<Rightarrow> if a = ''api'' \<and> b = ''status'' \<and> is_get m then Some slug else None | _ \<Rightarrow> None)"

definition admin_route :: "string \<Rightarrow> string list \<Rightarrow> (admin_call \<times> string) option" where
  "admin_route m path = (case path of
     [a, b] \<Rightarrow> if a = ''api'' \<and> b = ''instances'' \<and> is_get m then Some (CallList, []) else None
   | [a, b, name] \<Rightarrow> if a = ''api'' \<and> b = ''instances'' \<and> is_get m then Some (CallGet, name) else None
   | [a, b, name, op] \<Rightarrow>
       if a = ''api'' \<and> b = ''instances'' \<and> m = ''POST''
       then (if op = ''suspend'' then Some (CallSuspend, name) else if op = ''resume'' then Some (CallResume, name) else None)
       else None
   | _ \<Rightarrow> None)"

definition admin_serve :: "admin_server \<Rightarrow> string \<Rightarrow> string list \<Rightarrow> string \<Rightarrow> kube \<Rightarrow> (admin_resp \<times> kube) option" where
  \<comment> \<open>of method, path and the \<open>Authorization\<close> header; \<open>None\<close>: a static page\<close>
  "admin_serve c m path auth w = (case admin_route m path of None \<Rightarrow> None
     | Some (call, name) \<Rightarrow> Some (admin_handle c call \<lparr>aq_name = name, aq_Authorization = auth\<rparr> w))"

datatype onb_call = OnbAuth | OnbCreate | OnbSignup | OnbVerify

definition onb_route :: "string \<Rightarrow> string list \<Rightarrow> onb_call option" where
  "onb_route m path =
     (if path = [''api'', ''auth''] \<and> is_get m then Some OnbAuth
      else if path = [''api'', ''instances''] \<and> m = ''POST'' then Some OnbCreate
      else if path = [''api'', ''signup''] \<and> m = ''POST'' then Some OnbSignup
      else if path = [''api'', ''signup'', ''verify''] \<and> is_get m then Some OnbVerify
      else None)"

datatype onb_resp = OnbUnauthorized  \<comment> \<open>\<open>http.Error\<close>\<close> | OnbResp resp

definition onb_guarded :: "('s, 'w) onb \<Rightarrow> request \<Rightarrow> (kube \<Rightarrow> resp \<times> kube) \<Rightarrow> ('s, 'w) onb_state \<Rightarrow> onb_resp \<times> ('s, 'w) onb_state" where
  \<comment> \<open>\<open>requireAuth(h)\<close>\<close>
  "onb_guarded c r h st =
     (if \<not> requireAuth c r then (OnbUnauthorized, st)
      else (case h (os_kube st) of (rs, w) \<Rightarrow> (OnbResp rs, st\<lparr>os_kube := w\<rparr>)))"

definition onb_handle :: "('s, 'w) onb \<Rightarrow> onb_call \<Rightarrow> request \<Rightarrow> entropy \<Rightarrow> ('s, 'w) onb_state \<Rightarrow> onb_resp \<times> ('s, 'w) onb_state" where
  "onb_handle c call r en st = (case call of
     OnbAuth \<Rightarrow> onb_guarded c r (Pair (writeJSON 200 (str_obj [(''namespace'', on_namespace c)]))) st
   | OnbCreate \<Rightarrow> onb_guarded c r (createInstance c r en) st
   | OnbSignup \<Rightarrow> apfst OnbResp (handleSignup c r en st)
   | OnbVerify \<Rightarrow> apfst OnbResp (handleVerify c r en st))"

definition onb_main :: "process \<Rightarrow> (string \<Rightarrow> bool) \<Rightarrow> ('s, 'w) onb \<Rightarrow>
    (string \<times> ('s, 'w) onb \<times> (mem_store \<times> disk \<times> (string \<times> rl_bucket) list) option) option" where
  \<comment> \<open>the last argument holds the libraries; \<open>setupSignup\<close> gives the accounts, the mail directory and the rate limiter\<close>
  "onb_main p mkdir c =
     (if pr_env p ''ADMIN_TOKEN'' = [] then None
      else (case setupSignup (pr_env p) mkdir (pr_random p) of Inl _ \<Rightarrow> None
        | Inr (cfg, parts) \<Rightarrow>
            Some (envDefault (pr_env p ''ADDR'') '':8080'',
              c\<lparr>on_namespace := envDefault (pr_env p ''SWARM_NAMESPACE'') ''emai-swarm'', on_token := pr_env p ''ADMIN_TOKEN'',
                on_signup := cfg, on_dyn := pr_dyn p\<rparr>, parts)))"

end
