(* ===== verification/ServersSafety.thy ===== *)
theory ServersSafety
  imports Servers ChatSafety
begin

text \<open>
  What holds of the programs as they are started and routed: the insecure mode stays on the machine, what a
  request to the workspace server can change and by whom, and that a workspace server as shipped knows no account.
\<close>

section \<open>What a request changes\<close>

definition keeps :: "('s, 'r) ws_state \<Rightarrow> ('s, 'r) ws_state \<Rightarrow> bool" where
  \<comment> \<open>the accounts and the stored objects\<close>
  "keeps st st' \<longleftrightarrow> wt_users st' = wt_users st \<and> same_objects (wt_kube st) (wt_kube st')"

lemma keeps_refl [simp]: "keeps st st"
  by (simp add: keeps_def)

lemma keeps_trans: "keeps st st' \<Longrightarrow> keeps st' st'' \<Longrightarrow> keeps st st''"
  by (auto simp: keeps_def intro: same_objects_trans)

lemma keeps_kube: "same_objects (wt_kube st) w \<Longrightarrow> keeps st (st\<lparr>wt_kube := w\<rparr>)"
  by (simp add: keeps_def)

lemma keeps_rev [simp]: "keeps st (st'\<lparr>wt_rev := t\<rparr>) = keeps st st'"
  by (simp add: keeps_def)

lemma keeps_then: "keeps st st1 \<Longrightarrow> same_objects (wt_kube st1) w \<Longrightarrow> keeps st (st1\<lparr>wt_kube := w\<rparr>)"
  by (auto simp: keeps_def intro: same_objects_trans)

lemma authedClaims_keeps: "authedClaims c r slug t st = (cl, st1) \<Longrightarrow> keeps st st1"
  using readJWTSecret_keeps[of c slug "wt_kube st"]
  by (auto simp: authedClaims_def resolveJWTSecret_def Let_def intro: keeps_kube split: option.splits prod.splits if_splits bool.splits)

lemma requireCenterAuth_keeps: "requireCenterAuth c r slug t st = (b, st1) \<Longrightarrow> keeps st st1"
  by (auto simp: requireCenterAuth_def dest: authedClaims_keeps split: if_splits prod.splits)

lemma requireCenterAuth_session:
  "requireCenterAuth c r slug t st = (True, st1) \<Longrightarrow> \<not> ws_demoMode c \<Longrightarrow> \<not> slug_rejected slug \<and> fst (authedClaims c r slug t st) \<noteq> None"
  by (auto simp: requireCenterAuth_def split: if_splits prod.splits)

lemma page_reads:
  "same_objects w (snd (loadProfile c slug w))" "same_objects w (snd (loadBriefings c slug w))" "same_objects w (snd (agentSource c slug w))"
proof -
  have c: "same_objects w w'" if "cm_get nn w = (x, w')" for nn x w' using reads_keep(5)[of w nn] that by simp
  have k: "same_objects w w'" if "kc_get nn w = (x, w')" for nn x w' using reads_keep(1)[of w nn] that by simp
  show "same_objects w (snd (loadProfile c slug w))" "same_objects w (snd (loadBriefings c slug w))"
    by (auto simp: loadProfile_def loadBriefings_def split: prod.split sum.split option.split dest!: c)
  show "same_objects w (snd (agentSource c slug w))"
    by (auto simp: agentSource_def split: prod.split sum.split dest!: k)
qed

lemma needs_setup_keeps: "same_objects w (snd (needs_setup c slug w))"
proof -
  obtain b w1 where b: "loadKaiBinding c slug w = (b, w1)" by fastforce
  obtain u w2 where u: "readUsersSecret c slug w1 = (u, w2)" by fastforce
  have "same_objects w w1" "same_objects w w2"
    using loadKaiBinding_keeps[OF b] readUsersSecret_keeps[OF u] same_objects_trans by blast+
  then show ?thesis by (auto simp: needs_setup_def b u split: sum.split)
qed

lemma reads_keep_state:
  assumes "call = CallCenter \<or> call = CallAuth \<or> call = CallUsers \<or> call = CallAgents \<or> call = CallOwner \<or> call = CallOwned \<or> call = CallLogout"
  shows "keeps st (snd (ws_handle c call r en st))"
proof -
  have center: "keeps st (snd (getCenter c r en st))"
  proof -
    obtain b st1 where a: "requireCenterAuth c r (wq_slug r) (we_now en) st = (b, st1)" by fastforce
    obtain k w where k: "kc_get (ws_namespace c, ''kai-'' @ wq_slug r) (wt_kube st1) = (k, w)" by fastforce
    obtain p w1 where p: "loadProfile c (wq_slug r) w = (p, w1)" by fastforce
    obtain q w2 where q: "loadBriefings c (wq_slug r) w1 = (q, w2)" by fastforce
    have "same_objects (wt_kube st1) w" "same_objects w w1" "same_objects w1 w2"
      using reads_keep(1)[of "wt_kube st1"] page_reads(1)[of w c "wq_slug r"] page_reads(2)[of w1 c "wq_slug r"] k p q by (metis snd_conv)+
    then have "keeps st (st1\<lparr>wt_kube := w\<rparr>)" "keeps st (st1\<lparr>wt_kube := w2\<rparr>)" "keeps st st1"
      using requireCenterAuth_keeps[OF a] by (blast intro: keeps_then same_objects_trans)+
    then show ?thesis by (auto simp: getCenter_def Let_def a k[simplified] p q split_beta split: bool.split sum.split)
  qed
  have agents: "keeps st (snd (listAgents c r en st))"
  proof -
    obtain b st1 where a: "requireCenterAuth c r (wq_slug r) (we_now en) st = (b, st1)" by fastforce
    obtain d w where d: "cm_get (ws_namespace c, ''kai-'' @ wq_slug r @ ''-identity'') (wt_kube st1) = (d, w)" by fastforce
    obtain p w1 where p: "agentSource c (wq_slug r) w = (p, w1)" by fastforce
    have "same_objects (wt_kube st1) w" "same_objects w w1"
      using reads_keep(5)[of "wt_kube st1"] page_reads(3)[of w c "wq_slug r"] d p by (metis snd_conv)+
    then have "keeps st (st1\<lparr>wt_kube := w\<rparr>)" "keeps st (st1\<lparr>wt_kube := w1\<rparr>)" "keeps st st1"
      using requireCenterAuth_keeps[OF a] by (blast intro: keeps_then same_objects_trans)+
    then show ?thesis by (auto simp: listAgents_def Let_def a d[simplified] p split_beta split: bool.split sum.split)
  qed
  have rest: "keeps st (snd (handleAuthInfo c r en st))" "keeps st (snd (handleOwner c r en st))" "keeps st (snd (handleOwnedWorkspaces c r en st))"
  proof -
    obtain cl st1 where a: "authedClaims c r (wq_slug r) (we_now en) st = (cl, st1)" by fastforce
    note k = authedClaims_keeps[OF a]
    have n: "keeps st (st1\<lparr>wt_kube := snd (needs_setup c (wq_slug r) (wt_kube st1))\<rparr>)"
      by (rule keeps_then[OF k needs_setup_keeps])
    show "keeps st (snd (handleAuthInfo c r en st))"
      using k n by (auto simp: handleAuthInfo_def Let_def a split_beta split: option.split)
    obtain b w where b: "loadKaiBinding c (wq_slug r) (wt_kube st1) = (b, w)" by fastforce
    show "keeps st (snd (handleOwner c r en st))"
      using k keeps_then[OF k loadKaiBinding_keeps[OF b]] by (auto simp: handleOwner_def Let_def a b split: option.split sum.split)
    have "keeps st (st1\<lparr>wt_kube := snd (kc_list ns l v (wt_kube st1))\<rparr>)" for ns l v by (rule keeps_then[OF k reads_keep(2)])
    then show "keeps st (snd (handleOwnedWorkspaces c r en st))"
      using k by (auto simp: handleOwnedWorkspaces_def Let_def a split_beta split: option.split sum.split)
  qed
  have users: "keeps st (snd (listUsers c r en st))"
  proof -
    obtain b st1 where a: "requireCenterAuth c r (wq_slug r) (we_now en) st = (b, st1)" by fastforce
    obtain u w where u: "readUsersSecret c (wq_slug r) (wt_kube st1) = (u, w)" by fastforce
    note k = requireCenterAuth_keeps[OF a]
    show ?thesis using k keeps_then[OF k readUsersSecret_keeps[OF u]] by (auto simp: listUsers_def a u split: bool.split sum.split)
  qed
  have logout: "keeps st (snd (handleLogout c r en st))"
    by (auto simp: handleLogout_def keeps_def split: option.split)
  show ?thesis using assms center agents rest users logout by (auto simp: ws_handle_def)
qed

definition only_users :: "('s, 'r) ws \<Rightarrow> string \<Rightarrow> kube \<Rightarrow> kube \<Rightarrow> bool" where
  \<comment> \<open>at most the user list of the workspace differs\<close>
  "only_users c slug w w' \<longleftrightarrow> kb_kais w' = kb_kais w \<and> kb_cms w' = kb_cms w
     \<and> (\<forall>nn. nn \<noteq> users_secret c slug \<longrightarrow> map_of (kb_secrets w') nn = map_of (kb_secrets w) nn)"

lemma only_users_same: "same_objects w w' \<Longrightarrow> only_users c slug w w'"
  by (simp add: only_users_def same_objects_def)

lemma only_users_after: "same_objects w w1 \<Longrightarrow> only_users c slug w1 w' \<Longrightarrow> only_users c slug w w'"
  by (simp add: only_users_def same_objects_def)

lemma update_only_users:
  assumes "updateUsersSecret c slug fn (\<lambda>w. w) w = (e, w')"
  shows "only_users c slug w w'"
proof -
  obtain u w1 where u: "readUsersSecret c slug w = (u, w1)" by fastforce
  note k = readUsersSecret_keeps[OF u]
  have "only_users c slug w1 w2" if "ks_update (users_secret c slug) sec w1 = (x, w2)" for sec x w2
    using ks_update_cases[OF that] by (cases x) (auto simp: only_users_def)
  then show ?thesis using assms k
    by (auto simp: updateUsersSecret_def u split: sum.splits prod.splits option.splits intro: only_users_same only_users_after)
qed

definition changes_list :: "('s, 'r) ws \<Rightarrow> string \<Rightarrow> ('s, 'r) ws_state \<Rightarrow> ('s, 'r) ws_state \<Rightarrow> bool" where
  "changes_list c slug st st' \<longleftrightarrow> wt_users st' = wt_users st \<and> only_users c slug (wt_kube st) (wt_kube st')"

lemma changes_list_keeps: "keeps st st' \<Longrightarrow> changes_list c slug st st'"
  by (simp add: keeps_def changes_list_def only_users_same)

lemma changes_list_update:
  "keeps st st1 \<Longrightarrow> updateUsersSecret c slug fn (\<lambda>w. w) (wt_kube st1) = (e, w) \<Longrightarrow> changes_list c slug st (st1\<lparr>wt_kube := w\<rparr>)"
  by (auto simp: keeps_def changes_list_def intro: only_users_after update_only_users)

lemma admin_changes:
  assumes "call = CallAddUser \<or> call = CallRemoveUser \<or> call = CallResetPassword" "we_other en = (\<lambda>w. w)"
    and "ws_handle c call r en st = (rs, st')"
  shows "changes_list c (wq_slug r) st st' \<and> (\<not> keeps st st' \<longrightarrow> fst (requireCenterAuth c r (wq_slug r) (we_now en) st))"
proof -
  obtain b st1 where a: "requireCenterAuth c r (wq_slug r) (we_now en) st = (b, st1)" by fastforce
  note k = requireCenterAuth_keeps[OF a]
  note u = changes_list_update[OF k]
  note l = changes_list_keeps[OF k]
  show ?thesis
  proof (cases b)
    case False
    then have "st' = st1" using assms(1,3) by (auto simp: ws_handle_def addUser_def removeUser_def resetPassword_def Let_def a)
    then show ?thesis using k l by simp
  next
    case True
    have "changes_list c (wq_slug r) st st'"
      using assms True l[of c "wq_slug r"]
      by (auto simp: ws_handle_def addUser_def removeUser_def resetPassword_def Let_def a
          intro: u split: if_splits option.splits list.splits prod.splits)
    then show ?thesis using True by (simp add: a)
  qed
qed

lemma bootstrap_changes:
  assumes "we_other en = (\<lambda>w. w)" "we_race en = (\<lambda>w. w)"
  shows "only_users c slug w (snd (bootstrapAdmin c slug email pw secret en w))"
  using assms by (auto simp: bootstrapAdmin_def Let_def intro: only_users_same update_only_users split: option.split prod.split)

definition open_list :: "('s, 'r) ws \<Rightarrow> string \<Rightarrow> kube \<Rightarrow> bool" where
  \<comment> \<open>an internal workspace whose user list is empty\<close>
  "open_list c slug w \<longleftrightarrow> (\<exists>k sec. map_of (kb_kais w) (ws_namespace c, ''kai-'' @ slug) = Some k \<and> \<not> saas_managed k
     \<and> map_of (kb_secrets w) (users_secret c slug) = Some sec \<and> users_in sec = Some [])"

lemma login_changes:
  assumes "\<not> ws_demoMode c" "we_other en = (\<lambda>w. w)" "we_race en = (\<lambda>w. w)"
  shows "only_users c slug w (snd (login_kube c slug email pw en us w))
    \<and> (\<not> same_objects w (snd (login_kube c slug email pw en us w)) \<longrightarrow> open_list c slug w)"
proof -
  obtain b w1 where b: "loadKaiBinding c slug w = (b, w1)" by fastforce
  obtain j w2 where j: "readJWTSecret c slug w1 = (j, w2)" by fastforce
  obtain u w3 where u: "readUsersSecret c slug w2 = (u, w3)" by fastforce
  have k: "same_objects w w1" "same_objects w w2" "same_objects w w3"
    using loadKaiBinding_keeps[OF b] readJWTSecret_keeps[OF j] readUsersSecret_keeps[OF u] same_objects_trans by blast+
  note ks = k k[THEN only_users_same]
  show ?thesis
  proof (cases "\<exists>bi secret sec. b = Inr bi \<and> j = Some secret \<and> \<not> IsSaaS bi \<and> u = Inr ([], sec)")
    case True
    then obtain bi secret sec where e: "b = Inr bi" "j = Some secret" "\<not> IsSaaS bi" "u = Inr ([], sec)" by blast
    obtain kai where kai: "map_of (kb_kais w) (ws_namespace c, ''kai-'' @ slug) = Some kai"
      "bi = \<lparr>bi_Managed = sp_Managed (k_Spec kai), bi_UserRef = sp_UserRef (k_Spec kai)\<rparr>"
      using loadKaiBinding_Inr[OF b[unfolded e(1)] assms(1)] by blast
    have "open_list c slug w"
      unfolding open_list_def using kai e(3) readUsersSecret_Inr(1,2)[OF u[unfolded e(4)]] k by (auto simp: IsSaaS_def same_objects_def)
    moreover have "login_kube c slug email pw en us w = bootstrapAdmin c slug email pw secret en w3"
      using b j u e by (simp add: login_kube_def)
    ultimately show ?thesis using only_users_after[OF k(3) bootstrap_changes[OF assms(2,3)]] by simp
  next
    case False
    then have "snd (login_kube c slug email pw en us w) \<in> {w1, w2, w3}"
      by (auto simp: login_kube_def b j u split: sum.split option.split prod.split)
    then show ?thesis using ks by blast
  qed
qed

lemma handleLogin_changes:
  assumes "\<not> ws_demoMode c" "we_other en = (\<lambda>w. w)" "we_race en = (\<lambda>w. w)" "handleLogin c r en st = (rs, st')"
  shows "changes_list c (wq_slug r) st st' \<and> (\<not> keeps st st' \<longrightarrow> \<not> slug_rejected (wq_slug r) \<and> open_list c (wq_slug r) (wt_kube st))"
proof -
  have "st' = st \<or> \<not> slug_rejected (wq_slug r)
      \<and> (\<exists>em pw. st' = st\<lparr>wt_kube := snd (login_kube c (wq_slug r) em pw en (wt_users st) (wt_kube st))\<rparr>)"
    using assms(1,4) by (auto simp: handleLogin_def Let_def split_beta split: if_splits option.splits list.splits)
  then show ?thesis
    using login_changes[OF assms(1-3), of "wq_slug r" "wt_kube st"] by (auto simp: changes_list_def keeps_def only_users_same)
qed

section \<open>The workspace server as a whole\<close>


section \<open>As shipped\<close>

inductive ws_reach :: "('s, 'r) ws \<Rightarrow> sites \<Rightarrow> ('s, 'r) ws_state \<Rightarrow> ('s, 'r) ws_state \<Rightarrow> bool" for c s where
  start: "ws_reach c s st st"
| serve: "ws_reach c s st st1 \<Longrightarrow> ws_reach c s st (snd (ws_serve c s r en st1))"
| others: "ws_reach c s st st1 \<Longrightarrow> ws_reach c s st (st1\<lparr>wt_kube := w\<rparr>)"

lemma ws_handle_users: "wt_users (snd (ws_handle c call r en st)) = wt_users st"
proof -
  obtain b st1 where a: "requireCenterAuth c r (wq_slug r) (we_now en) st = (b, st1)" by fastforce
  have u: "wt_users st1 = wt_users st" using requireCenterAuth_keeps[OF a] by (simp add: keeps_def)
  have admin: "wt_users (snd (addUser c r en st)) = wt_users st" "wt_users (snd (removeUser c r en st)) = wt_users st"
    "wt_users (snd (resetPassword c r en st)) = wt_users st"
    using u by (auto simp: addUser_def removeUser_def resetPassword_def Let_def a split: bool.split option.split list.split prod.split)
  have login: "wt_users (snd (handleLogin c r en st)) = wt_users st"
    by (auto simp: handleLogin_def Let_def split: option.split list.split prod.split)
  show ?thesis using admin login reads_keep_state[of call st c r en] by (cases call) (auto simp: ws_handle_def keeps_def)
qed

lemma ws_reach_users: "ws_reach c s st st' \<Longrightarrow> wt_users st' = wt_users st"
proof (induction rule: ws_reach.induct)
  case (serve st st1 r en)
  then show ?case by (auto simp: ws_serve_def ws_handle_users split: option.split)
qed simp_all

text \<open>C14: the workspace server as shipped knows no account: started by \<open>main\<close>, in no state any sequence of requests and of changes in the
  cluster leads to does a login at a SaaS workspace answer with a session, because its user store is a fresh one in its own
  memory that none of its calls fills.\<close>

theorem saas_login_needs_shared_store:
  assumes "ws_main l p = Some (addr, c, us)" "\<not> ws_demoMode c" "ws_reach c s \<lparr>wt_users = us, wt_kube = w, wt_rev = rv\<rparr> st"
    and "map_of (kb_kais (wt_kube st)) (ws_namespace c, ''kai-'' @ wq_slug r) = Some k" "saas_managed k"
  shows "rs_cookies (fst (handleLogin c r en st)) = []"
proof (rule ccontr)
  assume n: "rs_cookies (fst (handleLogin c r en st)) \<noteq> []"
  have c: "ws_store c = Some (MemoryStore (lb_parse l))" "us = []"
    using assms(1) by (auto simp: ws_main_def Let_def split: option.splits)
  have u: "wt_users st = []" using ws_reach_users[OF assms(3)] c(2) by simp
  obtain em pw where "entitled c (wq_slug r) (Workspace.norm em) pw k (wt_users st) (wt_kube st) en (fst (handleLogin c r en st))"
    using handleLogin_entitled[OF assms(2) surjective_pairing n] assms(4) by auto
  then obtain v where "owns c (Workspace.norm em) pw k (wt_users st) v" using assms(5) by (auto simp: entitled_def)
  then show False by (auto simp: owns_def u c(1) MemoryStore_def mem_GetByEmail_def)
qed

section \<open>The insecure mode\<close>

definition local_address :: "(string \<Rightarrow> bool) \<Rightarrow> string \<Rightarrow> bool" where
  "local_address loopback addr \<longleftrightarrow> (\<exists>h. SplitHostPort addr = Some h \<and> h \<noteq> [] \<and> (h = ''localhost'' \<or> loopback h))"

lemma dev_secret_local:
  assumes "dev_secret p = Some x" "\<not> local_address (pr_loopback p) (envDefault (pr_env p ''ADDR'') '':8080'')"
  shows "\<not> envTrue (pr_env p ''KAI_INSECURE_DEV_AUTH'')"
  using assms requireLoopback_host unfolding local_address_def dev_secret_def by (metis option.distinct(1))


section \<open>A plain deployment\<close>

text \<open>The workspace \<open>acme\<close> of the other theories, served by processes with an empty environment.\<close>

definition plain_process :: process where
  "plain_process = \<lparr>pr_env = (\<lambda>_. []), pr_loopback = (\<lambda>_. False), pr_random = None, pr_dyn = True, pr_core = True\<rparr>"

definition plain_libs :: "revocation_lists libs" where
  "plain_libs = \<lparr>lb_hmac = (\<lambda>k m. k @ m), lb_argon = (\<lambda>p s _ _ _ _. p), lb_version = 19, lb_parse = (\<lambda>s. CHR ''@'' \<in> set s),
     lb_stamp = (\<lambda>_. ''2026-01-01T00:00:00Z''), lb_memory = sr_api (sort_key e_Exp), lb_secret = (\<lambda>_. sr_api (sort_key e_Exp))\<rparr>"

lemma plain_env: "\<not> envTrue []" "envDefault [] d = d" "dev_secret plain_process = Some []"
proof -
  show e: "\<not> envTrue []" by code_simp
  then show "dev_secret plain_process = Some []" by (simp add: dev_secret_def plain_process_def)
qed (simp add: envDefault_def)

lemma plain_main:
  "ws_main plain_libs plain_process = Some ('':8080'', sws, [])" "chat_main plain_libs plain_process = Some ('':8080'', chat_demo)"
  using plain_env by (simp_all add: ws_main_def chat_main_def chosen_revoker_def Let_def)
    (simp_all add: plain_process_def plain_libs_def sws_def demo_ws_def chat_demo_def)

definition no_sites :: sites where
  "no_sites = \<lparr>st_branding = \<lparr>overrideDir = [], defaults = (\<lambda>_. None)\<rparr>, st_root = (\<lambda>_. None), st_disk = (\<lambda>_. None)\<rparr>"

definition anonymous_delete :: web_request where
  "anonymous_delete = \<lparr>hr_Method = ''DELETE'', hr_segments = [''api'', ''workspace'', ''acme'', ''users'', ''ann@acme.de''],
     hr_Path = ''/api/workspace/acme/users/ann@acme.de'', hr_Query = [], hr_cookie = None, hr_Body = []\<rparr>"


corollary saas_login_needs_shared_store_witness:
  "rs_cookies (fst (handleLogin sws mal_login calm_env (saas_state []))) = []"
proof -
  have k: "map_of (kb_kais (wt_kube (saas_state []))) (ws_namespace sws, ''kai-'' @ wq_slug mal_login) = Some saas_kai" "saas_managed saas_kai"
    by (simp_all add: saas_state_def sws_simps(5) mal_login_def saas_kai_def)
  have "ws_reach sws no_sites \<lparr>wt_users = [], wt_kube = wt_kube (saas_state []), wt_rev = \<lambda>_. []\<rparr> (saas_state [])"
    using ws_reach.start[of sws no_sites "saas_state []"] by (simp add: saas_state_def)
  from saas_login_needs_shared_store[OF plain_main(1) sws_simps(1) this k] show ?thesis .
qed


end
