(* ===== verification/Swarm.thy ===== *)
theory Swarm
  imports ServersSafety SignupSafety Bridge Convergence
begin

text \<open>
  The whole installation: the five web servers and the operator on one cluster, each request, each reconcile and each act of
  anybody else on the cluster one step, in any order.  A request of the workspace server may be overtaken by
  others between its calls; all calls may fail.
\<close>

section \<open>The installation\<close>

record 'r deployment =
  dp_ws :: "(mem_store, 'r) ws"
  dp_sites :: sites
  dp_chat :: "'r chat"
  dp_status :: status_server
  dp_admin :: admin_server
  dp_onb :: "(mem_store, message list) onb"
  dp_rc :: reconciler

record 'r swarm =
  sw_kube :: kube
  sw_objs :: "okey \<Rightarrow> obj option"  \<comment> \<open>the operator's child objects\<close>
  sw_accounts :: mem_store  \<comment> \<open>in the onboarding server\<close>
  sw_limits :: "(string \<times> rl_bucket) list"
  sw_mail :: "message list"
  sw_known :: mem_store  \<comment> \<open>the accounts in the workspace server\<close>
  sw_rev :: 'r

definition ws_view :: "'r swarm \<Rightarrow> (mem_store, 'r) ws_state" where
  "ws_view s = \<lparr>wt_users = sw_known s, wt_kube = sw_kube s, wt_rev = sw_rev s\<rparr>"

definition chat_part :: "'r swarm \<Rightarrow> 'r chat_state" where
  "chat_part s = \<lparr>ct_kube = sw_kube s, ct_rev = sw_rev s\<rparr>"

definition onb_part :: "'r swarm \<Rightarrow> (mem_store, message list) onb_state" where
  "onb_part s = \<lparr>os_users = sw_accounts s, os_rl = sw_limits s, os_kube = sw_kube s, os_mail = sw_mail s\<rparr>"

definition minted :: "string \<Rightarrow> bool" where
  \<comment> \<open>an identifier \<open>NewID\<close> can give\<close>
  "minted i \<longleftrightarrow> (\<exists>t bs. length bs = 10 \<and> newIDAt t (Some bs) = Some i)"

definition random_ok :: "entropy \<Rightarrow> bool" where
  "random_ok en \<longleftrightarrow> (\<forall>i. en_id en = Some i \<longrightarrow> minted i) \<and> (\<forall>b. en_token en = Some b \<longrightarrow> length b = 24)"

definition spares_instances :: "(kube \<Rightarrow> kube) \<Rightarrow> bool" where
  "spares_instances f \<longleftrightarrow> (\<forall>w. kb_kais (f w) = kb_kais w)"

inductive swarm_step :: "'r deployment \<Rightarrow> 'r swarm \<Rightarrow> 'r swarm \<Rightarrow> bool" for d where
  workspace: "ws_serve (dp_ws d) (dp_sites d) r en (ws_view s) = (rep, st) \<Longrightarrow> spares_instances (we_other en) \<Longrightarrow> spares_instances (we_race en)
    \<Longrightarrow> swarm_step d s (s\<lparr>sw_kube := wt_kube st, sw_known := wt_users st, sw_rev := wt_rev st\<rparr>)"
| chat_login: "chat_handleLogin (dp_chat d) r en (chat_part s) = (rs, st) \<Longrightarrow> swarm_step d s (s\<lparr>sw_kube := ct_kube st, sw_rev := ct_rev st\<rparr>)"
| chat_logout: "chat_handleLogout (dp_chat d) r en (chat_part s) = (rs, st) \<Longrightarrow> swarm_step d s (s\<lparr>sw_kube := ct_kube st, sw_rev := ct_rev st\<rparr>)"
| chat_me: "chat_handleMe (dp_chat d) r en (chat_part s) = (rs, st) \<Longrightarrow> swarm_step d s (s\<lparr>sw_kube := ct_kube st, sw_rev := ct_rev st\<rparr>)"
| chat_bridge: "handleWS (dp_chat d) be r now (chat_part s) = (out, st) \<Longrightarrow> swarm_step d s (s\<lparr>sw_kube := ct_kube st, sw_rev := ct_rev st\<rparr>)"
| status: "getStatus (dp_status d) q (sw_kube s) = (rs, w) \<Longrightarrow> swarm_step d s (s\<lparr>sw_kube := w\<rparr>)"
| admin: "admin_serve (dp_admin d) m path auth (sw_kube s) = Some (res, w) \<Longrightarrow> swarm_step d s (s\<lparr>sw_kube := w\<rparr>)"
| onboarding: "onb_handle (dp_onb d) call rq en' (onb_part s) = (rs', ost) \<Longrightarrow> random_ok en'
    \<Longrightarrow> swarm_step d s (s\<lparr>sw_kube := os_kube ost, sw_accounts := os_users ost, sw_limits := os_rl ost, sw_mail := os_mail ost\<rparr>)"
| operator: "Reconcile (dp_rc d) inp nn \<lparr>w_kais = map_of (kb_kais (sw_kube s)), w_objs = sw_objs s, w_faults = fs\<rparr> = (res', x)
    \<Longrightarrow> map_of ks = w_kais x \<Longrightarrow> swarm_step d s (s\<lparr>sw_kube := (sw_kube s)\<lparr>kb_kais := ks\<rparr>, sw_objs := w_objs x\<rparr>)"
| deletion: "map_of (kb_kais (sw_kube s)) nn = Some k
    \<Longrightarrow> swarm_step d s (s\<lparr>sw_kube := (sw_kube s)\<lparr>kb_kais := al_put nn (k\<lparr>k_Deleting := True\<rparr>) (kb_kais (sw_kube s))\<rparr>\<rparr>)"
| others: "kb_kais w = kb_kais (sw_kube s) \<Longrightarrow> swarm_step d s (s\<lparr>sw_kube := w, sw_objs := objs\<rparr>)"  \<comment> \<open>Secrets, ConfigMaps, children, faults\<close>

section \<open>What each server does to the instances\<close>

lemma update_spares:
  assumes "updateUsersSecret c slug fn f w = (e, w')" "spares_instances f"
  shows "kb_kais w' = kb_kais w"
proof -
  obtain u w1 where u: "readUsersSecret c slug w = (u, w1)" by fastforce
  have k: "kb_kais w1 = kb_kais w" "kb_kais (f w1) = kb_kais w"
    using readUsersSecret_keeps[OF u] assms(2) by (simp_all add: same_objects_def spares_instances_def)
  have "kb_kais w2 = kb_kais w" if "ks_update nn sec (f w1) = (x, w2)" for nn sec x w2
    using ks_update_cases[OF that] k by simp
  then show ?thesis using assms(1) k by (auto simp: updateUsersSecret_def u split: sum.splits prod.splits option.splits)
qed

lemma ws_handle_spares:
  assumes "ws_handle c call r en st = (rs, st')" "spares_instances (we_other en)" "spares_instances (we_race en)"
  shows "kb_kais (wt_kube st') = kb_kais (wt_kube st)"
proof -
  obtain b st1 where a: "requireCenterAuth c r (wq_slug r) (we_now en) st = (b, st1)" by fastforce
  have u: "kb_kais (wt_kube st1) = kb_kais (wt_kube st)" using requireCenterAuth_keeps[OF a] by (simp add: keeps_def same_objects_def)
  note up = update_spares[OF _ assms(2)]
  have admin: "kb_kais (wt_kube (snd (addUser c r en st))) = kb_kais (wt_kube st)" "kb_kais (wt_kube (snd (removeUser c r en st))) = kb_kais (wt_kube st)"
    "kb_kais (wt_kube (snd (resetPassword c r en st))) = kb_kais (wt_kube st)"
    using u by (auto simp: addUser_def removeUser_def resetPassword_def Let_def a dest!: up split: bool.split option.split list.split prod.split)
  have boot: "kb_kais (snd (bootstrapAdmin c slug em pw sec en w)) = kb_kais w" for slug em pw sec w
    using assms(3) by (auto simp: bootstrapAdmin_def Let_def spares_instances_def dest!: up split: option.split prod.split)
  have "kb_kais (snd (login_kube c slug em pw en us w)) = kb_kais w" for slug em pw us w
  proof -
    obtain b w1 where b: "loadKaiBinding c slug w = (b, w1)" by fastforce
    obtain j w2 where j: "readJWTSecret c slug w1 = (j, w2)" by fastforce
    obtain v w3 where v: "readUsersSecret c slug w2 = (v, w3)" by fastforce
    have k: "kb_kais w1 = kb_kais w" "kb_kais w2 = kb_kais w" "kb_kais w3 = kb_kais w"
      using loadKaiBinding_keeps[OF b] readJWTSecret_keeps[OF j] readUsersSecret_keeps[OF v] by (simp_all add: same_objects_def)
    then show ?thesis using boot[of slug em pw _ w3] by (auto simp: login_kube_def b j v split: sum.split option.split prod.split)
  qed
  then have login: "kb_kais (wt_kube (snd (handleLogin c r en st))) = kb_kais (wt_kube st)"
    by (auto simp: handleLogin_def Let_def split_beta split: option.split list.split)
  have "kb_kais (wt_kube (snd (ws_handle c call r en st))) = kb_kais (wt_kube st)"
    using admin login reads_keep_state[of call st c r en] by (cases call) (auto simp: ws_handle_def keeps_def same_objects_def)
  then show ?thesis by (simp add: assms(1))
qed

lemma chat_authedClaims_spares: "kb_kais (ct_kube (snd (chat_authedClaims c r slug t st))) = kb_kais (ct_kube st)"
proof -
  have "same_objects w (snd (chat_resolveJWTSecret c slug w))" for w
    using reads_keep(4)[of w "(ch_namespace c, ''kai-'' @ slug @ ''-chat-bridge'')"]
    by (auto simp: chat_resolveJWTSecret_def chat_readJWTSecret_def split: sum.splits prod.splits option.splits)
  then show ?thesis by (auto simp: chat_authedClaims_def split_beta same_objects_def split: option.split)
qed

lemma dialUpstream_spares: "kb_kais (snd (dialUpstream c en slug email w)) = kb_kais w"
proof -
  have "same_objects w (snd (loadBridgeConfig c en slug w))"
    using reads_keep(1)[of w "(ch_namespace c, ''kai-'' @ slug)"] by (auto simp: loadBridgeConfig_def Let_def split: sum.split prod.split)
  then show ?thesis by (auto simp: dialUpstream_def Let_def same_objects_def split: sum.splits prod.splits option.splits)
qed

section \<open>Accounts\<close>

definition accounts_ok :: "mem_store \<Rightarrow> bool" where
  "accounts_ok us \<longleftrightarrow> store_inv us \<and> (\<forall>i u. map_of us i = Some u \<longrightarrow> minted i)"

lemma accounts_ok_create:
  assumes "accounts_ok us" "\<forall>i. newid = Some i \<longrightarrow> minted i"
  shows "accounts_ok (snd (mem_Create parse p newid now us))"
proof -
  obtain r us' where c: "mem_Create parse p newid now us = (r, us')" by fastforce
  have "store_inv us'" using store_inv_Create[OF _ c] assms(1) by (simp add: accounts_ok_def)
  moreover have "minted i" if "map_of us' i = Some u" for i u
    using c
  proof (cases rule: mem_Create_cases)
    case (made j v)
    then show ?thesis using that assms by (cases "i = j") (auto simp: accounts_ok_def)
  qed (use that assms in \<open>auto simp: accounts_ok_def\<close>)
  ultimately show ?thesis by (simp add: c accounts_ok_def)
qed

lemma accounts_ok_verified: "accounts_ok us \<Longrightarrow> accounts_ok (snd (mem_MarkEmailVerified i t us))"
  unfolding accounts_ok_def
proof
  assume a: "store_inv us \<and> (\<forall>i u. map_of us i = Some u \<longrightarrow> minted i)"
  show "store_inv (snd (mem_MarkEmailVerified i t us))"
    using a store_inv_step[of us undefined "OpMarkVerified i t"] by simp
  show "\<forall>j u. map_of (snd (mem_MarkEmailVerified i t us)) j = Some u \<longrightarrow> minted j"
    using a by (auto simp: mem_MarkEmailVerified_def update_active_def split: option.splits if_splits)
qed

lemma handleSignup_accounts:
  assumes "on_store c = MemoryStore p" "accounts_ok (os_users st)" "random_ok en"
  shows "accounts_ok (os_users (snd (handleSignup c r en st)))"
proof -
  have "accounts_ok (os_users (snd (signup_create c e h l a en s)))" if "os_users s = os_users st" for e h l a s
  proof -
    obtain x us where x: "mem_Create p \<lparr>p_Email = e, p_PasswordHash = h, p_Tier = TierFree, p_Language = l, p_App = a\<rparr> (en_id en) (en_now en) (os_users st) = (x, us)"
      by fastforce
    have "accounts_ok us" using accounts_ok_create[OF assms(2)] assms(3) x unfolding random_ok_def by (metis snd_conv)
    then show ?thesis
      using x by (auto simp: signup_create_def assms(1) that MemoryStore_def Let_def split: sum.split option.split)
  qed
  then show ?thesis using assms(2) by (simp add: handleSignup_def Let_def split_beta split: option.split list.split)
qed

lemma handleVerify_accounts:
  assumes "on_store c = MemoryStore p" "accounts_ok (os_users st)"
  shows "accounts_ok (os_users (snd (handleVerify c r en st)))"
  using assms accounts_ok_verified[OF assms(2), of "rq_id r" "en_now en"]
  by (auto simp: handleVerify_def MemoryStore_def Let_def split: option.split sum.split prod.split)

lemma minted_slug: "minted i \<Longrightarrow> \<not> slug_rejected (slugFromUserID i)"
proof -
  assume "minted i"
  then obtain t bs where b: "length bs = 10" "i = IDPrefix @ encodeULID (id_bytes t bs)" by (auto simp: minted_def newIDAt_def)
  have "length (id_bytes t bs) = 16" using b(1) by (simp add: id_bytes_def Let_def)
  then show ?thesis using slugFromUserID_of_minted b(2) by blast
qed

section \<open>Every instance has one slug\<close>

definition instance_ok :: "string \<Rightarrow> string \<times> string \<Rightarrow> kai \<Rightarrow> bool" where
  "instance_ok ns nn k \<longleftrightarrow> (\<exists>slug. nn = (ns, ''kai-'' @ slug) \<and> \<not> slug_rejected slug \<and> kai_key k = nn \<and> resolve_slug (k_Spec k) = slug
     \<and> gateway_token k \<noteq> [] \<and> (saas_managed k \<longrightarrow> slug = slugFromUserID (sp_UserRef (k_Spec k))))"

lemma instance_ok_spec: "instance_ok ns nn k \<Longrightarrow> k_Spec k' = k_Spec k \<Longrightarrow> kai_key k' = kai_key k \<Longrightarrow> instance_ok ns nn k'"
  by (simp add: instance_ok_def gateway_token_def)

lemma instance_ok_suspended: "instance_ok ns nn k \<Longrightarrow> instance_ok ns nn (set_suspended b k)"
proof -
  have "resolve_slug (x\<lparr>sp_Suspended := b\<rparr>) = resolve_slug x" for x
    by (simp add: resolve_slug_def EffectiveSlug_def EffectiveName_def Let_def)
  then show "instance_ok ns nn k \<Longrightarrow> instance_ok ns nn (set_suspended b k)"
    by (simp add: instance_ok_def gateway_token_def set_suspended_def kai_key_def)
qed

lemma instance_ok_deleting: "instance_ok ns nn k \<Longrightarrow> instance_ok ns nn (k\<lparr>k_Deleting := True\<rparr>)"
  by (simp add: instance_ok_def gateway_token_def kai_key_def)

definition installation_ok :: "'r deployment \<Rightarrow> 'r swarm \<Rightarrow> bool" where
  "installation_ok d s \<longleftrightarrow> accounts_ok (sw_accounts s)
     \<and> (\<forall>nn k. map_of (kb_kais (sw_kube s)) nn = Some k \<longrightarrow> instance_ok (on_namespace (dp_onb d)) nn k)"

lemma installation_okD: "installation_ok d s \<Longrightarrow> map_of (kb_kais (sw_kube s)) nn = Some k \<Longrightarrow> instance_ok (on_namespace (dp_onb d)) nn k"
  unfolding installation_ok_def by blast

lemma map_of_snoc: "map_of (xs @ [(a, b)]) n = Some k \<Longrightarrow> map_of xs n = Some k \<or> n = a \<and> k = b"
  by (auto simp: map_add_def split: option.splits if_splits)

lemma token_nonempty: "random_ok en \<Longrightarrow> generateToken (en_token en) = Some tok \<Longrightarrow> tok \<noteq> []"
  by (cases "en_token en") (auto simp: random_ok_def generateToken_def dest: arg_cong[of _ _ length])

lemma create_ok:
  assumes "random_ok en" "createInstance c r en w = (rs, w')" "map_of (kb_kais w') nn = Some k"
  shows "map_of (kb_kais w) nn = Some k \<or> instance_ok (on_namespace c) nn k"
proof (cases "kb_kais w' = kb_kais w")
  case False
  obtain q tok where q: "generateToken (en_token en) = Some tok" "\<not> slug_rejected (pq_CustomerSlug q)"
    "resolve_slug (k_Spec (provision_object (on_namespace c) q tok)) = pq_CustomerSlug q"
    "kb_kais w' = kb_kais w @ [((on_namespace c, ''kai-'' @ pq_CustomerSlug q), provision_object (on_namespace c) q tok)]"
    using createInstance_effect[OF assms(2) False] by (auto simp: Let_def)
  have "instance_ok (on_namespace c) (on_namespace c, ''kai-'' @ pq_CustomerSlug q) (provision_object (on_namespace c) q tok)"
    using q(2,3) token_nonempty[OF assms(1) q(1)]
    by (auto simp: instance_ok_def provision_object_def kai_key_def gateway_token_def empty_spec_def)
  then show ?thesis using map_of_snoc[OF assms(3)[unfolded q(4)]] by blast
qed (use assms(3) in simp)

lemma verify_ok:
  assumes "random_ok en" "on_store c = MemoryStore p" "accounts_ok (os_users st)" "handleVerify c r en st = (rs, st')"
    and "map_of (kb_kais (os_kube st')) nn = Some k"
  shows "map_of (kb_kais (os_kube st)) nn = Some k \<or> instance_ok (on_namespace c) nn k"
proof (cases "kb_kais (os_kube st') = kb_kais (os_kube st)")
  case False
  obtain u tok where u: "st_GetByID (on_store c) (rq_id r) (os_users st) = Inr u" "generateToken (en_token en) = Some tok"
    "kb_kais (os_kube st') = kb_kais (os_kube st) @ [((on_namespace c, ''kai-'' @ slugFromUserID (u_ID u)),
       buildSaaSKaiInstance (on_namespace c) (slugFromUserID (u_ID u)) u tok)]"
    "resolve_slug (k_Spec (buildSaaSKaiInstance (on_namespace c) (slugFromUserID (u_ID u)) u tok)) = slugFromUserID (u_ID u)"
    using verify_provisions[OF assms(4) False] by blast
  have "map_of (os_users st) (rq_id r) = Some u"
    using u(1) by (auto simp: assms(2) MemoryStore_def mem_GetByID_def split: option.splits if_splits)
  then have "minted (u_ID u)" using assms(3) row_okD by (auto simp: accounts_ok_def row_ok_def)
  then have "instance_ok (on_namespace c) (on_namespace c, ''kai-'' @ slugFromUserID (u_ID u))
      (buildSaaSKaiInstance (on_namespace c) (slugFromUserID (u_ID u)) u tok)"
    using u(4) minted_slug token_nonempty[OF assms(1) u(2)]
    by (auto simp: instance_ok_def buildSaaSKaiInstance_def kai_key_def gateway_token_def Let_def)
  then show ?thesis using map_of_snoc[OF assms(5)[unfolded u(3)]] by blast
qed (use assms(5) in simp)

lemma same_instances:
  "installation_ok d s \<Longrightarrow> kb_kais (sw_kube s') = kb_kais (sw_kube s) \<Longrightarrow> sw_accounts s' = sw_accounts s \<Longrightarrow> installation_ok d s'"
  by (simp add: installation_ok_def)

lemma put_instance:
  assumes "installation_ok d s" "kb_kais w = al_put nn k' (kb_kais (sw_kube s))" "instance_ok (on_namespace (dp_onb d)) nn k'"
  shows "installation_ok d (s\<lparr>sw_kube := w\<rparr>)"
  using assms by (auto simp: installation_ok_def split: if_splits)

lemma admin_keeps_ok:
  assumes "installation_ok d s" "admin_serve c m path auth (sw_kube s) = Some (res, w)"
  shows "installation_ok d (s\<lparr>sw_kube := w\<rparr>)"
proof -
  obtain call name where h: "admin_handle c call \<lparr>aq_name = name, aq_Authorization = auth\<rparr> (sw_kube s) = (res, w)"
    using assms(2) by (auto simp: admin_serve_def split: option.splits prod.splits)
  let ?r = "\<lparr>aq_name = name, aq_Authorization = auth\<rparr>"
  have "w = sw_kube s \<or> w = snd (listInstances c (sw_kube s)) \<or> w = snd (getInstance c ?r (sw_kube s))
      \<or> (\<exists>b rs. patchSuspended c ?r b (sw_kube s) = (rs, w))"
    using h by (auto simp: admin_handle_def guarded_def apfst_def map_prod_def split: admin_call.splits if_splits prod.splits)
  then consider "same_objects (sw_kube s) w" | b rs where "patchSuspended c ?r b (sw_kube s) = (rs, w)"
    using admin_reads by (metis same_objects_refl)
  then show ?thesis
  proof cases
    case 1
    then show ?thesis by (intro same_instances[OF assms(1)]) (simp_all add: same_objects_def)
  next
    case 2
    from patchSuspended_effect[OF 2] consider "same_objects (sw_kube s) w"
      | k where "map_of (kb_kais (sw_kube s)) (ad_namespace c, name) = Some k" "kb_kais w = al_put (ad_namespace c, name) (set_suspended b k) (kb_kais (sw_kube s))"
      by auto
    then show ?thesis
    proof cases
      case 1
      then show ?thesis by (intro same_instances[OF assms(1)]) (simp_all add: same_objects_def)
    next
      case 2
      have "instance_ok (on_namespace (dp_onb d)) (ad_namespace c, name) k" by (rule installation_okD[OF assms(1) 2(1)])
      then show ?thesis by (intro put_instance[OF assms(1) 2(2)] instance_ok_suspended)
    qed
  qed
qed

lemma onboarding_keeps_ok:
  assumes "installation_ok d s" "on_store (dp_onb d) = MemoryStore p" "onb_handle (dp_onb d) call r en (onb_part s) = (rs, st)" "random_ok en"
  shows "accounts_ok (os_users st) \<and> (\<forall>nn k. map_of (kb_kais (os_kube st)) nn = Some k \<longrightarrow> instance_ok (on_namespace (dp_onb d)) nn k)"
proof -
  let ?c = "dp_onb d" let ?st = "onb_part s"
  have o: "accounts_ok (os_users ?st)" "\<And>nn k. map_of (kb_kais (os_kube ?st)) nn = Some k \<Longrightarrow> instance_ok (on_namespace ?c) nn k"
    using assms(1) unfolding installation_ok_def onb_part_def onb_state.simps by blast+
  have guarded: "st = ?st \<or> (\<exists>x w. h (os_kube ?st) = (x, w) \<and> st = ?st\<lparr>os_kube := w\<rparr>)" if "onb_guarded ?c r h ?st = (rs, st)" for h
    using that by (auto simp: onb_guarded_def split: if_splits prod.splits)
  show ?thesis
  proof (cases call)
    case OnbAuth
    then have "st = ?st" using assms(3) by (auto simp: onb_handle_def onb_guarded_def split: if_splits)
    then show ?thesis using o by simp
  next
    case OnbCreate
    then have "onb_guarded ?c r (createInstance ?c r en) ?st = (rs, st)" using assms(3) by (simp add: onb_handle_def)
    from guarded[OF this] show ?thesis
      using o create_ok[OF assms(4), of ?c r "os_kube ?st"] by fastforce
  next
    case OnbSignup
    then obtain x where h: "handleSignup ?c r en ?st = (x, st)" using assms(3) by (auto simp: onb_handle_def apfst_def map_prod_def split: prod.splits)
    then show ?thesis using handleSignup_accounts[OF assms(2) o(1) assms(4), of r] handleSignup_kube[of ?c r en ?st] o(2) by (simp add: h)
  next
    case OnbVerify
    then obtain x where h: "handleVerify ?c r en ?st = (x, st)" using assms(3) by (auto simp: onb_handle_def apfst_def map_prod_def split: prod.splits)
    then show ?thesis using handleVerify_accounts[OF assms(2) o(1), of r en] verify_ok[OF assms(4,2) o(1) h] o(2) unfolding h snd_conv by blast
  qed
qed

lemma installation_ok_step:
  assumes "swarm_step d s s'" "on_store (dp_onb d) = MemoryStore p" "installation_ok d s"
  shows "installation_ok d s'"
  using assms(1,3)
proof cases
  case (workspace r en rep st)
  have "kb_kais (wt_kube st) = kb_kais (wt_kube (ws_view s))"
    using workspace(2-4) ws_handle_spares
    by (fastforce simp: ws_serve_def apfst_def map_prod_def split: option.splits prod.splits if_splits)
  then show ?thesis unfolding workspace(1) by (intro same_instances[OF assms(3)]) (simp_all add: ws_view_def)
next
  case (chat_login r en rs st)
  have "same_objects (ct_kube (chat_part s)) (ct_kube st)"
    using chat_login(2) chat_login_kube_keeps[of "ct_kube (chat_part s)"]
    by (auto simp: chat_handleLogin_def Let_def split_beta split: if_splits option.splits list.splits)
  then show ?thesis unfolding chat_login(1) by (intro same_instances[OF assms(3)]) (simp_all add: chat_part_def same_objects_def)
next
  case (chat_logout r en rs st)
  have "ct_kube st = ct_kube (chat_part s)" using chat_logout(2) by (auto simp: chat_handleLogout_def split: option.splits)
  then show ?thesis unfolding chat_logout(1) by (intro same_instances[OF assms(3)]) (simp_all add: chat_part_def)
next
  case (chat_me r en rs st)
  have "kb_kais (ct_kube st) = kb_kais (ct_kube (chat_part s))"
    using chat_me(2) chat_authedClaims_spares[of "dp_chat d" r "wq_slug r" "we_now en" "chat_part s"]
    by (auto simp: chat_handleMe_def split: prod.splits option.splits)
  then show ?thesis unfolding chat_me(1) by (intro same_instances[OF assms(3)]) (simp_all add: chat_part_def)
next
  case (chat_bridge be r now out st)
  obtain cl st1 where a: "chat_authedClaims (dp_chat d) r (wq_slug r) now (chat_part s) = (cl, st1)" by fastforce
  have k: "kb_kais (ct_kube st1) = kb_kais (ct_kube (chat_part s))"
    using chat_authedClaims_spares[of "dp_chat d" r "wq_slug r" now "chat_part s"] by (simp add: a)
  have "kb_kais (ct_kube st) = kb_kais (ct_kube (chat_part s))"
    using chat_bridge(2) k dialUpstream_spares[of "dp_chat d" be "wq_slug r" _ "ct_kube st1"]
    by (auto simp: handleWS_def Let_def a split: if_splits option.splits prod.splits sum.splits) (metis snd_conv)+
  then show ?thesis unfolding chat_bridge(1) by (intro same_instances[OF assms(3)]) (simp_all add: chat_part_def)
next
  case (status q rs w)
  have "kb_kais w = kb_kais (sw_kube s)"
    using status(2) reads_keep(1)[of "sw_kube s" "(ss_namespace (dp_status d), ''kai-'' @ sq_slug q)"]
    by (auto simp: getStatus_def Let_def same_objects_def split: if_splits prod.splits sum.splits)
  then show ?thesis unfolding status(1) by (intro same_instances[OF assms(3)]) simp_all
next
  case (admin m path auth res w)
  then show ?thesis using admin_keeps_ok assms(3) by blast
next
  case (onboarding call rq en' rs' ost)
  then show ?thesis using onboarding_keeps_ok[OF assms(3,2) onboarding(2,3)] by (simp add: installation_ok_def)
next
  case (operator inp nn fs res' x ks)
  let ?w = "\<lparr>w_kais = map_of (kb_kais (sw_kube s)), w_objs = sw_objs s, w_faults = fs\<rparr>"
  have wf: "wf_world ?w" using assms(3) by (auto simp: wf_world_def installation_ok_def instance_ok_def)
  have "instance_ok (on_namespace (dp_onb d)) n k" if m: "map_of ks n = Some k" for n k
  proof -
    obtain k0 where "map_of (kb_kais (sw_kube s)) n = Some k0" "k_Spec k = k_Spec k0" "kai_key k = kai_key k0"
      using Reconcile_specs[OF wf operator(2), of n k] m operator(3) by auto
    then show ?thesis using assms(3) instance_ok_spec unfolding installation_ok_def by metis
  qed
  then show ?thesis using assms(3) unfolding operator(1) by (simp add: installation_ok_def)
next
  case (deletion nn k)
  have "instance_ok (on_namespace (dp_onb d)) nn k" by (rule installation_okD[OF assms(3) deletion(2)])
  then have "instance_ok (on_namespace (dp_onb d)) nn (k\<lparr>k_Deleting := True\<rparr>)" by (rule instance_ok_deleting)
  then show ?thesis unfolding deletion(1) by (intro put_instance[OF assms(3), where nn = nn and k' = "k\<lparr>k_Deleting := True\<rparr>"]) simp_all
next
  case (others w objs)
  then show ?thesis using assms(3) by (simp add: installation_ok_def)
qed

lemma installation_ok_reachable:
  assumes "(swarm_step d)\<^sup>*\<^sup>* s0 s" "on_store (dp_onb d) = MemoryStore p" "kb_kais (sw_kube s0) = []" "sw_accounts s0 = []"
  shows "installation_ok d s"
  using assms(1)
proof (induction rule: rtranclp_induct)
  case base
  then show ?case using assms(3,4) store_inv_new by (simp add: installation_ok_def accounts_ok_def NewMemoryStore_def)
next
  case (step s1 s2)
  then show ?case using installation_ok_step[OF _ assms(2)] by blast
qed


definition demo_deployment :: "revocation_lists deployment" where
  "demo_deployment = \<lparr>dp_ws = sws, dp_sites = no_sites, dp_chat = chat_demo, dp_status = demo_status, dp_admin = demo_admin,
     dp_onb = demo_onb, dp_rc = demo_rc\<rparr>"

definition empty_swarm :: "revocation_lists swarm" where
  "empty_swarm = \<lparr>sw_kube = no_kube, sw_objs = (\<lambda>_. None), sw_accounts = [], sw_limits = [], sw_mail = [], sw_known = [], sw_rev = (\<lambda>_. [])\<rparr>"

definition full_entropy :: entropy where
  "full_entropy = \<lparr>en_now = 0, en_salt = None, en_id = None, en_token = Some (replicate 24 (CHR ''t''))\<rparr>"


end
