(* ===== verification/Operator.thy ===== *)
theory Operator
  imports Convergence Servers
begin

text \<open>
  The operator as a program: its \<open>main\<close> (\<open>operator/cmd/main.go\<close>), the watches of \<open>SetupWithManager\<close> and the loop they drive.
  Flags come parsed; whether each call of controller-runtime succeeds is an input.  The event handler of an owned
  kind is a parameter: what is used of it is that an event on an object of that kind asks for a reconcile of the controlling owner.  The loop is
  a step relation on the cluster and the set of requested names, in which reconciles meet any faults and others change
  objects and instances in between.
\<close>

section \<open>Start\<close>

record flags =
  fl_metricsAddr :: string
  fl_probeAddr :: string
  fl_enableLeaderElection :: bool
  fl_secureMetrics :: bool
  fl_webhookCertPath :: string
  fl_webhookCertName :: string
  fl_webhookCertKey :: string
  fl_metricsCertPath :: string
  fl_metricsCertName :: string
  fl_metricsCertKey :: string
  fl_enableHTTP2 :: bool
  fl_showVersion :: bool

definition default_flags :: flags where
  "default_flags = \<lparr>fl_metricsAddr = ''0'', fl_probeAddr = '':8081'', fl_enableLeaderElection = False, fl_secureMetrics = True,
     fl_webhookCertPath = [], fl_webhookCertName = ''tls.crt'', fl_webhookCertKey = ''tls.key'',
     fl_metricsCertPath = [], fl_metricsCertName = ''tls.crt'', fl_metricsCertKey = ''tls.key'', fl_enableHTTP2 = False, fl_showVersion = False\<rparr>"

record tls_config =
  tc_NextProtos :: "string list"

record server_options =
  so_TLSOpts :: "(tls_config \<Rightarrow> tls_config) list"
  so_CertDir :: string
  so_CertName :: string
  so_KeyName :: string

record metrics_options = server_options +
  mo_BindAddress :: string
  mo_SecureServing :: bool
  mo_FilterProvider :: bool  \<comment> \<open>\<open>WithAuthenticationAndAuthorization\<close> is set\<close>

record manager_options =
  ma_Metrics :: metrics_options
  ma_WebhookServer :: server_options
  ma_HealthProbeBindAddress :: string
  ma_LeaderElection :: bool
  ma_LeaderElectionID :: string

definition disableHTTP2 :: "tls_config \<Rightarrow> tls_config" where
  "disableHTTP2 c = c\<lparr>tc_NextProtos := [''http/1.1'']\<rparr>"

definition tls_opts :: "flags \<Rightarrow> (tls_config \<Rightarrow> tls_config) list" where
  "tls_opts fl = (if \<not> fl_enableHTTP2 fl then [disableHTTP2] else [])"

definition webhook_options :: "flags \<Rightarrow> server_options" where
  "webhook_options fl =
     (let o1 = \<lparr>so_TLSOpts = tls_opts fl, so_CertDir = [], so_CertName = [], so_KeyName = []\<rparr>
      in if fl_webhookCertPath fl \<noteq> []
         then o1\<lparr>so_CertDir := fl_webhookCertPath fl, so_CertName := fl_webhookCertName fl, so_KeyName := fl_webhookCertKey fl\<rparr> else o1)"

definition metrics_server_options :: "flags \<Rightarrow> metrics_options" where
  "metrics_server_options fl =
     (let o1 = \<lparr>so_TLSOpts = tls_opts fl, so_CertDir = [], so_CertName = [], so_KeyName = [], mo_BindAddress = fl_metricsAddr fl,
                mo_SecureServing = fl_secureMetrics fl, mo_FilterProvider = False\<rparr>;
          o2 = (if fl_secureMetrics fl then o1\<lparr>mo_FilterProvider := True\<rparr> else o1)
      in if fl_metricsCertPath fl \<noteq> []
         then o2\<lparr>so_CertDir := fl_metricsCertPath fl, so_CertName := fl_metricsCertName fl, so_KeyName := fl_metricsCertKey fl\<rparr> else o2)"

record watches =
  wa_Name :: string
  wa_Owns :: "kind list"

definition SetupWithManager :: watches where
  \<comment> \<open>\<open>For(&KaiInstance{})\<close> and the owned kinds\<close>
  "SetupWithManager = \<lparr>wa_Name = ''kaiinstance'',
     wa_Owns = [DeploymentKind, ConfigMapKind, SecretKind, ServiceKind, NetworkPolicyKind, IngressKind]\<rparr>"

record calls_ok =
  co_Config :: bool  \<comment> \<open>\<open>GetConfigOrDie\<close> does not exit\<close>
  co_NewManager :: bool
  co_Setup :: bool
  co_AddHealthz :: bool
  co_AddReadyz :: bool
  co_Start :: bool  \<comment> \<open>the manager ran and stopped without an error\<close>

datatype operator_end = PrintedVersion string | Failed string | Stopped

definition operator_main :: "flags \<Rightarrow> (string \<Rightarrow> string) \<Rightarrow> string \<Rightarrow> calls_ok \<Rightarrow> reconciler
    \<Rightarrow> operator_end \<times> (manager_options \<times> reconciler \<times> watches) option" where
  \<comment> \<open>the end of the process and what it ran\<close>
  "operator_main fl env version ok rc =
     (if fl_showVersion fl then (PrintedVersion version, None)
      else (let m = \<lparr>ma_Metrics = metrics_server_options fl, ma_WebhookServer = webhook_options fl,
                     ma_HealthProbeBindAddress = fl_probeAddr fl, ma_LeaderElection = fl_enableLeaderElection fl,
                     ma_LeaderElectionID = ''2dd1d327.emai.io''\<rparr>;
                run = Some (m, configured_reconciler env rc, SetupWithManager)
        in if \<not> co_Config ok then (Failed ''unable to get kubeconfig'', None)
           else if \<not> co_NewManager ok then (Failed ''Failed to start manager'', None)
           else if \<not> co_Setup ok then (Failed ''Failed to create controller'', None)
           else if \<not> co_AddHealthz ok then (Failed ''Failed to set up health check'', None)
           else if \<not> co_AddReadyz ok then (Failed ''Failed to set up ready check'', None)
           else if \<not> co_Start ok then (Failed ''Failed to run manager'', run)
           else (Stopped, run)))"

definition offered :: "(tls_config \<Rightarrow> tls_config) list \<Rightarrow> tls_config \<Rightarrow> string list" where
  \<comment> \<open>the protocols a server offers once its options are applied in order\<close>
  "offered opts c = tc_NextProtos (fold (\<lambda>f. f) opts c)"

text \<open>What the operator runs with: HTTP/2 is offered by neither of its servers unless asked for, the metrics are protected by authentication and
  authorization whenever they are served over TLS, and the reconciler is the configured one and watches every kind of child but the volume claim.\<close>

theorem operator_runs_guarded:
  assumes "operator_main fl env version ok rc = (e, Some (m, rc', wa))"
  shows "(fl_enableHTTP2 fl \<or> offered (so_TLSOpts (ma_Metrics m)) c = [''http/1.1''] \<and> offered (so_TLSOpts (ma_WebhookServer m)) c = [''http/1.1''])
    \<and> mo_FilterProvider (ma_Metrics m) = mo_SecureServing (ma_Metrics m) \<and> mo_SecureServing (ma_Metrics m) = fl_secureMetrics fl
    \<and> rc' = configured_reconciler env rc \<and> (\<forall>k. k \<in> set (wa_Owns wa) \<longleftrightarrow> k \<noteq> PVCKind)"
proof -
  have k: "k = PVCKind \<or> k = DeploymentKind \<or> k = ConfigMapKind \<or> k = SecretKind \<or> k = ServiceKind \<or> k = NetworkPolicyKind \<or> k = IngressKind" for k
    by (cases k) simp_all
  have "m = \<lparr>ma_Metrics = metrics_server_options fl, ma_WebhookServer = webhook_options fl, ma_HealthProbeBindAddress = fl_probeAddr fl,
      ma_LeaderElection = fl_enableLeaderElection fl, ma_LeaderElectionID = ''2dd1d327.emai.io''\<rparr>"
    "rc' = configured_reconciler env rc" "wa = SetupWithManager"
    using assms by (auto simp: operator_main_def Let_def split: if_splits)
  moreover have "k \<in> set (wa_Owns SetupWithManager) \<longleftrightarrow> k \<noteq> PVCKind" for k
    using k[of k] by (auto simp: SetupWithManager_def)
  ultimately show ?thesis
    by (simp add: metrics_server_options_def webhook_options_def tls_opts_def offered_def disableHTTP2_def Let_def)
qed

corollary operator_runs_guarded_witness:
  "\<exists>m rc' wa. operator_main default_flags (\<lambda>_. []) ''dev'' \<lparr>co_Config = True, co_NewManager = True, co_Setup = True, co_AddHealthz = True, co_AddReadyz = True, co_Start = True\<rparr> demo_rc
      = (Stopped, Some (m, rc', wa)) \<and> offered (so_TLSOpts (ma_Metrics m)) \<lparr>tc_NextProtos = [''h2'']\<rparr> = [''http/1.1'']"
proof -
  obtain m rc' wa where m: "operator_main default_flags (\<lambda>_. []) ''dev''
      \<lparr>co_Config = True, co_NewManager = True, co_Setup = True, co_AddHealthz = True, co_AddReadyz = True, co_Start = True\<rparr> demo_rc = (Stopped, Some (m, rc', wa))"
    by (simp add: operator_main_def default_flags_def Let_def)
  have "\<not> fl_enableHTTP2 default_flags" by (simp add: default_flags_def)
  with operator_runs_guarded[OF m, of "\<lparr>tc_NextProtos = [''h2'']\<rparr>"] m show ?thesis by blast
qed

section \<open>Owner references\<close>

definition owner_kept :: "kai \<Rightarrow> world \<Rightarrow> world \<Rightarrow> bool" where
  \<comment> \<open>what is there afterwards is controlled by the instance or by whom it was before\<close>
  "owner_kept kai w w' \<longleftrightarrow> (\<forall>key ob. w_objs w' key = Some ob \<longrightarrow>
     o_Owner ob = Some (k_Name kai) \<or> (\<exists>old. w_objs w key = Some old \<and> o_Owner ob = o_Owner old))"

lemma owner_kept_same: "w_objs w' = w_objs w \<Longrightarrow> owner_kept kai w w'"
  by (simp add: owner_kept_def)

lemma owner_kept_trans: "owner_kept kai w w1 \<Longrightarrow> owner_kept kai w1 w2 \<Longrightarrow> owner_kept kai w w2"
  unfolding owner_kept_def by metis

lemma owner_kept_kai: "k_Name k = k_Name k' \<Longrightarrow> owner_kept k = owner_kept k'"
  by (intro ext) (simp add: owner_kept_def)

lemma SetControllerReference_owner [simp]: "o_Owner (SetControllerReference k ob) = Some (k_Name k)"
  by (simp add: SetControllerReference_def)

lemma scaled_owner [simp]: "o_Owner (scaled_to_zero ob) = o_Owner ob"
  by (simp add: scaled_to_zero_def)

lemma owner_kept_step:
  assumes "(reason, step) \<in> set (child_steps rc inp slug tmpl hash)"
  shows "owner_kept kai w (snd (snd (step kai w)))"
proof -
  note defs = owner_kept_def step_defs reconcileIngress_def with_deployment_spec_def Let_def split_beta
  have "owner_kept kai w (snd (snd (reconcileConfigMap inp slug tmpl kai w)))"
    by (auto simp: defs split: sum.splits if_splits dest: api_get_Inr)
  moreover have "owner_kept kai w (snd (snd (reconcileUsersSecret slug kai w)))"
    by (auto simp: defs split: sum.splits if_splits dest: api_get_Inr)
  moreover have "owner_kept kai w (snd (snd (reconcileChatBridgeSecret rc inp slug kai w)))"
    by (auto simp: defs split: sum.splits if_splits option.splits dest: api_get_Inr)
  moreover have "owner_kept kai w (snd (snd (reconcilePVC inp slug kai w)))"
    by (auto simp: defs split: sum.splits if_splits dest: api_get_Inr)
  moreover have "owner_kept kai w (snd (snd (reconcileDeployment rc inp slug hash kai w)))"
    by (auto simp: defs split: sum.splits if_splits dest: api_get_Inr)
  moreover have "owner_kept kai w (snd (snd (reconcileService slug kai w)))"
    by (auto simp: defs split: sum.splits if_splits dest: api_get_Inr)
  moreover have "owner_kept kai w (snd (snd (reconcileNetworkPolicy inp slug kai w)))"
    by (auto simp: defs split: sum.splits if_splits dest: api_get_Inr)
  moreover have "owner_kept kai w (snd (snd (reconcileIngress rc inp slug kai w)))"
    by (auto simp: defs split: sum.splits if_splits dest: api_get_Inr)
  ultimately show ?thesis using assms by (auto simp: child_steps_def)
qed

lemma owner_kept_run:
  assumes "\<And>reason step kai w. (reason, step) \<in> set steps \<Longrightarrow> owner_kept kai w (snd (snd (step kai w)))"
    and "list_all (\<lambda>(_, step). good_step slug step) steps"
  shows "owner_kept kai w (snd (run_steps rc inp slug steps kai w))"
  using assms
proof (induction steps arbitrary: kai w)
  case Nil
  then show ?case using finish_frame(1) owner_kept_same by simp
next
  case (Cons rs steps)
  obtain reason step where rs: "rs = (reason, step)" by (cases rs)
  obtain r kai' w' where s: "step kai w = (r, kai', w')" by (metis prod_cases3)
  have one: "owner_kept kai w w'" using Cons.prems(1)[of reason step kai w] by (simp add: rs s)
  show ?case
  proof (cases r)
    case None
    have "conditions_only kai kai'" using Cons.prems(2) s by (auto simp: rs good_step_def split: prod.splits)
    then have "owner_kept kai = owner_kept kai'" by (intro owner_kept_kai) (simp add: conditions_only_fields(1))
    moreover have "owner_kept kai' w' (snd (run_steps rc inp slug steps kai' w'))"
      by (rule Cons.IH) (use Cons.prems in auto)
    ultimately show ?thesis using owner_kept_trans[OF one] by (simp add: rs s None)
  next
    case (Some e)
    then show ?thesis using one setFailed_frame(1)[of rc inp reason e kai' w'] by (simp add: rs s owner_kept_def)
  qed
qed

lemma Reconcile_owner_kept:
  assumes "Reconcile rc inp nn w = (r, w')" "w_kais w nn = Some kai"
  shows "owner_kept kai w w'"
proof (cases rule: Reconcile_cases[of nn w rc inp])
  case (absent e w1)
  then show ?thesis using assms(1) kai_get_world[OF absent(1)] by (simp add: owner_kept_same)
next
  case (meta k fin w1)
  then have "w_objs w' = w_objs w1" using assms(1) kai_update_objs[of "k\<lparr>k_Finalizers := fin\<rparr>" w1] by (metis snd_conv)
  then show ?thesis using kai_get_world[OF meta(1)] by (simp add: owner_kept_same)
next
  case (suspended k w1)
  have "suspend_frame (with_slug k) (resolve_slug (k_Spec k)) w1 w'"
    using reconcileSuspended_frame(1)[of "with_slug k" "resolve_slug (k_Spec k)" w1] unfolding suspended(4)[symmetric] assms(1) by simp
  moreover have "w_objs w1 = w_objs w" using kai_get_world[OF suspended(1)] by simp
  ultimately have "w_objs w' k' = w_objs w k' \<or> w_objs w' k' = map_option scaled_to_zero (w_objs w k')" for k'
    unfolding suspend_frame_def Let_def by metis
  then show ?thesis
    unfolding owner_kept_def by (metis (no_types, lifting) map_option_eq_Some scaled_owner)
next
  case (running k w1)
  have k: "k = kai" using kai_get_Inr[of nn w k] running(1) assms(2) by simp
  have objs: "w_objs w1 = w_objs w" using kai_get_world[OF running(1)] by simp
  have "owner_kept (with_slug k) w1 w'"
  proof (cases rule: provision_cases[of rc inp "resolve_slug (k_Spec k)" "with_slug k" w1])
    case (failed st)
    then have "w' = snd (setFailed rc inp ''TemplateRenderError'' OE_Template (with_slug k\<lparr>k_Status := st\<rparr>) w1)"
      using running(4) assms(1) by (metis snd_conv)
    then show ?thesis by (simp add: owner_kept_same setFailed_frame(1))
  next
    case (ran st tmpl hash)
    then have "w' = snd (run_steps rc inp (resolve_slug (k_Spec k)) (child_steps rc inp (resolve_slug (k_Spec k)) tmpl hash) (with_slug k\<lparr>k_Status := st\<rparr>) w1)"
      using running(4) assms(1) by (metis snd_conv)
    moreover have "owner_kept (with_slug k\<lparr>k_Status := st\<rparr>) w1
        (snd (run_steps rc inp (resolve_slug (k_Spec k)) (child_steps rc inp (resolve_slug (k_Spec k)) tmpl hash) (with_slug k\<lparr>k_Status := st\<rparr>) w1))"
      by (rule owner_kept_run[OF _ good_child_steps]) (rule owner_kept_step)
    ultimately have "owner_kept (with_slug k\<lparr>k_Status := st\<rparr>) w1 w'" by simp
    then show ?thesis by (simp add: owner_kept_def)
  qed
  then show ?thesis unfolding owner_kept_def objs by (simp add: k with_slug_def)
qed

section \<open>The loop\<close>

definition own_keys_of :: "kai \<Rightarrow> okey set" where
  "own_keys_of kai = child_keys (k_Namespace kai) (resolve_slug (k_Spec kai))"

definition matched :: "reconciler \<Rightarrow> world \<Rightarrow> kai \<Rightarrow> bool" where
  \<comment> \<open>every child is as the specification demands; the claim, which is not watched, apart\<close>
  "matched rc w kai \<longleftrightarrow> (\<exists>tmpl. rendered_for rc kai (resolve_slug (k_Spec kai)) = Some tmpl
     \<and> list_all (\<lambda>(key, Q). fst key = PVCKind \<or> Q (w_objs w key)) (child_specs rc (resolve_slug (k_Spec kai)) tmpl (hash_for rc kai tmpl) kai))"

definition in_step :: "reconciler \<Rightarrow> world \<Rightarrow> string \<times> string \<Rightarrow> bool" where
  "in_step rc w nn \<longleftrightarrow> (\<forall>kai. w_kais w nn = Some kai \<and> \<not> k_Deleting kai \<and> \<not> sp_Suspended (k_Spec kai) \<longrightarrow> live kai \<and> matched rc w kai)"

definition slugs_distinct :: "world \<Rightarrow> bool" where
  "slugs_distinct w \<longleftrightarrow> (\<forall>n1 n2 k1 k2. w_kais w n1 = Some k1 \<and> w_kais w n2 = Some k2 \<and> k_Namespace k1 = k_Namespace k2
     \<and> resolve_slug (k_Spec k1) = resolve_slug (k_Spec k2) \<longrightarrow> n1 = n2)"

definition children_owned :: "world \<Rightarrow> bool" where
  "children_owned w \<longleftrightarrow> (\<forall>nn kai key ob. w_kais w nn = Some kai \<and> key \<in> own_keys_of kai \<and> w_objs w key = Some ob
     \<longrightarrow> o_Owner ob = Some (k_Name kai))"

lemma children_ownedD:
  "children_owned w \<Longrightarrow> w_kais w nn = Some kai \<Longrightarrow> key \<in> own_keys_of kai \<Longrightarrow> w_objs w key = Some ob \<Longrightarrow> o_Owner ob = Some (k_Name kai)"
  unfolding children_owned_def by blast

definition tidy :: "world \<Rightarrow> bool" where
  "tidy w \<longleftrightarrow> wf_world w \<and> slugs_distinct w \<and> children_owned w"

lemma tidy_parts [simp]:
  "wf_world (w\<lparr>w_objs := f\<rparr>) = wf_world w" "slugs_distinct (w\<lparr>w_objs := f\<rparr>) = slugs_distinct w"
  "wf_world (w\<lparr>w_faults := fs\<rparr>) = wf_world w" "slugs_distinct (w\<lparr>w_faults := fs\<rparr>) = slugs_distinct w"
  "children_owned (w\<lparr>w_faults := fs\<rparr>) = children_owned w"
  by (simp_all add: wf_world_def slugs_distinct_def children_owned_def)

record loop =
  lo_world :: world
  lo_queue :: "(string \<times> string) set"

type_synonym handler = "kind list \<Rightarrow> okey \<Rightarrow> obj \<Rightarrow> obj option \<Rightarrow> (string \<times> string) set"
  \<comment> \<open>the owned kinds, an object before and after an event: the requests\<close>

definition owner_handler :: "handler \<Rightarrow> bool" where
  \<comment> \<open>an event on an object of an owned kind requests its controlling owner, in the namespace of the object\<close>
  "owner_handler enq \<longleftrightarrow> (\<forall>owns key ob new name. fst key \<in> set owns \<and> o_Owner ob = Some name \<longrightarrow> (fst (snd key), name) \<in> enq owns key ob new)"

inductive loop_step :: "reconciler \<Rightarrow> handler \<Rightarrow> loop \<Rightarrow> loop \<Rightarrow> bool" for rc enq where
  reconcile: "nn \<in> lo_queue s \<Longrightarrow> Some KNotFound \<notin> set fs \<Longrightarrow> Reconcile rc inp nn ((lo_world s)\<lparr>w_faults := fs\<rparr>) = (r, w')
    \<Longrightarrow> (if r = None then lo_queue s - {nn} else lo_queue s) \<subseteq> q
    \<Longrightarrow> (\<forall>k k'. w_kais (lo_world s) nn = Some k \<longrightarrow> w_kais w' nn = Some k' \<longrightarrow> k_Finalizers k' \<noteq> k_Finalizers k \<longrightarrow> nn \<in> q)
    \<Longrightarrow> loop_step rc enq s \<lparr>lo_world = w', lo_queue = q\<rparr>"
| drift: "w_objs (lo_world s) key = Some ob \<Longrightarrow> (\<forall>ob'. new = Some ob' \<longrightarrow> o_Owner ob' = o_Owner ob)
    \<Longrightarrow> lo_queue s \<union> enq (wa_Owns SetupWithManager) key ob new \<subseteq> q
    \<Longrightarrow> loop_step rc enq s \<lparr>lo_world = (lo_world s)\<lparr>w_objs := (w_objs (lo_world s))(key := new)\<rparr>, lo_queue = q\<rparr>"
| strangers: "(\<forall>n kai. w_kais (lo_world s) n = Some kai \<longrightarrow> key \<notin> own_keys_of kai) \<Longrightarrow> lo_queue s \<subseteq> q
    \<Longrightarrow> loop_step rc enq s \<lparr>lo_world = (lo_world s)\<lparr>w_objs := (w_objs (lo_world s))(key := new)\<rparr>, lo_queue = q\<rparr>"
| edited: "tidy ((lo_world s)\<lparr>w_kais := (w_kais (lo_world s))(nn := k)\<rparr>) \<Longrightarrow> insert nn (lo_queue s) \<subseteq> q
    \<Longrightarrow> loop_step rc enq s \<lparr>lo_world = (lo_world s)\<lparr>w_kais := (w_kais (lo_world s))(nn := k)\<rparr>, lo_queue = q\<rparr>"

subsection \<open>Children of different instances\<close>

lemma child_keys_disjoint:
  assumes "key \<in> child_keys ns slug" "key \<in> child_keys ns' slug'"
  shows "ns = ns' \<and> slug = slug'"
proof -
  have l: "s @ ''-users'' \<noteq> s' @ ''-chat-bridge''" for s s' :: string
    by (auto dest: arg_cong[of _ _ last])
  show ?thesis
    using assms l l[symmetric] by (auto simp: child_keys_def childName_def usersSecretName_def chatBridgeSecretName_def)
qed

lemma child_specs_keys: "(key, Q) \<in> set (child_specs rc (resolve_slug (k_Spec kai)) tmpl hash kai) \<Longrightarrow> key \<in> own_keys_of kai"
  by (auto simp: child_specs_def own_keys_of_def child_keys_def)

lemma matched_objs:
  assumes "\<forall>key \<in> own_keys_of kai. fst key \<noteq> PVCKind \<longrightarrow> w_objs w' key = w_objs w key"
  shows "matched rc w' kai = matched rc w kai"
proof -
  have "list_all (\<lambda>(key, Q). fst key = PVCKind \<or> Q (w_objs w' key)) (child_specs rc (resolve_slug (k_Spec kai)) tmpl hash kai)
      = list_all (\<lambda>(key, Q). fst key = PVCKind \<or> Q (w_objs w key)) (child_specs rc (resolve_slug (k_Spec kai)) tmpl hash kai)" for tmpl hash
    using assms child_specs_keys unfolding list_all_iff by fastforce
  then show ?thesis by (simp add: matched_def)
qed

lemma other_children:
  assumes "slugs_distinct w" "w_kais w n = Some k" "w_kais w n' = Some k'" "n \<noteq> n'" "key \<in> own_keys_of k"
  shows "key \<notin> own_keys_of k'"
  using assms child_keys_disjoint unfolding slugs_distinct_def own_keys_of_def by metis

subsection \<open>A reconcile\<close>

lemma Reconcile_others:
  assumes "wf_world w" "Reconcile rc inp nn w = (r, w')" "n \<noteq> nn"
  shows "w_kais w' n = w_kais w n"
proof (cases rule: Reconcile_cases[of nn w rc inp])
  case (absent e w1)
  then show ?thesis using assms(2) kai_get_world[OF absent(1)] by simp
next
  case (meta kai fin w1)
  have "kai_key kai = nn" using wf_worldD[OF assms(1)] kai_get_Inr[of nn w kai] meta(1) by simp
  then show ?thesis
    using meta(3) assms(2,3) kai_get_world[OF meta(1)]
    by (auto simp: kai_update_def next_fault_def kai_key_def split: prod.splits list.splits option.splits if_splits)
next
  case (suspended kai w1)
  have "kai_key kai = nn" using wf_worldD[OF assms(1)] kai_get_Inr[of nn w kai] suspended(1) by simp
  moreover have "status_frame (kai_key kai) w1 w'"
    using reconcileSuspended_frame(2)[of "with_slug kai" w1 "resolve_slug (k_Spec kai)"] unfolding suspended(4)[symmetric] assms(2) by simp
  ultimately have "w_kais w' n = w_kais w1 n" using assms(3) unfolding status_frame_def by blast
  then show ?thesis using kai_get_world[OF suspended(1)] by simp
next
  case (running kai w1)
  have "kai_key kai = nn" using wf_worldD[OF assms(1)] kai_get_Inr[of nn w kai] running(1) by simp
  moreover have "status_frame (kai_key kai) w1 w'"
    using provision_frame(2)[of "with_slug kai" w1 rc inp "resolve_slug (k_Spec kai)"] unfolding running(4)[symmetric] assms(2) by simp
  ultimately have "w_kais w' n = w_kais w1 n" using assms(3) unfolding status_frame_def by blast
  then show ?thesis using kai_get_world[OF running(1)] by simp
qed

lemma Reconcile_live:
  assumes "wf_world w" "Convergence.honest w" "w_kais w nn = Some kai" "\<not> k_Deleting kai" "Reconcile rc inp nn w = (None, w')"
    and "\<And>k'. w_kais w' nn = Some k' \<Longrightarrow> k_Finalizers k' = k_Finalizers kai"
  shows "live kai"
proof (rule ccontr)
  assume nl: "\<not> live kai"
  have key: "kai_key kai = nn" using wf_worldD[OF assms(1,3)] by simp
  obtain g w1 where g: "kai_get nn w = (g, w1)" by fastforce
  have "g = Inr kai"
  proof (cases g)
    case (Inl e)
    then have "e = KNotFound" using assms(5) by (auto simp: Reconcile_def g split: if_splits)
    then show ?thesis using kai_get_NotFound[OF assms(2), of nn] Inl assms(3) by (simp add: g)
  next
    case (Inr k)
    then show ?thesis using kai_get_Inr[of nn w k] assms(3) by (simp add: g)
  qed
  then have "kai_update (kai\<lparr>k_Finalizers := k_Finalizers kai @ [KaiInstanceFinalizer]\<rparr>) w1 = (None, w')"
    using assms(4,5) nl by (simp add: Reconcile_def g live_def)
  then have "\<exists>k'. w_kais w' nn = Some k' \<and> k_Finalizers k' = k_Finalizers kai @ [KaiInstanceFinalizer]"
    using key assms(4) by (auto simp: kai_update_def kai_key_def split: prod.splits option.splits)
  then show False using assms(6) by fastforce
qed

lemma Reconcile_tidy:
  assumes "tidy w" "Reconcile rc inp nn w = (r, w')"
  shows "tidy w'"
proof -
  have wf: "wf_world w" and sd: "slugs_distinct w" and co: "children_owned w" using assms(1) by (simp_all add: tidy_def)
  have prior: "\<exists>k. w_kais w n = Some k \<and> k_Namespace k = k_Namespace k' \<and> k_Name k = k_Name k' \<and> k_Spec k = k_Spec k' \<and> own_keys_of k = own_keys_of k'"
    if "w_kais w' n = Some k'" for n k'
    using Reconcile_specs[OF wf assms(2) that] by (auto simp: kai_key_def own_keys_of_def)
  have "slugs_distinct w'" using sd prior unfolding slugs_distinct_def by metis
  moreover have "children_owned w'"
    unfolding children_owned_def
  proof (intro allI impI, elim conjE)
    fix n k' key ob
    assume a: "w_kais w' n = Some k'" "key \<in> own_keys_of k'" "w_objs w' key = Some ob"
    then obtain k where k: "w_kais w n = Some k" "k_Name k = k_Name k'" "key \<in> own_keys_of k" using prior by metis
    show "o_Owner ob = Some (k_Name k')"
    proof (cases "w_objs w' key = w_objs w key")
      case True
      then show ?thesis using co k a(3) unfolding children_owned_def by metis
    next
      case False
      obtain kai where kai: "w_kais w nn = Some kai" "key \<in> child_keys (fst nn) (resolve_slug (k_Spec kai))"
        using reconcile_touches[OF wf assms(2) False] by blast
      then have "key \<in> own_keys_of kai" using wf_worldD[OF wf kai(1)] by (simp add: own_keys_of_def)
      then have "n = nn" using other_children[OF sd kai(1) k(1)] k(3) by blast
      then have "kai = k" using kai(1) k(1) by simp
      then show ?thesis using Reconcile_owner_kept[OF assms(2) kai(1)] co k a(3) unfolding owner_kept_def children_owned_def by metis
    qed
  qed
  moreover have "wf_world w'" using Reconcile_wf[OF wf, of rc inp nn] by (simp add: assms(2))
  ultimately show ?thesis by (simp add: tidy_def)
qed

lemma Reconcile_in_step:
  assumes "wf_world w" "Convergence.honest w" "Reconcile rc inp nn w = (None, w')"
    and "\<And>k k'. w_kais w nn = Some k \<Longrightarrow> w_kais w' nn = Some k' \<Longrightarrow> k_Finalizers k' = k_Finalizers k"
  shows "in_step rc w' nn"
  unfolding in_step_def
proof (intro allI impI, elim conjE)
  fix k'
  assume k': "w_kais w' nn = Some k'" "\<not> k_Deleting k'" "\<not> sp_Suspended (k_Spec k')"
  obtain k where k: "w_kais w nn = Some k" "k_Spec k' = k_Spec k" using Reconcile_specs[OF assms(1,3) k'(1)] by blast
  have "k_Deleting k' = k_Deleting k"
  proof (cases "k_Deleting k")
    case True
    have "kai_key k = nn" using wf_worldD[OF assms(1) k(1)] by simp
    moreover obtain g w1 where g: "kai_get nn w = (g, w1)" by fastforce
    moreover have "w_kais w1 = w_kais w" using kai_get_world[OF g] by simp
    moreover have "g = Inr k \<or> (\<exists>e. g = Inl e)" using kai_get_Inr[of nn w] g k(1) by (cases g) auto
    ultimately show ?thesis
      using assms(3) k'(1) k(1) True
      by (auto simp: Reconcile_def kai_update_def next_fault_def kai_key_def split: if_splits prod.splits list.splits option.splits)
  next
    case False
    have l: "live k" by (rule Reconcile_live[OF assms(1,2) k(1) False assms(3)]) (rule assms(4)[OF k(1)])
    have "\<not> sp_Suspended (k_Spec k)" using k'(3) k(2) by simp
    then show ?thesis using success_state[OF assms(1,2) k(1) l _ assms(3)] k'(1) by auto
  qed
  then have nd: "\<not> k_Deleting k" using k'(2) by simp
  have l: "live k" by (rule Reconcile_live[OF assms(1,2) k(1) nd assms(3)]) (rule assms(4)[OF k(1)])
  have ns: "\<not> sp_Suspended (k_Spec k)" using k'(3) k(2) by simp
  obtain tmpl st where s: "rendered_for rc k (resolve_slug (k_Spec k)) = Some tmpl"
    "children_match rc (resolve_slug (k_Spec k)) tmpl (hash_for rc k tmpl) k w'" "w_kais w' nn = Some (k\<lparr>k_Status := st\<rparr>)"
    using success_state[OF assms(1,2) k(1) l ns assms(3)] by blast
  then have eq: "k' = k\<lparr>k_Status := st\<rparr>" using k'(1) by simp
  have "rendered_for rc k' slug = rendered_for rc k slug" "hash_for rc k' t = hash_for rc k t"
    "child_specs rc slug t h k' = child_specs rc slug t h k" for slug t h
    by (rule reads_spec; simp add: eq)+
  moreover have "live k'" using l by (simp add: eq live_def)
  ultimately show "live k' \<and> matched rc w' k'"
    using s(1,2) by (auto simp: matched_def children_match_def list_all_iff eq)
qed

definition loop_inv :: "reconciler \<Rightarrow> loop \<Rightarrow> bool" where
  "loop_inv rc s \<longleftrightarrow> tidy (lo_world s) \<and> (\<forall>nn. nn \<notin> lo_queue s \<longrightarrow> in_step rc (lo_world s) nn)"

lemma loop_invD: "loop_inv rc s \<Longrightarrow> nn \<notin> lo_queue s \<Longrightarrow> in_step rc (lo_world s) nn"
  unfolding loop_inv_def by blast

lemma in_step_objs:
  assumes "in_step rc w nn" "w_kais w' nn = w_kais w nn"
    and "\<And>kai key. w_kais w nn = Some kai \<Longrightarrow> key \<in> own_keys_of kai \<Longrightarrow> fst key \<noteq> PVCKind \<Longrightarrow> w_objs w' key = w_objs w key"
  shows "in_step rc w' nn"
  using assms matched_objs[of _ w' w rc] unfolding in_step_def by metis

lemma loop_inv_reconcile:
  assumes "loop_inv rc s" "nn \<in> lo_queue s" "Some KNotFound \<notin> set fs" "Reconcile rc inp nn ((lo_world s)\<lparr>w_faults := fs\<rparr>) = (r, w')"
    and "(if r = None then lo_queue s - {nn} else lo_queue s) \<subseteq> q"
    and "\<forall>k k'. w_kais (lo_world s) nn = Some k \<longrightarrow> w_kais w' nn = Some k' \<longrightarrow> k_Finalizers k' \<noteq> k_Finalizers k \<longrightarrow> nn \<in> q"
  shows "loop_inv rc \<lparr>lo_world = w', lo_queue = q\<rparr>"
proof -
  let ?w = "(lo_world s)\<lparr>w_faults := fs\<rparr>"
  have t: "tidy ?w" using assms(1) unfolding loop_inv_def tidy_def tidy_parts by blast
  then have wf: "wf_world ?w" and sd: "slugs_distinct ?w" by (simp_all add: tidy_def)
  have h: "Convergence.honest ?w" using assms(3) by (simp add: Convergence.honest_def)
  have "in_step rc w' n" if n: "n \<notin> q" for n
  proof (cases "n = nn")
    case True
    then have r: "r = None" using n assms(2,5) by (auto split: if_splits)
    show ?thesis
      unfolding True by (rule Reconcile_in_step[OF wf h assms(4)[unfolded r]]) (use n True assms(6) in auto)
  next
    case False
    have "n \<notin> lo_queue s" using assms(5) n False by (auto split: if_splits)
    then have old: "in_step rc (lo_world s) n" by (rule loop_invD[OF assms(1)])
    show ?thesis
    proof (rule in_step_objs[OF old])
      show "w_kais w' n = w_kais (lo_world s) n" using Reconcile_others[OF wf assms(4) False] by simp
      fix k key assume k: "w_kais (lo_world s) n = Some k" "key \<in> own_keys_of k"
      show "w_objs w' key = w_objs (lo_world s) key"
      proof (rule ccontr)
        assume "w_objs w' key \<noteq> w_objs (lo_world s) key"
        then have d: "w_objs w' key \<noteq> w_objs ?w key" by simp
        obtain kai where kai: "w_kais ?w nn = Some kai" "key \<in> child_keys (fst nn) (resolve_slug (k_Spec kai))"
          using reconcile_touches[OF wf assms(4) d] by blast
        then have "key \<in> own_keys_of kai" using wf_worldD[OF wf kai(1)] by (simp add: own_keys_of_def)
        moreover have "w_kais ?w n = Some k" using k(1) by simp
        ultimately show False using other_children[OF sd kai(1) _ _, of n k key] False k(2) by blast
      qed
    qed
  qed
  then show ?thesis using Reconcile_tidy[OF t assms(4)] by (simp add: loop_inv_def)
qed

lemma loop_inv_drift:
  assumes "owner_handler enq" "loop_inv rc s" "w_objs (lo_world s) key = Some ob" "\<forall>ob'. new = Some ob' \<longrightarrow> o_Owner ob' = o_Owner ob"
    and "lo_queue s \<union> enq (wa_Owns SetupWithManager) key ob new \<subseteq> q"
  shows "loop_inv rc \<lparr>lo_world = (lo_world s)\<lparr>w_objs := (w_objs (lo_world s))(key := new)\<rparr>, lo_queue = q\<rparr>"
proof -
  let ?w = "lo_world s" let ?v = "(lo_world s)\<lparr>w_objs := (w_objs (lo_world s))(key := new)\<rparr>"
  have t: "wf_world ?w" "slugs_distinct ?w" "children_owned ?w" using assms(2) by (simp_all add: loop_inv_def tidy_def)
  have "children_owned ?v"
    unfolding children_owned_def
  proof (intro allI impI, elim conjE)
    fix n k x ob'
    assume a: "w_kais ?v n = Some k" "x \<in> own_keys_of k" "w_objs ?v x = Some ob'"
    have k: "w_kais ?w n = Some k" using a(1) by simp
    show "o_Owner ob' = Some (k_Name k)"
    proof (cases "x = key")
      case True
      then have "o_Owner ob' = o_Owner ob" using a(3) assms(4) by simp
      then show ?thesis using children_ownedD[OF t(3) k, of key ob] a(2) assms(3) True by simp
    next
      case False
      then show ?thesis using children_ownedD[OF t(3) k a(2)] a(3) by simp
    qed
  qed
  then have "tidy ?v" using t unfolding tidy_def tidy_parts by blast
  moreover have "in_step rc ?v n" if n: "n \<notin> q" for n
  proof (rule in_step_objs)
    show "in_step rc ?w n" by (rule loop_invD[OF assms(2)]) (use assms(5) n in blast)
    fix k x assume k: "w_kais ?w n = Some k" "x \<in> own_keys_of k" "fst x \<noteq> PVCKind"
    show "w_objs ?v x = w_objs ?w x"
    proof (cases "x = key")
      case True
      have "o_Owner ob = Some (k_Name k)" using t(3) k(1,2) assms(3) True unfolding children_owned_def by blast
      moreover have "fst key \<in> set (wa_Owns SetupWithManager)" using k(3) True by (cases "fst key") (auto simp: SetupWithManager_def)
      ultimately have "(fst (snd key), k_Name k) \<in> q" using assms(1,5) unfolding owner_handler_def by blast
      moreover have "fst (snd key) = k_Namespace k" using k(2) True by (auto simp: own_keys_of_def child_keys_def)
      moreover have "n = (k_Namespace k, k_Name k)" using wf_worldD[OF t(1) k(1)] unfolding kai_key_def by metis
      ultimately show ?thesis using n by simp
    qed simp
  qed simp
  ultimately show ?thesis by (simp add: loop_inv_def)
qed

lemma loop_inv_step:
  assumes "loop_step rc enq s s'" "owner_handler enq" "loop_inv rc s"
  shows "loop_inv rc s'"
  using assms(1)
proof cases
  case (reconcile nn fs inp r w' q)
  then show ?thesis using loop_inv_reconcile[OF assms(3)] by blast
next
  case (drift key ob new q)
  then show ?thesis using loop_inv_drift[OF assms(2,3)] by blast
next
  case (strangers key q new)
  let ?w = "lo_world s" let ?v = "(lo_world s)\<lparr>w_objs := (w_objs (lo_world s))(key := new)\<rparr>"
  have t: "tidy ?w" using assms(3) by (simp add: loop_inv_def)
  have "children_owned ?v"
    unfolding children_owned_def
  proof (intro allI impI, elim conjE)
    fix n k x ob
    assume a: "w_kais ?v n = Some k" "x \<in> own_keys_of k" "w_objs ?v x = Some ob"
    then have k: "w_kais ?w n = Some k" by simp
    then have "x \<noteq> key" using strangers(2) a(2) by blast
    then show "o_Owner ob = Some (k_Name k)" using children_ownedD[OF _ k a(2), of ob] t a(3) unfolding tidy_def by simp
  qed
  then have "tidy ?v" using t unfolding tidy_def tidy_parts by blast
  moreover have "in_step rc ?v n" if "n \<notin> q" for n
  proof (rule in_step_objs)
    show "in_step rc ?w n" by (rule loop_invD[OF assms(3)]) (use strangers(3) that in blast)
    fix k x assume "w_kais ?w n = Some k" "x \<in> own_keys_of k"
    then have "x \<noteq> key" using strangers(2) by blast
    then show "w_objs ?v x = w_objs ?w x" by simp
  qed simp
  ultimately show ?thesis by (simp add: loop_inv_def strangers(1))
next
  case (edited nn k q)
  let ?v = "(lo_world s)\<lparr>w_kais := (w_kais (lo_world s))(nn := k)\<rparr>"
  have "in_step rc ?v n" if "n \<notin> q" for n
  proof (rule in_step_objs)
    show "in_step rc (lo_world s) n" by (rule loop_invD[OF assms(3)]) (use edited(3) that in blast)
  qed (use edited(3) that in auto)
  then show ?thesis using edited(2) by (simp add: loop_inv_def edited(1))
qed

lemma loop_inv_reachable:
  assumes "(loop_step rc enq)\<^sup>*\<^sup>* s0 s" "owner_handler enq" "loop_inv rc s0"
  shows "loop_inv rc s"
  using assms(1,3) by (induction rule: rtranclp_induct) (auto intro: loop_inv_step[OF _ assms(2)])


definition by_owner :: handler where
  "by_owner kinds key ob new = (case o_Owner ob of Some name \<Rightarrow> if fst key \<in> set kinds then {(fst (snd key), name)} else {} | None \<Rightarrow> {})"


end
