(* ===== verification/Memory.thy ===== *)
theory Memory
  imports Main
begin

text \<open>
  Explicit memory for the code that copies objects field by field.  Memory is the list of the cells allocated so far, an address
  is an index of it, and what a pointer field stands for is read through it.  The locale \<open>deep_copier\<close> is what a
  deep copy promises: the copy stands for the same value and is read through new cells only, and no old cell
  changes.  It holds for values, pointers, slices and structs made of them.
\<close>

section \<open>Growth\<close>

definition grows :: "'c list \<Rightarrow> 'c list \<Rightarrow> bool" where
  "grows h h' \<longleftrightarrow> length h \<le> length h' \<and> (\<forall>a < length h. h' ! a = h ! a)"

lemma grows_refl [simp]: "grows h h"
  by (simp add: grows_def)

lemma grows_trans: "grows h h1 \<Longrightarrow> grows h1 h2 \<Longrightarrow> grows h h2"
  by (simp add: grows_def)

lemma grows_alloc [simp]: "grows h (h @ cs)"
  by (simp add: grows_def nth_append)

lemma grows_fill: "grows (h @ [c]) h' \<Longrightarrow> grows h (h'[length h := c'])"
  by (auto simp: grows_def nth_append)

lemma grows_reach: "S \<subseteq> {..<length h} \<Longrightarrow> grows h h' \<Longrightarrow> \<forall>a \<in> S. a < length h' \<and> h' ! a = h ! a"
  by (auto simp: grows_def subset_iff)

section \<open>The contract of a deep copy\<close>

text \<open>
  \<open>reads h g\<close> is the value that \<open>g\<close> stands for in the memory \<open>h\<close>, none when a pointer in it leads nowhere or to another type,
  and \<open>reach h g\<close> the addresses it is read through.
\<close>

locale deep_copier =
  fixes reads :: "'c list \<Rightarrow> 'g \<Rightarrow> 'v option"
    and reach :: "'c list \<Rightarrow> 'g \<Rightarrow> nat set"
    and copy :: "'g \<Rightarrow> 'c list \<Rightarrow> ('g \<times> 'c list) option"
  assumes local: "reads h g = Some v \<Longrightarrow> \<forall>a \<in> reach h g. a < length h' \<and> h' ! a = h ! a \<Longrightarrow> reads h' g = Some v \<and> reach h' g = reach h g"
    and bound: "reads h g = Some v \<Longrightarrow> reach h g \<subseteq> {..<length h}"
    and copies: "reads h g = Some v \<Longrightarrow> \<exists>g' h'. copy g h = Some (g', h') \<and> grows h h' \<and> reads h' g' = Some v
        \<and> reach h' g' \<subseteq> {length h..<length h'}"
begin

lemma kept: "reads h g = Some v \<Longrightarrow> grows h h' \<Longrightarrow> reads h' g = Some v \<and> reach h' g = reach h g"
  by (rule local[OF _ grows_reach[OF bound]])

lemma kept_fill:
  "reads h g = Some v \<Longrightarrow> reach h g \<subseteq> A \<Longrightarrow> b \<notin> A \<Longrightarrow> reads (h[b := c]) g = Some v \<and> reach (h[b := c]) g = reach h g"
  using local[of h g v "h[b := c]"] bound[of h g v] by (metis lessThan_iff length_list_update nth_list_update_neq subset_iff)

lemma copied:
  assumes "reads h g = Some v"
  obtains g' h' where "copy g h = Some (g', h')" "grows h h'" "reads h' g' = Some v" "reach h' g' \<subseteq> {length h..<length h'}"
  using copies[OF assms] by blast

text \<open>The copy and the original do not see each other's changes.\<close>

lemma independent:
  assumes "reads h g = Some v" "copy g h = Some (g', h')"
  shows "length h'' = length h' \<Longrightarrow> \<forall>a. length h \<le> a \<longrightarrow> h'' ! a = h' ! a \<Longrightarrow> reads h'' g' = Some v"
    and "length h'' = length h' \<Longrightarrow> \<forall>a < length h. h'' ! a = h' ! a \<Longrightarrow> reads h'' g = Some v"
    and "reach h' g \<inter> reach h' g' = {}"
proof -
  obtain c: "grows h h'" "reads h' g' = Some v" "reach h' g' \<subseteq> {length h..<length h'}" using copies[OF assms(1)] assms(2) by auto
  have o: "reads h' g = Some v" "reach h' g \<subseteq> {..<length h}" using kept[OF assms(1) c(1)] bound[OF assms(1)] by auto
  show "length h'' = length h' \<Longrightarrow> \<forall>a. length h \<le> a \<longrightarrow> h'' ! a = h' ! a \<Longrightarrow> reads h'' g' = Some v"
    using local[OF c(2), of h''] c(3) by (auto simp: subset_iff)
  show "length h'' = length h' \<Longrightarrow> \<forall>a < length h. h'' ! a = h' ! a \<Longrightarrow> reads h'' g = Some v"
    using local[OF o(1), of h''] grows_reach[OF o(2), of h''] c(1) o(2) by (auto simp: subset_iff grows_def)
  show "reach h' g \<inter> reach h' g' = {}" using o(2) c(3) by fastforce
qed

end

subsection \<open>Values, pointers and slices\<close>

definition by_value :: "'g \<Rightarrow> 'c list \<Rightarrow> ('g \<times> 'c list) option" where
  \<comment> \<open>\<open>*out = *in\<close>\<close>
  "by_value g h = Some (g, h)"

interpretation plain: deep_copier "\<lambda>_ g. Some g" "\<lambda>_ _. {}" by_value
  by unfold_locales (auto simp: by_value_def)

definition deref :: "('c \<Rightarrow> 'g option) \<Rightarrow> 'c list \<Rightarrow> nat \<Rightarrow> 'g option" where
  "deref dest h a = (if a < length h then dest (h ! a) else None)"

definition ptr_reads :: "('c \<Rightarrow> 'g option) \<Rightarrow> ('c list \<Rightarrow> 'g \<Rightarrow> 'v option) \<Rightarrow> 'c list \<Rightarrow> nat option \<Rightarrow> 'v option option" where
  "ptr_reads dest rd h p = (case p of None \<Rightarrow> Some None
     | Some a \<Rightarrow> (case deref dest h a of None \<Rightarrow> None | Some g \<Rightarrow> map_option Some (rd h g)))"

definition ptr_reach :: "('c \<Rightarrow> 'g option) \<Rightarrow> ('c list \<Rightarrow> 'g \<Rightarrow> nat set) \<Rightarrow> 'c list \<Rightarrow> nat option \<Rightarrow> nat set" where
  "ptr_reach dest rc h p = (case p of None \<Rightarrow> {}
     | Some a \<Rightarrow> insert a (case deref dest h a of None \<Rightarrow> {} | Some g \<Rightarrow> rc h g))"

definition new_copy :: "'c \<Rightarrow> ('g \<Rightarrow> 'c) \<Rightarrow> ('c \<Rightarrow> 'g option) \<Rightarrow> ('g \<Rightarrow> 'c list \<Rightarrow> ('g \<times> 'c list) option)
    \<Rightarrow> nat option \<Rightarrow> 'c list \<Rightarrow> (nat option \<times> 'c list) option" where
  \<comment> \<open>\<open>if in != nil { *out = new(T); (*in).DeepCopyInto(*out) }\<close>\<close>
  "new_copy zero mk dest cp p h = (case p of None \<Rightarrow> Some (None, h)
     | Some a \<Rightarrow> (case deref dest h a of None \<Rightarrow> None
         | Some g \<Rightarrow> (case cp g (h @ [zero]) of None \<Rightarrow> None
             | Some (g', h') \<Rightarrow> Some (Some (length h), h'[length h := mk g']))))"

lemma ptr_readsE:
  assumes "ptr_reads dest rd h p = Some v"
  obtains "p = None" "v = None"
  | a g w where "p = Some a" "a < length h" "dest (h ! a) = Some g" "rd h g = Some w" "v = Some w"
proof (cases p)
  case None
  then show ?thesis using assms that(1) by (simp add: ptr_reads_def)
next
  case (Some a)
  then obtain g where g: "deref dest h a = Some g" "map_option Some (rd h g) = Some v" using assms by (auto simp: ptr_reads_def split: option.splits)
  then obtain w where "rd h g = Some w" "v = Some w" by (auto simp: map_option_eq_Some)
  with g(1) Some that(2) show ?thesis by (simp add: deref_def split: if_splits)
qed

lemma ptr_copier:
  assumes "deep_copier rd rc cp" "\<And>g. dest (mk g) = Some g"
  shows "deep_copier (ptr_reads dest rd) (ptr_reach dest rc) (new_copy zero mk dest cp)"
proof (rule deep_copier.intro)
  fix h p v h'
  assume r: "ptr_reads dest rd h p = Some v" and same: "\<forall>a \<in> ptr_reach dest rc h p. a < length h' \<and> h' ! a = h ! a"
  from r show "ptr_reads dest rd h' p = Some v \<and> ptr_reach dest rc h' p = ptr_reach dest rc h p"
  proof (cases rule: ptr_readsE)
    case (2 a g w)
    then have "rd h' g = Some w \<and> rc h' g = rc h g"
      using same by (intro deep_copier.local[OF assms(1)]) (auto simp: ptr_reach_def deref_def)
    then show ?thesis using 2 same by (auto simp: ptr_reads_def ptr_reach_def deref_def)
  qed (simp add: ptr_reads_def ptr_reach_def)
next
  fix h p v
  assume "ptr_reads dest rd h p = Some v"
  then show "ptr_reach dest rc h p \<subseteq> {..<length h}"
    by (cases rule: ptr_readsE) (auto simp: ptr_reach_def deref_def dest: deep_copier.bound[OF assms(1)])
next
  fix h p v
  assume r: "ptr_reads dest rd h p = Some v"
  show "\<exists>p' h'. new_copy zero mk dest cp p h = Some (p', h') \<and> grows h h' \<and> ptr_reads dest rd h' p' = Some v
      \<and> ptr_reach dest rc h' p' \<subseteq> {length h..<length h'}"
    using r
  proof (cases rule: ptr_readsE)
    case (2 a g w)
    have "rd (h @ [zero]) g = Some w" using deep_copier.kept[OF assms(1) 2(4), of "h @ [zero]"] by simp
    from deep_copier.copied[OF assms(1) this] obtain g' h1 where c: "cp g (h @ [zero]) = Some (g', h1)" "grows (h @ [zero]) h1"
      "rd h1 g' = Some w" "rc h1 g' \<subseteq> {length (h @ [zero])..<length h1}" by metis
    have len: "length h < length h1" using c(2) by (simp add: grows_def)
    let ?h = "h1[length h := mk g']"
    have k: "rd ?h g' = Some w" "rc ?h g' \<subseteq> {length h..<length h1}"
      using deep_copier.kept_fill[OF assms(1) c(3,4), of "length h" "mk g'"] c(4) by auto
    have "grows h ?h" by (rule grows_fill[OF c(2)])
    then show ?thesis
      using 2 c(1) k len assms(2) by (intro exI[of _ "Some (length h)"] exI[of _ ?h])
        (auto simp: new_copy_def ptr_reads_def ptr_reach_def deref_def)
  qed (simp add: new_copy_def ptr_reads_def ptr_reach_def)
qed

definition list_reads :: "('c list \<Rightarrow> 'g \<Rightarrow> 'v option) \<Rightarrow> 'c list \<Rightarrow> 'g list \<Rightarrow> 'v list option" where
  "list_reads rd h gs = those (map (rd h) gs)"

definition list_reach :: "('c list \<Rightarrow> 'g \<Rightarrow> nat set) \<Rightarrow> 'c list \<Rightarrow> 'g list \<Rightarrow> nat set" where
  "list_reach rc h gs = (\<Union>g \<in> set gs. rc h g)"

fun copy_elems :: "('g \<Rightarrow> 'c list \<Rightarrow> ('g \<times> 'c list) option) \<Rightarrow> 'g list \<Rightarrow> 'c list \<Rightarrow> ('g list \<times> 'c list) option" where
  \<comment> \<open>\<open>for i := range *in { (*in)[i].DeepCopyInto(&(*out)[i]) }\<close>; nobody else sees the new array before it is full\<close>
  "copy_elems cp [] h = Some ([], h)"
| "copy_elems cp (g # gs) h = (case cp g h of None \<Rightarrow> None
     | Some (g', h1) \<Rightarrow> (case copy_elems cp gs h1 of None \<Rightarrow> None | Some (gs', h2) \<Rightarrow> Some (g' # gs', h2)))"

lemma list_reads_simps [simp]:
  "list_reads rd h [] = Some []"
  "list_reads rd h (g # gs) = (case rd h g of None \<Rightarrow> None | Some v \<Rightarrow> map_option ((#) v) (list_reads rd h gs))"
  "list_reach rc h [] = {}" "list_reach rc h (g # gs) = rc h g \<union> list_reach rc h gs"
  by (simp_all add: list_reads_def list_reach_def split: option.split)

lemma list_local:
  assumes "deep_copier rd rc cp"
  shows "list_reads rd h gs = Some vs \<Longrightarrow> \<forall>a \<in> list_reach rc h gs. a < length h' \<and> h' ! a = h ! a
    \<Longrightarrow> list_reads rd h' gs = Some vs \<and> list_reach rc h' gs = list_reach rc h gs"
proof (induction gs arbitrary: vs)
  case (Cons g gs)
  then obtain v ws where v: "rd h g = Some v" "list_reads rd h gs = Some ws" "vs = v # ws" by (auto split: option.splits)
  have "rd h' g = Some v \<and> rc h' g = rc h g" by (rule deep_copier.local[OF assms v(1)]) (use Cons.prems in auto)
  moreover have "list_reads rd h' gs = Some ws \<and> list_reach rc h' gs = list_reach rc h gs"
    by (rule Cons.IH[OF v(2)]) (use Cons.prems in auto)
  ultimately show ?case using v by simp
qed simp

lemma list_bound:
  assumes "deep_copier rd rc cp"
  shows "list_reads rd h gs = Some vs \<Longrightarrow> list_reach rc h gs \<subseteq> {..<length h}"
proof (induction gs arbitrary: vs)
  case (Cons g gs)
  then show ?case using deep_copier.bound[OF assms, of h g] by (auto split: option.splits)
qed simp

lemma list_copies:
  assumes "deep_copier rd rc cp"
  shows "list_reads rd h gs = Some vs \<Longrightarrow> \<exists>gs' h'. copy_elems cp gs h = Some (gs', h') \<and> grows h h' \<and> list_reads rd h' gs' = Some vs
    \<and> list_reach rc h' gs' \<subseteq> {length h..<length h'}"
proof (induction gs arbitrary: vs h)
  case (Cons g gs)
  then obtain v ws where v: "rd h g = Some v" "list_reads rd h gs = Some ws" "vs = v # ws" by (auto split: option.splits)
  obtain g' h1 where c: "cp g h = Some (g', h1)" "grows h h1" "rd h1 g' = Some v" "rc h1 g' \<subseteq> {length h..<length h1}"
    using deep_copier.copied[OF assms v(1)] by metis
  have "list_reads rd h1 gs = Some ws"
    using list_local[OF assms v(2) grows_reach[OF list_bound[OF assms v(2)] c(2)]] by simp
  from Cons.IH[OF this] obtain gs' h2 where d: "copy_elems cp gs h1 = Some (gs', h2)" "grows h1 h2" "list_reads rd h2 gs' = Some ws"
    "list_reach rc h2 gs' \<subseteq> {length h1..<length h2}" by blast
  have "rd h2 g' = Some v \<and> rc h2 g' = rc h1 g'" by (rule deep_copier.kept[OF assms c(3) d(2)])
  moreover have "length h \<le> length h1" "length h1 \<le> length h2" using c(2) d(2) by (auto simp: grows_def)
  ultimately show ?case using c d v grows_trans[OF c(2) d(2)] by (intro exI[of _ "g' # gs'"] exI[of _ h2]) fastforce
qed simp

lemma list_copier:
  assumes "deep_copier rd rc cp"
  shows "deep_copier (list_reads rd) (list_reach rc) (copy_elems cp)"
  by (rule deep_copier.intro[OF list_local[OF assms] list_bound[OF assms] list_copies[OF assms]])

definition pair_reads :: "('c list \<Rightarrow> 'a \<Rightarrow> 'v option) \<Rightarrow> ('c list \<Rightarrow> 'b \<Rightarrow> 'w option) \<Rightarrow> 'c list \<Rightarrow> 'a \<times> 'b \<Rightarrow> ('v \<times> 'w) option" where
  "pair_reads rd1 rd2 h ab = (case (rd1 h (fst ab), rd2 h (snd ab)) of (Some v, Some w) \<Rightarrow> Some (v, w) | _ \<Rightarrow> None)"

definition pair_reach :: "('c list \<Rightarrow> 'a \<Rightarrow> nat set) \<Rightarrow> ('c list \<Rightarrow> 'b \<Rightarrow> nat set) \<Rightarrow> 'c list \<Rightarrow> 'a \<times> 'b \<Rightarrow> nat set" where
  "pair_reach rc1 rc2 h ab = rc1 h (fst ab) \<union> rc2 h (snd ab)"

definition pair_copy :: "('a \<Rightarrow> 'c list \<Rightarrow> ('a \<times> 'c list) option) \<Rightarrow> ('b \<Rightarrow> 'c list \<Rightarrow> ('b \<times> 'c list) option)
    \<Rightarrow> 'a \<times> 'b \<Rightarrow> 'c list \<Rightarrow> (('a \<times> 'b) \<times> 'c list) option" where
  "pair_copy cp1 cp2 ab h = (case cp1 (fst ab) h of None \<Rightarrow> None
     | Some (a, h1) \<Rightarrow> (case cp2 (snd ab) h1 of None \<Rightarrow> None | Some (b, h2) \<Rightarrow> Some ((a, b), h2)))"

lemma pair_readsE:
  assumes "pair_reads rd1 rd2 h ab = Some v"
  obtains w1 w2 where "rd1 h (fst ab) = Some w1" "rd2 h (snd ab) = Some w2" "v = (w1, w2)"
  using assms by (auto simp: pair_reads_def split: option.splits)

lemma pair_copier:
  assumes "deep_copier rd1 rc1 cp1" "deep_copier rd2 rc2 cp2"
  shows "deep_copier (pair_reads rd1 rd2) (pair_reach rc1 rc2) (pair_copy cp1 cp2)"
proof (rule deep_copier.intro)
  fix h ab v h'
  assume "pair_reads rd1 rd2 h ab = Some v" "\<forall>a \<in> pair_reach rc1 rc2 h ab. a < length h' \<and> h' ! a = h ! a"
  then show "pair_reads rd1 rd2 h' ab = Some v \<and> pair_reach rc1 rc2 h' ab = pair_reach rc1 rc2 h ab"
    using deep_copier.local[OF assms(1), of h "fst ab" _ h'] deep_copier.local[OF assms(2), of h "snd ab" _ h']
    by (elim pair_readsE) (auto simp: pair_reads_def pair_reach_def)
next
  fix h ab v
  assume "pair_reads rd1 rd2 h ab = Some v"
  then show "pair_reach rc1 rc2 h ab \<subseteq> {..<length h}"
    using deep_copier.bound[OF assms(1)] deep_copier.bound[OF assms(2)] by (elim pair_readsE) (auto simp: pair_reach_def)
next
  fix h ab v
  assume "pair_reads rd1 rd2 h ab = Some v"
  then obtain w1 w2 where w: "rd1 h (fst ab) = Some w1" "rd2 h (snd ab) = Some w2" "v = (w1, w2)" by (rule pair_readsE)
  obtain a h1 where c: "cp1 (fst ab) h = Some (a, h1)" "grows h h1" "rd1 h1 a = Some w1" "rc1 h1 a \<subseteq> {length h..<length h1}"
    using deep_copier.copied[OF assms(1) w(1)] by metis
  have "rd2 h1 (snd ab) = Some w2" using deep_copier.kept[OF assms(2) w(2) c(2)] by simp
  then obtain b h2 where d: "cp2 (snd ab) h1 = Some (b, h2)" "grows h1 h2" "rd2 h2 b = Some w2" "rc2 h2 b \<subseteq> {length h1..<length h2}"
    using deep_copier.copied[OF assms(2)] by metis
  have "rd1 h2 a = Some w1 \<and> rc1 h2 a = rc1 h1 a" by (rule deep_copier.kept[OF assms(1) c(3) d(2)])
  moreover have "length h \<le> length h1" "length h1 \<le> length h2" using c(2) d(2) by (auto simp: grows_def)
  ultimately show "\<exists>ab' h'. pair_copy cp1 cp2 ab h = Some (ab', h') \<and> grows h h' \<and> pair_reads rd1 rd2 h' ab' = Some v
      \<and> pair_reach rc1 rc2 h' ab' \<subseteq> {length h..<length h'}"
    using c d w(3) grows_trans[OF c(2) d(2)]
    by (intro exI[of _ "(a, b)"] exI[of _ h2]) (fastforce simp: pair_copy_def pair_reads_def pair_reach_def)
qed

text \<open>A struct is copied by copying some of its fields and keeping the rest.\<close>

lemma struct_copier:
  assumes "deep_copier rd rc cp" "\<And>p g. get (put p g) = p" "\<And>p g. mk (put p g) = mk g"
  shows "deep_copier (\<lambda>h g. map_option (mk g) (rd h (get g))) (\<lambda>h g. rc h (get g))
    (\<lambda>g h. map_option (\<lambda>(p, h'). (put p g, h')) (cp (get g) h))"
proof (rule deep_copier.intro)
  fix h g v h'
  assume "map_option (mk g) (rd h (get g)) = Some v" "\<forall>a \<in> rc h (get g). a < length h' \<and> h' ! a = h ! a"
  then show "map_option (mk g) (rd h' (get g)) = Some v \<and> rc h' (get g) = rc h (get g)"
    using deep_copier.local[OF assms(1), of h "get g" _ h'] by (auto simp: map_option_eq_Some)
next
  fix h g v
  assume "map_option (mk g) (rd h (get g)) = Some v"
  then show "rc h (get g) \<subseteq> {..<length h}" using deep_copier.bound[OF assms(1), of h "get g"] by (auto simp: map_option_eq_Some)
next
  fix h g v
  assume "map_option (mk g) (rd h (get g)) = Some v"
  then obtain w where w: "rd h (get g) = Some w" "v = mk g w" by (auto simp: map_option_eq_Some)
  from deep_copier.copied[OF assms(1) this(1)] obtain p h' where "cp (get g) h = Some (p, h')" "grows h h'" "rd h' p = Some w"
    "rc h' p \<subseteq> {length h..<length h'}" by metis
  then show "\<exists>g' h'. map_option (\<lambda>(p, h'). (put p g, h')) (cp (get g) h) = Some (g', h') \<and> grows h h'
      \<and> map_option (mk g') (rd h' (get g')) = Some v \<and> rc h' (get g') \<subseteq> {length h..<length h'}"
    using w(2) by (intro exI[of _ "put p g"] exI[of _ h']) (simp add: assms(2,3))
qed

end
