(* ===== verification/DeepCopy.thy ===== *)
theory DeepCopy
  imports KaiTypes Memory
begin

text \<open>
  The generated copies of the resource (\<open>operator/api/v1alpha1/zz_generated.deepcopy.go\<close>) over explicit memory, where the
  other theories treat a \<open>KaiInstance\<close> as a value.  A struct holds its scalar fields and the addresses of the rest; what \<open>k8s.io\<close> holds in an
  \<open>ObjectMeta\<close>, a \<open>ListMeta\<close> and a \<open>ResourceRequirements\<close>, and how it copies them, is a parameter with the contract
  \<open>deep_copier\<close>.  \<open>None\<close> is the panic of a dereference that does not find its type.
\<close>

section \<open>Objects in memory\<close>

record go_kai_spec =
  gs_scalars :: kai_spec  \<comment> \<open>the fields held by value; its four pointer fields stay unset\<close>
  gs_Telegram :: "nat option"
  gs_GatewayAuth :: "nat option"
  gs_Resources :: "nat option"
  gs_ExternalAccess :: "nat option"

record go_kai_status =
  gt_scalars :: kai_status  \<comment> \<open>without its conditions\<close>
  gt_Conditions :: "nat option"

record 'm go_kai =
  gk_TypeMeta :: "string \<times> string"
  gk_ObjectMeta :: 'm
  gk_Spec :: go_kai_spec
  gk_Status :: go_kai_status

record 'l go_kai_list =
  gl_TypeMeta :: "string \<times> string"
  gl_ListMeta :: 'l
  gl_Items :: "nat option"

datatype ('m, 'r, 'l, 'x) cell =
  Zeroed  \<comment> \<open>allocated, not written yet\<close>
| TelegramCell string
| GatewayCell "string \<times> string"
| BoolCell bool
| ResourcesCell 'r
| ConditionsCell "condition list"
| ItemsCell "'m go_kai list"
| SpecCell go_kai_spec
| StatusCell go_kai_status
| KaiCell "'m go_kai"
| ListCell "'l go_kai_list"
| LibraryCell 'x

section \<open>The generated copies\<close>

fun to_Telegram :: "('m, 'r, 'l, 'x) cell \<Rightarrow> string option" where
  "to_Telegram (TelegramCell t) = Some t" | "to_Telegram _ = None"

fun to_Gateway :: "('m, 'r, 'l, 'x) cell \<Rightarrow> (string \<times> string) option" where
  "to_Gateway (GatewayCell g) = Some g" | "to_Gateway _ = None"

fun to_Bool :: "('m, 'r, 'l, 'x) cell \<Rightarrow> bool option" where
  "to_Bool (BoolCell b) = Some b" | "to_Bool _ = None"

fun to_Resources :: "('m, 'r, 'l, 'x) cell \<Rightarrow> 'r option" where
  "to_Resources (ResourcesCell r) = Some r" | "to_Resources _ = None"

fun to_Conditions :: "('m, 'r, 'l, 'x) cell \<Rightarrow> condition list option" where
  "to_Conditions (ConditionsCell cs) = Some cs" | "to_Conditions _ = None"

fun to_Items :: "('m, 'r, 'l, 'x) cell \<Rightarrow> 'm go_kai list option" where
  "to_Items (ItemsCell ks) = Some ks" | "to_Items _ = None"

fun to_Spec :: "('m, 'r, 'l, 'x) cell \<Rightarrow> go_kai_spec option" where
  "to_Spec (SpecCell g) = Some g" | "to_Spec _ = None"

fun to_Status :: "('m, 'r, 'l, 'x) cell \<Rightarrow> go_kai_status option" where
  "to_Status (StatusCell g) = Some g" | "to_Status _ = None"

fun to_Kai :: "('m, 'r, 'l, 'x) cell \<Rightarrow> 'm go_kai option" where
  "to_Kai (KaiCell g) = Some g" | "to_Kai _ = None"

fun to_List :: "('m, 'r, 'l, 'x) cell \<Rightarrow> 'l go_kai_list option" where
  "to_List (ListCell g) = Some g" | "to_List _ = None"

text \<open>What \<open>k8s.io\<close> does for a type of its own.\<close>

record ('c, 'g, 'v) copier =
  cp_reads :: "'c list \<Rightarrow> 'g \<Rightarrow> 'v option"
  cp_reach :: "'c list \<Rightarrow> 'g \<Rightarrow> nat set"
  cp_copy :: "'g \<Rightarrow> 'c list \<Rightarrow> ('g \<times> 'c list) option"

definition copies_deeply :: "('c, 'g, 'v) copier \<Rightarrow> bool" where
  "copies_deeply K \<longleftrightarrow> deep_copier (cp_reads K) (cp_reach K) (cp_copy K)"

subsection \<open>TelegramConfig and GatewayAuthConfig\<close>

definition TelegramConfig_DeepCopyInto :: "string \<Rightarrow> ('m, 'r, 'l, 'x) cell list \<Rightarrow> (string \<times> ('m, 'r, 'l, 'x) cell list) option" where
  "TelegramConfig_DeepCopyInto = by_value"

definition TelegramConfig_DeepCopy :: "nat option \<Rightarrow> ('m, 'r, 'l, 'x) cell list \<Rightarrow> (nat option \<times> ('m, 'r, 'l, 'x) cell list) option" where
  "TelegramConfig_DeepCopy = new_copy Zeroed TelegramCell to_Telegram TelegramConfig_DeepCopyInto"

definition GatewayAuthConfig_DeepCopyInto :: "string \<times> string \<Rightarrow> ('m, 'r, 'l, 'x) cell list \<Rightarrow> ((string \<times> string) \<times> ('m, 'r, 'l, 'x) cell list) option" where
  "GatewayAuthConfig_DeepCopyInto = by_value"

definition GatewayAuthConfig_DeepCopy :: "nat option \<Rightarrow> ('m, 'r, 'l, 'x) cell list \<Rightarrow> (nat option \<times> ('m, 'r, 'l, 'x) cell list) option" where
  "GatewayAuthConfig_DeepCopy = new_copy Zeroed GatewayCell to_Gateway GatewayAuthConfig_DeepCopyInto"

interpretation telegram: deep_copier "ptr_reads to_Telegram (\<lambda>_ t. Some t)" "ptr_reach to_Telegram (\<lambda>_ _. {})" TelegramConfig_DeepCopy
  unfolding TelegramConfig_DeepCopy_def TelegramConfig_DeepCopyInto_def by (rule ptr_copier[OF plain.deep_copier_axioms]) simp

interpretation gateway: deep_copier "ptr_reads to_Gateway (\<lambda>_ t. Some t)" "ptr_reach to_Gateway (\<lambda>_ _. {})" GatewayAuthConfig_DeepCopy
  unfolding GatewayAuthConfig_DeepCopy_def GatewayAuthConfig_DeepCopyInto_def by (rule ptr_copier[OF plain.deep_copier_axioms]) simp

subsection \<open>KaiInstanceSpec\<close>

definition spec_reads :: "(('m, 'r, 'l, 'x) cell, 'r, requirements) copier \<Rightarrow> ('m, 'r, 'l, 'x) cell list \<Rightarrow> go_kai_spec \<Rightarrow> kai_spec option" where
  "spec_reads R h g =
     (case (ptr_reads to_Telegram (\<lambda>_ t. Some t) h (gs_Telegram g), ptr_reads to_Gateway (\<lambda>_ a. Some a) h (gs_GatewayAuth g),
            ptr_reads to_Resources (cp_reads R) h (gs_Resources g), ptr_reads to_Bool (\<lambda>_ b. Some b) h (gs_ExternalAccess g)) of
        (Some t, Some a, Some r, Some e) \<Rightarrow>
          Some ((gs_scalars g)\<lparr>sp_Telegram := t, sp_GatewayAuth := a, sp_Resources := r, sp_ExternalAccess := e\<rparr>)
      | _ \<Rightarrow> None)"

definition spec_reach :: "(('m, 'r, 'l, 'x) cell, 'r, requirements) copier \<Rightarrow> ('m, 'r, 'l, 'x) cell list \<Rightarrow> go_kai_spec \<Rightarrow> nat set" where
  "spec_reach R h g = ptr_reach to_Telegram (\<lambda>_ _. {}) h (gs_Telegram g) \<union> ptr_reach to_Gateway (\<lambda>_ _. {}) h (gs_GatewayAuth g)
     \<union> ptr_reach to_Resources (cp_reach R) h (gs_Resources g) \<union> ptr_reach to_Bool (\<lambda>_ _. {}) h (gs_ExternalAccess g)"

definition KaiInstanceSpec_DeepCopyInto :: "(('m, 'r, 'l, 'x) cell, 'r, requirements) copier \<Rightarrow> go_kai_spec \<Rightarrow> ('m, 'r, 'l, 'x) cell list
    \<Rightarrow> (go_kai_spec \<times> ('m, 'r, 'l, 'x) cell list) option" where
  "KaiInstanceSpec_DeepCopyInto R inn h =
     (let out = inn in
      case new_copy Zeroed TelegramCell to_Telegram by_value (gs_Telegram inn) h of None \<Rightarrow> None
      | Some (t, h1) \<Rightarrow> (let out = out\<lparr>gs_Telegram := t\<rparr> in
      case new_copy Zeroed GatewayCell to_Gateway by_value (gs_GatewayAuth inn) h1 of None \<Rightarrow> None
      | Some (a, h2) \<Rightarrow> (let out = out\<lparr>gs_GatewayAuth := a\<rparr> in
      case new_copy Zeroed ResourcesCell to_Resources (cp_copy R) (gs_Resources inn) h2 of None \<Rightarrow> None
      | Some (r, h3) \<Rightarrow> (let out = out\<lparr>gs_Resources := r\<rparr> in
      case new_copy Zeroed BoolCell to_Bool by_value (gs_ExternalAccess inn) h3 of None \<Rightarrow> None
      | Some (e, h4) \<Rightarrow> Some (out\<lparr>gs_ExternalAccess := e\<rparr>, h4)))))"

definition KaiInstanceSpec_DeepCopy :: "(('m, 'r, 'l, 'x) cell, 'r, requirements) copier \<Rightarrow> nat option \<Rightarrow> ('m, 'r, 'l, 'x) cell list
    \<Rightarrow> (nat option \<times> ('m, 'r, 'l, 'x) cell list) option" where
  "KaiInstanceSpec_DeepCopy R = new_copy Zeroed SpecCell to_Spec (KaiInstanceSpec_DeepCopyInto R)"

lemma spec_copier:
  assumes "copies_deeply R"
  shows "deep_copier (spec_reads R) (spec_reach R) (KaiInstanceSpec_DeepCopyInto R)"
proof -
  note p = plain.deep_copier_axioms
  have res: "deep_copier (ptr_reads to_Resources (cp_reads R)) (ptr_reach to_Resources (cp_reach R)) (new_copy Zeroed ResourcesCell to_Resources (cp_copy R))"
    using assms unfolding copies_deeply_def by (rule ptr_copier) simp
  have "deep_copier
     (\<lambda>h g. map_option (\<lambda>(t, a, r, e). (gs_scalars g)\<lparr>sp_Telegram := t, sp_GatewayAuth := a, sp_Resources := r, sp_ExternalAccess := e\<rparr>)
        (pair_reads (ptr_reads to_Telegram (\<lambda>_ t. Some t)) (pair_reads (ptr_reads to_Gateway (\<lambda>_ t. Some t))
          (pair_reads (ptr_reads to_Resources (cp_reads R)) (ptr_reads to_Bool (\<lambda>_ t. Some t)))) h
          (gs_Telegram g, gs_GatewayAuth g, gs_Resources g, gs_ExternalAccess g)))
     (\<lambda>h g. pair_reach (ptr_reach to_Telegram (\<lambda>_ _. {})) (pair_reach (ptr_reach to_Gateway (\<lambda>_ _. {}))
          (pair_reach (ptr_reach to_Resources (cp_reach R)) (ptr_reach to_Bool (\<lambda>_ _. {})))) h
          (gs_Telegram g, gs_GatewayAuth g, gs_Resources g, gs_ExternalAccess g))
     (\<lambda>g h. map_option (\<lambda>(q, h'). (case q of (t, a, r, e) \<Rightarrow> g\<lparr>gs_Telegram := t, gs_GatewayAuth := a, gs_Resources := r, gs_ExternalAccess := e\<rparr>, h'))
        (pair_copy (new_copy Zeroed TelegramCell to_Telegram by_value) (pair_copy (new_copy Zeroed GatewayCell to_Gateway by_value)
          (pair_copy (new_copy Zeroed ResourcesCell to_Resources (cp_copy R)) (new_copy Zeroed BoolCell to_Bool by_value)))
          (gs_Telegram g, gs_GatewayAuth g, gs_Resources g, gs_ExternalAccess g) h))"
    by (rule struct_copier[OF pair_copier[OF ptr_copier[OF p] pair_copier[OF ptr_copier[OF p] pair_copier[OF res ptr_copier[OF p]]]]]) auto
  moreover have "spec_reads R = (\<lambda>h g. map_option (\<lambda>(t, a, r, e). (gs_scalars g)\<lparr>sp_Telegram := t, sp_GatewayAuth := a, sp_Resources := r, sp_ExternalAccess := e\<rparr>)
        (pair_reads (ptr_reads to_Telegram (\<lambda>_ t. Some t)) (pair_reads (ptr_reads to_Gateway (\<lambda>_ t. Some t))
          (pair_reads (ptr_reads to_Resources (cp_reads R)) (ptr_reads to_Bool (\<lambda>_ t. Some t)))) h
          (gs_Telegram g, gs_GatewayAuth g, gs_Resources g, gs_ExternalAccess g)))"
    by (intro ext) (simp add: spec_reads_def pair_reads_def split: option.split)
  moreover have "spec_reach R = (\<lambda>h g. pair_reach (ptr_reach to_Telegram (\<lambda>_ _. {})) (pair_reach (ptr_reach to_Gateway (\<lambda>_ _. {}))
          (pair_reach (ptr_reach to_Resources (cp_reach R)) (ptr_reach to_Bool (\<lambda>_ _. {})))) h
          (gs_Telegram g, gs_GatewayAuth g, gs_Resources g, gs_ExternalAccess g))"
    by (intro ext) (simp add: spec_reach_def pair_reach_def Un_assoc)
  moreover have "KaiInstanceSpec_DeepCopyInto R = (\<lambda>g h. map_option (\<lambda>(q, h'). (case q of (t, a, r, e) \<Rightarrow> g\<lparr>gs_Telegram := t, gs_GatewayAuth := a, gs_Resources := r, gs_ExternalAccess := e\<rparr>, h'))
        (pair_copy (new_copy Zeroed TelegramCell to_Telegram by_value) (pair_copy (new_copy Zeroed GatewayCell to_Gateway by_value)
          (pair_copy (new_copy Zeroed ResourcesCell to_Resources (cp_copy R)) (new_copy Zeroed BoolCell to_Bool by_value)))
          (gs_Telegram g, gs_GatewayAuth g, gs_Resources g, gs_ExternalAccess g) h))"
    by (intro ext) (simp add: KaiInstanceSpec_DeepCopyInto_def pair_copy_def Let_def split: option.split)
  ultimately show ?thesis by simp
qed

subsection \<open>KaiInstanceStatus\<close>

text \<open>A \<open>metav1.Condition\<close> holds strings, an integer and a time, and is copied by value.\<close>

definition status_reads :: "('m, 'r, 'l, 'x) cell list \<Rightarrow> go_kai_status \<Rightarrow> kai_status option" where
  "status_reads h g = map_option (\<lambda>cs. (gt_scalars g)\<lparr>ks_Conditions := (case cs of None \<Rightarrow> [] | Some l \<Rightarrow> l)\<rparr>)
     (ptr_reads to_Conditions (list_reads (\<lambda>_ c. Some c)) h (gt_Conditions g))"

definition status_reach :: "('m, 'r, 'l, 'x) cell list \<Rightarrow> go_kai_status \<Rightarrow> nat set" where
  "status_reach h g = ptr_reach to_Conditions (list_reach (\<lambda>_ _. {})) h (gt_Conditions g)"

definition KaiInstanceStatus_DeepCopyInto :: "go_kai_status \<Rightarrow> ('m, 'r, 'l, 'x) cell list \<Rightarrow> (go_kai_status \<times> ('m, 'r, 'l, 'x) cell list) option" where
  "KaiInstanceStatus_DeepCopyInto inn h =
     (case new_copy Zeroed ConditionsCell to_Conditions (copy_elems by_value) (gt_Conditions inn) h of None \<Rightarrow> None
      | Some (cs, h1) \<Rightarrow> Some (inn\<lparr>gt_Conditions := cs\<rparr>, h1))"

definition KaiInstanceStatus_DeepCopy :: "nat option \<Rightarrow> ('m, 'r, 'l, 'x) cell list \<Rightarrow> (nat option \<times> ('m, 'r, 'l, 'x) cell list) option" where
  "KaiInstanceStatus_DeepCopy = new_copy Zeroed StatusCell to_Status KaiInstanceStatus_DeepCopyInto"

lemma status_copy_struct:
  "KaiInstanceStatus_DeepCopyInto = (\<lambda>g h. map_option (\<lambda>(q, h'). (g\<lparr>gt_Conditions := q\<rparr>, h'))
     (new_copy Zeroed ConditionsCell to_Conditions (copy_elems by_value) (gt_Conditions g) h))"
  by (intro ext) (simp add: KaiInstanceStatus_DeepCopyInto_def split: option.split)

interpretation status: deep_copier status_reads status_reach KaiInstanceStatus_DeepCopyInto
  unfolding status_reads_def[abs_def] status_reach_def[abs_def] status_copy_struct
  by (rule struct_copier[OF ptr_copier[OF list_copier[OF plain.deep_copier_axioms]]]) auto

subsection \<open>KaiInstance and KaiInstanceList\<close>

type_synonym 'mv instance_view = "(string \<times> string) \<times> 'mv \<times> kai_spec \<times> kai_status"

definition kai_reads :: "(('m, 'r, 'l, 'x) cell, 'm, 'mv) copier \<Rightarrow> (('m, 'r, 'l, 'x) cell, 'r, requirements) copier
    \<Rightarrow> ('m, 'r, 'l, 'x) cell list \<Rightarrow> 'm go_kai \<Rightarrow> 'mv instance_view option" where
  "kai_reads M R h g = (case (cp_reads M h (gk_ObjectMeta g), spec_reads R h (gk_Spec g), status_reads h (gk_Status g)) of
     (Some m, Some s, Some t) \<Rightarrow> Some (gk_TypeMeta g, m, s, t) | _ \<Rightarrow> None)"

definition kai_reach :: "(('m, 'r, 'l, 'x) cell, 'm, 'mv) copier \<Rightarrow> (('m, 'r, 'l, 'x) cell, 'r, requirements) copier
    \<Rightarrow> ('m, 'r, 'l, 'x) cell list \<Rightarrow> 'm go_kai \<Rightarrow> nat set" where
  "kai_reach M R h g = cp_reach M h (gk_ObjectMeta g) \<union> spec_reach R h (gk_Spec g) \<union> status_reach h (gk_Status g)"

definition KaiInstance_DeepCopyInto :: "(('m, 'r, 'l, 'x) cell, 'm, 'mv) copier \<Rightarrow> (('m, 'r, 'l, 'x) cell, 'r, requirements) copier
    \<Rightarrow> 'm go_kai \<Rightarrow> ('m, 'r, 'l, 'x) cell list \<Rightarrow> ('m go_kai \<times> ('m, 'r, 'l, 'x) cell list) option" where
  "KaiInstance_DeepCopyInto M R inn h =
     (let out = inn\<lparr>gk_TypeMeta := gk_TypeMeta inn\<rparr> in
      case cp_copy M (gk_ObjectMeta inn) h of None \<Rightarrow> None
      | Some (m, h1) \<Rightarrow> (let out = out\<lparr>gk_ObjectMeta := m\<rparr> in
      case KaiInstanceSpec_DeepCopyInto R (gk_Spec inn) h1 of None \<Rightarrow> None
      | Some (s, h2) \<Rightarrow> (let out = out\<lparr>gk_Spec := s\<rparr> in
      case KaiInstanceStatus_DeepCopyInto (gk_Status inn) h2 of None \<Rightarrow> None
      | Some (t, h3) \<Rightarrow> Some (out\<lparr>gk_Status := t\<rparr>, h3))))"

definition KaiInstance_DeepCopy :: "(('m, 'r, 'l, 'x) cell, 'm, 'mv) copier \<Rightarrow> (('m, 'r, 'l, 'x) cell, 'r, requirements) copier
    \<Rightarrow> nat option \<Rightarrow> ('m, 'r, 'l, 'x) cell list \<Rightarrow> (nat option \<times> ('m, 'r, 'l, 'x) cell list) option" where
  "KaiInstance_DeepCopy M R = new_copy Zeroed KaiCell to_Kai (KaiInstance_DeepCopyInto M R)"

definition KaiInstance_DeepCopyObject :: "(('m, 'r, 'l, 'x) cell, 'm, 'mv) copier \<Rightarrow> (('m, 'r, 'l, 'x) cell, 'r, requirements) copier
    \<Rightarrow> nat option \<Rightarrow> ('m, 'r, 'l, 'x) cell list \<Rightarrow> (nat option \<times> ('m, 'r, 'l, 'x) cell list) option" where
  \<comment> \<open>an interface, nil when there is no object\<close>
  "KaiInstance_DeepCopyObject M R p h = (case KaiInstance_DeepCopy M R p h of None \<Rightarrow> None
     | Some (c, h') \<Rightarrow> (case c of Some a \<Rightarrow> Some (Some a, h') | None \<Rightarrow> Some (None, h')))"

lemma kai_copier:
  assumes "copies_deeply M" "copies_deeply R"
  shows "deep_copier (kai_reads M R) (kai_reach M R) (KaiInstance_DeepCopyInto M R)"
proof -
  have "deep_copier
     (\<lambda>h g. map_option (Pair (gk_TypeMeta g))
        (pair_reads (cp_reads M) (pair_reads (spec_reads R) status_reads) h (gk_ObjectMeta g, gk_Spec g, gk_Status g)))
     (\<lambda>h g. pair_reach (cp_reach M) (pair_reach (spec_reach R) status_reach) h (gk_ObjectMeta g, gk_Spec g, gk_Status g))
     (\<lambda>g h. map_option (\<lambda>(q, h'). (case q of (m, s, t) \<Rightarrow> g\<lparr>gk_ObjectMeta := m, gk_Spec := s, gk_Status := t\<rparr>, h'))
        (pair_copy (cp_copy M) (pair_copy (KaiInstanceSpec_DeepCopyInto R) KaiInstanceStatus_DeepCopyInto) (gk_ObjectMeta g, gk_Spec g, gk_Status g) h))"
    by (rule struct_copier[OF pair_copier[OF assms(1)[unfolded copies_deeply_def] pair_copier[OF spec_copier[OF assms(2)] status.deep_copier_axioms]]]) auto
  moreover have "kai_reads M R = (\<lambda>h g. map_option (Pair (gk_TypeMeta g))
        (pair_reads (cp_reads M) (pair_reads (spec_reads R) status_reads) h (gk_ObjectMeta g, gk_Spec g, gk_Status g)))"
    by (intro ext) (simp add: kai_reads_def pair_reads_def split: option.split)
  moreover have "kai_reach M R = (\<lambda>h g. pair_reach (cp_reach M) (pair_reach (spec_reach R) status_reach) h (gk_ObjectMeta g, gk_Spec g, gk_Status g))"
    by (intro ext) (simp add: kai_reach_def pair_reach_def Un_assoc)
  moreover have "KaiInstance_DeepCopyInto M R = (\<lambda>g h. map_option (\<lambda>(q, h'). (case q of (m, s, t) \<Rightarrow> g\<lparr>gk_ObjectMeta := m, gk_Spec := s, gk_Status := t\<rparr>, h'))
        (pair_copy (cp_copy M) (pair_copy (KaiInstanceSpec_DeepCopyInto R) KaiInstanceStatus_DeepCopyInto) (gk_ObjectMeta g, gk_Spec g, gk_Status g) h))"
    by (intro ext) (simp add: KaiInstance_DeepCopyInto_def pair_copy_def Let_def split: option.split)
  ultimately show ?thesis by simp
qed

definition list_view :: "(('m, 'r, 'l, 'x) cell, 'm, 'mv) copier \<Rightarrow> (('m, 'r, 'l, 'x) cell, 'r, requirements) copier
    \<Rightarrow> (('m, 'r, 'l, 'x) cell, 'l, 'lv) copier \<Rightarrow> ('m, 'r, 'l, 'x) cell list \<Rightarrow> 'l go_kai_list
    \<Rightarrow> ((string \<times> string) \<times> 'lv \<times> 'mv instance_view list option) option" where
  "list_view M R L h g = (case (cp_reads L h (gl_ListMeta g), ptr_reads to_Items (list_reads (kai_reads M R)) h (gl_Items g)) of
     (Some l, Some ks) \<Rightarrow> Some (gl_TypeMeta g, l, ks) | _ \<Rightarrow> None)"

definition list_span :: "(('m, 'r, 'l, 'x) cell, 'm, 'mv) copier \<Rightarrow> (('m, 'r, 'l, 'x) cell, 'r, requirements) copier
    \<Rightarrow> (('m, 'r, 'l, 'x) cell, 'l, 'lv) copier \<Rightarrow> ('m, 'r, 'l, 'x) cell list \<Rightarrow> 'l go_kai_list \<Rightarrow> nat set" where
  "list_span M R L h g = cp_reach L h (gl_ListMeta g) \<union> ptr_reach to_Items (list_reach (kai_reach M R)) h (gl_Items g)"

definition KaiInstanceList_DeepCopyInto :: "(('m, 'r, 'l, 'x) cell, 'm, 'mv) copier \<Rightarrow> (('m, 'r, 'l, 'x) cell, 'r, requirements) copier
    \<Rightarrow> (('m, 'r, 'l, 'x) cell, 'l, 'lv) copier \<Rightarrow> 'l go_kai_list \<Rightarrow> ('m, 'r, 'l, 'x) cell list \<Rightarrow> ('l go_kai_list \<times> ('m, 'r, 'l, 'x) cell list) option" where
  "KaiInstanceList_DeepCopyInto M R L inn h =
     (let out = inn\<lparr>gl_TypeMeta := gl_TypeMeta inn\<rparr> in
      case cp_copy L (gl_ListMeta inn) h of None \<Rightarrow> None
      | Some (l, h1) \<Rightarrow> (let out = out\<lparr>gl_ListMeta := l\<rparr> in
      case new_copy Zeroed ItemsCell to_Items (copy_elems (KaiInstance_DeepCopyInto M R)) (gl_Items inn) h1 of None \<Rightarrow> None
      | Some (ks, h2) \<Rightarrow> Some (out\<lparr>gl_Items := ks\<rparr>, h2)))"

definition KaiInstanceList_DeepCopy :: "(('m, 'r, 'l, 'x) cell, 'm, 'mv) copier \<Rightarrow> (('m, 'r, 'l, 'x) cell, 'r, requirements) copier
    \<Rightarrow> (('m, 'r, 'l, 'x) cell, 'l, 'lv) copier \<Rightarrow> nat option \<Rightarrow> ('m, 'r, 'l, 'x) cell list \<Rightarrow> (nat option \<times> ('m, 'r, 'l, 'x) cell list) option" where
  "KaiInstanceList_DeepCopy M R L = new_copy Zeroed ListCell to_List (KaiInstanceList_DeepCopyInto M R L)"

definition KaiInstanceList_DeepCopyObject :: "(('m, 'r, 'l, 'x) cell, 'm, 'mv) copier \<Rightarrow> (('m, 'r, 'l, 'x) cell, 'r, requirements) copier
    \<Rightarrow> (('m, 'r, 'l, 'x) cell, 'l, 'lv) copier \<Rightarrow> nat option \<Rightarrow> ('m, 'r, 'l, 'x) cell list \<Rightarrow> (nat option \<times> ('m, 'r, 'l, 'x) cell list) option" where
  "KaiInstanceList_DeepCopyObject M R L p h = (case KaiInstanceList_DeepCopy M R L p h of None \<Rightarrow> None
     | Some (c, h') \<Rightarrow> (case c of Some a \<Rightarrow> Some (Some a, h') | None \<Rightarrow> Some (None, h')))"

lemma list_copier_kai:
  assumes "copies_deeply M" "copies_deeply R" "copies_deeply L"
  shows "deep_copier (list_view M R L) (list_span M R L) (KaiInstanceList_DeepCopyInto M R L)"
proof -
  have "deep_copier
     (\<lambda>h g. map_option (Pair (gl_TypeMeta g))
        (pair_reads (cp_reads L) (ptr_reads to_Items (list_reads (kai_reads M R))) h (gl_ListMeta g, gl_Items g)))
     (\<lambda>h g. pair_reach (cp_reach L) (ptr_reach to_Items (list_reach (kai_reach M R))) h (gl_ListMeta g, gl_Items g))
     (\<lambda>g h. map_option (\<lambda>(q, h'). (case q of (l, ks) \<Rightarrow> g\<lparr>gl_ListMeta := l, gl_Items := ks\<rparr>, h'))
        (pair_copy (cp_copy L) (new_copy Zeroed ItemsCell to_Items (copy_elems (KaiInstance_DeepCopyInto M R))) (gl_ListMeta g, gl_Items g) h))"
    by (rule struct_copier[OF pair_copier[OF assms(3)[unfolded copies_deeply_def] ptr_copier[OF list_copier[OF kai_copier[OF assms(1,2)]]]]]) auto
  moreover have "list_view M R L = (\<lambda>h g. map_option (Pair (gl_TypeMeta g))
        (pair_reads (cp_reads L) (ptr_reads to_Items (list_reads (kai_reads M R))) h (gl_ListMeta g, gl_Items g)))"
    by (intro ext) (simp add: list_view_def pair_reads_def split: option.split)
  moreover have "list_span M R L = (\<lambda>h g. pair_reach (cp_reach L) (ptr_reach to_Items (list_reach (kai_reach M R))) h (gl_ListMeta g, gl_Items g))"
    by (intro ext) (simp add: list_span_def pair_reach_def)
  moreover have "KaiInstanceList_DeepCopyInto M R L = (\<lambda>g h. map_option (\<lambda>(q, h'). (case q of (l, ks) \<Rightarrow> g\<lparr>gl_ListMeta := l, gl_Items := ks\<rparr>, h'))
        (pair_copy (cp_copy L) (new_copy Zeroed ItemsCell to_Items (copy_elems (KaiInstance_DeepCopyInto M R))) (gl_ListMeta g, gl_Items g) h))"
    by (intro ext) (simp add: KaiInstanceList_DeepCopyInto_def pair_copy_def Let_def split: option.split)
  ultimately show ?thesis by simp
qed

section \<open>Properties\<close>

lemma object_copies: "KaiInstance_DeepCopyObject M R = KaiInstance_DeepCopy M R" "KaiInstanceList_DeepCopyObject M R L = KaiInstanceList_DeepCopy M R L"
  by (intro ext; simp add: KaiInstance_DeepCopyObject_def KaiInstanceList_DeepCopyObject_def split: option.split)+

abbreviation kai_at :: "(('m, 'r, 'l, 'x) cell, 'm, 'mv) copier \<Rightarrow> (('m, 'r, 'l, 'x) cell, 'r, requirements) copier
    \<Rightarrow> ('m, 'r, 'l, 'x) cell list \<Rightarrow> nat option \<Rightarrow> 'mv instance_view option option" where
  "kai_at M R \<equiv> ptr_reads to_Kai (kai_reads M R)"

abbreviation list_at :: "(('m, 'r, 'l, 'x) cell, 'm, 'mv) copier \<Rightarrow> (('m, 'r, 'l, 'x) cell, 'r, requirements) copier
    \<Rightarrow> (('m, 'r, 'l, 'x) cell, 'l, 'lv) copier \<Rightarrow> ('m, 'r, 'l, 'x) cell list \<Rightarrow> nat option
    \<Rightarrow> ((string \<times> string) \<times> 'lv \<times> 'mv instance_view list option) option option" where
  "list_at M R L \<equiv> ptr_reads to_List (list_view M R L)"

lemma kai_pointer_copier:
  "copies_deeply M \<Longrightarrow> copies_deeply R \<Longrightarrow> deep_copier (kai_at M R) (ptr_reach to_Kai (kai_reach M R)) (KaiInstance_DeepCopyObject M R)"
  unfolding object_copies KaiInstance_DeepCopy_def by (rule ptr_copier[OF kai_copier]) simp_all

lemma list_pointer_copier:
  "copies_deeply M \<Longrightarrow> copies_deeply R \<Longrightarrow> copies_deeply L \<Longrightarrow>
    deep_copier (list_at M R L) (ptr_reach to_List (list_span M R L)) (KaiInstanceList_DeepCopyObject M R L)"
  unfolding object_copies KaiInstanceList_DeepCopy_def by (rule ptr_copier[OF list_copier_kai]) simp_all



subsection \<open>Instances\<close>

definition name_copier :: "((string, nat option, string, requirements) cell, string, string) copier" where
  "name_copier = \<lparr>cp_reads = \<lambda>_ s. Some s, cp_reach = \<lambda>_ _. {}, cp_copy = by_value\<rparr>"

fun to_Library :: "('m, 'r, 'l, 'x) cell \<Rightarrow> 'x option" where
  "to_Library (LibraryCell x) = Some x" | "to_Library _ = None"

definition resource_copier :: "((string, nat option, string, requirements) cell, nat option, requirements) copier" where
  \<comment> \<open>requirements kept behind a pointer of their own\<close>
  "resource_copier = \<lparr>cp_reads = (\<lambda>h p. Option.bind (ptr_reads to_Library (\<lambda>_ x. Some x) h p) (\<lambda>x. x)),
     cp_reach = ptr_reach to_Library (\<lambda>_ _. {}), cp_copy = new_copy Zeroed LibraryCell to_Library by_value\<rparr>"

lemma demo_copiers: "copies_deeply name_copier" "copies_deeply resource_copier"
proof -
  note D = ptr_copier[OF plain.deep_copier_axioms, of to_Library LibraryCell Zeroed, OF to_Library.simps(1)]
  show "copies_deeply resource_copier"
    unfolding copies_deeply_def resource_copier_def copier.simps
  proof (rule deep_copier.intro, unfold bind_eq_Some_conv)
    show "\<exists>g' h'. new_copy Zeroed LibraryCell to_Library by_value g h = Some (g', h') \<and> grows h h'
        \<and> (\<exists>x. ptr_reads to_Library (\<lambda>_ x. Some x) h' g' = Some x \<and> x = Some v) \<and> ptr_reach to_Library (\<lambda>_ _. {}) h' g' \<subseteq> {length h..<length h'}"
      if "\<exists>x. ptr_reads to_Library (\<lambda>_ x. Some x) h g = Some x \<and> x = Some v" for h g and v :: requirements
      using deep_copier.copies[OF D] that by blast
  qed (use deep_copier.local[OF D] deep_copier.bound[OF D] in blast)+
  show "copies_deeply name_copier" using plain.deep_copier_axioms by (simp add: copies_deeply_def name_copier_def)
qed

definition demo_instance :: "string go_kai" where
  "demo_instance = \<lparr>gk_TypeMeta = (''KaiInstance'', ''swarm.emai.io/v1alpha1''), gk_ObjectMeta = ''kai-acme'',
     gk_Spec = \<lparr>gs_scalars = empty_spec, gs_Telegram = Some 1, gs_GatewayAuth = None, gs_Resources = Some 2, gs_ExternalAccess = Some 4\<rparr>,
     gk_Status = \<lparr>gt_scalars = empty_status, gt_Conditions = Some 5\<rparr>\<rparr>"

definition demo_memory :: "(string, nat option, string, requirements) cell list" where
  "demo_memory = [KaiCell demo_instance, TelegramCell ''bot'', ResourcesCell (Some 3), LibraryCell \<lparr>rq_Requests = [], rq_Limits = [(''cpu'', ''1'')]\<rparr>,
     BoolCell True, ConditionsCell [], ItemsCell [demo_instance, demo_instance], ListCell \<lparr>gl_TypeMeta = ([], []), gl_ListMeta = ''42'', gl_Items = Some 6\<rparr>]"

definition demo_view :: "string instance_view" where
  "demo_view = ((''KaiInstance'', ''swarm.emai.io/v1alpha1''), ''kai-acme'',
     empty_spec\<lparr>sp_Telegram := Some ''bot'', sp_Resources := Some \<lparr>rq_Requests = [], rq_Limits = [(''cpu'', ''1'')]\<rparr>, sp_ExternalAccess := Some True\<rparr>, empty_status)"

lemma demo_reads:
  "kai_reads name_copier resource_copier demo_memory demo_instance = Some demo_view"
  "kai_at name_copier resource_copier demo_memory (Some 0) = Some (Some demo_view)"
  by (simp_all add: ptr_reads_def deref_def kai_reads_def spec_reads_def status_reads_def name_copier_def resource_copier_def demo_memory_def
      demo_instance_def demo_view_def empty_spec_def empty_status_def)



end
