(* ===== verification/Billing.thy ===== *)
theory Billing
  imports Http
begin

text \<open>
  Billing and usage: \<open>pkg/stripe\<close> over the Stripe SDK and \<open>pkg/openrouter\<close> over \<open>net/http\<close>.  The SDK sends a
  request under whatever its global variable \<open>stripego.Key\<close> holds at that moment, so a call of a client is two
  steps, the write of that variable and the request, and the calls of several goroutines interleave as
  \<open>stripe_step\<close>.  The answers of both services, the verification of a webhook and the reading of a decimal number as
  a \<open>float64\<close> are parameters.
\<close>

section \<open>The Stripe client\<close>

record stripe_client =
  sc_APIKey :: string
  sc_PriceIDToTier :: "string \<Rightarrow> string option"

record checkout_params =
  cp_PriceID :: string
  cp_UserRef :: string
  cp_Email :: string
  cp_SuccessURL :: string
  cp_CancelURL :: string

datatype stripe_err =
  EmptyAPIKey
| MissingParams
| EmptySubscriptionID
| EmptyWebhookSecret
| CheckoutFailed string
| StripeFailed string

record session_params =
  se_Mode :: string
  se_LineItems :: "(string \<times> int) list"  \<comment> \<open>price and quantity\<close>
  se_ClientReferenceID :: string
  se_SuccessURL :: string
  se_CancelURL :: string
  se_CustomerEmail :: "string option"

datatype stripe_request = NewSession session_params | GetSub string | CancelSub string

datatype stripe_answer = SessionURL string | Subscription json

type_synonym backend = "string \<Rightarrow> stripe_request \<Rightarrow> string + stripe_answer"  \<comment> \<open>the key and the request; an error text\<close>

definition NewClient :: "string \<Rightarrow> (string \<Rightarrow> string option) \<Rightarrow> stripe_err + stripe_client" where
  "NewClient apiKey tiers = (if apiKey = [] then Inl EmptyAPIKey else Inr \<lparr>sc_APIKey = apiKey, sc_PriceIDToTier = tiers\<rparr>)"

definition session_of :: "checkout_params \<Rightarrow> session_params" where
  "session_of p = \<lparr>se_Mode = ''subscription'', se_LineItems = [(cp_PriceID p, 1)], se_ClientReferenceID = cp_UserRef p,
     se_SuccessURL = cp_SuccessURL p, se_CancelURL = cp_CancelURL p,
     se_CustomerEmail = (if cp_Email p \<noteq> [] then Some (cp_Email p) else None)\<rparr>"

definition TierForPriceID :: "stripe_client \<Rightarrow> string \<Rightarrow> string" where
  "TierForPriceID c priceID = (case sc_PriceIDToTier c priceID of Some t \<Rightarrow> t | None \<Rightarrow> ''free'')"

definition ParseWebhook :: "(string \<Rightarrow> string \<Rightarrow> string \<Rightarrow> bool \<Rightarrow> 'x + 'event) \<Rightarrow> string \<Rightarrow> string \<Rightarrow> string \<Rightarrow> (stripe_err + 'x) + 'event" where
  \<comment> \<open>the first argument is \<open>webhook.ConstructEventWithOptions\<close>; its flag is \<open>IgnoreAPIVersionMismatch\<close>\<close>
  "ParseWebhook construct payload sigHeader webhookSecret =
     (if webhookSecret = [] then Inl (Inl EmptyWebhookSecret)
      else (case construct payload sigHeader webhookSecret True of Inl e \<Rightarrow> Inl (Inr e) | Inr ev \<Rightarrow> Inr ev))"

subsection \<open>A call in two steps\<close>

datatype stripe_call = CheckoutCall checkout_params | GetCall string | CancelCall string

definition prepare :: "stripe_call \<Rightarrow> stripe_err + stripe_request" where
  \<comment> \<open>what comes before the global key is written: the checks, and the parameters sent after it\<close>
  "prepare call = (case call of
     CheckoutCall p \<Rightarrow>
       if cp_PriceID p = [] \<or> cp_UserRef p = [] \<or> cp_SuccessURL p = [] \<or> cp_CancelURL p = [] then Inl MissingParams
       else Inr (NewSession (session_of p))
   | GetCall i \<Rightarrow> if i = [] then Inl EmptySubscriptionID else Inr (GetSub i)
   | CancelCall i \<Rightarrow> if i = [] then Inl EmptySubscriptionID else Inr (CancelSub i))"

definition finish :: "stripe_request \<Rightarrow> string + stripe_answer \<Rightarrow> stripe_err + stripe_answer" where
  "finish rq ans = (case ans of
     Inr a \<Rightarrow> Inr a
   | Inl e \<Rightarrow> Inl (case rq of NewSession _ \<Rightarrow> CheckoutFailed e | _ \<Rightarrow> StripeFailed e))"

datatype goroutine =
  Ready stripe_client stripe_call
| Sending stripe_client stripe_request
| Returned "stripe_err + stripe_answer"

fun stripe_move :: "backend \<Rightarrow> string \<Rightarrow> goroutine \<Rightarrow> string \<times> goroutine \<times> (string \<times> stripe_request) option" where
  \<comment> \<open>on the global key; the last result is the request that went out, with its key\<close>
  "stripe_move be key (Ready c call) = (case prepare call of
     Inl e \<Rightarrow> (key, Returned (Inl e), None)
   | Inr rq \<Rightarrow> (sc_APIKey c, Sending c rq, None))"
| "stripe_move be key (Sending c rq) = (key, Returned (finish rq (be key rq)), Some (key, rq))"
| "stripe_move be key (Returned r) = (key, Returned r, None)"

definition stripe_run :: "backend \<Rightarrow> string \<Rightarrow> stripe_client \<Rightarrow> stripe_call \<Rightarrow> (stripe_err + stripe_answer) \<times> string \<times> (string \<times> stripe_request) list" where
  \<comment> \<open>one call with nothing between its steps: result, key and requests\<close>
  "stripe_run be key c call = (case prepare call of
     Inl e \<Rightarrow> (Inl e, key, [])
   | Inr rq \<Rightarrow> (finish rq (be (sc_APIKey c) rq), sc_APIKey c, [(sc_APIKey c, rq)]))"

definition CreateCheckoutSession :: "backend \<Rightarrow> string \<Rightarrow> stripe_client \<Rightarrow> checkout_params \<Rightarrow> (stripe_err + stripe_answer) \<times> string \<times> (string \<times> stripe_request) list" where
  "CreateCheckoutSession be key c p = stripe_run be key c (CheckoutCall p)"

definition GetSubscription :: "backend \<Rightarrow> string \<Rightarrow> stripe_client \<Rightarrow> string \<Rightarrow> (stripe_err + stripe_answer) \<times> string \<times> (string \<times> stripe_request) list" where
  "GetSubscription be key c i = stripe_run be key c (GetCall i)"

definition CancelSubscription :: "backend \<Rightarrow> string \<Rightarrow> stripe_client \<Rightarrow> string \<Rightarrow> (stripe_err + stripe_answer) \<times> string \<times> (string \<times> stripe_request) list" where
  "CancelSubscription be key c i = stripe_run be key c (CancelCall i)"

record stripe_state =
  bs_Key :: string
  bs_routines :: "goroutine list"
  bs_sent :: "(nat \<times> string \<times> stripe_request) list"  \<comment> \<open>who sent, the key it went under, the request\<close>

definition move_at :: "backend \<Rightarrow> nat \<Rightarrow> stripe_state \<Rightarrow> stripe_state" where
  "move_at be i s = (case stripe_move be (bs_Key s) (bs_routines s ! i) of
     (k, g, out) \<Rightarrow> \<lparr>bs_Key = k, bs_routines = (bs_routines s)[i := g],
       bs_sent = bs_sent s @ (case out of None \<Rightarrow> [] | Some (k', rq) \<Rightarrow> [(i, k', rq)])\<rparr>)"

inductive stripe_step :: "backend \<Rightarrow> stripe_state \<Rightarrow> stripe_state \<Rightarrow> bool" for be where
  "i < length (bs_routines s) \<Longrightarrow> stripe_step be s (move_at be i s)"

inductive_cases stripe_stepE: "stripe_step be s s'"

definition calls_start :: "string \<Rightarrow> (stripe_client \<times> stripe_call) list \<Rightarrow> stripe_state" where
  "calls_start key calls = \<lparr>bs_Key = key, bs_routines = map (\<lambda>(c, call). Ready c call) calls, bs_sent = []\<rparr>"

lemma move_at_simps [simp]:
  "length (bs_routines (move_at be i s)) = length (bs_routines s)"
  by (simp add: move_at_def split: prod.split)

lemma stripe_move_alone:
  "snd (snd (stripe_move be key (Ready c call))) = None"
  "(case stripe_move be key (Ready c call) of (k, g, _) \<Rightarrow> (case stripe_move be k g of (k', g', out) \<Rightarrow> (g', k', case out of None \<Rightarrow> [] | Some x \<Rightarrow> [x])))
     = (case stripe_run be key c call of (r, k, out) \<Rightarrow> (Returned r, k, out))"
  by (simp_all add: stripe_run_def split: sum.split)

subsection \<open>When every request goes out under the key of its caller\<close>

definition sends :: "stripe_call \<Rightarrow> bool" where
  "sends call \<longleftrightarrow> (\<exists>rq. prepare call = Inr rq)"

definition own_keys :: "(stripe_client \<times> stripe_call) list \<Rightarrow> stripe_state \<Rightarrow> bool" where
  "own_keys calls s \<longleftrightarrow> (\<forall>(i, k, rq) \<in> set (bs_sent s). k = sc_APIKey (fst (calls ! i)))"

lemma own_keysD: "own_keys calls s \<Longrightarrow> (i, k, rq) \<in> set (bs_sent s) \<Longrightarrow> k = sc_APIKey (fst (calls ! i))"
  unfolding own_keys_def by fast

definition routine_ok :: "(stripe_client \<times> stripe_call) list \<Rightarrow> string \<Rightarrow> nat \<Rightarrow> goroutine \<Rightarrow> bool" where
  "routine_ok calls key i g = (case g of
     Ready c call \<Rightarrow> calls ! i = (c, call)
   | Sending c rq \<Rightarrow> c = fst (calls ! i) \<and> prepare (snd (calls ! i)) = Inr rq \<and> key = sc_APIKey c
   | Returned _ \<Rightarrow> True)"

definition stripe_inv :: "(stripe_client \<times> stripe_call) list \<Rightarrow> stripe_state \<Rightarrow> bool" where
  "stripe_inv calls s \<longleftrightarrow> length (bs_routines s) = length calls \<and> own_keys calls s
     \<and> (\<forall>i < length calls. routine_ok calls (bs_Key s) i (bs_routines s ! i))"

definition same_key :: "(stripe_client \<times> stripe_call) list \<Rightarrow> bool" where
  "same_key calls \<longleftrightarrow> (\<forall>x \<in> set calls. \<forall>y \<in> set calls. sends (snd x) \<longrightarrow> sends (snd y) \<longrightarrow> sc_APIKey (fst x) = sc_APIKey (fst y))"

lemma stripe_inv_start: "stripe_inv calls (calls_start key calls)"
  by (auto simp: stripe_inv_def calls_start_def own_keys_def routine_ok_def split: prod.split)

lemma routine_ok_key:
  assumes "routine_ok calls key j g" "same_key calls" "i < length calls" "j < length calls" "sends (snd (calls ! i))"
  shows "routine_ok calls (sc_APIKey (fst (calls ! i))) j g"
  using assms by (cases g) (auto simp: routine_ok_def same_key_def sends_def)

lemma stripe_inv_step:
  assumes "stripe_inv calls s" "same_key calls" "stripe_step be s s'"
  shows "stripe_inv calls s'"
proof -
  obtain i where 1: "s' = move_at be i s" "i < length (bs_routines s)" using assms(3) by (auto elim: stripe_stepE)
  have i: "i < length calls" and r: "routine_ok calls (bs_Key s) i (bs_routines s ! i)" using assms(1) 1(2) by (auto simp: stripe_inv_def)
  show ?thesis
  proof (cases "bs_routines s ! i")
    case (Ready c call)
    show ?thesis
    proof (cases "prepare call")
      case (Inl e)
      then show ?thesis using assms(1) Ready 1 by (auto simp: stripe_inv_def own_keys_def move_at_def routine_ok_def nth_list_update)
    next
      case (Inr rq)
      have c: "calls ! i = (c, call)" using r Ready by (simp add: routine_ok_def)
      have "routine_ok calls (sc_APIKey c) j (bs_routines s ! j)" if "j < length calls" for j
        using routine_ok_key[OF _ assms(2) i that, of "bs_Key s"] assms(1) that c Inr by (auto simp: stripe_inv_def sends_def)
      then show ?thesis using assms(1) Ready Inr c 1 by (auto simp: stripe_inv_def own_keys_def move_at_def routine_ok_def nth_list_update)
    qed
  next
    case (Sending c rq)
    then have "bs_Key (move_at be i s) = bs_Key s" "sc_APIKey (fst (calls ! i)) = bs_Key s"
      using r by (simp_all add: move_at_def routine_ok_def)
    then show ?thesis using assms(1) Sending 1 by (auto simp: stripe_inv_def own_keys_def move_at_def routine_ok_def nth_list_update)
  next
    case (Returned x)
    then show ?thesis using assms(1) 1 by (auto simp: stripe_inv_def own_keys_def move_at_def routine_ok_def nth_list_update)
  qed
qed

lemma stripe_inv_reachable:
  assumes "(stripe_step be)\<^sup>*\<^sup>* (calls_start key calls) s" "same_key calls"
  shows "stripe_inv calls s"
  using assms(1) by (induction rule: rtranclp_induct) (auto intro: stripe_inv_start stripe_inv_step[OF _ assms(2)])

lemma foreign_key_reachable:
  assumes "i < length calls" "j < length calls" "sends (snd (calls ! i))" "sends (snd (calls ! j))"
    and "sc_APIKey (fst (calls ! i)) \<noteq> sc_APIKey (fst (calls ! j))"
  shows "\<exists>s. (stripe_step be)\<^sup>*\<^sup>* (calls_start key calls) s \<and> \<not> own_keys calls s"
proof -
  let ?start = "calls_start key calls"
  let ?s = "move_at be i (move_at be j (move_at be i ?start))"
  obtain c rq where c: "calls ! i = (c, snd (calls ! i))" "prepare (snd (calls ! i)) = Inr rq" "c = fst (calls ! i)" using assms(3) by (cases "calls ! i") (auto simp: sends_def)
  obtain c' rq' where c': "calls ! j = (c', snd (calls ! j))" "prepare (snd (calls ! j)) = Inr rq'" "c' = fst (calls ! j)" using assms(4) by (cases "calls ! j") (auto simp: sends_def)
  have ne: "i \<noteq> j" using assms(5) by auto
  have step: "stripe_step be s (move_at be n s)" if "n < length calls" "length (bs_routines s) = length calls" for n s
    using stripe_step.intros[of n s be] that by simp
  have start_length: "length (bs_routines ?start) = length calls" by (simp add: calls_start_def)
  then have reach: "(stripe_step be)\<^sup>*\<^sup>* ?start ?s"
    using step[OF assms(1), of ?start] step[OF assms(2), of "move_at be i ?start"] step[OF assms(1), of "move_at be j (move_at be i ?start)"]
    unfolding move_at_simps by (meson converse_rtranclp_into_rtranclp rtranclp.rtrancl_refl)
  have sent: "(i, sc_APIKey c', rq) \<in> set (bs_sent ?s)"
    using assms(1,2) ne c(1,2) c'(1,2) by (auto simp: move_at_def calls_start_def split: prod.split)
  have "\<not> own_keys calls ?s"
  proof
    assume "own_keys calls ?s"
    from own_keysD[OF this sent] show False using assms(5) c(3) c'(3) by simp
  qed
  with reach show ?thesis by blast
qed

text \<open>C23: the requests of a Stripe client go out under its own API key, whatever the goroutines, their calls and their
  interleaving, exactly when all clients with a call that passes its checks have one key: with two keys some interleaving sends a
  request of one client under the key of the other.\<close>

theorem keys_kept_exactly:
  "(\<forall>s. (stripe_step be)\<^sup>*\<^sup>* (calls_start key calls) s \<longrightarrow> own_keys calls s) \<longleftrightarrow> same_key calls"
proof
  assume a: "\<forall>s. (stripe_step be)\<^sup>*\<^sup>* (calls_start key calls) s \<longrightarrow> own_keys calls s"
  show "same_key calls"
    unfolding same_key_def
  proof (intro ballI impI)
    fix x y assume xy: "x \<in> set calls" "y \<in> set calls" "sends (snd x)" "sends (snd y)"
    then obtain i j where "i < length calls" "x = calls ! i" "j < length calls" "y = calls ! j" by (auto simp: in_set_conv_nth)
    then show "sc_APIKey (fst x) = sc_APIKey (fst y)" using foreign_key_reachable[of i calls j be key] xy(3,4) a by metis
  qed
next
  assume "same_key calls"
  then show "\<forall>s. (stripe_step be)\<^sup>*\<^sup>* (calls_start key calls) s \<longrightarrow> own_keys calls s"
    using stripe_inv_reachable unfolding stripe_inv_def by blast
qed

definition two_clients :: "(stripe_client \<times> stripe_call) list" where
  "two_clients = [(\<lparr>sc_APIKey = ''sk_a'', sc_PriceIDToTier = (\<lambda>_. None)\<rparr>, CancelCall ''sub_1''),
     (\<lparr>sc_APIKey = ''sk_b'', sc_PriceIDToTier = (\<lambda>_. None)\<rparr>, GetCall ''sub_2'')]"

corollary keys_kept_exactly_witness:
  "\<exists>s. (stripe_step (\<lambda>_ _. Inr (Subscription JNull)))\<^sup>*\<^sup>* (calls_start [] two_clients) s \<and> \<not> own_keys two_clients s"
proof -
  have "\<not> same_key two_clients" by (simp add: same_key_def two_clients_def sends_def prepare_def)
  then show ?thesis using keys_kept_exactly[of "\<lambda>_ _. Inr (Subscription JNull)" "[]" two_clients] by blast
qed

section \<open>The OpenRouter client\<close>

record openrouter =
  or_APIKey :: string
  or_Client :: "goduration option"  \<comment> \<open>the timeout of a client set by the caller\<close>
  or_BaseURL :: string

record or_request =
  oq_URL :: string
  oq_Authorization :: string
  oq_Accept :: string
  oq_Timeout :: goduration

datatype or_err = EmptyOpenRouterKey | BadURL | TransportFailed | StatusFailed int string string | ParseFailed string

record 'f key_info =
  ki_Label :: string
  ki_IsManagementKey :: bool
  ki_IsProvisioningKey :: bool
  ki_IsFreeTier :: bool
  ki_Limit :: 'f
  ki_LimitRemaining :: 'f
  ki_Usage :: 'f
  ki_UsageDaily :: 'f
  ki_UsageWeekly :: 'f
  ki_UsageMonthly :: 'f

record 'f credits =
  cr_TotalCredits :: 'f
  cr_TotalUsage :: 'f

definition NewOpenRouter :: "string \<Rightarrow> or_err + openrouter" where
  "NewOpenRouter apiKey = (if apiKey = [] then Inl EmptyOpenRouterKey else Inr \<lparr>or_APIKey = apiKey, or_Client = None, or_BaseURL = []\<rparr>)"

definition or_httpClient :: "openrouter \<Rightarrow> goduration" where
  "or_httpClient c = (case or_Client c of Some t \<Rightarrow> t | None \<Rightarrow> seconds 10)"

definition or_baseURL :: "openrouter \<Rightarrow> string" where
  "or_baseURL c = (if or_BaseURL c \<noteq> [] then or_BaseURL c else ''https://openrouter.ai'')"

definition or_do :: "(string \<Rightarrow> bool) \<Rightarrow> (or_request \<Rightarrow> (int \<times> string) option) \<Rightarrow> openrouter \<Rightarrow> string \<Rightarrow> (json \<Rightarrow> 'a option)
    \<Rightarrow> (or_err + 'a) \<times> or_request list" where
  \<comment> \<open>\<open>url.Parse\<close> accepts the address; the exchange, \<open>None\<close> when it fails, else status and body; the decoding of \<open>into\<close>\<close>
  "or_do url_ok exch c path into =
     (if \<not> url_ok (or_baseURL c @ path) then (Inl BadURL, [])
      else (let rq = \<lparr>oq_URL = or_baseURL c @ path, oq_Authorization = ''Bearer '' @ or_APIKey c, oq_Accept = ''application/json'',
                      oq_Timeout = or_httpClient c\<rparr>
        in (case exch rq of None \<Rightarrow> (Inl TransportFailed, [rq])
          | Some (status, full) \<Rightarrow>
              (let body = take (64 * 1024) full
               in if status div 100 \<noteq> 2 then (Inl (StatusFailed status path body), [rq])
                  else (case Option.bind (json_unmarshal body) into of
                      None \<Rightarrow> (Inl (ParseFailed path), [rq])
                    | Some v \<Rightarrow> (Inr v, [rq]))))))"

fun set_float :: "(string \<Rightarrow> 'f option) \<Rightarrow> json list \<Rightarrow> 'f \<Rightarrow> 'f option" where
  \<comment> \<open>a \<open>float64\<close> field; the first argument is \<open>strconv.ParseFloat\<close> on a number literal\<close>
  "set_float pf [] cur = Some cur"
| "set_float pf (JNull # js) cur = set_float pf js cur"
| "set_float pf (JNum l # js) cur = (case pf l of None \<Rightarrow> None | Some x \<Rightarrow> set_float pf js x)"
| "set_float pf (_ # js) cur = None"

definition data_members :: "json \<Rightarrow> (string \<times> json) list option" where
  \<comment> \<open>the members decoded into the field \<open>data\<close> of a response\<close>
  "data_members j = (case object_opt j of None \<Rightarrow> None
     | Some ms \<Rightarrow> map_option concat (those (map object_opt (members_for ''data'' ms))))"

definition bools_of :: "string list \<Rightarrow> (string \<times> json) list \<Rightarrow> bool list option" where
  "bools_of names ms = those (map (\<lambda>n. set_bool (members_for n ms) False) names)"

definition floats_of :: "(string \<Rightarrow> 'f option) \<Rightarrow> 'f \<Rightarrow> string list \<Rightarrow> (string \<times> json) list \<Rightarrow> 'f list option" where
  "floats_of pf zero names ms = those (map (\<lambda>n. set_float pf (members_for n ms) zero) names)"

definition key_info_of :: "(string \<Rightarrow> 'f option) \<Rightarrow> 'f \<Rightarrow> json \<Rightarrow> 'f key_info option" where
  "key_info_of pf zero j = (case data_members j of None \<Rightarrow> None
     | Some ms \<Rightarrow>
        (case (set_string (members_for ''label'' ms) [],
               bools_of [''is_management_key'', ''is_provisioning_key'', ''is_free_tier''] ms,
               floats_of pf zero [''limit'', ''limit_remaining'', ''usage'', ''usage_daily'', ''usage_weekly'', ''usage_monthly''] ms) of
           (Some l, Some [m, p, f], Some [lim, rem, u, d, w, mo]) \<Rightarrow>
             Some \<lparr>ki_Label = l, ki_IsManagementKey = m, ki_IsProvisioningKey = p, ki_IsFreeTier = f, ki_Limit = lim, ki_LimitRemaining = rem,
               ki_Usage = u, ki_UsageDaily = d, ki_UsageWeekly = w, ki_UsageMonthly = mo\<rparr>
         | _ \<Rightarrow> None))"

definition credits_of :: "(string \<Rightarrow> 'f option) \<Rightarrow> 'f \<Rightarrow> json \<Rightarrow> 'f credits option" where
  "credits_of pf zero j = (case data_members j of None \<Rightarrow> None
     | Some ms \<Rightarrow> (case floats_of pf zero [''total_credits'', ''total_usage''] ms of
         Some [c, u] \<Rightarrow> Some \<lparr>cr_TotalCredits = c, cr_TotalUsage = u\<rparr> | _ \<Rightarrow> None))"

definition GetKey :: "(string \<Rightarrow> 'f option) \<Rightarrow> 'f \<Rightarrow> (string \<Rightarrow> bool) \<Rightarrow> (or_request \<Rightarrow> (int \<times> string) option) \<Rightarrow> openrouter
    \<Rightarrow> (or_err + 'f key_info) \<times> or_request list" where
  "GetKey pf zero url_ok exch c = or_do url_ok exch c ''/api/v1/key'' (key_info_of pf zero)"

definition GetCredits :: "(string \<Rightarrow> 'f option) \<Rightarrow> 'f \<Rightarrow> (string \<Rightarrow> bool) \<Rightarrow> (or_request \<Rightarrow> (int \<times> string) option) \<Rightarrow> openrouter
    \<Rightarrow> (or_err + 'f credits) \<times> or_request list" where
  "GetCredits pf zero url_ok exch c = or_do url_ok exch c ''/api/v1/credits'' (credits_of pf zero)"

subsection \<open>What the client reads is what the service wrote\<close>

lemma members_for_lower:
  "list_all (\<lambda>(k, _). to_lower k = k) ms \<Longrightarrow> to_lower n = n \<Longrightarrow> distinct (map fst ms) \<Longrightarrow> (n, j) \<in> set ms \<Longrightarrow> members_for n ms = [j]"
proof (induction ms)
  case (Cons m ms)
  obtain k x where m: "m = (k, x)" by fastforce
  have none: "members_for n ms = []" if "n \<notin> fst ` set ms"
    using that Cons.prems(1,2) by (force simp: members_for_def equal_fold_def filter_empty_conv list_all_iff)
  show ?case
  proof (cases "k = n")
    case True
    then show ?thesis using Cons.prems m none by (force simp: members_for_def)
  next
    case False
    then have "\<not> equal_fold k n" using Cons.prems(1,2) m by (simp add: equal_fold_def)
    then show ?thesis using Cons False m by (simp add: members_for_def)
  qed
qed simp

definition key_json :: "('f \<Rightarrow> string) \<Rightarrow> 'f key_info \<Rightarrow> json" where
  \<comment> \<open>the documented answer to \<open>GET /api/v1/key\<close>\<close>
  "key_json pr i = JObj [(''data'', JObj [(''label'', JStr (ki_Label i)), (''is_management_key'', JBool (ki_IsManagementKey i)),
     (''is_provisioning_key'', JBool (ki_IsProvisioningKey i)), (''is_free_tier'', JBool (ki_IsFreeTier i)),
     (''limit'', JNum (pr (ki_Limit i))), (''limit_remaining'', JNum (pr (ki_LimitRemaining i))), (''usage'', JNum (pr (ki_Usage i))),
     (''usage_daily'', JNum (pr (ki_UsageDaily i))), (''usage_weekly'', JNum (pr (ki_UsageWeekly i))),
     (''usage_monthly'', JNum (pr (ki_UsageMonthly i)))])]"

lemma key_info_of_json:
  assumes "\<And>x. pf (pr x) = Some x"
  shows "key_info_of pf zero (key_json pr i) = Some i"
proof -
  let ?ms = "[(''label'', JStr (ki_Label i)), (''is_management_key'', JBool (ki_IsManagementKey i)),
     (''is_provisioning_key'', JBool (ki_IsProvisioningKey i)), (''is_free_tier'', JBool (ki_IsFreeTier i)),
     (''limit'', JNum (pr (ki_Limit i))), (''limit_remaining'', JNum (pr (ki_LimitRemaining i))), (''usage'', JNum (pr (ki_Usage i))),
     (''usage_daily'', JNum (pr (ki_UsageDaily i))), (''usage_weekly'', JNum (pr (ki_UsageWeekly i))),
     (''usage_monthly'', JNum (pr (ki_UsageMonthly i)))]"
  have low: "list_all (\<lambda>(k, _). to_lower k = k) ?ms" by (simp add: to_lower_def lower_char_def is_upper_def code_def)
  have dist: "distinct (map fst ?ms)" by simp
  have m: "members_for n ?ms = [j]" if "(n, j) \<in> set ?ms" for n j
    by (rule members_for_lower[OF low _ dist that]) (use low that in \<open>force simp only: list_all_iff\<close>)
  have "data_members (key_json pr i) = Some ?ms" by (simp add: data_members_def key_json_def object_opt_def members_for_def)
  then show ?thesis by (simp add: key_info_of_def bools_of_def floats_of_def m assms)
qed

text \<open>C24: the usage of a key, as the service writes it in any answer of status 2xx of at most 64 KiB, is the usage \<open>GetKey\<close> returns, and it
  makes one request, to the key endpoint of the configured service, with the key of the client.\<close>

theorem openrouter_key_roundtrip:
  assumes "\<And>x. number_lit (pr x) \<and> pf (pr x) = Some x" "url_ok (or_baseURL c @ ''/api/v1/key'')"
    and "\<And>rq. exch rq = Some (status, print_json (key_json pr i))" "status div 100 = 2" "length (print_json (key_json pr i)) \<le> 64 * 1024"
  shows "GetKey pf zero url_ok exch c = (Inr i, [\<lparr>oq_URL = or_baseURL c @ ''/api/v1/key'', oq_Authorization = ''Bearer '' @ or_APIKey c,
    oq_Accept = ''application/json'', oq_Timeout = or_httpClient c\<rparr>])"
proof -
  have "wf_json (key_json pr i)" using assms(1) by (simp add: key_json_def)
  moreover have "key_info_of pf zero (key_json pr i) = Some i" by (rule key_info_of_json) (simp add: assms(1))
  ultimately show ?thesis using assms(2-5) by (simp add: GetKey_def or_do_def Let_def)
qed

definition demo_usage :: "nat key_info" where
  "demo_usage = \<lparr>ki_Label = ''sk-or-v1-ab'', ki_IsManagementKey = False, ki_IsProvisioningKey = True, ki_IsFreeTier = False, ki_Limit = 100,
     ki_LimitRemaining = 58, ki_Usage = 42, ki_UsageDaily = 1, ki_UsageWeekly = 7, ki_UsageMonthly = 30\<rparr>"

corollary openrouter_key_roundtrip_witness:
  "fst (GetKey (\<lambda>l. Some (digits_val l)) 0 (\<lambda>_. True) (\<lambda>_. Some (200, print_json (key_json dec_nat demo_usage)))
     \<lparr>or_APIKey = ''sk'', or_Client = None, or_BaseURL = []\<rparr>) = Inr demo_usage"
proof -
  have "number_lit (dec_nat n)" for n using number_lit_dec[of "int n"] by (simp add: dec_int_def)
  moreover have "length (print_json (key_json dec_nat demo_usage)) \<le> 64 * 1024"
    by (simp add: key_json_def demo_usage_def print_str_def esc_char_def code_def dec_nat.simps)
  ultimately show ?thesis by (subst openrouter_key_roundtrip[where pr = dec_nat and i = demo_usage and status = 200]) simp_all
qed

end
