(* ===== verification/StoreMemory.thy ===== *)
theory StoreMemory
  imports Users Memory
begin

text \<open>
  \<open>MemoryStore\<close> (\<open>pkg/users/memory.go\<close>) over memory with pointers: the map \<open>byID\<close> holds addresses of \<open>User\<close> structs, whose
  three optional times are pointers in turn, and every row handed to a caller goes through \<open>cloneUser\<close>.  Callers may write over whatever they were handed;
  the theorem is that the store still answers as the map of values of Users does.  A dereferenced nil pointer is \<open>None\<close>.
\<close>

section \<open>Rows in memory\<close>

record go_user =
  gu_ID :: string
  gu_Email :: string
  gu_PasswordHash :: string
  gu_Tier :: string
  gu_StripeCustomerID :: string
  gu_Language :: string
  gu_App :: string
  gu_CreatedAt :: gotime
  gu_EmailVerifiedAt :: "nat option"
  gu_DeletedAt :: "nat option"
  gu_LastLoginAt :: "nat option"

datatype ucell = FreshCell | TimeCell gotime | UserCell go_user

type_synonym umem = "ucell list"
type_synonym by_id = "(string \<times> nat option) list"

fun to_Time :: "ucell \<Rightarrow> gotime option" where
  "to_Time (TimeCell t) = Some t"
| "to_Time _ = None"

fun to_User :: "ucell \<Rightarrow> go_user option" where
  "to_User (UserCell g) = Some g"
| "to_User _ = None"

abbreviation time_reads :: "umem \<Rightarrow> nat option \<Rightarrow> gotime option option" where
  "time_reads \<equiv> ptr_reads to_Time (\<lambda>_ t. Some t)"

abbreviation time_reach :: "umem \<Rightarrow> nat option \<Rightarrow> nat set" where
  "time_reach \<equiv> ptr_reach to_Time (\<lambda>_ _. {})"

fun user_row :: "go_user \<Rightarrow> gotime option \<times> gotime option \<times> gotime option \<Rightarrow> user" where
  "user_row g (verified, deleted, login) =
     \<lparr>u_ID = gu_ID g, u_Email = gu_Email g, u_PasswordHash = gu_PasswordHash g, u_Tier = gu_Tier g,
      u_StripeCustomerID = gu_StripeCustomerID g, u_Language = gu_Language g, u_App = gu_App g, u_CreatedAt = gu_CreatedAt g,
      u_EmailVerifiedAt = verified, u_DeletedAt = deleted, u_LastLoginAt = login\<rparr>"

definition user_reads :: "umem \<Rightarrow> go_user \<Rightarrow> user option" where
  "user_reads h g = map_option (user_row g) (pair_reads time_reads (pair_reads time_reads time_reads) h
     (gu_EmailVerifiedAt g, gu_DeletedAt g, gu_LastLoginAt g))"

definition user_reach :: "umem \<Rightarrow> go_user \<Rightarrow> nat set" where
  "user_reach h g = pair_reach time_reach (pair_reach time_reach time_reach) h (gu_EmailVerifiedAt g, gu_DeletedAt g, gu_LastLoginAt g)"

abbreviation row_reads :: "umem \<Rightarrow> nat option \<Rightarrow> user option option" where
  "row_reads \<equiv> ptr_reads to_User user_reads"

abbreviation row_reach :: "umem \<Rightarrow> nat option \<Rightarrow> nat set" where
  "row_reach \<equiv> ptr_reach to_User user_reach"

subsection \<open>cloneUser\<close>

definition copy_user :: "go_user \<Rightarrow> umem \<Rightarrow> (go_user \<times> umem) option" where
  \<comment> \<open>the struct, then a fresh cell for every time that is set\<close>
  "copy_user u h =
     (let out = u in
      case new_copy FreshCell TimeCell to_Time by_value (gu_EmailVerifiedAt u) h of None \<Rightarrow> None
      | Some (v, h1) \<Rightarrow> (let out = out\<lparr>gu_EmailVerifiedAt := v\<rparr> in
      case new_copy FreshCell TimeCell to_Time by_value (gu_DeletedAt u) h1 of None \<Rightarrow> None
      | Some (d, h2) \<Rightarrow> (let out = out\<lparr>gu_DeletedAt := d\<rparr> in
      case new_copy FreshCell TimeCell to_Time by_value (gu_LastLoginAt u) h2 of None \<Rightarrow> None
      | Some (l, h3) \<Rightarrow> Some (out\<lparr>gu_LastLoginAt := l\<rparr>, h3))))"

definition cloneUser :: "nat option \<Rightarrow> umem \<Rightarrow> (nat option \<times> umem) option" where
  "cloneUser u h = (case u of None \<Rightarrow> None | Some a \<Rightarrow> new_copy FreshCell UserCell to_User copy_user (Some a) h)"

lemma user_copier: "deep_copier user_reads user_reach copy_user"
proof -
  note p = plain.deep_copier_axioms
  let ?cp = "new_copy FreshCell TimeCell to_Time by_value"
  have "deep_copier user_reads user_reach
     (\<lambda>g h. map_option (\<lambda>(q, h'). (case q of (v, d, l) \<Rightarrow> g\<lparr>gu_EmailVerifiedAt := v, gu_DeletedAt := d, gu_LastLoginAt := l\<rparr>, h'))
        (pair_copy ?cp (pair_copy ?cp ?cp) (gu_EmailVerifiedAt g, gu_DeletedAt g, gu_LastLoginAt g) h))"
    unfolding user_reads_def[abs_def] user_reach_def[abs_def]
    by (rule struct_copier[OF pair_copier[OF ptr_copier[OF p] pair_copier[OF ptr_copier[OF p] ptr_copier[OF p]]]]) auto
  moreover have "copy_user = (\<lambda>g h. map_option (\<lambda>(q, h'). (case q of (v, d, l) \<Rightarrow> g\<lparr>gu_EmailVerifiedAt := v, gu_DeletedAt := d, gu_LastLoginAt := l\<rparr>, h'))
        (pair_copy ?cp (pair_copy ?cp ?cp) (gu_EmailVerifiedAt g, gu_DeletedAt g, gu_LastLoginAt g) h))"
    by (intro ext) (simp add: copy_user_def pair_copy_def Let_def split: option.split)
  ultimately show ?thesis by simp
qed

interpretation row: deep_copier row_reads row_reach "new_copy FreshCell UserCell to_User copy_user"
  by (rule ptr_copier[OF user_copier]) simp

lemma cloneUser_row:
  assumes "row_reads h (Some a) = Some (Some u)"
  obtains q h' where "cloneUser (Some a) h = Some (q, h')" "grows h h'" "row_reads h' q = Some (Some u)" "row_reach h' q \<subseteq> {length h..<length h'}"
  using row.copied[OF assms] unfolding cloneUser_def by (metis option.simps(5))

section \<open>The operations\<close>

definition at_row :: "umem \<Rightarrow> nat option \<Rightarrow> go_user option" where
  "at_row h q = (case q of None \<Rightarrow> None | Some a \<Rightarrow> deref to_User h a)"

fun ptr_taken :: "string \<Rightarrow> umem \<Rightarrow> by_id \<Rightarrow> bool option" where
  "ptr_taken email h [] = Some False"
| "ptr_taken email h ((i, q) # m) = (case at_row h q of None \<Rightarrow> None
     | Some g \<Rightarrow> if gu_Email g = email \<and> gu_DeletedAt g = None then Some True else ptr_taken email h m)"

definition ptr_Create :: "(string \<Rightarrow> bool) \<Rightarrow> create_params \<Rightarrow> string option \<Rightarrow> gotime \<Rightarrow> umem \<times> by_id
    \<Rightarrow> ((users_error + nat option) \<times> umem \<times> by_id) option" where
  "ptr_Create parse p newid now s =
     (let (h, m) = s; email = NormalizeEmail (p_Email p); app = (if p_App p = [] then DefaultApp else p_App p)
      in if \<not> validEmail parse email then Some (Inl ErrInvalidEmail, s)
         else if p_PasswordHash p = [] then Some (Inl ErrEmptyHash, s)
         else if \<not> ValidTier (p_Tier p) then Some (Inl ErrInvalidTier, s)
         else if \<not> ValidLang (p_Language p) then Some (Inl ErrInvalidLang, s)
         else if \<not> ValidApp app then Some (Inl ErrInvalidApp, s)
         else (case newid of None \<Rightarrow> Some (Inl ErrRandomness, s)
           | Some i \<Rightarrow>
              (case ptr_taken email h m of None \<Rightarrow> None
               | Some True \<Rightarrow> Some (Inl ErrEmailTaken, s)
               | Some False \<Rightarrow>
                  (let g = \<lparr>gu_ID = i, gu_Email = email, gu_PasswordHash = p_PasswordHash p, gu_Tier = p_Tier p, gu_StripeCustomerID = [],
                         gu_Language = p_Language p, gu_App = app, gu_CreatedAt = now, gu_EmailVerifiedAt = None, gu_DeletedAt = None,
                         gu_LastLoginAt = None\<rparr>;
                       h1 = h @ [UserCell g]; m1 = al_put i (Some (length h)) m
                   in case cloneUser (Some (length h)) h1 of None \<Rightarrow> None | Some (q, h2) \<Rightarrow> Some (Inr q, h2, m1)))))"

definition ptr_GetByID :: "string \<Rightarrow> umem \<times> by_id \<Rightarrow> ((users_error + nat option) \<times> umem \<times> by_id) option" where
  "ptr_GetByID i s = (let (h, m) = s in case map_of m i of None \<Rightarrow> Some (Inl ErrNotFound, s)
     | Some q \<Rightarrow> (case at_row h q of None \<Rightarrow> None
         | Some g \<Rightarrow> if gu_DeletedAt g \<noteq> None then Some (Inl ErrNotFound, s)
             else (case cloneUser q h of None \<Rightarrow> None | Some (r, h') \<Rightarrow> Some (Inr r, h', m))))"

fun ptr_scan :: "string \<Rightarrow> umem \<times> by_id \<Rightarrow> string list \<Rightarrow> ((users_error + nat option) \<times> umem \<times> by_id) option" where
  "ptr_scan email s [] = Some (Inl ErrNotFound, s)"
| "ptr_scan email s (i # is) = (case map_of (snd s) i of None \<Rightarrow> None
     | Some q \<Rightarrow> (case at_row (fst s) q of None \<Rightarrow> None
         | Some g \<Rightarrow> if gu_Email g = email \<and> gu_DeletedAt g = None
             then (case cloneUser q (fst s) of None \<Rightarrow> None | Some (r, h') \<Rightarrow> Some (Inr r, h', snd s))
             else ptr_scan email s is))"

definition ptr_GetByEmail :: "string \<Rightarrow> umem \<times> by_id \<Rightarrow> ((users_error + nat option) \<times> umem \<times> by_id) option" where
  "ptr_GetByEmail addr s = (let email = NormalizeEmail addr; ids = sort (map fst (snd s)) in ptr_scan email s ids)"

definition ptr_update :: "string \<Rightarrow> (go_user \<Rightarrow> umem \<Rightarrow> go_user \<times> umem) \<Rightarrow> umem \<times> by_id \<Rightarrow> (users_error option \<times> umem \<times> by_id) option" where
  \<comment> \<open>look up, refuse a missing or deleted row, write through the pointer\<close>
  "ptr_update i f s = (let (h, m) = s in case map_of m i of None \<Rightarrow> Some (Some ErrNotFound, s)
     | Some q \<Rightarrow> (case at_row h q of None \<Rightarrow> None
         | Some g \<Rightarrow> if gu_DeletedAt g \<noteq> None then Some (Some ErrNotFound, s)
             else (let (g', h1) = f g h in Some (None, h1[the q := UserCell g'], m))))"

definition ptr_UpdateTier :: "string \<Rightarrow> string \<Rightarrow> umem \<times> by_id \<Rightarrow> (users_error option \<times> umem \<times> by_id) option" where
  "ptr_UpdateTier i tier s = (if \<not> ValidTier tier then Some (Some ErrInvalidTier, s) else ptr_update i (\<lambda>g h. (g\<lparr>gu_Tier := tier\<rparr>, h)) s)"

definition ptr_UpdateStripeCustomerID :: "string \<Rightarrow> string \<Rightarrow> umem \<times> by_id \<Rightarrow> (users_error option \<times> umem \<times> by_id) option" where
  "ptr_UpdateStripeCustomerID i stripeID s = ptr_update i (\<lambda>g h. (g\<lparr>gu_StripeCustomerID := stripeID\<rparr>, h)) s"

definition ptr_MarkEmailVerified :: "string \<Rightarrow> gotime \<Rightarrow> umem \<times> by_id \<Rightarrow> (users_error option \<times> umem \<times> by_id) option" where
  \<comment> \<open>\<open>t := at.UTC(); u.EmailVerifiedAt = &t\<close>\<close>
  "ptr_MarkEmailVerified i t s = ptr_update i (\<lambda>g h. (g\<lparr>gu_EmailVerifiedAt := Some (length h)\<rparr>, h @ [TimeCell t])) s"

definition ptr_RecordLogin :: "string \<Rightarrow> gotime \<Rightarrow> umem \<times> by_id \<Rightarrow> (users_error option \<times> umem \<times> by_id) option" where
  "ptr_RecordLogin i t s = ptr_update i (\<lambda>g h. (g\<lparr>gu_LastLoginAt := Some (length h)\<rparr>, h @ [TimeCell t])) s"

definition ptr_SoftDelete :: "string \<Rightarrow> gotime \<Rightarrow> umem \<times> by_id \<Rightarrow> (users_error option \<times> umem \<times> by_id) option" where
  "ptr_SoftDelete i t s = (let (h, m) = s in case map_of m i of None \<Rightarrow> Some (Some ErrNotFound, s)
     | Some q \<Rightarrow> (case at_row h q of None \<Rightarrow> None
         | Some g \<Rightarrow> if gu_DeletedAt g \<noteq> None then Some (Some ErrAlreadyDeleted, s)
             else Some (None, (h @ [TimeCell t])[the q := UserCell (g\<lparr>gu_DeletedAt := Some (length h)\<rparr>)], m)))"

fun ptr_purge :: "gotime \<Rightarrow> umem \<Rightarrow> by_id \<Rightarrow> (nat \<times> by_id) option" where
  "ptr_purge cutoff h [] = Some (0, [])"
| "ptr_purge cutoff h ((i, q) # m) = (case at_row h q of None \<Rightarrow> None
     | Some g \<Rightarrow> (case ptr_purge cutoff h m of None \<Rightarrow> None
         | Some (purged, m') \<Rightarrow> (case gu_DeletedAt g of None \<Rightarrow> Some (purged, (i, q) # m')
             | Some a \<Rightarrow> (case deref to_Time h a of None \<Rightarrow> None
                 | Some d \<Rightarrow> if d < cutoff then Some (purged + 1, m') else Some (purged, (i, q) # m')))))"

section \<open>What the store owns\<close>

abbreviation entry :: "umem \<Rightarrow> string \<times> nat option \<Rightarrow> string \<times> user \<Rightarrow> bool" where
  "entry h \<equiv> \<lambda>(i, q) (j, u). i = j \<and> row_reads h q = Some (Some u)"

definition represents :: "umem \<Rightarrow> by_id \<Rightarrow> mem_store \<Rightarrow> bool" where
  "represents h m s \<longleftrightarrow> list_all2 (entry h) m s \<and> distinct (map snd m)"

definition store_cells :: "umem \<Rightarrow> by_id \<Rightarrow> nat set" where
  "store_cells h m = (\<Union>(i, q) \<in> set m. row_reach h q)"

definition apart :: "umem \<Rightarrow> by_id \<Rightarrow> mem_store \<Rightarrow> nat set \<Rightarrow> bool" where
  \<comment> \<open>the memory holds the rows \<open>s\<close>, and no cell of the store is among those that callers can reach\<close>
  "apart h m s held \<longleftrightarrow> represents h m s \<and> store_cells h m \<inter> held = {} \<and> held \<subseteq> {..<length h}"

interpretation time: deep_copier time_reads time_reach "new_copy FreshCell TimeCell to_Time by_value"
  by (rule ptr_copier[OF plain.deep_copier_axioms]) simp

lemma user_reads_iff:
  "user_reads h g = Some u \<longleftrightarrow> time_reads h (gu_EmailVerifiedAt g) = Some (u_EmailVerifiedAt u) \<and> time_reads h (gu_DeletedAt g) = Some (u_DeletedAt u)
     \<and> time_reads h (gu_LastLoginAt g) = Some (u_LastLoginAt u)
     \<and> u = user_row g (u_EmailVerifiedAt u, u_DeletedAt u, u_LastLoginAt u)"
  by (auto simp: user_reads_def pair_reads_def split: option.split)

lemma time_reads_None: "time_reads h q = Some w \<Longrightarrow> q = None \<longleftrightarrow> w = None"
  by (erule ptr_readsE) auto

lemma user_reads_fields:
  assumes "user_reads h g = Some u"
  shows "gu_Email g = u_Email u" "gu_DeletedAt g = None \<longleftrightarrow> u_DeletedAt u = None"
proof -
  have u: "u = user_row g (u_EmailVerifiedAt u, u_DeletedAt u, u_LastLoginAt u)" using assms by (simp only: user_reads_iff)
  show "gu_Email g = u_Email u" by (subst u) simp
  show "gu_DeletedAt g = None \<longleftrightarrow> u_DeletedAt u = None" using assms[unfolded user_reads_iff] time_reads_None by blast
qed

lemma time_reach_cell: "time_reads h q = Some w \<Longrightarrow> a \<in> time_reach h q \<Longrightarrow> \<exists>t. h ! a = TimeCell t"
  by (elim ptr_readsE) (auto simp: ptr_reach_def elim: to_Time.elims split: option.splits)

lemma user_reach_cell: "user_reads h g = Some u \<Longrightarrow> a \<in> user_reach h g \<Longrightarrow> \<exists>t. h ! a = TimeCell t"
  unfolding user_reads_iff user_reach_def pair_reach_def using time_reach_cell by auto

lemma row_readsE:
  assumes "row_reads h q = Some (Some u)"
  obtains a g where "q = Some a" "a < length h" "h ! a = UserCell g" "at_row h q = Some g" "user_reads h g = Some u"
    "row_reach h q = insert a (user_reach h g)"
  using assms
proof (cases rule: ptr_readsE)
  case (2 a g w)
  then show ?thesis using that[of a g] by (auto simp: at_row_def deref_def ptr_reach_def elim!: to_User.elims)
qed simp

lemma row_reads_at: "a < length h \<Longrightarrow> h ! a = UserCell g \<Longrightarrow> user_reads h g = Some u \<Longrightarrow> row_reads h (Some a) = Some (Some u)
    \<and> row_reach h (Some a) = insert a (user_reach h g)"
  by (simp add: ptr_reads_def ptr_reach_def deref_def)

lemma represents_cases:
  assumes "represents h m s"
  obtains (missing) "map_of m i = None" "map_of s i = None"
  | (there) a g u where "map_of m i = Some (Some a)" "map_of s i = Some u" "row_reads h (Some a) = Some (Some u)" "at_row h (Some a) = Some g"
      "user_reads h g = Some u" "a < length h" "h ! a = UserCell g"
proof -
  have "map_of m i = None \<and> map_of s i = None \<or> (\<exists>q u. map_of m i = Some q \<and> map_of s i = Some u \<and> row_reads h q = Some (Some u))"
    using conjunct1[OF assms[unfolded represents_def]] by (induction rule: list_all2_induct) auto
  then show ?thesis
  proof (elim disjE exE conjE)
    fix q u
    assume l: "map_of m i = Some q" "map_of s i = Some u" "row_reads h q = Some (Some u)"
    from l(3) show thesis by (rule row_readsE) (use l there in auto)
  qed (rule missing)
qed

lemma represents_keys: "represents h m s \<Longrightarrow> map fst m = map fst s"
  unfolding represents_def by (elim conjE, induction rule: list_all2_induct) auto

lemma represents_row:
  assumes "represents h m s" "(i, q) \<in> set m"
  shows "\<exists>u. row_reads h q = Some (Some u)"
proof -
  have "list_all2 (entry h) m s" using assms(1) by (simp add: represents_def)
  then have "(i, q) \<in> set m \<longrightarrow> ?thesis" by (induction rule: list_all2_induct) auto
  with assms(2) show ?thesis by simp
qed

lemma store_cells_in: "(i, q) \<in> set m \<Longrightarrow> row_reach h q \<subseteq> store_cells h m"
  by (auto simp: store_cells_def)

lemma store_cells_bound: "represents h m s \<Longrightarrow> store_cells h m \<subseteq> {..<length h}"
  unfolding store_cells_def using represents_row row.bound by fastforce

lemma represents_frame:
  assumes "represents h m s" "\<forall>a \<in> store_cells h m. a < length h' \<and> h' ! a = h ! a"
  shows "represents h' m s" "store_cells h' m = store_cells h m"
proof -
  have k: "row_reads h' q = Some v \<and> row_reach h' q = row_reach h q" if "(i, q) \<in> set m" "row_reads h q = Some v" for i q v
    by (rule row.local[OF that(2)]) (use that(1) assms(2) in \<open>auto simp: store_cells_def\<close>)
  have "list_all2 (entry h') m s"
    by (rule list.rel_mono_strong[OF conjunct1[OF assms(1)[unfolded represents_def]]]) (use k in auto)
  with assms(1) show "represents h' m s" by (simp add: represents_def)
  show "store_cells h' m = store_cells h m"
    unfolding store_cells_def using k represents_row[OF assms(1)] by (intro SUP_cong) fastforce+
qed

subsection \<open>Steps of callers and clones\<close>

lemma apart_grows: "apart h m s held \<Longrightarrow> grows h h' \<Longrightarrow> new \<subseteq> {length h..<length h'} \<Longrightarrow> apart h' m s (held \<union> new)"
  unfolding apart_def using represents_frame[of h m s h'] store_cells_bound[of h m s] grows_reach[of "store_cells h m" h h']
  by (fastforce simp: grows_def)

lemma apart_scribble: "apart h m s held \<Longrightarrow> a \<in> held \<Longrightarrow> apart (h[a := c]) m s held"
proof -
  assume a: "apart h m s held" "a \<in> held"
  then have "a \<notin> store_cells h m" "store_cells h m \<subseteq> {..<length h}" "represents h m s" by (auto simp: apart_def dest: store_cells_bound)
  moreover have "\<forall>b \<in> store_cells h m. b < length (h[a := c]) \<and> h[a := c] ! b = h ! b"
  proof
    fix b
    assume "b \<in> store_cells h m"
    with calculation have "b \<noteq> a" "b < length h" by auto
    then show "b < length (h[a := c]) \<and> h[a := c] ! b = h ! b" by simp
  qed
  ultimately show ?thesis using a represents_frame[of h m s "h[a := c]"] by (simp add: apart_def)
qed

subsection \<open>Writes of the store\<close>

lemma list_all2_put:
  assumes "list_all2 (entry h) m s" "distinct (map snd m)" "map_of m i = Some q" "row_reads h2 q = Some (Some u')"
    and "\<And>j q' v. (j, q') \<in> set m \<Longrightarrow> q' \<noteq> q \<Longrightarrow> row_reads h q' = Some (Some v) \<Longrightarrow> row_reads h2 q' = Some (Some v)"
  shows "list_all2 (entry h2) m (al_put i u' s)"
  using assms(1,2,3,5)
proof (induction rule: list_all2_induct)
  case (Cons x m y s)
  obtain k p v where e: "x = (k, p)" "y = (k, v)" "row_reads h p = Some (Some v)" using Cons(1) by (cases x, cases y) auto
  show ?case
  proof (cases "k = i")
    case True
    then have q: "p = q" using Cons(5) e by simp
    have "list_all2 (entry h2) m s"
      by (rule list.rel_mono_strong[OF Cons(2)]) (use Cons(4) Cons(6) e(1) q in \<open>force simp: image_iff\<close>)
    with True q assms(4) e show ?thesis by simp
  next
    case False
    then have m: "map_of m i = Some q" using Cons(5) e by simp
    then have "q \<in> set (map snd m)" by (force dest: map_of_SomeD)
    with Cons(4) e have "p \<noteq> q" by auto
    then have "row_reads h2 p = Some (Some v)" using Cons(6)[of k p v] e by simp
    moreover have "list_all2 (entry h2) m (al_put i u' s)" by (rule Cons(3)) (use Cons(4,6) m in auto)
    ultimately show ?thesis using False e by simp
  qed
qed simp

lemma apart_write:
  assumes ap: "apart h m s held" and l: "map_of m i = Some (Some a)" "h ! a = UserCell g" "a < length h" and h1: "grows h h1"
    and g': "user_reads h1 g' = Some u'" "user_reach h1 g' \<subseteq> user_reach h g \<union> {length h..<length h1}"
  shows "apart (h1[a := UserCell g']) m (al_put i u' s) held"
proof -
  let ?h = "h1[a := UserCell g']"
  have rep: "list_all2 (entry h) m s" "distinct (map snd m)" "represents h m s" using ap by (auto simp: apart_def represents_def)
  have a: "a < length h1" "h1 ! a = UserCell g" using h1 l by (auto simp: grows_def)
  have off: "a \<notin> user_reach h1 g'" using user_reach_cell[OF g'(1), of a] a(2) by auto
  have mine: "row_reads ?h (Some a) = Some (Some u')" "row_reach ?h (Some a) = insert a (user_reach h1 g')"
    using deep_copier.kept_fill[OF user_copier g'(1) order_refl off, of "UserCell g'"] a row_reads_at[of a ?h g' u'] by simp_all
  have others: "row_reads ?h q = Some (Some v) \<and> row_reach ?h q = row_reach h q" if "q \<noteq> Some a" "row_reads h q = Some (Some v)" for q v
    using that(2)
  proof (rule row_readsE)
    fix b k
    assume q: "q = Some b" "row_reach h q = insert b (user_reach h k)" "user_reads h k = Some v"
    have "a \<notin> row_reach h q" using q that(1) user_reach_cell[OF q(3), of a] l(2) by auto
    with row.kept[OF that(2) h1] have "row_reads h1 q = Some (Some v)" "row_reach h1 q = row_reach h q" "a \<notin> row_reach h1 q" by auto
    with row.kept_fill[of h1 q "Some v" "row_reach h q" a "UserCell g'"] show ?thesis by simp
  qed
  have 1: "represents ?h m (al_put i u' s)"
    unfolding represents_def using list_all2_put[OF rep(1,2) l(1) mine(1)] others rep(2) by blast
  have "row_reach ?h q \<subseteq> store_cells h m \<union> {length h..<length h1}" if e: "(j, q) \<in> set m" for j q
  proof (cases "q = Some a")
    case True
    have r: "row_reads h (Some a) \<noteq> None" using represents_row[OF rep(3) e] True by auto
    then have "row_reach h (Some a) = insert a (user_reach h g)" using l(2,3) by (simp add: ptr_reach_def deref_def)
    then have "row_reach h q = insert a (user_reach h g)" "row_reach ?h q = insert a (user_reach h1 g')" using True mine(2) by auto
    with store_cells_in[OF e, of h] g'(2) show ?thesis by blast
  next
    case False
    obtain v where "row_reads h q = Some (Some v)" using represents_row[OF rep(3) e] by blast
    with others[OF False] store_cells_in[OF e, of h] show ?thesis by blast
  qed
  then have "store_cells ?h m \<subseteq> store_cells h m \<union> {length h..<length h1}" unfolding store_cells_def[of ?h] by blast
  moreover have "(store_cells h m \<union> {length h..<length h1}) \<inter> held = {}" using ap by (fastforce simp: apart_def)
  ultimately have "store_cells ?h m \<inter> held = {}" by blast
  moreover have "held \<subseteq> {..<length ?h}" using ap h1 by (auto simp: apart_def grows_def)
  ultimately show ?thesis using 1 by (simp add: apart_def)
qed

lemma set_al_put: "set (al_put k v m) \<subseteq> insert (k, v) (set m)"
  by (induction k v m rule: al_put.induct) auto

lemma distinct_snd_put: "v \<notin> snd ` set m \<Longrightarrow> distinct (map snd m) \<Longrightarrow> distinct (map snd (al_put k v m))"
proof (induction k v m rule: al_put.induct)
  case (2 k v k' v' m)
  have "v' \<notin> snd ` set (al_put k v m)" using 2(2,3) set_al_put[of k v m] by (auto simp: image_iff)
  with 2 show ?case by auto
qed simp

lemma apart_insert:
  assumes "apart h m s held" "user_reads h1 g = Some u" "user_reach h1 g = {}" "h1 = h @ [UserCell g]"
  shows "apart h1 (al_put i (Some (length h)) m) (al_put i u s) held" "row_reads h1 (Some (length h)) = Some (Some u)"
proof -
  have gr: "grows h h1" using assms(4) by simp
  show new: "row_reads h1 (Some (length h)) = Some (Some u)" using row_reads_at[of "length h" h1 g u] assms(2,4) by simp
  have new_reach: "row_reach h1 (Some (length h)) = {length h}" using row_reads_at[of "length h" h1 g u] assms(2,3,4) by simp
  have kept: "apart h1 m s held" using apart_grows[OF assms(1) gr, of "{}"] by simp
  have "list_all2 (entry h1) (al_put i (Some (length h)) m) (al_put i u s)"
    using conjunct1[OF conjunct1[OF kept[unfolded apart_def], unfolded represents_def]]
    by (induction rule: list_all2_induct) (use new in auto)
  moreover have fresh: "Some (length h) \<notin> snd ` set m"
    using store_cells_bound[of h m s] represents_row[of h m s] assms(1) by (fastforce simp: apart_def store_cells_def elim: row_readsE)
  have "distinct (map snd (al_put i (Some (length h)) m))"
    using fresh kept by (intro distinct_snd_put) (auto simp: apart_def represents_def)
  moreover have "store_cells h1 (al_put i (Some (length h)) m) \<subseteq> insert (length h) (store_cells h1 m)"
    unfolding store_cells_def using new_reach set_al_put[of i "Some (length h)" m] by fastforce
  moreover have "length h \<notin> held" using assms(1) by (auto simp: apart_def)
  ultimately show "apart h1 (al_put i (Some (length h)) m) (al_put i u s) held" using kept by (auto simp: apart_def represents_def)
qed

subsection \<open>Fields\<close>

lemma new_time: "time_reads (h @ [TimeCell t]) (Some (length h)) = Some (Some t)" "time_reach (h @ [TimeCell t]) (Some (length h)) = {length h}"
  by (simp_all add: ptr_reads_def ptr_reach_def deref_def)

lemma old_time: "time_reads h q = Some w \<Longrightarrow> time_reads (h @ [c]) q = Some w \<and> time_reach (h @ [c]) q = time_reach h q"
  by (rule time.kept) simp_all

lemma user_readsE:
  assumes "user_reads h g = Some u"
  obtains v d l where "time_reads h (gu_EmailVerifiedAt g) = Some v" "time_reads h (gu_DeletedAt g) = Some d" "time_reads h (gu_LastLoginAt g) = Some l"
    "u = user_row g (v, d, l)"
  using assms by (auto simp: user_reads_iff)

lemma user_writes:
  assumes "user_reads h g = Some u"
  shows "user_reads h (g\<lparr>gu_Tier := x\<rparr>) = Some (u\<lparr>u_Tier := x\<rparr>)" "user_reach h (g\<lparr>gu_Tier := x\<rparr>) = user_reach h g"
    "user_reads h (g\<lparr>gu_StripeCustomerID := x\<rparr>) = Some (u\<lparr>u_StripeCustomerID := x\<rparr>)" "user_reach h (g\<lparr>gu_StripeCustomerID := x\<rparr>) = user_reach h g"
    "user_reads (h @ [TimeCell t]) (g\<lparr>gu_EmailVerifiedAt := Some (length h)\<rparr>) = Some (u\<lparr>u_EmailVerifiedAt := Some t\<rparr>)"
    "user_reads (h @ [TimeCell t]) (g\<lparr>gu_DeletedAt := Some (length h)\<rparr>) = Some (u\<lparr>u_DeletedAt := Some t\<rparr>)"
    "user_reads (h @ [TimeCell t]) (g\<lparr>gu_LastLoginAt := Some (length h)\<rparr>) = Some (u\<lparr>u_LastLoginAt := Some t\<rparr>)"
proof -
  obtain v d l where r: "time_reads h (gu_EmailVerifiedAt g) = Some v" "time_reads h (gu_DeletedAt g) = Some d" "time_reads h (gu_LastLoginAt g) = Some l"
    "u = user_row g (v, d, l)" using assms by (rule user_readsE)
  note k = r old_time[OF r(1), of "TimeCell t"] old_time[OF r(2), of "TimeCell t"] old_time[OF r(3), of "TimeCell t"]
    user_reads_def user_reach_def pair_reads_def pair_reach_def new_time
  show "user_reads h (g\<lparr>gu_Tier := x\<rparr>) = Some (u\<lparr>u_Tier := x\<rparr>)" "user_reach h (g\<lparr>gu_Tier := x\<rparr>) = user_reach h g" by (simp_all add: k)
  show "user_reads h (g\<lparr>gu_StripeCustomerID := x\<rparr>) = Some (u\<lparr>u_StripeCustomerID := x\<rparr>)"
    "user_reach h (g\<lparr>gu_StripeCustomerID := x\<rparr>) = user_reach h g" by (simp_all add: k)
  show "user_reads (h @ [TimeCell t]) (g\<lparr>gu_EmailVerifiedAt := Some (length h)\<rparr>) = Some (u\<lparr>u_EmailVerifiedAt := Some t\<rparr>)"
    "user_reads (h @ [TimeCell t]) (g\<lparr>gu_DeletedAt := Some (length h)\<rparr>) = Some (u\<lparr>u_DeletedAt := Some t\<rparr>)"
    "user_reads (h @ [TimeCell t]) (g\<lparr>gu_LastLoginAt := Some (length h)\<rparr>) = Some (u\<lparr>u_LastLoginAt := Some t\<rparr>)" by (simp_all add: k)
qed

lemma user_writes_reach:
  assumes "user_reads h g = Some u"
  shows "user_reach (h @ [TimeCell t]) (g\<lparr>gu_EmailVerifiedAt := Some (length h)\<rparr>) \<subseteq> user_reach h g \<union> {length h..<length (h @ [TimeCell t])}"
    "user_reach (h @ [TimeCell t]) (g\<lparr>gu_DeletedAt := Some (length h)\<rparr>) \<subseteq> user_reach h g \<union> {length h..<length (h @ [TimeCell t])}"
    "user_reach (h @ [TimeCell t]) (g\<lparr>gu_LastLoginAt := Some (length h)\<rparr>) \<subseteq> user_reach h g \<union> {length h..<length (h @ [TimeCell t])}"
proof -
  obtain v d l where r: "time_reads h (gu_EmailVerifiedAt g) = Some v" "time_reads h (gu_DeletedAt g) = Some d" "time_reads h (gu_LastLoginAt g) = Some l"
    using assms by (rule user_readsE)
  note k = old_time[OF r(1), of "TimeCell t"] old_time[OF r(2), of "TimeCell t"] old_time[OF r(3), of "TimeCell t"] user_reach_def pair_reach_def new_time
  show "user_reach (h @ [TimeCell t]) (g\<lparr>gu_EmailVerifiedAt := Some (length h)\<rparr>) \<subseteq> user_reach h g \<union> {length h..<length (h @ [TimeCell t])}"
    "user_reach (h @ [TimeCell t]) (g\<lparr>gu_DeletedAt := Some (length h)\<rparr>) \<subseteq> user_reach h g \<union> {length h..<length (h @ [TimeCell t])}"
    "user_reach (h @ [TimeCell t]) (g\<lparr>gu_LastLoginAt := Some (length h)\<rparr>) \<subseteq> user_reach h g \<union> {length h..<length (h @ [TimeCell t])}"
    by (auto simp: k)
qed

section \<open>Calls\<close>

datatype store_call = Change store_op | LookID string | LookEmail string

datatype ptr_out = PUser "users_error + nat option" | PErr "users_error option" | PCount nat

fun ptr_call :: "(string \<Rightarrow> bool) \<Rightarrow> store_call \<Rightarrow> umem \<times> by_id \<Rightarrow> (ptr_out \<times> umem \<times> by_id) option" where
  "ptr_call parse (Change (OpCreate p n t)) s = map_option (apfst PUser) (ptr_Create parse p n t s)"
| "ptr_call parse (Change (OpUpdateTier i t)) s = map_option (apfst PErr) (ptr_UpdateTier i t s)"
| "ptr_call parse (Change (OpUpdateStripe i c)) s = map_option (apfst PErr) (ptr_UpdateStripeCustomerID i c s)"
| "ptr_call parse (Change (OpMarkVerified i t)) s = map_option (apfst PErr) (ptr_MarkEmailVerified i t s)"
| "ptr_call parse (Change (OpRecordLogin i t)) s = map_option (apfst PErr) (ptr_RecordLogin i t s)"
| "ptr_call parse (Change (OpSoftDelete i t)) s = map_option (apfst PErr) (ptr_SoftDelete i t s)"
| "ptr_call parse (Change (OpPurge t)) s = map_option (\<lambda>(n, m'). (PCount n, fst s, m')) (ptr_purge t (fst s) (snd s))"
| "ptr_call parse (LookID i) s = map_option (apfst PUser) (ptr_GetByID i s)"
| "ptr_call parse (LookEmail a) s = map_option (apfst PUser) (ptr_GetByEmail a s)"

fun value_call :: "(string \<Rightarrow> bool) \<Rightarrow> store_call \<Rightarrow> mem_store \<Rightarrow> store_out \<times> mem_store" where
  \<comment> \<open>the same call on the map of values\<close>
  "value_call parse (Change op) s = op_on (MemoryStore parse) op s"
| "value_call parse (LookID i) s = (OUser (st_GetByID (MemoryStore parse) i s), s)"
| "value_call parse (LookEmail a) s = (OUser (st_GetByEmail (MemoryStore parse) a s), s)"

fun shown :: "umem \<Rightarrow> ptr_out \<Rightarrow> store_out option" where
  \<comment> \<open>what a caller reads from an answer\<close>
  "shown h (PUser (Inl e)) = Some (OUser (Inl e))"
| "shown h (PUser (Inr q)) = (case row_reads h q of Some (Some u) \<Rightarrow> Some (OUser (Inr u)) | _ \<Rightarrow> None)"
| "shown h (PErr e) = Some (OErr e)"
| "shown h (PCount n) = Some (OCount (Inr n))"

fun handed :: "umem \<Rightarrow> ptr_out \<Rightarrow> nat set" where
  \<comment> \<open>the cells a caller reaches through an answer\<close>
  "handed h (PUser (Inr q)) = row_reach h q"
| "handed h _ = {}"

definition answers :: "nat set \<Rightarrow> (ptr_out \<times> umem \<times> by_id) option \<Rightarrow> store_out \<times> mem_store \<Rightarrow> bool" where
  \<comment> \<open>the call returns, its answer reads as that of the map of values, and the callers still reach no cell of the store\<close>
  "answers held p v \<longleftrightarrow> (\<exists>out h m. p = Some (out, h, m) \<and> shown h out = Some (fst v) \<and> apart h m (snd v) (held \<union> handed h out))"

lemma answers_fail: "apart h m s held \<Longrightarrow> answers held (Some (PUser (Inl e), h, m)) (OUser (Inl e), s)"
  "apart h m s held \<Longrightarrow> answers held (Some (PErr r, h, m)) (OErr r, s)"
  by (simp_all add: answers_def)

lemma answers_clone:
  assumes "apart h m s held" "row_reads h (Some a) = Some (Some u)"
  shows "answers held (map_option (apfst PUser) (case cloneUser (Some a) h of None \<Rightarrow> None | Some (q, h') \<Rightarrow> Some (Inr q, h', m))) (OUser (Inr u), s)"
proof -
  obtain q h' where c: "cloneUser (Some a) h = Some (q, h')" "grows h h'" "row_reads h' q = Some (Some u)" "row_reach h' q \<subseteq> {length h..<length h'}"
    using cloneUser_row[OF assms(2)] by metis
  then show ?thesis using apart_grows[OF assms(1) c(2,4)] by (simp add: answers_def)
qed

lemma answers_update:
  assumes ap: "apart h m s held"
    and f: "\<And>g u. user_reads h g = Some u \<Longrightarrow> \<exists>g' h1. f g h = (g', h1) \<and> grows h h1 \<and> user_reads h1 g' = Some (f' u)
      \<and> user_reach h1 g' \<subseteq> user_reach h g \<union> {length h..<length h1}"
  shows "answers held (map_option (apfst PErr) (ptr_update i f (h, m))) (apfst OErr (update_active i f' s))"
proof -
  have "represents h m s" using ap by (simp add: apart_def)
  then show ?thesis
  proof (cases rule: represents_cases[of h m s i])
    case missing
    then show ?thesis using answers_fail[OF ap] by (simp add: ptr_update_def update_active_def)
  next
    case (there a g u)
    from f[OF there(5)] obtain g' h1 where w: "f g h = (g', h1)" "grows h h1" "user_reads h1 g' = Some (f' u)"
      "user_reach h1 g' \<subseteq> user_reach h g \<union> {length h..<length h1}" by blast
    have "apart (h1[a := UserCell g']) m (al_put i (f' u) s) held" by (rule apart_write[OF ap there(1,7,6) w(2-4)])
    then show ?thesis
      using there w(1) user_reads_fields(2)[OF there(5)] answers_fail[OF ap] answers_fail(2)[of "h1[a := UserCell g']" m "al_put i (f' u) s"]
      by (simp add: ptr_update_def update_active_def)
  qed
qed

lemma ptr_taken_exact:
  assumes "represents h m s"
  shows "ptr_taken email h m = Some (\<exists>(_, u) \<in> set s. u_Email u = email \<and> active u)"
proof -
  have "list_all2 (entry h) m s" using assms by (simp add: represents_def)
  then show ?thesis
  proof (induction rule: list_all2_induct)
    case (Cons x m y s)
    obtain i q u where e: "x = (i, q)" "y = (i, u)" "row_reads h q = Some (Some u)" using Cons(1) by (cases x, cases y) auto
    from e(3) show ?case by (rule row_readsE) (use Cons(3) e user_reads_fields in \<open>auto simp: active_def\<close>)
  qed simp
qed

lemma answers_Create:
  assumes ap: "apart h m s held"
  shows "answers held (ptr_call parse (Change (OpCreate p n t)) (h, m)) (value_call parse (Change (OpCreate p n t)) s)"
proof -
  note taken = ptr_taken_exact[OF conjunct1[OF ap[unfolded apart_def]]]
  note fail = answers_fail(1)[OF ap]
  let ?taken = "\<exists>(_, u) \<in> set s. u_Email u = NormalizeEmail (p_Email p) \<and> active u"
  show ?thesis
  proof (cases "\<exists>u s'. mem_Create parse p n t s = (Inr u, s')")
    case False
    then show ?thesis using fail
      by (cases n) (auto simp: MemoryStore_def ptr_Create_def mem_Create_def Let_def taken split: if_splits)
  next
    case True
    then obtain i where n: "n = Some i" and free: "\<not> ?taken"
      by (auto simp: mem_Create_def Let_def split: if_splits option.splits)
    let ?app = "if p_App p = [] then DefaultApp else p_App p"
    let ?g = "\<lparr>gu_ID = i, gu_Email = NormalizeEmail (p_Email p), gu_PasswordHash = p_PasswordHash p, gu_Tier = p_Tier p, gu_StripeCustomerID = [],
       gu_Language = p_Language p, gu_App = ?app, gu_CreatedAt = t, gu_EmailVerifiedAt = None, gu_DeletedAt = None, gu_LastLoginAt = None\<rparr>"
    let ?u = "user_row ?g (None, None, None)"
    let ?h = "h @ [UserCell ?g]" and ?m = "al_put i (Some (length h)) m"
    have g: "user_reads ?h ?g = Some ?u" "user_reach ?h ?g = {}"
      by (simp_all add: user_reads_def user_reach_def pair_reads_def pair_reach_def ptr_reads_def ptr_reach_def)
    have c: "answers held (map_option (apfst PUser) (case cloneUser (Some (length h)) ?h of None \<Rightarrow> None | Some (q, h') \<Rightarrow> Some (Inr q, h', ?m)))
        (OUser (Inr ?u), al_put i ?u s)"
      by (rule answers_clone[OF apart_insert[OF ap g refl]])
    have v: "value_call parse (Change (OpCreate p n t)) s = (OUser (Inr ?u), al_put i ?u s)"
      using True free by (auto simp: MemoryStore_def mem_Create_def Let_def n split: if_splits)
    have "ptr_Create parse p n t (h, m) = (case cloneUser (Some (length h)) ?h of None \<Rightarrow> None | Some (q, h') \<Rightarrow> Some (Inr q, h', ?m))"
      using True free by (auto simp: ptr_Create_def mem_Create_def Let_def n taken split: if_splits)
    with c v show ?thesis by simp
  qed
qed

lemma answers_GetByID: "apart h m s held \<Longrightarrow> answers held (ptr_call parse (LookID i) (h, m)) (value_call parse (LookID i) s)"
proof -
  assume ap: "apart h m s held"
  then have "represents h m s" by (simp add: apart_def)
  then show ?thesis
  proof (cases rule: represents_cases[of h m s i])
    case missing
    then show ?thesis using answers_fail(1)[OF ap] by (simp add: MemoryStore_def ptr_GetByID_def mem_GetByID_def)
  next
    case (there a g u)
    then show ?thesis using answers_fail(1)[OF ap] answers_clone[OF ap there(3)] user_reads_fields(2)[OF there(5)]
      by (simp add: MemoryStore_def ptr_GetByID_def mem_GetByID_def)
  qed
qed

lemma answers_scan:
  assumes ap: "apart h m s held"
  shows "set is \<subseteq> set (map fst m) \<Longrightarrow> answers held (map_option (apfst PUser) (ptr_scan email (h, m) is)) (OUser (scan_ids email s is), s)"
proof (induction "is")
  case Nil
  then show ?case using answers_fail(1)[OF ap] by simp
next
  case (Cons i js)
  then have i: "map_of m i \<noteq> None" and IH: "answers held (map_option (apfst PUser) (ptr_scan email (h, m) js)) (OUser (scan_ids email s js), s)"
    by (auto simp: map_of_eq_None_iff)
  have "represents h m s" using ap by (simp add: apart_def)
  then show ?case
  proof (cases rule: represents_cases[of h m s i])
    case (there a g u)
    then show ?thesis using IH answers_clone[OF ap there(3)] user_reads_fields[OF there(5)] by (simp cong: option.case_cong prod.case_cong)
  qed (use i in simp)
qed

lemma answers_GetByEmail: "apart h m s held \<Longrightarrow> answers held (ptr_call parse (LookEmail a) (h, m)) (value_call parse (LookEmail a) s)"
  using answers_scan[of h m s held "sort (map fst m)"] represents_keys[of h m s]
  by (simp add: MemoryStore_def ptr_GetByEmail_def mem_GetByEmail_def apart_def)

lemma answers_fields:
  assumes ap: "apart h m s held"
  shows "answers held (ptr_call parse (Change (OpUpdateTier i x)) (h, m)) (value_call parse (Change (OpUpdateTier i x)) s)"
    "answers held (ptr_call parse (Change (OpUpdateStripe i x)) (h, m)) (value_call parse (Change (OpUpdateStripe i x)) s)"
    "answers held (ptr_call parse (Change (OpMarkVerified i t)) (h, m)) (value_call parse (Change (OpMarkVerified i t)) s)"
    "answers held (ptr_call parse (Change (OpRecordLogin i t)) (h, m)) (value_call parse (Change (OpRecordLogin i t)) s)"
proof -
  note d = MemoryStore_def ptr_UpdateTier_def mem_UpdateTier_def ptr_UpdateStripeCustomerID_def mem_UpdateStripeCustomerID_def
    ptr_MarkEmailVerified_def mem_MarkEmailVerified_def ptr_RecordLogin_def mem_RecordLogin_def
  note w = user_writes(1-4)[where x = x] user_writes(5-7)[where t = t]
  have "answers held (map_option (apfst PErr) (ptr_update i (\<lambda>g h. (g\<lparr>gu_Tier := x\<rparr>, h)) (h, m))) (apfst OErr (update_active i (\<lambda>u. u\<lparr>u_Tier := x\<rparr>) s))"
    "answers held (map_option (apfst PErr) (ptr_update i (\<lambda>g h. (g\<lparr>gu_StripeCustomerID := x\<rparr>, h)) (h, m)))
      (apfst OErr (update_active i (\<lambda>u. u\<lparr>u_StripeCustomerID := x\<rparr>) s))"
    by (rule answers_update[OF ap], simp add: w)+
  moreover have "answers held (map_option (apfst PErr) (ptr_update i (\<lambda>g h. (g\<lparr>gu_EmailVerifiedAt := Some (length h)\<rparr>, h @ [TimeCell t])) (h, m)))
      (apfst OErr (update_active i (\<lambda>u. u\<lparr>u_EmailVerifiedAt := Some t\<rparr>) s))"
    by (rule answers_update[OF ap]) (use user_writes_reach(1)[where t = t] in \<open>simp add: w\<close>)
  moreover have "answers held (map_option (apfst PErr) (ptr_update i (\<lambda>g h. (g\<lparr>gu_LastLoginAt := Some (length h)\<rparr>, h @ [TimeCell t])) (h, m)))
      (apfst OErr (update_active i (\<lambda>u. u\<lparr>u_LastLoginAt := Some t\<rparr>) s))"
    by (rule answers_update[OF ap]) (use user_writes_reach(3)[where t = t] in \<open>simp add: w\<close>)
  ultimately show "answers held (ptr_call parse (Change (OpUpdateTier i x)) (h, m)) (value_call parse (Change (OpUpdateTier i x)) s)"
    "answers held (ptr_call parse (Change (OpUpdateStripe i x)) (h, m)) (value_call parse (Change (OpUpdateStripe i x)) s)"
    "answers held (ptr_call parse (Change (OpMarkVerified i t)) (h, m)) (value_call parse (Change (OpMarkVerified i t)) s)"
    "answers held (ptr_call parse (Change (OpRecordLogin i t)) (h, m)) (value_call parse (Change (OpRecordLogin i t)) s)"
    using answers_fail(2)[OF ap] by (simp_all add: d)
qed

lemma answers_SoftDelete:
  assumes ap: "apart h m s held"
  shows "answers held (ptr_call parse (Change (OpSoftDelete i t)) (h, m)) (value_call parse (Change (OpSoftDelete i t)) s)"
proof -
  have "represents h m s" using ap by (simp add: apart_def)
  then show ?thesis
  proof (cases rule: represents_cases[of h m s i])
    case missing
    then show ?thesis using answers_fail(2)[OF ap] by (simp add: MemoryStore_def ptr_SoftDelete_def mem_SoftDelete_def)
  next
    case (there a g u)
    have "apart ((h @ [TimeCell t])[a := UserCell (g\<lparr>gu_DeletedAt := Some (length h)\<rparr>)]) m (al_put i (u\<lparr>u_DeletedAt := Some t\<rparr>) s) held"
      by (rule apart_write[OF ap there(1,7,6)]) (use user_writes(6)[OF there(5)] user_writes_reach(2)[OF there(5)] in auto)
    then show ?thesis using there answers_fail(2)[OF ap] answers_fail(2)[where h = "(h @ [TimeCell t])[a := UserCell (g\<lparr>gu_DeletedAt := Some (length h)\<rparr>)]"]
      user_reads_fields(2)[OF there(5)] by (simp add: MemoryStore_def ptr_SoftDelete_def mem_SoftDelete_def)
  qed
qed

lemma ptr_purge_exact:
  "list_all2 (entry h) m s \<Longrightarrow> \<exists>m'. ptr_purge t h m = Some (length (filter (\<lambda>(_, u). purgeable t u) s), m')
     \<and> list_all2 (entry h) m' (filter (\<lambda>(_, u). \<not> purgeable t u) s) \<and> set m' \<subseteq> set m \<and> (distinct (map snd m) \<longrightarrow> distinct (map snd m'))"
proof (induction rule: list_all2_induct)
  case (Cons x m y s)
  obtain i q u where e: "x = (i, q)" "y = (i, u)" "row_reads h q = Some (Some u)" using Cons(1) by (cases x, cases y) auto
  obtain m' where m': "ptr_purge t h m = Some (length (filter (\<lambda>(_, u). purgeable t u) s), m')"
    "list_all2 (entry h) m' (filter (\<lambda>(_, u). \<not> purgeable t u) s)" "set m' \<subseteq> set m" "distinct (map snd m) \<longrightarrow> distinct (map snd m')"
    using Cons(3) by blast
  from e(3) show ?case
  proof (rule row_readsE)
    fix a g
    assume g: "q = Some a" "at_row h q = Some g" "user_reads h g = Some u"
    have d: "time_reads h (gu_DeletedAt g) = Some (u_DeletedAt u)" using g(3) by (simp only: user_reads_iff)
    have k: "snd ` set m' \<subseteq> snd ` set m" using m'(3) by blast
    show ?thesis using d
      by (rule ptr_readsE) (use g(2) m' k e in \<open>auto simp: purgeable_def deref_def\<close>)
  qed
qed simp

lemma answers_Purge:
  assumes ap: "apart h m s held"
  shows "answers held (ptr_call parse (Change (OpPurge t)) (h, m)) (value_call parse (Change (OpPurge t)) s)"
proof -
  have rep: "list_all2 (entry h) m s" "distinct (map snd m)" using ap by (auto simp: apart_def represents_def)
  obtain m' where m': "ptr_purge t h m = Some (length (filter (\<lambda>(_, u). purgeable t u) s), m')"
    "list_all2 (entry h) m' (filter (\<lambda>(_, u). \<not> purgeable t u) s)" "set m' \<subseteq> set m" "distinct (map snd m')"
    using ptr_purge_exact[OF rep(1), of t] rep(2) by blast
  have "store_cells h m' \<subseteq> store_cells h m" using m'(3) by (auto simp: store_cells_def)
  then have "apart h m' (filter (\<lambda>(_, u). \<not> purgeable t u) s) held" using ap m'(2,4) by (auto simp: apart_def represents_def)
  then show ?thesis using m'(1) by (simp add: answers_def MemoryStore_def mem_PurgeDeletedBefore_def)
qed

lemma answers_call: "apart h m s held \<Longrightarrow> answers held (ptr_call parse c (h, m)) (value_call parse c s)"
proof (cases c)
  case (Change op)
  assume "apart h m s held"
  with Change show ?thesis
    by (cases op) (simp_all only: answers_Create answers_fields answers_SoftDelete answers_Purge)
qed (use answers_GetByID answers_GetByEmail in simp_all)

section \<open>Callers\<close>

inductive played :: "(string \<Rightarrow> bool) \<Rightarrow> store_call list \<Rightarrow> umem \<Rightarrow> by_id \<Rightarrow> nat set \<Rightarrow> bool" for parse where
  \<comment> \<open>the calls made so far, the memory, the map \<open>byID\<close>, and the cells that callers can reach\<close>
  new: "played parse [] h [] {..<length h}"
| call: "played parse cs h m held \<Longrightarrow> ptr_call parse c (h, m) = Some (out, h', m') \<Longrightarrow> played parse (cs @ [c]) h' m' (held \<union> handed h' out)"
| scribble: "played parse cs h m held \<Longrightarrow> a \<in> held \<Longrightarrow> played parse cs (h[a := x]) m held"
| allocate: "played parse cs h m held \<Longrightarrow> played parse cs (h @ [x]) m (insert (length h) held)"

definition value_run :: "(string \<Rightarrow> bool) \<Rightarrow> store_call list \<Rightarrow> mem_store" where
  "value_run parse cs = foldl (\<lambda>s c. snd (value_call parse c s)) NewMemoryStore cs"

lemma played_apart: "played parse cs h m held \<Longrightarrow> apart h m (value_run parse cs) held"
proof (induction rule: played.induct)
  case (new h)
  then show ?case by (simp add: apart_def represents_def store_cells_def value_run_def NewMemoryStore_def)
next
  case (call cs h m held c out h' m')
  then show ?case using answers_call[OF call.IH, of parse c] by (simp add: answers_def value_run_def)
next
  case (scribble cs h m held a x)
  then show ?case by (simp add: apart_scribble)
next
  case (allocate cs h m held x)
  then show ?case using apart_grows[OF allocate.IH, of "h @ [x]" "{length h}"] by simp
qed

text \<open>C19: callers cannot touch the accounts: after any calls of the store, between which its callers write whatever they like over every cell they were
  handed and allocate new ones, every further call returns without dereferencing nil, and what it answers is the answer of the map of values to which only the same
  calls were made; no cell that a caller reaches is one of the store.\<close>

theorem callers_cannot_touch_store:
  assumes "played parse cs h m held"
  shows "\<exists>out h' m'. ptr_call parse c (h, m) = Some (out, h', m') \<and> shown h' out = Some (fst (value_call parse c (value_run parse cs)))
    \<and> store_cells h' m' \<inter> (held \<union> handed h' out) = {}"
  using answers_call[OF played_apart[OF assms], of parse c] by (auto simp: answers_def apart_def)

definition first_signup :: store_call where
  "first_signup = Change (hd twin_signups)"

corollary callers_cannot_touch_store_witness:
  "\<exists>h m held. played (\<lambda>_. True) [first_signup] h m held \<and> h ! 1 = FreshCell
     \<and> (\<exists>out h' m'. ptr_call (\<lambda>_. True) (LookID ''u_1'') (h, m) = Some (out, h', m') \<and> shown h' out = Some (OUser (Inr first_twin)))"
proof -
  obtain h m where c: "ptr_call (\<lambda>_. True) first_signup ([], []) = Some (PUser (Inr (Some 1)), h, m)" "handed h (PUser (Inr (Some 1))) = {1}" "length h = 2"
  proof -
    let ?r = "ptr_call (\<lambda>_. True) first_signup ([], [])"
    have 1: "map_option fst ?r = Some (PUser (Inr (Some 1)))" unfolding first_signup_def twin_signups_def by code_simp
    have 2: "map_option (length \<circ> fst \<circ> snd) ?r = Some 2" unfolding first_signup_def twin_signups_def by code_simp
    have 3: "map_option (\<lambda>r. map_option (\<lambda>g. (gu_EmailVerifiedAt g, gu_DeletedAt g, gu_LastLoginAt g)) (at_row (fst (snd r)) (Some 1))) ?r
        = Some (Some (None, None, None))" unfolding first_signup_def twin_signups_def by code_simp
    from 1 obtain h m where r: "?r = Some (PUser (Inr (Some 1)), h, m)" by (auto simp: map_option_eq_Some)
    with 2 3 obtain g where "length h = 2" "at_row h (Some 1) = Some g" "(gu_EmailVerifiedAt g, gu_DeletedAt g, gu_LastLoginAt g) = (None, None, None)"
      by (auto simp: map_option_eq_Some)
    then have "handed h (PUser (Inr (Some 1))) = {1}" by (simp add: at_row_def ptr_reach_def user_reach_def pair_reach_def)
    with r \<open>length h = 2\<close> that show thesis by blast
  qed
  have "played (\<lambda>_. True) [first_signup] h m {1}"
    using played.call[OF played.new c(1)] c(2) by simp
  then have s: "played (\<lambda>_. True) [first_signup] (h[1 := FreshCell]) m {1}" by (rule played.scribble) simp
  have "fst (value_call (\<lambda>_. True) (LookID ''u_1'') (value_run (\<lambda>_. True) [first_signup])) = OUser (Inr first_twin)"
    unfolding first_signup_def twin_signups_def first_twin_def by code_simp
  with callers_cannot_touch_store[OF s, of "LookID ''u_1''"] s c(3) show ?thesis
    by (intro exI[of _ "h[1 := FreshCell]"] exI[of _ m] exI[of _ "{1}"]) auto
qed

end
