(* ===== verification/Spec2Isabelle.thy ===== *)
theory Spec2Isabelle
  imports UsersPg WorkspacePages BridgeSafety Composition Swarm Operator DeepCopy Billing StoreMemory
begin

text \<open>
  A model of the Go programs of the swarm repository and the theorems that make them correct.  The
  repository runs one AI assistant ("Kai") per customer in a Kubernetes cluster.  Its parts, each its own
  program or package, and the theories that model them:

  \<^item> The operator (\<open>operator/\<close>) turns every \<open>KaiInstance\<close> object into child objects: ConfigMaps, Secrets, a
    volume claim, a Deployment, a Service, a NetworkPolicy and an Ingress.  KaiTypes: the resource
    (\<open>api/v1alpha1\<close>).  Templates: identity templates and the configuration hash (\<open>templates.go\<close>).  Resources: the
    builders of the children (\<open>resources.go\<close>, \<open>secrets.go\<close>).  Quotas: tier ceilings and clamping
    (\<open>pkg/quotas\<close>).  Controller: \<open>Reconcile\<close> and its steps over a cluster whose every call may fail
    (\<open>kaiinstance_controller.go\<close>).  Convergence: what a successful reconcile achieves and that it
    achieves it.  Operator: the options \<open>main\<close> gives to the manager (\<open>cmd/main.go\<close>) and the control loop over the watches of
    \<open>SetupWithManager\<close>.  Memory and DeepCopy: the generated copies of the resource, over memory with pointers (\<open>zz_generated.deepcopy.go\<close>).
  \<^item> User accounts.  Slugs, UserID: identifiers (\<open>pkg/users/id.go\<close>, the slug rules of four modules).  Users: the store
    contract and \<open>MemoryStore\<close> (\<open>users.go\<close>, \<open>memory.go\<close>).  StoreMemory: the same store over memory with pointers, with \<open>cloneUser\<close>.  UsersPg: \<open>PoolStore\<close> over the SQL tables
    with failing round trips, and its refinement of \<open>MemoryStore\<close> (\<open>pkg/userspg\<close>).
  \<^item> Sessions.  Base64, Json: the encodings under a token.  Auth: token, cookie, passwords (\<open>pkg/auth/auth.go\<close>).
    Revocation: logout, in memory and in a Secret shared by replicas (\<open>revocation.go\<close>, \<open>pkg/authk8s\<close>).
  \<^item> The web servers (\<open>web/*/server\<close>).  Http: responses, request bodies, addresses, environment.  Cluster: the objects they
    read and write.  Email: rendering and sending (\<open>pkg/email\<close>).  Onboarding: signup, verification,
    provisioning, operator-side creation.  Workspace: login, users of a workspace.  WorkspaceView: its pages.  Chat:
    login and session of the chat server.  Bridge: its WebSocket bridge to the gateway of an assistant.  StatusPage:
    the public status page.  AdminConsole: suspend and resume.  Static: the files they hand out (\<open>brandingHandler\<close>,
    \<open>spaHandler\<close>).  Servers: what each \<open>main\<close> reads from its environment and which routes it registers.
  \<^item> Billing: the clients of two paid services, Stripe (\<open>pkg/stripe\<close>) with its global key, and OpenRouter (\<open>pkg/openrouter\<close>).
  \<^item> Composition: properties that need several of these programs.  Swarm: the whole installation as a step relation: requests to the five
    servers, reconciles of the operator, deletions and acts of others on one cluster.

  How they interact: onboarding creates an account and, once its address is verified, a \<open>KaiInstance\<close>; the
  operator makes its children, among them two Secrets (signing key, user list) and a Deployment with a gateway; the workspace
  server logs users in with the account or the user list and signs a cookie with that key; the chat server accepts the cookie and bridges the
  browser to the gateway; the admin console sets the suspended flag that the operator and the status page obey.

  Lemma groups.  Users and UsersPg: every operation keeps the invariant of its store, shares one contract
  (locale \<open>user_store\<close>, interpreted by both stores), and the SQL store refines the map.  Auth and Revocation: a token is accepted exactly for its slug, key and
  lifetime and never after its revocation (locale \<open>revoker\<close>); \<open>SecretRevoker\<close> is linearizable under concurrent writers.  Controller: the
  frame of every step; Convergence: its contract (goal reached on success, no change once reached), composed along
  the steps.  SignupSafety: rate limit over interleavings, uniform answers, provisioning within the tier.  WorkspaceSafety, WorkspaceUsers, WorkspacePages,
  ChatSafety: who gets a session, where it is accepted (locale \<open>session_gate\<close>), atomic updates, isolation of workspaces.
  BridgeSafety: an invariant, termination and the races of the bridge's two loops by rule induction over \<open>bridge_step\<close>.
  Operator: an invariant of the control loop over its work queue and the events of owned children.  Memory: the contract of a deep copy (locale
  \<open>deep_copier\<close>) holds for values, pointers, slices and structs made of them, so in DeepCopy for the resource and in StoreMemory for a user row, where the
  store with pointers refines the map of values whatever its callers write.  Billing: interleavings of
  concurrent calls that share the key; what is parsed is what the service encoded.
  Static: no path of a request leads out of the served trees.  ServersSafety: what any request to the workspace server may change, and that the insecure mode stays
  on the own machine.  Swarm: the names of a workspace agree between all programs in every reachable state.

  In Composition the workspace server logs in with the account store that onboarding filled, as in an overlay where both use one database; the programs as shipped
  each have a store of their own, and ServersSafety shows what follows (\<open>saas_login_needs_shared_store\<close>).

  Conventions.  A Go string is its list of bytes; case folding and trimming treat ASCII, the only bytes the
  callers compare.  \<open>int64\<close> values are integers with the bound written where it matters; the bytes of an identifier are
  machine words.  A Go time is its number of nanoseconds.  A returned error is a value of a datatype of the component, or \<open>None\<close> where
  the code treats all alike; log lines are left out.  JSON is parsed by recursion on fuel:
  every recursive call of the parser reads a byte or follows one that did, so \<open>2 * length s + 1\<close> is enough
  (lemma \<open>pv_fuel\<close>).  All other recursion is structural or has a termination proof.  Loops of retries (the \<open>Update\<close> of a Secret)
  run on the number of attempts the code makes.

  Parameters and inputs.  HMAC-SHA256, SHA-256, argon2id, quantity comparison, template
  execution, \<open>net/mail\<close> address parsing and IP parsing are arguments of the definitions that use them; what is needed of them is a
  hypothesis.  The clock, random bytes, the outcome of every API call, SQL round trip, write or mail, the frames of
  a WebSocket and the concurrent writers between a read and a write are inputs, so each theorem
  holds for all of them.  Handlers of one server are atomic steps where a mutex or the API server makes them so; the bridge's
  loops interleave freely, on the assumption that a frame of a WebSocket goes whole to one of its readers.

  Not modelled: opening files and sockets, making Kubernetes clients of a configuration (an input of
  Servers), the parsing of the operator's flags, controller-runtime itself (which events it hands on is a hypothesis, \<open>owner_handler\<close>) and the
  registration of the types with its scheme, the Stripe SDK and the verification of its webhooks, range and conditional requests for static
  files, test and end-to-end utilities (they run \<open>kubectl\<close> and \<open>kind\<close>), front ends in TypeScript, and the manifests under \<open>kubernetes\<close>, \<open>terraform\<close> and \<open>docker\<close>.
\<close>

end
